(* ===== verification/GoErrors.thy ===== *)
theory GoErrors
  imports Prelude
begin

section \<open>Go errors, panics and their classification\<close>

text \<open>
  A Go \<^verbatim>\<open>error\<close> is a chain: a concrete error, possibly inside layers of
  \<^verbatim>\<open>fmt.Errorf("...%w", err)\<close>. The program distinguishes errors by the concrete error at the
  end of the chain (\<^verbatim>\<open>errors.As\<close>, \<^verbatim>\<open>apierrors.IsNotFound\<close>, a type assertion on the outermost
  layer), so the chain is kept:
  \<^item> \<open>ErrText m\<close>: \<^verbatim>\<open>errors.New(m)\<close>, or \<^verbatim>\<open>fmt.Errorf\<close> without \<^verbatim>\<open>%w\<close>;
  \<^item> \<open>ErrWrap p e\<close>: \<^verbatim>\<open>fmt.Errorf(p + "%w", e)\<close>, or another error type with an \<^verbatim>\<open>Unwrap\<close> method
    whose text is \<open>p\<close> followed by the wrapped error's;
  \<^item> \<open>StatusErr reason code m\<close>: the Kubernetes client's \<^verbatim>\<open>*apierrors.StatusError\<close>;
  \<^item> \<open>GitLabErr status m\<close>: the GitLab client's \<^verbatim>\<open>*gitlab.ErrorResponse\<close>;
  \<^item> \<open>EventErr etype reason m\<close>: knative's \<^verbatim>\<open>*reconciler.ReconcilerEvent\<close>, its message rendered
    (the program only builds them with \<^verbatim>\<open>%s\<close>, so their \<^verbatim>\<open>As\<close> method unwraps to nothing);
  \<^item> \<open>SkipKeyErr key\<close>: knative's \<^verbatim>\<open>skipKeyError\<close>.
\<close>

datatype goerr =
    ErrText string
  | ErrWrap string goerr
  | StatusErr string int string
  | GitLabErr int string
  | EventErr string string string
  | SkipKeyErr string

text \<open>\<^verbatim>\<open>err.Error()\<close>.\<close>

fun err_text :: "goerr \<Rightarrow> string" where
  "err_text (ErrText m) = m"
| "err_text (ErrWrap p e) = p @ err_text e"
| "err_text (StatusErr _ _ m) = m"
| "err_text (GitLabErr _ m) = m"
| "err_text (EventErr _ _ m) = m"
| "err_text (SkipKeyErr k) = ''skipped key: '' @ quote k"

text \<open>
  The outcome of a function that returns \<^verbatim>\<open>(value, error)\<close> or \<^verbatim>\<open>error\<close> and may panic.
\<close>

datatype 'a result = Ok 'a | Err goerr | Panic string

text \<open>Indexing a slice, \<^verbatim>\<open>xs[i]\<close>.\<close>

definition index_slice :: "'a list \<Rightarrow> nat \<Rightarrow> 'a result" where
  "index_slice xs i =
     (if i < length xs then Ok (xs ! i) else Panic ''runtime error: index out of range'')"

definition is_panic :: "'a result \<Rightarrow> bool" where
  "is_panic r \<longleftrightarrow> (\<exists>m. r = Panic m)"

text \<open>
  \<^verbatim>\<open>errors.As(err, &target)\<close>: the first error of the chain that \<open>sel\<close> accepts.
\<close>

fun errors_as :: "(goerr \<Rightarrow> 'a option) \<Rightarrow> goerr \<Rightarrow> 'a option" where
  "errors_as sel e =
     (case sel e of
        Some x \<Rightarrow> Some x
      | None \<Rightarrow> (case e of ErrWrap _ e' \<Rightarrow> errors_as sel e' | _ \<Rightarrow> None))"

declare errors_as.simps [simp del]

fun sel_status :: "goerr \<Rightarrow> (string \<times> int) option" where
  "sel_status (StatusErr reason code _) = Some (reason, code)"
| "sel_status _ = None"

fun sel_gitlab :: "goerr \<Rightarrow> int option" where
  "sel_gitlab (GitLabErr status _) = Some status"
| "sel_gitlab _ = None"

fun sel_event :: "goerr \<Rightarrow> (string \<times> string \<times> string) option" where
  "sel_event (EventErr etype reason m) = Some (etype, reason, m)"
| "sel_event _ = None"

fun sel_skip :: "goerr \<Rightarrow> unit option" where
  "sel_skip (SkipKeyErr _) = Some ()"
| "sel_skip _ = None"

text \<open>\<^verbatim>\<open>knownReasons\<close> of \<^verbatim>\<open>k8s.io/apimachinery/pkg/api/errors\<close>.\<close>

definition known_reasons :: "string list" where
  "known_reasons =
     [''Unauthorized'', ''Forbidden'', ''NotFound'', ''AlreadyExists'', ''Conflict'', ''Gone'',
      ''Invalid'', ''ServerTimeout'', ''StorageReadError'', ''Timeout'', ''TooManyRequests'',
      ''BadRequest'', ''MethodNotAllowed'', ''NotAcceptable'', ''RequestEntityTooLarge'',
      ''UnsupportedMediaType'', ''InternalError'', ''Expired'', ''ServiceUnavailable'']"

definition reason_and_code :: "goerr option \<Rightarrow> string \<times> int" where
  "reason_and_code err =
     (case err of
        None \<Rightarrow> ('''', 0)
      | Some e \<Rightarrow> (case errors_as sel_status e of Some rc \<Rightarrow> rc | None \<Rightarrow> ('''', 0)))"

definition has_reason_or_code :: "string \<Rightarrow> int \<Rightarrow> goerr option \<Rightarrow> bool" where
  "has_reason_or_code reason code err =
     (let (r, c) = reason_and_code err
      in r = reason \<or> (r \<notin> set known_reasons \<and> c = code))"

definition is_not_found :: "goerr option \<Rightarrow> bool" where
  "is_not_found = has_reason_or_code ''NotFound'' 404"

definition is_conflict :: "goerr option \<Rightarrow> bool" where
  "is_conflict = has_reason_or_code ''Conflict'' 409"

definition is_skip_key :: "goerr \<Rightarrow> bool" where
  "is_skip_key e \<longleftrightarrow> errors_as sel_skip e \<noteq> None"

definition not_found_error :: "string \<Rightarrow> string \<Rightarrow> goerr" where
  "not_found_error resource name =
     StatusErr ''NotFound'' 404 (resource @ '' '' @ quote name @ '' not found'')"

subsection \<open>The GitLab client's errors\<close>

text \<open>
  \<^verbatim>\<open>gitlab.CheckResponse\<close> of the vendored client turns the status code of a response into an
  error. Status 404 has an error value of its own, a plain \<^verbatim>\<open>errors.New\<close>; the other failures
  are \<^verbatim>\<open>*ErrorResponse\<close> values.
\<close>

definition gitlab_ErrNotFound :: goerr where
  "gitlab_ErrNotFound = ErrText ''404 Not Found''"

definition check_response :: "int \<Rightarrow> string \<Rightarrow> goerr option" where
  "check_response status m =
     (if status \<in> {200, 201, 202, 204, 304} then None
      else if status = 404 then Some gitlab_ErrNotFound
      else Some (GitLabErr status m))"

subsection \<open>Evaluation of error chains\<close>

lemma errors_as_wrap [err_simps]:
  "sel (ErrWrap p e) = None \<Longrightarrow> errors_as sel (ErrWrap p e) = errors_as sel e"
  by (subst errors_as.simps) simp

lemma errors_as_hit [err_simps]: "sel e = Some x \<Longrightarrow> errors_as sel e = Some x"
  by (subst errors_as.simps) simp

lemma errors_as_leaf [err_simps]:
  "sel (ErrText m) = None \<Longrightarrow> errors_as sel (ErrText m) = None"
  "sel (StatusErr a b m) = None \<Longrightarrow> errors_as sel (StatusErr a b m) = None"
  "sel (GitLabErr c m) = None \<Longrightarrow> errors_as sel (GitLabErr c m) = None"
  "sel (EventErr r s m) = None \<Longrightarrow> errors_as sel (EventErr r s m) = None"
  "sel (SkipKeyErr k) = None \<Longrightarrow> errors_as sel (SkipKeyErr k) = None"
  by (subst errors_as.simps, simp)+

lemma errors_as_status_wrap [simp]: "errors_as sel_status (ErrWrap p e) = errors_as sel_status e"
  and errors_as_gitlab_wrap [simp]: "errors_as sel_gitlab (ErrWrap p e) = errors_as sel_gitlab e"
  and errors_as_event_wrap [simp]: "errors_as sel_event (ErrWrap p e) = errors_as sel_event e"
  and errors_as_skip_wrap [simp]: "errors_as sel_skip (ErrWrap p e) = errors_as sel_skip e"
  by (simp_all add: err_simps)

text \<open>Wrapping an error with \<^verbatim>\<open>%w\<close> keeps its classification.\<close>

lemma is_not_found_wrap [simp]: "is_not_found (Some (ErrWrap p e)) = is_not_found (Some e)"
  and is_conflict_wrap [simp]: "is_conflict (Some (ErrWrap p e)) = is_conflict (Some e)"
  and is_skip_key_wrap [simp]: "is_skip_key (ErrWrap p e) = is_skip_key e"
  by (simp_all add: is_not_found_def is_conflict_def is_skip_key_def has_reason_or_code_def
      reason_and_code_def)

lemma is_not_found_none [simp]: "\<not> is_not_found None"
  by (simp add: is_not_found_def has_reason_or_code_def reason_and_code_def)

lemma is_not_found_leaf [simp]:
  "\<not> is_not_found (Some (ErrText m))"
  "\<not> is_not_found (Some (GitLabErr c m))"
  "\<not> is_not_found (Some (EventErr t r m))"
  "\<not> is_not_found (Some (SkipKeyErr k))"
  by (simp_all add: is_not_found_def has_reason_or_code_def reason_and_code_def err_simps)

lemma is_not_found_error [simp]: "is_not_found (Some (not_found_error res n))"
  by (simp add: is_not_found_def has_reason_or_code_def reason_and_code_def err_simps
      not_found_error_def)

lemma is_not_found_status [simp]:
  "is_not_found (Some (StatusErr r c m)) \<longleftrightarrow>
     r = ''NotFound'' \<or> (r \<notin> set known_reasons \<and> c = 404)"
  by (simp add: is_not_found_def has_reason_or_code_def reason_and_code_def err_simps)

lemma check_response_ok [simp]:
  "check_response s m = None \<longleftrightarrow> s \<in> {200, 201, 202, 204, 304}"
  by (simp add: check_response_def)

lemma check_response_404 [simp]: "check_response 404 m = Some gitlab_ErrNotFound"
  by (simp add: check_response_def)

text \<open>
  No error of \<open>check_response\<close> is an \<^verbatim>\<open>*ErrorResponse\<close> with status 404: the client never
  reports a missing object that way.
\<close>

lemma check_response_never_404:
  "check_response s m = Some e \<Longrightarrow> errors_as sel_gitlab e \<noteq> Some 404"
  by (auto simp: check_response_def gitlab_ErrNotFound_def err_simps split: if_splits)

end
