(* ===== verification/NetUrl.thy ===== *)
theory NetUrl
  imports GoErrors
begin

section \<open>URL parsing: the part of net/url the program relies on\<close>

text \<open>
  \<^verbatim>\<open>url.Parse\<close> of Go's standard library, as far as its error and the components of the URL
  show. The syntax check of the authority (user information, host, port) never changes the
  path, so it is a parameter \<open>auth\<close>, which returns the error of \<^verbatim>\<open>parseAuthority\<close>, if any.
\<close>

record parsed_url =
  pu_scheme :: string
  pu_opaque :: string
  pu_authority :: string
  pu_path :: string
  pu_query :: string

definition empty_url :: parsed_url where
  "empty_url = \<lparr>pu_scheme = [], pu_opaque = [], pu_authority = [], pu_path = [], pu_query = []\<rparr>"

subsection \<open>Helpers\<close>

text \<open>\<^verbatim>\<open>strings.Cut(s, sep)\<close> for a separator of one byte; the third component is \<^verbatim>\<open>found\<close>.\<close>

fun cut :: "char \<Rightarrow> string \<Rightarrow> string \<times> string \<times> bool" where
  "cut sep [] = ([], [], False)"
| "cut sep (c # s) =
     (if c = sep then ([], s, True)
      else let (before, rest, found) = cut sep s in (c # before, rest, found))"

definition is_ctl :: "char \<Rightarrow> bool" where
  "is_ctl c \<longleftrightarrow> byte c < 32 \<or> byte c = 127"

definition is_letter :: "char \<Rightarrow> bool" where
  "is_letter c \<longleftrightarrow> (97 \<le> byte c \<and> byte c \<le> 122) \<or> (65 \<le> byte c \<and> byte c \<le> 90)"

definition is_scheme_tail :: "char \<Rightarrow> bool" where
  "is_scheme_tail c \<longleftrightarrow>
     (48 \<le> byte c \<and> byte c \<le> 57) \<or> c = CHR ''+'' \<or> c = CHR ''-'' \<or> c = CHR ''.''"

text \<open>
  \<^verbatim>\<open>getScheme\<close>: the loop over the bytes, \<open>seen\<close> the bytes before the current one (in order)
  and \<open>raw\<close> the whole URL.
\<close>

fun get_scheme_loop :: "string \<Rightarrow> string \<Rightarrow> string \<Rightarrow> goerr + string \<times> string" where
  "get_scheme_loop raw seen [] = Inr ([], raw)"
| "get_scheme_loop raw seen (c # s) =
     (if is_letter c then get_scheme_loop raw (seen @ [c]) s
      else if is_scheme_tail c then
        (if seen = [] then Inr ([], raw) else get_scheme_loop raw (seen @ [c]) s)
      else if c = CHR '':'' then
        (if seen = [] then Inl (ErrText ''missing protocol scheme'') else Inr (seen, s))
      else Inr ([], raw))"

definition get_scheme :: "string \<Rightarrow> goerr + string \<times> string" where
  "get_scheme raw = get_scheme_loop raw [] raw"

text \<open>\<^verbatim>\<open>unescape\<close> in the modes for paths and fragments.\<close>

definition hex_value :: "char \<Rightarrow> nat option" where
  "hex_value c =
     (if 48 \<le> byte c \<and> byte c \<le> 57 then Some (byte c - 48)
      else if 97 \<le> byte c \<and> byte c \<le> 102 then Some (byte c - 87)
      else if 65 \<le> byte c \<and> byte c \<le> 70 then Some (byte c - 55)
      else None)"

definition escape_error :: "string \<Rightarrow> goerr" where
  "escape_error s = ErrText (''invalid URL escape '' @ quote (take 3 s))"

fun unescape :: "string \<Rightarrow> goerr + string" where
  "unescape [] = Inr []"
| "unescape (c # s) =
     (if c = CHR ''%'' then
        (case s of
           a # b # s' \<Rightarrow>
             (case (hex_value a, hex_value b) of
                (Some x, Some y) \<Rightarrow>
                  (case unescape s' of
                     Inl e \<Rightarrow> Inl e
                   | Inr t \<Rightarrow> Inr (char_of (16 * x + y) # t))
              | _ \<Rightarrow> Inl (escape_error (c # s)))
         | _ \<Rightarrow> Inl (escape_error (c # s)))
      else (case unescape s of Inl e \<Rightarrow> Inl e | Inr t \<Rightarrow> Inr (c # t)))"

subsection \<open>Parse\<close>

definition split_query :: "string \<Rightarrow> string \<times> string" where
  "split_query rest =
     (if has_suffix rest ''?'' \<and> count_list rest (CHR ''?'') = 1
      then (take (length rest - 1) rest, [])
      else let (before, q, _) = cut (CHR ''?'') rest in (before, q))"

definition split_authority :: "string \<Rightarrow> string \<times> string" where
  "split_authority a = (takeWhile (\<lambda>c. c \<noteq> CHR ''/'') a, dropWhile (\<lambda>c. c \<noteq> CHR ''/'') a)"

definition parse_hier :: "(string \<Rightarrow> goerr option) \<Rightarrow> parsed_url \<Rightarrow> string \<Rightarrow> goerr + parsed_url" where
  "parse_hier auth u rest =
     (let (authority, path) =
        (if (pu_scheme u \<noteq> [] \<or> \<not> has_prefix rest ''///'') \<and> has_prefix rest ''//''
         then split_authority (drop 2 rest) else ([], rest));
          checked = (if (pu_scheme u \<noteq> [] \<or> \<not> has_prefix rest ''///'') \<and> has_prefix rest ''//''
                     then auth authority else None)
      in case checked of
           Some e \<Rightarrow> Inl e
         | None \<Rightarrow>
             (case unescape path of
                Inl e \<Rightarrow> Inl e
              | Inr p \<Rightarrow> Inr (u\<lparr>pu_authority := authority, pu_path := p\<rparr>)))"

definition parse_no_frag :: "(string \<Rightarrow> goerr option) \<Rightarrow> string \<Rightarrow> goerr + parsed_url" where
  "parse_no_frag auth raw =
     (if list_ex is_ctl raw then Inl (ErrText ''net/url: invalid control character in URL'')
      else if raw = ''*'' then Inr (empty_url\<lparr>pu_path := ''*''\<rparr>)
      else case get_scheme raw of
        Inl e \<Rightarrow> Inl e
      | Inr (scheme, rest0) \<Rightarrow>
          (let (rest, query) = split_query rest0;
               u = empty_url\<lparr>pu_scheme := to_lower scheme, pu_query := query\<rparr>
           in if \<not> has_prefix rest ''/'' \<and> scheme \<noteq> [] then Inr (u\<lparr>pu_opaque := rest\<rparr>)
              else if \<not> has_prefix rest ''/'' \<and>
                      CHR '':'' \<in> set (takeWhile (\<lambda>c. c \<noteq> CHR ''/'') rest)
              then Inl (ErrText ''first path segment in URL cannot contain colon'')
              else parse_hier auth u rest))"

definition url_parse :: "(string \<Rightarrow> goerr option) \<Rightarrow> string \<Rightarrow> goerr + parsed_url" where
  "url_parse auth raw =
     (let (u, frag, _) = cut (CHR ''#'') raw
      in case parse_no_frag auth u of
           Inl e \<Rightarrow> Inl (ErrWrap (''parse '' @ quote u @ '': '') e)
         | Inr url \<Rightarrow>
             if frag = [] then Inr url
             else (case unescape frag of
                     Inl e \<Rightarrow> Inl (ErrWrap (''parse '' @ quote raw @ '': '') e)
                   | Inr _ \<Rightarrow> Inr url))"


subsection \<open>Facts\<close>

lemma unescape_plain: "CHR ''%'' \<notin> set s \<Longrightarrow> unescape s = Inr s"
  by (induction s) auto

lemma cut_absent: "sep \<notin> set s \<Longrightarrow> cut sep s = (s, [], False)"
  by (induction s) auto

lemma cut_first: "sep \<notin> set a \<Longrightarrow> cut sep (a @ sep # b) = (a, b, True)"
  by (induction a) auto

lemma get_scheme_loop_letters:
  "list_all is_letter t \<Longrightarrow> seen @ t \<noteq> [] \<Longrightarrow>
   get_scheme_loop raw seen (t @ CHR '':'' # rest) = Inr (seen @ t, rest)"
proof (induction t arbitrary: seen)
  case Nil
  then show ?case by (simp add: is_letter_def is_scheme_tail_def byte_def)
qed simp

lemma get_scheme_letters:
  "list_all is_letter t \<Longrightarrow> t \<noteq> [] \<Longrightarrow> get_scheme (t @ CHR '':'' # rest) = Inr (t, rest)"
  using get_scheme_loop_letters [of t "[]"] by (simp add: get_scheme_def)

lemma split_query_absent: "CHR ''?'' \<notin> set s \<Longrightarrow> split_query s = (s, [])"
  by (auto simp: split_query_def has_suffix_iff cut_absent)

lemma split_authority_path:
  "CHR ''/'' \<notin> set a \<Longrightarrow> split_authority (a @ CHR ''/'' # p) = (a, CHR ''/'' # p)"
proof -
  assume "CHR ''/'' \<notin> set a"
  then have "\<forall>c \<in> set a. c \<noteq> CHR ''/''" by auto
  then show ?thesis by (simp add: split_authority_def)
qed

text \<open>
  The shape of a plain web URL: a scheme of letters, an authority without a slash, a path that is empty or
  starts with a slash, no control character, fragment, query or percent sign.
\<close>

definition web_url :: "string \<Rightarrow> string \<Rightarrow> string \<Rightarrow> bool" where
  "web_url scheme authority path \<longleftrightarrow>
     scheme \<noteq> [] \<and> list_all is_letter scheme \<and> CHR ''/'' \<notin> set authority \<and>
     (path \<noteq> [] \<longrightarrow> has_prefix path ''/'') \<and>
     list_all (\<lambda>c. \<not> is_ctl c \<and> c \<noteq> CHR ''#'' \<and> c \<noteq> CHR ''?'' \<and> c \<noteq> CHR ''%'')
       (scheme @ authority @ path)"

definition plain_web_url :: "string \<Rightarrow> string \<Rightarrow> string \<Rightarrow> bool" where
  "plain_web_url scheme authority path \<longleftrightarrow> web_url scheme authority path \<and> path \<noteq> []"

lemma url_parse_web_url:
  assumes "web_url scheme authority path" and "auth authority = None"
  shows "url_parse auth (scheme @ ''://'' @ authority @ path) =
    Inr \<lparr>pu_scheme = to_lower scheme, pu_opaque = [], pu_authority = authority,
         pu_path = path, pu_query = []\<rparr>"
proof -
  let ?raw = "scheme @ ''://'' @ authority @ path"
  from assms(1) have path: "path \<noteq> [] \<longrightarrow> has_prefix path ''/''"
    and sch: "scheme \<noteq> []" "list_all is_letter scheme" and au: "CHR ''/'' \<notin> set authority"
    and ok: "\<forall>c \<in> set (scheme @ authority @ path).
      \<not> is_ctl c \<and> c \<noteq> CHR ''#'' \<and> c \<noteq> CHR ''?'' \<and> c \<noteq> CHR ''%''"
    by (auto simp: web_url_def list_all_iff)
  have sep: "c \<in> set ''://'' \<Longrightarrow> \<not> is_ctl c \<and> c \<noteq> CHR ''#'' \<and> c \<noteq> CHR ''?''" for c
    by (auto simp: is_ctl_def byte_def)
  have raw_ok: "\<forall>c \<in> set ?raw. \<not> is_ctl c \<and> c \<noteq> CHR ''#''"
    using ok sep by auto
  have ctl: "\<not> list_ex is_ctl ?raw" using raw_ok by (auto simp: list_ex_iff)
  have frag: "cut (CHR ''#'') ?raw = (?raw, [], False)"
    using raw_ok by (intro cut_absent) auto
  have star: "?raw \<noteq> ''*''" using sch(1) by (cases scheme) auto
  have sc: "get_scheme ?raw = Inr (scheme, ''//'' @ authority @ path)"
    using get_scheme_letters [OF sch(2,1), of "''//'' @ authority @ path"] by simp
  have q: "split_query (''//'' @ authority @ path) = (''//'' @ authority @ path, [])"
    by (rule split_query_absent) (use ok in auto)
  have low: "to_lower scheme \<noteq> []" using sch(1) by simp
  have hier: "parse_hier auth (empty_url\<lparr>pu_scheme := to_lower scheme, pu_query := []\<rparr>)
      (''//'' @ authority @ path) =
    Inr \<lparr>pu_scheme = to_lower scheme, pu_opaque = [], pu_authority = authority,
         pu_path = path, pu_query = []\<rparr>"
  proof -
    have "CHR ''%'' \<notin> set path" using ok by auto
    then have un: "unescape path = Inr path" by (rule unescape_plain)
    have "split_authority (authority @ path) = (authority, path)"
    proof (cases path)
      case Nil
      have "\<forall>c \<in> set authority. c \<noteq> CHR ''/''" using au by auto
      with Nil show ?thesis by (simp add: split_authority_def)
    next
      case (Cons c p)
      with path have "c = CHR ''/''" by (simp add: has_prefix_def)
      with Cons split_authority_path [OF au, of p] show ?thesis by simp
    qed
    with un show ?thesis
      using low assms(2) by (simp add: parse_hier_def has_prefix_def empty_url_def)
  qed
  have "parse_no_frag auth ?raw =
    Inr \<lparr>pu_scheme = to_lower scheme, pu_opaque = [], pu_authority = authority,
         pu_path = path, pu_query = []\<rparr>"
    unfolding parse_no_frag_def using ctl star sc q hier
    by (simp add: has_prefix_def del: append_Cons append_assoc)
  then show ?thesis by (simp only: url_parse_def frag Let_def split) simp
qed

lemma url_parse_web:
  "plain_web_url scheme authority path \<Longrightarrow> auth authority = None \<Longrightarrow>
   url_parse auth (scheme @ ''://'' @ authority @ path) =
    Inr \<lparr>pu_scheme = to_lower scheme, pu_opaque = [], pu_authority = authority,
         pu_path = path, pu_query = []\<rparr>"
  by (rule url_parse_web_url) (simp_all add: plain_web_url_def)

end
