(* ===== verification/ApiTypes.thy ===== *)
theory ApiTypes
  imports NetUrl
begin

section \<open>API types\<close>

text \<open>
  The objects the controller reads and writes: the custom resource \<^verbatim>\<open>GitLabSource\<close>
  (\<^verbatim>\<open>pkg/apis/sources/v1alpha1/gitlabsource_types.go\<close>) with the duck types it embeds, the Knative
  Service of its receive adapter, Kubernetes Secrets and the options of a GitLab project hook.
  A Go pointer is an \<open>option\<close>; an \<^verbatim>\<open>apis.URL\<close> is represented by its \<^verbatim>\<open>String()\<close>. Fields that
  no code of the repository reads or writes are left out.
\<close>

type_synonym url = string

text \<open>\<^verbatim>\<open>(*apis.URL).String()\<close>: a nil URL prints as the empty string.\<close>

definition url_string :: "url option \<Rightarrow> string" where
  "url_string u = (case u of None \<Rightarrow> [] | Some s \<Rightarrow> s)"

subsection \<open>Object metadata\<close>

record owner_reference =
  or_api_version :: string
  or_kind :: string
  or_name :: string
  or_uid :: string
  or_controller :: "bool option"
  or_block_owner_deletion :: "bool option"

record object_meta =
  om_name :: string
  om_generate_name :: string
  om_namespace :: string
  om_uid :: string
  om_resource_version :: string
  om_generation :: int
  om_deleted :: bool \<comment> \<open>the deletion timestamp is set\<close>
  om_finalizers :: "string list"
  om_labels :: "(string \<times> string) list"
  om_owner_references :: "owner_reference list"

subsection \<open>Conditions\<close>

datatype cond_status = CTrue | CFalse | CUnknown

datatype cond_severity = SevError | SevWarning | SevInfo

record condition =
  cond_type :: string
  cond_status :: cond_status
  cond_severity :: cond_severity
  cond_time :: int
  cond_reason :: string
  cond_message :: string

subsection \<open>GitLabSource\<close>

record secret_key_selector =
  sks_name :: string
  sks_key :: string

record kreference =
  kr_kind :: string
  kr_namespace :: string
  kr_name :: string
  kr_api_version :: string

record destination =
  dest_ref :: "kreference option"
  dest_uri :: "url option"

record ce_attribute =
  ce_attr_type :: string
  ce_attr_source :: string

record source_spec =
  spec_sink :: destination
  spec_ce_overrides :: "(string \<times> string) list option"
  spec_service_account :: string
  spec_project_url :: string
  spec_event_types :: "string list"
  spec_access_token :: "secret_key_selector option"
  spec_secret_token :: "secret_key_selector option"
  spec_ssl_verify :: bool

record source_status =
  st_observed_generation :: int
  st_conditions :: "condition list"
  st_sink_uri :: "url option"
  st_ce_attributes :: "ce_attribute list"
  st_webhook_id :: "int option"

record gitlab_source =
  src_meta :: object_meta
  src_spec :: source_spec
  src_status :: source_status

subsection \<open>The receive adapter's Knative Service\<close>

text \<open>
  \<open>ev_value_from = Some r\<close> is a non-nil \<^verbatim>\<open>ValueFrom\<close> whose \<^verbatim>\<open>SecretKeyRef\<close> is the pointer \<open>r\<close>.
\<close>

record env_var =
  ev_name :: string
  ev_value :: string
  ev_value_from :: "secret_key_selector option option"

record kservice =
  ks_meta :: object_meta
  ks_service_account :: string
  ks_image :: string
  ks_env :: "env_var list"
  ks_observed_generation :: int
  ks_conditions :: "condition list"
  ks_url :: "url option"

type_synonym secret_data = "(string \<times> string) list"

subsection \<open>GitLab project hooks\<close>

text \<open>
  \<^verbatim>\<open>gitlab.AddProjectHookOptions\<close> and \<^verbatim>\<open>gitlab.EditProjectHookOptions\<close> have the same fields; a nil
  pointer is left out of the request.
\<close>

record hook_options =
  ho_url :: "string option"
  ho_ssl_verification :: "bool option"
  ho_token :: "string option"
  ho_confidential_issues :: "bool option"
  ho_confidential_note :: "bool option"
  ho_deployment :: "bool option"
  ho_issues :: "bool option"
  ho_job :: "bool option"
  ho_merge_requests :: "bool option"
  ho_note :: "bool option"
  ho_pipeline :: "bool option"
  ho_push :: "bool option"
  ho_tag_push :: "bool option"
  ho_wiki_page :: "bool option"

text \<open>A \<^verbatim>\<open>gitlab.Client\<close>: the API's base URL and the private token it authenticates with.\<close>

record gl_client =
  gl_base_url :: parsed_url
  gl_token :: string

datatype gl_request =
    GlGetHook gl_client string int
  | GlAddHook gl_client string hook_options
  | GlEditHook gl_client string int hook_options
  | GlDeleteHook gl_client string int

text \<open>
  What comes back for one request: no usable response, with the text of the client's error, or a
  status code, the text of an error response and the identifier of the hook in the body.
\<close>

datatype gl_response =
    GlFailed string
  | GlResponse int string int

end
