(* ===== verification/World.thy ===== *)
theory World
  imports ApiTypes
begin

section \<open>The environment of the controller\<close>

text \<open>
  Everything the controller asks of the outside is a \<open>request\<close>: a reading of the clock, a call
  to the Kubernetes API, to the sink resolver, to the event recorder or to GitLab. The
  environment \<open>env\<close> answers each request from the requests made before it (the \<open>history\<close>, oldest
  first), so one \<open>env\<close> is one deterministic outside world and a theorem about every \<open>env\<close> is a
  theorem about every behaviour of the outside. An operation of the controller takes the
  history and returns it extended: the extension is the exact sequence of its effects.
\<close>

text \<open>
  What a finalizer update sends to the API server, by merge patch (the finalizers with the
  resource version they were computed from) or by server-side apply (the finalizers owned by
  the field manager, the object's UID, the field manager and the force flag).
\<close>

datatype finalizer_patch =
    MergePatch "string list" string
  | ApplyPatch "string list" string string bool

datatype request =
    Now
  | ResolveSink destination string string
  | ListServices string
  | CreateService string kservice
  | GetSecret string string
  | GitLab gl_request
  | RecordEvent string string string
  | ListerGet string string
  | GetSource string string
  | UpdateStatus gitlab_source
  | PatchFinalizers string string finalizer_patch

type_synonym history = "request list"

text \<open>
  The answers. \<open>e_auth\<close> is the syntax check of a URL's authority (net/url's \<^verbatim>\<open>parseAuthority\<close>)
  and \<open>e_config_env\<close> the environment variables of \<^verbatim>\<open>configs.ToEnvVars()\<close>.
\<close>

record env =
  e_now :: "history \<Rightarrow> int"
  e_resolve_sink :: "history \<Rightarrow> destination \<Rightarrow> goerr + url option"
  e_list_services :: "history \<Rightarrow> string \<Rightarrow> goerr + kservice list"
  e_create_service :: "history \<Rightarrow> string \<Rightarrow> kservice \<Rightarrow> goerr + kservice"
  e_get_secret :: "history \<Rightarrow> string \<Rightarrow> string \<Rightarrow> goerr + secret_data"
  e_gitlab :: "history \<Rightarrow> gl_request \<Rightarrow> gl_response"
  e_lister_get :: "history \<Rightarrow> string \<Rightarrow> string \<Rightarrow> goerr + gitlab_source"
  e_get_source :: "history \<Rightarrow> string \<Rightarrow> string \<Rightarrow> goerr + gitlab_source"
  e_update_status :: "history \<Rightarrow> gitlab_source \<Rightarrow> goerr option"
  e_patch_finalizers ::
    "history \<Rightarrow> string \<Rightarrow> string \<Rightarrow> finalizer_patch \<Rightarrow> goerr + gitlab_source"
  e_auth :: "string \<Rightarrow> goerr option"
  e_config_env :: "env_var list"

definition ask :: "(history \<Rightarrow> 'a) \<Rightarrow> request \<Rightarrow> history \<Rightarrow> 'a \<times> history" where
  "ask answer r h = (answer h, h @ [r])"

definition time_now :: "env \<Rightarrow> history \<Rightarrow> int \<times> history" where
  "time_now en = ask (e_now en) Now"

definition record_event :: "string \<Rightarrow> string \<Rightarrow> string \<Rightarrow> history \<Rightarrow> history" where
  "record_event etype reason msg h = h @ [RecordEvent etype reason msg]"

subsection \<open>Projections of a history\<close>

fun gitlab_request :: "request \<Rightarrow> gl_request option" where
  "gitlab_request (GitLab q) = Some q"
| "gitlab_request _ = None"

definition gitlab_calls :: "history \<Rightarrow> gl_request list" where
  "gitlab_calls h = List.map_filter gitlab_request h"

fun is_create_service :: "request \<Rightarrow> bool" where
  "is_create_service (CreateService _ _) = True"
| "is_create_service _ = False"

fun is_clock :: "request \<Rightarrow> bool" where
  "is_clock Now = True"
| "is_clock _ = False"

text \<open>
  \<open>ticks_only h h'\<close>: between \<open>h\<close> and \<open>h'\<close> there were readings of the clock and nothing else.
\<close>

definition ticks_only :: "history \<Rightarrow> history \<Rightarrow> bool" where
  "ticks_only h h' \<longleftrightarrow> (\<exists>n. h' = h @ replicate n Now)"

lemma ask_simps [simp]:
  "fst (ask f r h) = f h" "snd (ask f r h) = h @ [r]"
  by (simp_all add: ask_def)

lemma gitlab_calls_simps [simp]:
  "gitlab_calls [] = []"
  "gitlab_calls (h @ h') = gitlab_calls h @ gitlab_calls h'"
  "gitlab_calls (GitLab q # h) = q # gitlab_calls h"
  by (simp_all add: gitlab_calls_def List.map_filter_def)

lemma gitlab_calls_other [simp]:
  "gitlab_request r = None \<Longrightarrow> gitlab_calls (r # h) = gitlab_calls h"
  by (simp add: gitlab_calls_def map_filter_simps)

lemma gitlab_calls_replicate [simp]: "gitlab_calls (replicate n Now) = []"
  by (induction n) auto

lemma ticks_only_refl [simp, intro]: "ticks_only h h"
  by (auto simp: ticks_only_def intro: exI [of _ 0])

lemma ticks_only_now [simp, intro]: "ticks_only h (h @ [Now])"
  by (auto simp: ticks_only_def intro: exI [of _ "Suc 0"])

lemma ticks_only_trans [trans]: "ticks_only h h' \<Longrightarrow> ticks_only h' h'' \<Longrightarrow> ticks_only h h''"
  by (auto simp: ticks_only_def replicate_add [symmetric])

lemma ticks_only_gitlab: "ticks_only h h' \<Longrightarrow> gitlab_calls h' = gitlab_calls h"
  by (auto simp: ticks_only_def)

lemma ticks_only_record [simp]: "snd (time_now en h) = h @ [Now]"
  by (simp add: time_now_def)

text \<open>
  \<open>extends P h h'\<close>: the history grew by requests that satisfy \<open>P\<close>.
\<close>

definition extends :: "(request \<Rightarrow> bool) \<Rightarrow> history \<Rightarrow> history \<Rightarrow> bool" where
  "extends P h h' \<longleftrightarrow> (\<exists>e. h' = h @ e \<and> list_all P e)"

lemma extends_refl [simp, intro]: "extends P h h"
  by (auto simp: extends_def)

lemma extends_snoc [simp]: "extends P h (h @ [r]) = P r"
  by (auto simp: extends_def)

lemma extends_trans [trans]: "extends P h h' \<Longrightarrow> extends P h' h'' \<Longrightarrow> extends P h h''"
  by (auto simp: extends_def)

lemma extends_mono: "extends P h h' \<Longrightarrow> (\<And>r. P r \<Longrightarrow> Q r) \<Longrightarrow> extends Q h h'"
  by (auto simp: extends_def list_all_iff)

lemma extends_ticks: "ticks_only h h' \<Longrightarrow> P Now \<Longrightarrow> extends P h h'"
  by (auto simp: extends_def ticks_only_def list_all_iff)

lemma extends_filter: "extends (\<lambda>r. \<not> Q r) h h' \<Longrightarrow> filter Q h' = filter Q h"
  by (auto simp: extends_def list_all_iff filter_empty_conv)

end
