(* ===== verification/Conditions.thy ===== *)
theory Conditions
  imports World
begin

section \<open>The condition manager\<close>

text \<open>
  Knative's \<^verbatim>\<open>apis.ConditionSet\<close> and the manager it returns
  (\<^verbatim>\<open>vendor/knative.dev/pkg/apis/condition_set.go\<close>): the component through which a source and a
  binding record what they observed. The manager works on the condition list of a status and
  reads the clock when it stores a condition, so an operation maps a pair of a condition list
  and a history to such a pair. Sorting by type or by time is Go's \<^verbatim>\<open>sort.Slice\<close>, which is an
  insertion sort, hence stable, on lists of up to twelve conditions.
\<close>

record condition_set =
  cs_happy :: string
  cs_dependents :: "string list"

type_synonym mstate = "condition list \<times> history"

fun add_dependents :: "string \<Rightarrow> string list \<Rightarrow> string list \<Rightarrow> string list" where
  "add_dependents happy deps [] = deps"
| "add_dependents happy deps (d # ds) =
     (if d = happy \<or> d \<in> set deps then add_dependents happy deps ds
      else add_dependents happy (deps @ [d]) ds)"

definition new_condition_set :: "string \<Rightarrow> string list \<Rightarrow> condition_set" where
  "new_condition_set happy ds =
     \<lparr>cs_happy = happy, cs_dependents = add_dependents happy [] ds\<rparr>"

definition condition_ready :: string where
  "condition_ready = ''Ready''"

definition new_living_condition_set :: "string list \<Rightarrow> condition_set" where
  "new_living_condition_set ds = new_condition_set condition_ready ds"

subsection \<open>Reading conditions\<close>

definition get_condition :: "string \<Rightarrow> condition list \<Rightarrow> condition option" where
  "get_condition t cs = find (\<lambda>c. cond_type c = t) cs"

definition is_true :: "condition option \<Rightarrow> bool" where
  "is_true c = (case c of None \<Rightarrow> False | Some c \<Rightarrow> cond_status c = CTrue)"

definition is_false :: "condition option \<Rightarrow> bool" where
  "is_false c = (case c of None \<Rightarrow> False | Some c \<Rightarrow> cond_status c = CFalse)"

definition is_terminal :: "condition_set \<Rightarrow> string \<Rightarrow> bool" where
  "is_terminal S t \<longleftrightarrow> t \<in> set (cs_dependents S) \<or> t = cs_happy S"

definition severity :: "condition_set \<Rightarrow> string \<Rightarrow> cond_severity" where
  "severity S t = (if is_terminal S t then SevError else SevInfo)"

definition top_level_condition :: "condition_set \<Rightarrow> condition list \<Rightarrow> condition option" where
  "top_level_condition S cs = get_condition (cs_happy S) cs"

definition is_happy :: "condition_set \<Rightarrow> condition list \<Rightarrow> bool" where
  "is_happy S cs = is_true (top_level_condition S cs)"

subsection \<open>Storing conditions\<close>

definition set_condition :: "env \<Rightarrow> condition \<Rightarrow> mstate \<Rightarrow> mstate" where
  "set_condition en cond m =
     (let (cs, h) = m in
      if list_ex (\<lambda>c. cond_type c = cond_type cond \<and> cond\<lparr>cond_time := cond_time c\<rparr> = c) cs
      then (cs, h)
      else
        (let (now, h') = time_now en h
         in (sort_key cond_type
               (filter (\<lambda>c. cond_type c \<noteq> cond_type cond) cs @ [cond\<lparr>cond_time := now\<rparr>]), h')))"

definition mk_condition :: "string \<Rightarrow> cond_status \<Rightarrow> cond_severity \<Rightarrow> string \<Rightarrow> string \<Rightarrow> condition" where
  "mk_condition t s sev reason msg =
     \<lparr>cond_type = t, cond_status = s, cond_severity = sev, cond_time = 0,
      cond_reason = reason, cond_message = msg\<rparr>"

text \<open>
  \<^verbatim>\<open>findUnhappyDependent\<close>: among the conditions of error severity other than the happy one, the
  False one with the latest transition time, else the Unknown one with the latest, else a bare
  Unknown condition when a dependent has no condition yet.
\<close>

definition candidates :: "condition_set \<Rightarrow> condition list \<Rightarrow> condition list" where
  "candidates S cs =
     sort_key (\<lambda>c. - cond_time c)
       (filter (\<lambda>c. cond_severity c = SevError \<and> cond_type c \<noteq> cs_happy S) cs)"

definition find_unhappy_dependent :: "condition_set \<Rightarrow> condition list \<Rightarrow> condition option" where
  "find_unhappy_dependent S cs =
     (if cs_dependents S = [] then None
      else
        (let recent = candidates S cs
         in case find (\<lambda>c. cond_status c = CFalse) recent of
              Some c \<Rightarrow> Some c
            | None \<Rightarrow>
                (case find (\<lambda>c. cond_status c = CUnknown) recent of
                   Some c \<Rightarrow> Some c
                 | None \<Rightarrow>
                     (if length recent < length (cs_dependents S)
                      then Some (mk_condition [] CUnknown SevError [] [])
                      else None))))"

definition recompute_happiness :: "env \<Rightarrow> condition_set \<Rightarrow> string \<Rightarrow> mstate \<Rightarrow> mstate" where
  "recompute_happiness en S t m =
     (case find_unhappy_dependent S (fst m) of
        Some c \<Rightarrow>
          set_condition en
            (mk_condition (cs_happy S) (cond_status c) (severity S (cs_happy S))
              (cond_reason c) (cond_message c)) m
      | None \<Rightarrow>
          (if t \<noteq> cs_happy S
           then set_condition en
                  (mk_condition (cs_happy S) CTrue (severity S (cs_happy S)) [] []) m
           else m))"

definition mark_true :: "env \<Rightarrow> condition_set \<Rightarrow> string \<Rightarrow> mstate \<Rightarrow> mstate" where
  "mark_true en S t m =
     recompute_happiness en S t (set_condition en (mk_condition t CTrue (severity S t) [] []) m)"

definition mark_false ::
  "env \<Rightarrow> condition_set \<Rightarrow> string \<Rightarrow> string \<Rightarrow> string \<Rightarrow> mstate \<Rightarrow> mstate" where
  "mark_false en S t reason msg m =
     fold (\<lambda>t'. set_condition en (mk_condition t' CFalse (severity S t') reason msg))
       (t # map (\<lambda>_. cs_happy S) (filter (\<lambda>d. d = t) (cs_dependents S))) m"

definition mark_unknown ::
  "env \<Rightarrow> condition_set \<Rightarrow> string \<Rightarrow> string \<Rightarrow> string \<Rightarrow> mstate \<Rightarrow> mstate" where
  "mark_unknown en S t reason msg m =
     (let m1 = set_condition en (mk_condition t CUnknown (severity S t) reason msg) m
      in if list_ex (\<lambda>d. is_false (get_condition d (fst m1))) (cs_dependents S)
         then (if \<not> is_false (get_condition (cs_happy S) (fst m1))
               then mark_false en S (cs_happy S) reason msg m1 else m1)
         else if t \<in> set (cs_dependents S)
         then set_condition en
                (mk_condition (cs_happy S) CUnknown (severity S (cs_happy S)) reason msg) m1
         else m1)"

definition initialize_terminal ::
  "env \<Rightarrow> cond_status \<Rightarrow> string \<Rightarrow> mstate \<Rightarrow> mstate" where
  "initialize_terminal en status t m =
     (case get_condition t (fst m) of
        Some _ \<Rightarrow> m
      | None \<Rightarrow> set_condition en (mk_condition t status SevError [] []) m)"

definition initialize_conditions :: "env \<Rightarrow> condition_set \<Rightarrow> mstate \<Rightarrow> mstate" where
  "initialize_conditions en S m =
     (let (happy_status, m1) =
        (case get_condition (cs_happy S) (fst m) of
           Some c \<Rightarrow> (cond_status c, m)
         | None \<Rightarrow>
             (CUnknown, set_condition en (mk_condition (cs_happy S) CUnknown SevError [] []) m));
          status = (if happy_status = CTrue then CTrue else CUnknown)
      in fold (initialize_terminal en status) (cs_dependents S) m1)"

subsection \<open>The contract of a condition manager\<close>

text \<open>The status of a condition, and what the happy condition is to say about the dependents.\<close>

definition status_of :: "condition list \<Rightarrow> string \<Rightarrow> cond_status option" where
  "status_of cs t = map_option cond_status (get_condition t cs)"

definition aggregate :: "string list \<Rightarrow> (string \<Rightarrow> cond_status option) \<Rightarrow> cond_status" where
  "aggregate deps f =
     (if list_ex (\<lambda>d. f d = Some CFalse) deps then CFalse
      else if list_all (\<lambda>d. f d = Some CTrue) deps then CTrue else CUnknown)"

text \<open>One call of a component to its manager, and a sequence of calls.\<close>

datatype mark = MarkTrue string | MarkFalse string string string

fun mark_target :: "mark \<Rightarrow> string" where
  "mark_target (MarkTrue t) = t"
| "mark_target (MarkFalse t _ _) = t"

fun mark_status :: "mark \<Rightarrow> cond_status" where
  "mark_status (MarkTrue _) = CTrue"
| "mark_status (MarkFalse _ _ _) = CFalse"

fun apply_mark ::
  "(string \<Rightarrow> 's \<Rightarrow> 's) \<Rightarrow> (string \<Rightarrow> string \<Rightarrow> string \<Rightarrow> 's \<Rightarrow> 's) \<Rightarrow> mark \<Rightarrow> 's \<Rightarrow> 's" where
  "apply_mark st sf (MarkTrue t) s = st t s"
| "apply_mark st sf (MarkFalse t r msg) s = sf t r msg s"

text \<open>
  The interface: a state with statuses, a top condition and its dependents, and the two
  operations. A law for each operation gives the statuses it leaves, the frame included, and
  says that the top condition is the aggregate of the dependents afterwards.
\<close>

locale condition_manager =
  fixes inv :: "'s \<Rightarrow> bool"
    and stat :: "'s \<Rightarrow> string \<Rightarrow> cond_status option"
    and top :: string
    and deps :: "string list"
    and set_true :: "string \<Rightarrow> 's \<Rightarrow> 's"
    and set_false :: "string \<Rightarrow> string \<Rightarrow> string \<Rightarrow> 's \<Rightarrow> 's"
  assumes top_fresh: "top \<notin> set deps"
    and inv_true: "inv s \<Longrightarrow> t \<in> set deps \<Longrightarrow> inv (set_true t s)"
    and inv_false: "inv s \<Longrightarrow> t \<in> set deps \<Longrightarrow> inv (set_false t r msg s)"
    and stat_true: "inv s \<Longrightarrow> t \<in> set deps \<Longrightarrow> stat (set_true t s) t = Some CTrue"
    and stat_false: "inv s \<Longrightarrow> t \<in> set deps \<Longrightarrow> stat (set_false t r msg s) t = Some CFalse"
    and frame_true: "inv s \<Longrightarrow> t \<in> set deps \<Longrightarrow> d \<noteq> t \<Longrightarrow> d \<noteq> top \<Longrightarrow>
      stat (set_true t s) d = stat s d"
    and frame_false: "inv s \<Longrightarrow> t \<in> set deps \<Longrightarrow> d \<noteq> t \<Longrightarrow> d \<noteq> top \<Longrightarrow>
      stat (set_false t r msg s) d = stat s d"
    and top_true: "inv s \<Longrightarrow> t \<in> set deps \<Longrightarrow>
      stat (set_true t s) top = Some (aggregate deps (stat (set_true t s)))"
    and top_false: "inv s \<Longrightarrow> t \<in> set deps \<Longrightarrow> stat (set_false t r msg s) top = Some CFalse"
begin

lemma apply_mark_inv:
  "inv s \<Longrightarrow> mark_target k \<in> set deps \<Longrightarrow> inv (apply_mark set_true set_false k s)"
  by (cases k) (auto simp: inv_true inv_false)

lemma apply_mark_stat:
  assumes "inv s" and "mark_target k \<in> set deps" and "d \<in> set deps"
  shows "stat (apply_mark set_true set_false k s) d =
    (if d = mark_target k then Some (mark_status k) else stat s d)"
proof -
  have "d \<noteq> top" using assms(3) top_fresh by auto
  with assms show ?thesis
    by (cases k) (auto simp: stat_true stat_false frame_true frame_false)
qed

lemma apply_mark_top:
  assumes "inv s" and "mark_target k \<in> set deps"
  shows "stat (apply_mark set_true set_false k s) top =
    Some (aggregate deps (stat (apply_mark set_true set_false k s)))"
proof (cases k)
  case (MarkTrue t)
  then show ?thesis using assms by (simp add: top_true)
next
  case (MarkFalse t r msg)
  with assms have "stat (set_false t r msg s) t = Some CFalse" and "t \<in> set deps"
    by (simp_all add: stat_false)
  then have "aggregate deps (stat (set_false t r msg s)) = CFalse"
    by (auto simp: aggregate_def list_ex_iff)
  with MarkFalse assms show ?thesis by (simp add: top_false)
qed

text \<open>
  A sequence of marks, in any order: every dependent has the status of the last mark on it, and
  the top condition is the aggregate of the dependents as soon as there was one mark.
\<close>

lemma marks_inv:
  "inv s \<Longrightarrow> \<forall>k \<in> set ks. mark_target k \<in> set deps \<Longrightarrow>
   inv (fold (apply_mark set_true set_false) ks s)"
  by (induction ks arbitrary: s) (auto simp: apply_mark_inv)

lemma marks_stat:
  assumes "inv s" and "\<forall>k \<in> set ks. mark_target k \<in> set deps" and "d \<in> set deps"
  shows "stat (fold (apply_mark set_true set_false) ks s) d =
    (case find (\<lambda>k. mark_target k = d) (rev ks) of
       Some k \<Rightarrow> Some (mark_status k) | None \<Rightarrow> stat s d)"
  using assms
proof (induction ks rule: rev_induct)
  case (snoc k ks)
  have i: "inv (fold (apply_mark set_true set_false) ks s)"
    by (rule marks_inv) (use snoc.prems in auto)
  show ?case using snoc apply_mark_stat [OF i, of k d] by auto
qed simp

lemma marks_top:
  assumes "inv s" and "\<forall>k \<in> set ks. mark_target k \<in> set deps" and "ks \<noteq> []"
  shows "stat (fold (apply_mark set_true set_false) ks s) top =
    Some (aggregate deps (stat (fold (apply_mark set_true set_false) ks s)))"
proof -
  from assms(3) obtain ks' k where ks: "ks = ks' @ [k]" by (metis rev_exhaust)
  with assms have "inv (fold (apply_mark set_true set_false) ks' s)"
    by (intro marks_inv) auto
  with ks assms show ?thesis by (simp add: apply_mark_top)
qed

end


subsection \<open>The invariant of a condition list\<close>

text \<open>
  Sorted by type, one condition per type, and the severity of each as the set gives it. Every
  operation of the manager keeps this.
\<close>

definition cond_wf :: "condition_set \<Rightarrow> condition list \<Rightarrow> bool" where
  "cond_wf S cs \<longleftrightarrow>
     sorted (map cond_type cs) \<and> distinct (map cond_type cs) \<and>
     (\<forall>c \<in> set cs. cond_severity c = severity S (cond_type c))"

definition set_wf :: "condition_set \<Rightarrow> bool" where
  "set_wf S \<longleftrightarrow> cs_happy S \<notin> set (cs_dependents S) \<and> distinct (cs_dependents S)"

lemma add_dependents_set:
  "set (add_dependents happy deps ds) = set deps \<union> (set ds - {happy})"
proof (induction ds arbitrary: deps)
  case (Cons d ds)
  then show ?case by (cases "d = happy \<or> d \<in> set deps") (simp_all, blast+)
qed simp

lemma add_dependents_distinct: "distinct deps \<Longrightarrow> distinct (add_dependents happy deps ds)"
  by (induction ds arbitrary: deps) simp_all

lemma new_condition_set_wf [simp]: "set_wf (new_condition_set happy ds)"
  by (simp add: set_wf_def new_condition_set_def add_dependents_set add_dependents_distinct)

lemma new_condition_set_dependents:
  "set (cs_dependents (new_condition_set happy ds)) = set ds - {happy}"
  by (simp add: new_condition_set_def add_dependents_set)

lemma cond_wf_Nil [simp]: "cond_wf S []"
  by (simp add: cond_wf_def)

lemma mk_condition_sel [simp]:
  "cond_type (mk_condition t s sev r m) = t"
  "cond_status (mk_condition t s sev r m) = s"
  "cond_severity (mk_condition t s sev r m) = sev"
  "cond_reason (mk_condition t s sev r m) = r"
  "cond_message (mk_condition t s sev r m) = m"
  by (simp_all add: mk_condition_def)

subsection \<open>Lookup after an update\<close>

lemma get_condition_iff:
  "distinct (map cond_type cs) \<Longrightarrow>
   get_condition t cs = Some c \<longleftrightarrow> c \<in> set cs \<and> cond_type c = t"
  unfolding get_condition_def
  by (induction cs) (auto simp: image_iff)

lemma get_condition_None: "get_condition t cs = None \<longleftrightarrow> t \<notin> cond_type ` set cs"
  by (auto simp: get_condition_def find_None_iff)

lemma get_condition_type: "get_condition t cs = Some c \<Longrightarrow> cond_type c = t \<and> c \<in> set cs"
  unfolding get_condition_def by (drule find_Some_mem) simp

lemma get_condition_cong_set:
  assumes "distinct (map cond_type cs)" and "distinct (map cond_type cs')"
    and "\<And>c. cond_type c = t \<Longrightarrow> c \<in> set cs \<longleftrightarrow> c \<in> set cs'"
  shows "get_condition t cs = get_condition t cs'"
proof -
  have "get_condition t cs = Some c \<longleftrightarrow> get_condition t cs' = Some c" for c
    using assms by (auto simp: get_condition_iff)
  then show ?thesis by (metis not_None_eq)
qed

text \<open>What storing a condition does to the list: nothing, or replace the condition of its type.\<close>

lemma set_condition_cases:
  assumes "distinct (map cond_type cs)"
  shows "(\<exists>c. set_condition en cond (cs, h) = (cs, h) \<and>
           get_condition (cond_type cond) cs = Some c \<and> cond\<lparr>cond_time := cond_time c\<rparr> = c) \<or>
    set_condition en cond (cs, h) =
      (sort_key cond_type (filter (\<lambda>c. cond_type c \<noteq> cond_type cond) cs @
         [cond\<lparr>cond_time := e_now en h\<rparr>]), h @ [Now])"
proof (cases "list_ex (\<lambda>c. cond_type c = cond_type cond \<and> cond\<lparr>cond_time := cond_time c\<rparr> = c) cs")
  case True
  then obtain c where c: "c \<in> set cs" "cond_type c = cond_type cond"
    and eq: "cond\<lparr>cond_time := cond_time c\<rparr> = c"
    by (auto simp: list_ex_iff)
  have "get_condition (cond_type cond) cs = Some c"
    using c assms by (simp add: get_condition_iff)
  moreover have "set_condition en cond (cs, h) = (cs, h)"
    using True by (simp add: set_condition_def)
  ultimately show ?thesis using eq by blast
next
  case False
  then show ?thesis by (simp add: set_condition_def time_now_def ask_def)
qed

lemma replace_distinct:
  "distinct (map cond_type cs) \<Longrightarrow> cond_type x = t \<Longrightarrow>
   distinct (map cond_type (sort_key cond_type (filter (\<lambda>c. cond_type c \<noteq> t) cs @ [x])))"
  by (auto simp: distinct_map inj_on_def)

lemma set_condition_wf:
  assumes "cond_wf S cs" and "cond_severity cond = severity S (cond_type cond)"
  shows "cond_wf S (fst (set_condition en cond (cs, h)))"
proof -
  from assms(1) have d: "distinct (map cond_type cs)" by (simp add: cond_wf_def)
  show ?thesis
    using set_condition_cases [OF d, of en cond h]
  proof
    assume "\<exists>c. set_condition en cond (cs, h) = (cs, h) \<and>
      get_condition (cond_type cond) cs = Some c \<and> cond\<lparr>cond_time := cond_time c\<rparr> = c"
    then show ?thesis using assms by auto
  next
    assume changed: "set_condition en cond (cs, h) =
      (sort_key cond_type (filter (\<lambda>c. cond_type c \<noteq> cond_type cond) cs @
         [cond\<lparr>cond_time := e_now en h\<rparr>]), h @ [Now])"
    show ?thesis unfolding changed cond_wf_def
      using assms replace_distinct [OF d, of "cond\<lparr>cond_time := e_now en h\<rparr>" "cond_type cond"]
      by (auto simp: cond_wf_def)
  qed
qed

lemma set_condition_get:
  assumes "distinct (map cond_type cs)"
  shows "\<exists>i. get_condition t (fst (set_condition en cond (cs, h))) =
    (if t = cond_type cond then Some (cond\<lparr>cond_time := i\<rparr>) else get_condition t cs)"
  using set_condition_cases [OF assms, of en cond h]
proof
  assume "\<exists>c. set_condition en cond (cs, h) = (cs, h) \<and>
    get_condition (cond_type cond) cs = Some c \<and> cond\<lparr>cond_time := cond_time c\<rparr> = c"
  then show ?thesis by (metis fst_conv)
next
  assume changed: "set_condition en cond (cs, h) =
      (sort_key cond_type (filter (\<lambda>c. cond_type c \<noteq> cond_type cond) cs @
         [cond\<lparr>cond_time := e_now en h\<rparr>]), h @ [Now])"
  let ?x = "cond\<lparr>cond_time := e_now en h\<rparr>"
  let ?cs = "sort_key cond_type (filter (\<lambda>c. cond_type c \<noteq> cond_type cond) cs @ [?x])"
  have d: "distinct (map cond_type ?cs)" by (rule replace_distinct [OF assms]) simp
  show ?thesis
  proof (cases "t = cond_type cond")
    case True
    have "get_condition t ?cs = Some ?x" using True by (simp add: get_condition_iff [OF d])
    with changed True show ?thesis by auto
  next
    case False
    have "get_condition t ?cs = get_condition t cs"
      by (rule get_condition_cong_set [OF d assms]) (use False in auto)
    with changed False show ?thesis by auto
  qed
qed

lemma status_of_set_condition [cond_simps]:
  assumes "cond_wf S cs"
  shows "status_of (fst (set_condition en cond (cs, h))) t =
    (if t = cond_type cond then Some (cond_status cond) else status_of cs t)"
  using set_condition_get [of cs t en cond h] assms
  by (auto simp: status_of_def cond_wf_def)

lemma set_condition_ticks: "ticks_only h (snd (set_condition en cond (cs, h)))"
  by (auto simp: set_condition_def Let_def time_now_def ask_def)


subsection \<open>The happy condition aggregates the dependents\<close>

lemma candidates_set:
  assumes "cond_wf S cs" and "set_wf S"
  shows "c \<in> set (candidates S cs) \<longleftrightarrow> c \<in> set cs \<and> cond_type c \<in> set (cs_dependents S)"
  using assms
  by (auto simp: candidates_def cond_wf_def set_wf_def severity_def is_terminal_def
      split: if_splits)

lemma candidates_status:
  assumes "cond_wf S cs" and "set_wf S" and "c \<in> set (candidates S cs)"
  shows "status_of cs (cond_type c) = Some (cond_status c)"
  using assms by (auto simp: candidates_def cond_wf_def status_of_def get_condition_iff)

lemma candidates_complete:
  assumes "cond_wf S cs" and "set_wf S" and "d \<in> set (cs_dependents S)"
    and "status_of cs d = Some x"
  shows "\<exists>c \<in> set (candidates S cs). cond_type c = d \<and> cond_status c = x"
proof -
  from assms(4) obtain c where c: "get_condition d cs = Some c" "cond_status c = x"
    by (auto simp: status_of_def)
  then have "c \<in> set cs" and "cond_type c = d"
    using get_condition_type by blast+
  with assms(1-3) have "c \<in> set (candidates S cs)" by (simp add: candidates_set)
  with c(2) \<open>cond_type c = d\<close> show ?thesis by blast
qed

lemma candidates_types:
  assumes "cond_wf S cs" and "set_wf S"
  shows "cond_type ` set (candidates S cs) =
    {d \<in> set (cs_dependents S). status_of cs d \<noteq> None}"
proof (intro subset_antisym subsetI)
  fix d assume "d \<in> cond_type ` set (candidates S cs)"
  then obtain c where "c \<in> set (candidates S cs)" "d = cond_type c" by blast
  with candidates_set [OF assms] candidates_status [OF assms]
  show "d \<in> {d \<in> set (cs_dependents S). status_of cs d \<noteq> None}" by auto
next
  fix d assume "d \<in> {d \<in> set (cs_dependents S). status_of cs d \<noteq> None}"
  then show "d \<in> cond_type ` set (candidates S cs)"
    using candidates_complete [OF assms] by blast
qed

lemma candidates_length:
  assumes "cond_wf S cs" and "set_wf S"
  shows "length (candidates S cs) < length (cs_dependents S) \<longleftrightarrow>
    (\<exists>d \<in> set (cs_dependents S). status_of cs d = None)"
proof -
  let ?T = "cond_type ` set (candidates S cs)"
  have "distinct (map cond_type (candidates S cs))"
    using assms(1) by (auto simp: candidates_def cond_wf_def distinct_map inj_on_def)
  then have len: "length (candidates S cs) = card ?T"
    by (metis distinct_card length_map set_map)
  have deps: "length (cs_dependents S) = card (set (cs_dependents S))"
    using assms(2) by (simp add: set_wf_def distinct_card)
  have sub: "?T \<subseteq> set (cs_dependents S)" using candidates_types [OF assms] by auto
  have "card ?T < card (set (cs_dependents S)) \<longleftrightarrow> ?T \<noteq> set (cs_dependents S)"
    using sub card_subset_eq [OF _ sub] psubset_card_mono [of "set (cs_dependents S)" ?T] by auto
  also have "\<dots> \<longleftrightarrow> (\<exists>d \<in> set (cs_dependents S). status_of cs d = None)"
  proof -
    have "{d \<in> A. P d} = A \<longleftrightarrow> (\<forall>d \<in> A. P d)" for A :: "string set" and P by auto
    then show ?thesis unfolding candidates_types [OF assms] by blast
  qed
  finally show ?thesis using len deps by simp
qed

lemma find_unhappy_dependent_aggregate:
  assumes wf: "cond_wf S cs" "set_wf S" and ne: "cs_dependents S \<noteq> []"
  shows "map_option cond_status (find_unhappy_dependent S cs) =
    (let a = aggregate (cs_dependents S) (status_of cs) in if a = CTrue then None else Some a)"
proof -
  let ?D = "cs_dependents S" and ?R = "candidates S cs"
  have any: "(\<exists>c \<in> set ?R. cond_status c = x) \<longleftrightarrow> (\<exists>d \<in> set ?D. status_of cs d = Some x)" for x
  proof
    assume "\<exists>c \<in> set ?R. cond_status c = x"
    then obtain c where c: "c \<in> set ?R" "cond_status c = x" by blast
    then have "cond_type c \<in> set ?D" using candidates_set [OF wf] by blast
    with c candidates_status [OF wf c(1)] show "\<exists>d \<in> set ?D. status_of cs d = Some x" by auto
  next
    assume "\<exists>d \<in> set ?D. status_of cs d = Some x"
    then show "\<exists>c \<in> set ?R. cond_status c = x" using candidates_complete [OF wf] by blast
  qed
  have all: "list_all (\<lambda>d. status_of cs d = Some CTrue) ?D \<longleftrightarrow>
      \<not> (\<exists>d \<in> set ?D. status_of cs d = Some CFalse) \<and>
      \<not> (\<exists>d \<in> set ?D. status_of cs d = Some CUnknown) \<and>
      \<not> (\<exists>d \<in> set ?D. status_of cs d = None)"
  proof -
    have "status_of cs d = Some CTrue \<longleftrightarrow> status_of cs d \<noteq> Some CFalse \<and>
        status_of cs d \<noteq> Some CUnknown \<and> status_of cs d \<noteq> None" for d
      by (cases "status_of cs d") (auto, metis cond_status.exhaust)
    then show ?thesis unfolding list_all_iff by blast
  qed
  have ex: "list_ex (\<lambda>d. status_of cs d = Some CFalse) ?D \<longleftrightarrow>
      (\<exists>d \<in> set ?D. status_of cs d = Some CFalse)"
    by (simp add: list_ex_iff)
  note agg = aggregate_def ex all candidates_length [OF wf] Let_def
  show ?thesis
  proof (cases "\<exists>d \<in> set ?D. status_of cs d = Some CFalse")
    case True
    then have "find (\<lambda>c. cond_status c = CFalse) ?R \<noteq> None"
      using any [of CFalse] by (simp add: find_None_all)
    then obtain c where "find (\<lambda>c. cond_status c = CFalse) ?R = Some c" by blast
    moreover from this have "cond_status c = CFalse" by (blast dest: find_Some_mem)
    ultimately show ?thesis using True ne by (simp add: find_unhappy_dependent_def agg)
  next
    case noF: False
    then have F: "find (\<lambda>c. cond_status c = CFalse) ?R = None"
      using any [of CFalse] by (simp add: find_None_all)
    show ?thesis
    proof (cases "\<exists>d \<in> set ?D. status_of cs d = Some CUnknown")
      case True
      then have "find (\<lambda>c. cond_status c = CUnknown) ?R \<noteq> None"
        using any [of CUnknown] by (simp add: find_None_all)
      then obtain c where "find (\<lambda>c. cond_status c = CUnknown) ?R = Some c" by blast
      moreover from this have "cond_status c = CUnknown" by (blast dest: find_Some_mem)
      ultimately show ?thesis
        using True noF F ne by (simp add: find_unhappy_dependent_def agg)
    next
      case noU: False
      then have U: "find (\<lambda>c. cond_status c = CUnknown) ?R = None"
        using any [of CUnknown] by (simp add: find_None_all)
      show ?thesis
        by (cases "\<exists>d \<in> set ?D. status_of cs d = None")
          (simp_all only: find_unhappy_dependent_def F U ne agg noF noU, simp_all)
    qed
  qed
qed


subsection \<open>The operations of the manager\<close>

lemma set_condition_wf' [cond_simps]:
  "cond_wf S (fst m) \<Longrightarrow> cond_severity c = severity S (cond_type c) \<Longrightarrow>
   cond_wf S (fst (set_condition en c m))"
  using set_condition_wf [of S "fst m" c en "snd m"] by simp

lemma status_of_set_condition' [cond_simps]:
  "cond_wf S (fst m) \<Longrightarrow>
   status_of (fst (set_condition en c m)) t =
     (if t = cond_type c then Some (cond_status c) else status_of (fst m) t)"
  using status_of_set_condition [of S "fst m" en c "snd m"] by simp

lemma set_condition_ticks': "ticks_only (snd m) (snd (set_condition en c m))"
  using set_condition_ticks [of "snd m" en c "fst m"] by simp

lemma recompute_wf:
  "cond_wf S (fst m) \<Longrightarrow> cond_wf S (fst (recompute_happiness en S t m))"
  by (auto simp: recompute_happiness_def cond_simps split: option.split)

lemma recompute_status:
  assumes "cond_wf S (fst m)" and "set_wf S" and "cs_dependents S \<noteq> []" and "t \<noteq> cs_happy S"
  shows "status_of (fst (recompute_happiness en S t m)) d =
    (if d = cs_happy S then Some (aggregate (cs_dependents S) (status_of (fst m)))
     else status_of (fst m) d)"
  using find_unhappy_dependent_aggregate [OF assms(1-3)] assms
  by (cases "find_unhappy_dependent S (fst m)")
    (auto simp: recompute_happiness_def cond_simps Let_def split: if_splits)

lemma aggregate_cong:
  "(\<And>d. d \<in> set deps \<Longrightarrow> f d = g d) \<Longrightarrow> aggregate deps f = aggregate deps g"
  by (simp add: aggregate_def list_ex_iff list_all_iff)

lemma mark_true_wf: "cond_wf S (fst m) \<Longrightarrow> cond_wf S (fst (mark_true en S t m))"
  unfolding mark_true_def by (rule recompute_wf) (simp add: cond_simps)

lemma mark_true_status:
  assumes "cond_wf S (fst m)" and "set_wf S" and "t \<in> set (cs_dependents S)"
  shows "status_of (fst (mark_true en S t m)) d =
    (if d = t then Some CTrue
     else if d = cs_happy S
     then Some (aggregate (cs_dependents S) (\<lambda>x. if x = t then Some CTrue else status_of (fst m) x))
     else status_of (fst m) d)"
proof -
  let ?m = "set_condition en (mk_condition t CTrue (severity S t) [] []) m"
  have wf: "cond_wf S (fst ?m)" using assms(1) by (simp add: cond_simps)
  have t: "t \<noteq> cs_happy S" and ne: "cs_dependents S \<noteq> []" using assms(2,3) by (auto simp: set_wf_def)
  have st: "status_of (fst ?m) = (\<lambda>x. if x = t then Some CTrue else status_of (fst m) x)"
    using assms(1) by (auto simp: cond_simps)
  show ?thesis
    unfolding mark_true_def recompute_status [OF wf assms(2) ne t] st using t by auto
qed

lemma false_fold_wf:
  "cond_wf S (fst m) \<Longrightarrow>
   cond_wf S (fst (fold (\<lambda>t'. set_condition en (mk_condition t' CFalse (severity S t') r msg)) ts m))"
  by (induction ts arbitrary: m) (simp_all add: cond_simps)

lemma mark_false_wf: "cond_wf S (fst m) \<Longrightarrow> cond_wf S (fst (mark_false en S t r msg m))"
  unfolding mark_false_def by (rule false_fold_wf)

lemma mark_false_status:
  assumes "cond_wf S (fst m)"
  shows "status_of (fst (mark_false en S t r msg m)) d =
    (if d = t \<or> (d = cs_happy S \<and> t \<in> set (cs_dependents S)) then Some CFalse
     else status_of (fst m) d)"
proof -
  have fold_status: "cond_wf S (fst m) \<Longrightarrow>
    status_of (fst (fold (\<lambda>t'. set_condition en (mk_condition t' CFalse (severity S t') r msg)) ts m)) d =
      (if d \<in> set ts then Some CFalse else status_of (fst m) d)" for ts m
    by (induction ts arbitrary: m) (auto simp: cond_simps)
  show ?thesis unfolding mark_false_def fold_status [OF assms] by auto
qed

lemma ticks_fold:
  "(\<And>x m. ticks_only (snd m) (snd (f x m))) \<Longrightarrow> ticks_only (snd m) (snd (fold f xs m))"
proof (induction xs arbitrary: m)
  case (Cons x xs)
  then show ?case by (metis fold_Cons comp_apply ticks_only_trans)
qed simp

lemma recompute_ticks: "ticks_only (snd m) (snd (recompute_happiness en S t m))"
  by (auto simp: recompute_happiness_def set_condition_ticks' split: option.split)

lemma mark_true_ticks: "ticks_only (snd m) (snd (mark_true en S t m))"
  unfolding mark_true_def by (rule ticks_only_trans [OF set_condition_ticks' recompute_ticks])

lemma mark_false_ticks: "ticks_only (snd m) (snd (mark_false en S t r msg m))"
  unfolding mark_false_def by (rule ticks_fold) (rule set_condition_ticks')

interpretation mgr: condition_manager
  "\<lambda>m. cond_wf (new_condition_set happy ds) (fst m)"
  "\<lambda>m. status_of (fst m)"
  happy
  "cs_dependents (new_condition_set happy ds)"
  "mark_true en (new_condition_set happy ds)"
  "mark_false en (new_condition_set happy ds)"
  for happy ds en
proof -
  let ?S = "new_condition_set happy ds"
  have happy: "cs_happy ?S = happy" by (simp add: new_condition_set_def)
  have fresh: "happy \<notin> set (cs_dependents ?S)" by (simp add: new_condition_set_dependents)
  show "condition_manager (\<lambda>m. cond_wf ?S (fst m)) (\<lambda>m. status_of (fst m)) happy
    (cs_dependents ?S) (mark_true en ?S) (mark_false en ?S)"
    using fresh
    by unfold_locales
      (auto simp: mark_true_wf mark_false_wf mark_true_status mark_false_status happy
        intro!: aggregate_cong)
qed

subsection \<open>Initialisation and MarkUnknown\<close>

lemma initialize_terminal_wf:
  "cond_wf S (fst m) \<Longrightarrow> is_terminal S t \<Longrightarrow>
   cond_wf S (fst (initialize_terminal en status t m))"
  by (auto simp: initialize_terminal_def cond_simps severity_def split: option.split)

lemma initialize_fold_wf:
  "cond_wf S (fst m) \<Longrightarrow> \<forall>t \<in> set ts. is_terminal S t \<Longrightarrow>
   cond_wf S (fst (fold (initialize_terminal en status) ts m))"
  by (induction ts arbitrary: m) (simp_all add: initialize_terminal_wf)

lemma initialize_conditions_wf:
  "cond_wf S (fst m) \<Longrightarrow> cond_wf S (fst (initialize_conditions en S m))"
  unfolding initialize_conditions_def
  by (auto simp: Let_def is_terminal_def severity_def cond_simps
      intro!: initialize_fold_wf split: option.split)

lemma mark_unknown_wf:
  "cond_wf S (fst m) \<Longrightarrow> cond_wf S (fst (mark_unknown en S t r msg m))"
  by (auto simp: mark_unknown_def Let_def cond_simps mark_false_wf)

end
