(* ===== verification/FieldErrors.thy ===== *)
theory FieldErrors
  imports Prelude
begin

section \<open>Field errors\<close>

text \<open>
  Knative's \<^verbatim>\<open>apis.FieldError\<close> (\<^verbatim>\<open>vendor/knative.dev/pkg/apis/field_error.go\<close>), the value a
  \<^verbatim>\<open>Validate\<close> method returns: a message with the paths it is about, or a collection of such
  errors. A nil \<^verbatim>\<open>*FieldError\<close> is \<open>None\<close>. All diagnostics of the repository have the default
  level, so the level is left out.
\<close>

datatype field_error = FieldError string "string list" string "field_error list"

definition is_empty_error :: "field_error option \<Rightarrow> bool" where
  "is_empty_error fe \<longleftrightarrow> fe = None \<or> fe = Some (FieldError [] [] [] [])"

fun add_error :: "field_error \<Rightarrow> field_error \<Rightarrow> field_error" where
  "add_error (FieldError m ps d es) e =
     (if is_empty_error (Some e) then FieldError m ps d es else FieldError m ps d (es @ [e]))"

text \<open>\<^verbatim>\<open>fe.Also(e)\<close> with one argument.\<close>

definition also_error :: "field_error option \<Rightarrow> field_error option \<Rightarrow> field_error option" where
  "also_error fe e =
     (case e of
        None \<Rightarrow> fe
      | Some e' \<Rightarrow>
          if is_empty_error e then fe
          else Some (add_error (case fe of None \<Rightarrow> FieldError [] [] [] [] | Some f \<Rightarrow> f) e'))"

definition is_index :: "string \<Rightarrow> bool" where
  "is_index p \<longleftrightarrow> has_prefix p ''['' \<and> has_suffix p '']''"

definition flatten_part :: "string list \<Rightarrow> string \<Rightarrow> string list" where
  "flatten_part acc p =
     (if p = [] then acc
      else if acc \<noteq> [] \<and> is_index p then butlast acc @ [last acc @ p]
      else acc @ [p])"

definition flatten_path :: "string list \<Rightarrow> string" where
  "flatten_path path = join_with CHR ''.'' (foldl flatten_part [] (concat (map (split_on CHR ''.'') path)))"

text \<open>\<^verbatim>\<open>fe.ViaField(prefix)\<close>.\<close>

fun via_field :: "string \<Rightarrow> field_error \<Rightarrow> field_error" where
  "via_field prefix (FieldError m ps d es) =
     foldl (\<lambda>acc e. add_error acc (via_field prefix e))
       (FieldError m (map (\<lambda>p. flatten_path [prefix, p]) ps) d []) es"

definition via_field_opt :: "string \<Rightarrow> field_error option \<Rightarrow> field_error option" where
  "via_field_opt prefix fe = map_option (via_field prefix) fe"

definition err_missing_field :: "string \<Rightarrow> field_error" where
  "err_missing_field path = FieldError ''missing field(s)'' [path] [] []"

text \<open>\<^verbatim>\<open>ErrInvalidValue(value, path)\<close> for a string value.\<close>

definition err_invalid_value :: "string \<Rightarrow> string \<Rightarrow> field_error" where
  "err_invalid_value v path = FieldError (''invalid value: '' @ v) [path] [] []"

text \<open>\<^verbatim>\<open>normalized()\<close>: the leaves with a message, from left to right.\<close>

fun leaves :: "field_error \<Rightarrow> (string \<times> string list \<times> string) list" where
  "leaves (FieldError m ps d es) =
     (if m = [] then [] else [(m, ps, d)]) @ concat (map leaves es)"

definition leaves_opt :: "field_error option \<Rightarrow> (string \<times> string list \<times> string) list" where
  "leaves_opt fe = (case fe of None \<Rightarrow> [] | Some f \<Rightarrow> leaves f)"

subsection \<open>Facts\<close>

lemma is_empty_error_None [simp]: "is_empty_error None"
  by (simp add: is_empty_error_def)

lemma missing_not_empty [simp]: "\<not> is_empty_error (Some (err_missing_field p))"
  and invalid_not_empty [simp]: "\<not> is_empty_error (Some (err_invalid_value v p))"
  by (simp_all add: is_empty_error_def err_missing_field_def err_invalid_value_def)

lemma add_error_nonempty: "\<not> is_empty_error (Some f) \<Longrightarrow> \<not> is_empty_error (Some (add_error f e))"
  by (cases f) (simp add: is_empty_error_def)

lemma add_error_not_empty: "\<not> is_empty_error (Some e) \<Longrightarrow> \<not> is_empty_error (Some (add_error f e))"
  by (cases f) (simp add: is_empty_error_def)

lemma leaves_empty: "is_empty_error (Some e) \<Longrightarrow> leaves e = []"
  by (simp add: is_empty_error_def)

lemma leaves_add_error [simp]: "leaves (add_error f e) = leaves f @ leaves e"
  by (cases f) (auto simp: leaves_empty)

lemma leaves_also [simp]: "leaves_opt (also_error fe e) = leaves_opt fe @ leaves_opt e"
  by (auto simp: also_error_def leaves_opt_def leaves_empty split: option.split)

lemma also_error_None_iff [simp]:
  "also_error fe e = None \<longleftrightarrow> fe = None \<and> is_empty_error e"
  by (auto simp: also_error_def split: option.split)

lemma also_error_nonempty:
  "is_empty_error (also_error fe e) \<longleftrightarrow> is_empty_error fe \<and> is_empty_error e"
  by (cases e; cases fe) (auto simp: also_error_def add_error_not_empty,
      simp add: is_empty_error_def)

text \<open>Moving errors under a field keeps their messages and details and prefixes every path.\<close>

lemma leaves_foldl_add:
  "leaves (foldl (\<lambda>acc e. add_error acc (f e)) a es) = leaves a @ concat (map (\<lambda>e. leaves (f e)) es)"
  by (induction es arbitrary: a) simp_all

lemma leaves_via_field:
  "leaves (via_field prefix fe) =
     map (\<lambda>(m, ps, d). (m, map (\<lambda>p. flatten_path [prefix, p]) ps, d)) (leaves fe)"
proof (induction prefix fe rule: via_field.induct)
  case (1 prefix m ps d es)
  then have "concat (map (\<lambda>e. leaves (via_field prefix e)) es) =
    concat (map (\<lambda>e. map (\<lambda>(m, ps, d). (m, map (\<lambda>p. flatten_path [prefix, p]) ps, d)) (leaves e)) es)"
    by (metis (no_types, lifting) map_eq_conv)
  then show ?case by (simp add: leaves_foldl_add map_concat comp_def)
qed

lemma leaves_via_field_opt:
  "leaves_opt (via_field_opt prefix fe) =
     map (\<lambda>(m, ps, d). (m, map (\<lambda>p. flatten_path [prefix, p]) ps, d)) (leaves_opt fe)"
  by (cases fe) (simp_all add: via_field_opt_def leaves_opt_def leaves_via_field)

lemma via_field_opt_None [simp]: "via_field_opt p fe = None \<longleftrightarrow> fe = None"
  by (simp add: via_field_opt_def)

end
