(* ===== verification/SourceApi.thy ===== *)
theory SourceApi
  imports Conditions FieldErrors
begin

section \<open>The GitLabSource API type\<close>

text \<open>
  \<^verbatim>\<open>pkg/apis/sources/v1alpha1\<close>: the event types a source emits, its conditions and how they are
  marked, validation and defaults. A status method works on the status and on the history of the
  clock readings its condition manager makes.
\<close>

subsection \<open>Webhooks and event types\<close>

definition GitLabEventTypeBuild :: string where "GitLabEventTypeBuild = ''build''"
definition GitLabEventTypeDeployment :: string where "GitLabEventTypeDeployment = ''deployment''"
definition GitLabEventTypeIssue :: string where "GitLabEventTypeIssue = ''issue''"
definition GitLabEventTypeMergeRequest :: string where
  "GitLabEventTypeMergeRequest = ''merge_request''"
definition GitLabEventTypeNote :: string where "GitLabEventTypeNote = ''note''"
definition GitLabEventTypePipeline :: string where "GitLabEventTypePipeline = ''pipeline''"
definition GitLabEventTypePush :: string where "GitLabEventTypePush = ''push''"
definition GitLabEventTypeTagPush :: string where "GitLabEventTypeTagPush = ''tag_push''"
definition GitLabEventTypeWikiPage :: string where "GitLabEventTypeWikiPage = ''wiki_page''"

lemmas event_type_defs = GitLabEventTypeBuild_def GitLabEventTypeDeployment_def
  GitLabEventTypeIssue_def GitLabEventTypeMergeRequest_def GitLabEventTypeNote_def
  GitLabEventTypePipeline_def GitLabEventTypePush_def GitLabEventTypeTagPush_def
  GitLabEventTypeWikiPage_def

definition GitLabWebhookConfidentialIssues :: string where
  "GitLabWebhookConfidentialIssues = ''confidential_issues_events''"
definition GitLabWebhookConfidentialNote :: string where
  "GitLabWebhookConfidentialNote = ''confidential_note_events''"
definition GitLabWebhookDeployment :: string where "GitLabWebhookDeployment = ''deployment_events''"
definition GitLabWebhookIssues :: string where "GitLabWebhookIssues = ''issues_events''"
definition GitLabWebhookJob :: string where "GitLabWebhookJob = ''job_events''"
definition GitLabWebhookMergeRequests :: string where
  "GitLabWebhookMergeRequests = ''merge_requests_events''"
definition GitLabWebhookNote :: string where "GitLabWebhookNote = ''note_events''"
definition GitLabWebhookPipeline :: string where "GitLabWebhookPipeline = ''pipeline_events''"
definition GitLabWebhookPush :: string where "GitLabWebhookPush = ''push_events''"
definition GitLabWebhookTagPush :: string where "GitLabWebhookTagPush = ''tag_push_events''"
definition GitLabWebhookWikiPage :: string where "GitLabWebhookWikiPage = ''wiki_page_events''"

lemmas webhook_defs = GitLabWebhookConfidentialIssues_def GitLabWebhookConfidentialNote_def
  GitLabWebhookDeployment_def GitLabWebhookIssues_def GitLabWebhookJob_def
  GitLabWebhookMergeRequests_def GitLabWebhookNote_def GitLabWebhookPipeline_def
  GitLabWebhookPush_def GitLabWebhookTagPush_def GitLabWebhookWikiPage_def

definition eventPrefixGitLab :: string where
  "eventPrefixGitLab = ''dev.knative.sources.gitlab.''"

definition gitlab_event_type :: "string \<Rightarrow> string" where
  "gitlab_event_type t = eventPrefixGitLab @ t"

definition event_types_by_webhook :: "(string \<times> string) list" where
  "event_types_by_webhook =
     [(GitLabWebhookConfidentialIssues, GitLabEventTypeIssue),
      (GitLabWebhookConfidentialNote, GitLabEventTypeNote),
      (GitLabWebhookDeployment, GitLabEventTypeDeployment),
      (GitLabWebhookIssues, GitLabEventTypeIssue),
      (GitLabWebhookJob, GitLabEventTypeBuild),
      (GitLabWebhookMergeRequests, GitLabEventTypeMergeRequest),
      (GitLabWebhookNote, GitLabEventTypeNote),
      (GitLabWebhookPipeline, GitLabEventTypePipeline),
      (GitLabWebhookPush, GitLabEventTypePush),
      (GitLabWebhookTagPush, GitLabEventTypeTagPush),
      (GitLabWebhookWikiPage, GitLabEventTypeWikiPage)]"

text \<open>A webhook that is not in the map gives the zero value, the empty string.\<close>

definition event_type_for_webhook :: "string \<Rightarrow> string" where
  "event_type_for_webhook w =
     (case map_of event_types_by_webhook w of None \<Rightarrow> [] | Some t \<Rightarrow> t)"

text \<open>
  The keys of the map \<^verbatim>\<open>uniqueTypes\<close>, in one order; Go enumerates them in an arbitrary order,
  which \<open>event_types_any_order\<close> below shows not to matter.
\<close>

definition unique_types :: "gitlab_source \<Rightarrow> string list" where
  "unique_types src = remdups (map event_type_for_webhook (spec_event_types (src_spec src)))"

definition event_types :: "gitlab_source \<Rightarrow> string list" where
  "event_types src = sort (map gitlab_event_type (unique_types src))"

definition as_event_source :: "gitlab_source \<Rightarrow> string" where
  "as_event_source src = spec_project_url (src_spec src)"

subsection \<open>Group, version, kind\<close>

definition source_group_version :: "string \<times> string" where
  "source_group_version = (''sources.knative.dev'', ''v1alpha1'')"

definition source_gvk :: "string \<times> string \<times> string" where
  "source_gvk = (fst source_group_version, snd source_group_version, ''GitLabSource'')"

subsection \<open>Conditions\<close>

definition SinkProvided :: string where "SinkProvided = ''SinkProvided''"
definition WebhookConfigured :: string where "WebhookConfigured = ''WebhookConfigured''"
definition Deployed :: string where "Deployed = ''Deployed''"

definition source_cond_set :: condition_set where
  "source_cond_set = new_living_condition_set [SinkProvided, Deployed, WebhookConfigured]"

type_synonym sstate = "source_status \<times> history"

definition manage :: "(mstate \<Rightarrow> mstate) \<Rightarrow> sstate \<Rightarrow> sstate" where
  "manage f s =
     (let (cs, h) = f (st_conditions (fst s), snd s) in ((fst s)\<lparr>st_conditions := cs\<rparr>, h))"

definition mark_sink :: "env \<Rightarrow> url option \<Rightarrow> sstate \<Rightarrow> sstate" where
  "mark_sink en uri s =
     (let s' = ((fst s)\<lparr>st_sink_uri := uri\<rparr>, snd s)
      in case uri of
           None \<Rightarrow>
             manage (mark_false en source_cond_set SinkProvided ''EmptySinkURI''
               ''The sink has no URI'') s'
         | Some _ \<Rightarrow> manage (mark_true en source_cond_set SinkProvided) s')"

definition mark_no_sink :: "env \<Rightarrow> sstate \<Rightarrow> sstate" where
  "mark_no_sink en =
     manage (mark_false en source_cond_set SinkProvided ''SinkNotFound''
       ''The sink does not exist or its URI is not set'')"

definition mark_webhook :: "env \<Rightarrow> sstate \<Rightarrow> sstate" where
  "mark_webhook en = manage (mark_true en source_cond_set WebhookConfigured)"

definition mark_no_webhook :: "env \<Rightarrow> string \<Rightarrow> string \<Rightarrow> sstate \<Rightarrow> sstate" where
  "mark_no_webhook en reason msg =
     manage (mark_false en source_cond_set WebhookConfigured reason msg)"

definition mark_deployed :: "env \<Rightarrow> sstate \<Rightarrow> sstate" where
  "mark_deployed en = manage (mark_true en source_cond_set Deployed)"

definition mark_not_deployed :: "env \<Rightarrow> string \<Rightarrow> string \<Rightarrow> sstate \<Rightarrow> sstate" where
  "mark_not_deployed en reason msg =
     manage (mark_false en source_cond_set Deployed reason msg)"

subsection \<open>Defaults and validation\<close>

text \<open>
  \<^verbatim>\<open>SetDefaults\<close> does nothing yet. \<open>validate_sink\<close> stands for knative's
  \<^verbatim>\<open>(*duckv1.Destination).Validate\<close>.
\<close>

definition source_set_defaults :: "gitlab_source \<Rightarrow> gitlab_source" where
  "source_set_defaults src = src"

definition validate_source_spec ::
  "(destination \<Rightarrow> field_error option) \<Rightarrow> source_spec \<Rightarrow> field_error option" where
  "validate_source_spec validate_sink spec =
     (case validate_sink (spec_sink spec) of
        None \<Rightarrow> None
      | Some e \<Rightarrow> also_error None (via_field_opt ''sink'' (Some e)))"

definition validate_source ::
  "(destination \<Rightarrow> field_error option) \<Rightarrow> gitlab_source \<Rightarrow> field_error option" where
  "validate_source validate_sink src =
     via_field_opt ''spec'' (validate_source_spec validate_sink (src_spec src))"


subsection \<open>Event types: facts\<close>

lemma gitlab_event_type_inject [simp]: "gitlab_event_type a = gitlab_event_type b \<longleftrightarrow> a = b"
  by (simp add: gitlab_event_type_def)

lemma set_event_types:
  "set (event_types src) =
     (\<lambda>w. gitlab_event_type (event_type_for_webhook w)) ` set (spec_event_types (src_spec src))"
  by (auto simp: event_types_def unique_types_def)

lemma distinct_event_types: "distinct (event_types src)"
  by (simp add: event_types_def unique_types_def distinct_map inj_on_def)

lemma event_types_enum:
  assumes "distinct ks"
    and "set ks = event_type_for_webhook ` set (spec_event_types (src_spec src))"
  shows "sort (map gitlab_event_type ks) = event_types src"
  unfolding event_types_def
proof (rule sort_set_determined)
  show "distinct (map gitlab_event_type ks)"
    using assms(1) by (simp add: distinct_map inj_on_def)
  show "distinct (map gitlab_event_type (unique_types src))"
    by (simp add: unique_types_def distinct_map inj_on_def)
  show "set (map gitlab_event_type ks) = set (map gitlab_event_type (unique_types src))"
    using assms(2) by (simp add: unique_types_def)
qed

subsection \<open>Conditions: facts\<close>

lemma source_deps: "cs_dependents source_cond_set = [SinkProvided, Deployed, WebhookConfigured]"
  by (simp add: source_cond_set_def new_living_condition_set_def new_condition_set_def
      condition_ready_def SinkProvided_def Deployed_def WebhookConfigured_def)

lemma source_happy: "cs_happy source_cond_set = condition_ready"
  by (simp add: source_cond_set_def new_living_condition_set_def new_condition_set_def)

lemma cond_names_distinct [simp]:
  "SinkProvided \<noteq> Deployed" "Deployed \<noteq> SinkProvided"
  "SinkProvided \<noteq> WebhookConfigured" "WebhookConfigured \<noteq> SinkProvided"
  "Deployed \<noteq> WebhookConfigured" "WebhookConfigured \<noteq> Deployed"
  "SinkProvided \<noteq> condition_ready" "condition_ready \<noteq> SinkProvided"
  "Deployed \<noteq> condition_ready" "condition_ready \<noteq> Deployed"
  "WebhookConfigured \<noteq> condition_ready" "condition_ready \<noteq> WebhookConfigured"
  by (simp_all add: SinkProvided_def Deployed_def WebhookConfigured_def condition_ready_def)

text \<open>The status of a source's condition, and the invariant of its condition list.\<close>

definition src_cond :: "source_status \<Rightarrow> string \<Rightarrow> cond_status option" where
  "src_cond st t = status_of (st_conditions st) t"

definition src_conds_wf :: "source_status \<Rightarrow> bool" where
  "src_conds_wf st \<longleftrightarrow> cond_wf source_cond_set (st_conditions st)"

text \<open>The Ready condition says what the three other conditions say together.\<close>

definition ready_agrees :: "source_status \<Rightarrow> bool" where
  "ready_agrees st \<longleftrightarrow>
     src_cond st condition_ready =
       Some (aggregate [SinkProvided, Deployed, WebhookConfigured] (src_cond st))"

lemma manage_status:
  "st_conditions (fst (manage f s)) = fst (f (st_conditions (fst s), snd s))"
  "snd (manage f s) = snd (f (st_conditions (fst s), snd s))"
  "st_observed_generation (fst (manage f s)) = st_observed_generation (fst s)"
  "st_sink_uri (fst (manage f s)) = st_sink_uri (fst s)"
  "st_ce_attributes (fst (manage f s)) = st_ce_attributes (fst s)"
  "st_webhook_id (fst (manage f s)) = st_webhook_id (fst s)"
  by (simp_all add: manage_def Let_def split: prod.split)

interpretation src_mgr: condition_manager
  "\<lambda>s. src_conds_wf (fst s)"
  "\<lambda>s. src_cond (fst s)"
  condition_ready
  "[SinkProvided, Deployed, WebhookConfigured]"
  "\<lambda>t. manage (mark_true en source_cond_set t)"
  "\<lambda>t r msg. manage (mark_false en source_cond_set t r msg)"
  for en
proof -
  have cond: "src_cond (fst (manage f s)) = status_of (fst (f (st_conditions (fst s), snd s)))"
    for f :: "mstate \<Rightarrow> mstate" and s
    by (rule ext) (simp add: src_cond_def manage_status)
  have wf: "src_conds_wf (fst (manage f s)) \<longleftrightarrow>
    cond_wf source_cond_set (fst (f (st_conditions (fst s), snd s)))"
    for f :: "mstate \<Rightarrow> mstate" and s
    by (simp add: src_conds_wf_def manage_status)
  note laws = mgr.inv_true mgr.inv_false mgr.stat_true mgr.stat_false mgr.frame_true
    mgr.frame_false mgr.top_true mgr.top_false
  note laws' = laws [of condition_ready "[SinkProvided, Deployed, WebhookConfigured]",
      folded new_living_condition_set_def, folded source_cond_set_def, unfolded source_deps]
  show "condition_manager (\<lambda>s. src_conds_wf (fst s)) (\<lambda>s. src_cond (fst s)) condition_ready
     [SinkProvided, Deployed, WebhookConfigured]
     (\<lambda>t. manage (mark_true en source_cond_set t))
     (\<lambda>t r msg. manage (mark_false en source_cond_set t r msg))"
    by (unfold_locales, unfold cond wf)
      (use laws' in \<open>auto simp: src_conds_wf_def src_cond_def\<close>)
qed


subsection \<open>The mark operations of a source\<close>

text \<open>
  Each operation is a mark of the manager on the status's conditions; the other fields stay,
  \<open>mark_sink\<close>'s sink URI apart, and only the clock is read.
\<close>

abbreviation src_mark :: "env \<Rightarrow> mark \<Rightarrow> sstate \<Rightarrow> sstate" where
  "src_mark en \<equiv> apply_mark (\<lambda>t. manage (mark_true en source_cond_set t))
     (\<lambda>t r msg. manage (mark_false en source_cond_set t r msg))"

definition with_sink_uri :: "url option \<Rightarrow> sstate \<Rightarrow> sstate" where
  "with_sink_uri uri s = ((fst s)\<lparr>st_sink_uri := uri\<rparr>, snd s)"

definition sink_mark :: "url option \<Rightarrow> mark" where
  "sink_mark uri =
     (case uri of None \<Rightarrow> MarkFalse SinkProvided ''EmptySinkURI'' ''The sink has no URI''
      | Some _ \<Rightarrow> MarkTrue SinkProvided)"

lemma mark_ops:
  "mark_sink en uri s = src_mark en (sink_mark uri) (with_sink_uri uri s)"
  "mark_no_sink en s = src_mark en (MarkFalse SinkProvided ''SinkNotFound''
     ''The sink does not exist or its URI is not set'') s"
  "mark_webhook en s = src_mark en (MarkTrue WebhookConfigured) s"
  "mark_no_webhook en r msg s = src_mark en (MarkFalse WebhookConfigured r msg) s"
  "mark_deployed en s = src_mark en (MarkTrue Deployed) s"
  "mark_not_deployed en r msg s = src_mark en (MarkFalse Deployed r msg) s"
  by (auto simp: mark_sink_def mark_no_sink_def mark_webhook_def mark_no_webhook_def
      mark_deployed_def mark_not_deployed_def sink_mark_def with_sink_uri_def Let_def
      split: option.split)

definition source_mark :: "mark \<Rightarrow> bool" where
  "source_mark k \<longleftrightarrow> mark_target k \<in> set [SinkProvided, Deployed, WebhookConfigured]"

lemma source_mark_simps [simp]:
  "source_mark (sink_mark uri)"
  "source_mark (MarkTrue SinkProvided)"
  "source_mark (MarkTrue Deployed)"
  "source_mark (MarkTrue WebhookConfigured)"
  "source_mark (MarkFalse SinkProvided r msg)"
  "source_mark (MarkFalse Deployed r msg)"
  "source_mark (MarkFalse WebhookConfigured r msg)"
  by (simp_all add: source_mark_def sink_mark_def split: option.split)

lemma with_sink_uri_simps [simp]:
  "src_cond (fst (with_sink_uri uri s)) = src_cond (fst s)"
  "src_conds_wf (fst (with_sink_uri uri s)) = src_conds_wf (fst s)"
  "snd (with_sink_uri uri s) = snd s"
  "st_sink_uri (fst (with_sink_uri uri s)) = uri"
  "st_webhook_id (fst (with_sink_uri uri s)) = st_webhook_id (fst s)"
  "st_ce_attributes (fst (with_sink_uri uri s)) = st_ce_attributes (fst s)"
  "st_observed_generation (fst (with_sink_uri uri s)) = st_observed_generation (fst s)"
  by (simp_all add: with_sink_uri_def src_cond_def src_conds_wf_def fun_eq_iff)

lemma src_mark_wf [cond_simps]:
  "src_conds_wf (fst s) \<Longrightarrow> source_mark k \<Longrightarrow> src_conds_wf (fst (src_mark en k s))"
  by (rule src_mgr.apply_mark_inv) (simp_all add: source_mark_def)

lemma src_mark_cond [cond_simps]:
  "src_conds_wf (fst s) \<Longrightarrow> source_mark k \<Longrightarrow> d \<in> {SinkProvided, Deployed, WebhookConfigured} \<Longrightarrow>
   src_cond (fst (src_mark en k s)) d =
     (if d = mark_target k then Some (mark_status k) else src_cond (fst s) d)"
  by (rule src_mgr.apply_mark_stat) (auto simp: source_mark_def)

lemma src_mark_ready [cond_simps]:
  "src_conds_wf (fst s) \<Longrightarrow> source_mark k \<Longrightarrow> ready_agrees (fst (src_mark en k s))"
  unfolding ready_agrees_def by (rule src_mgr.apply_mark_top) (simp_all add: source_mark_def)

lemma src_mark_fields [simp]:
  "st_sink_uri (fst (src_mark en k s)) = st_sink_uri (fst s)"
  "st_webhook_id (fst (src_mark en k s)) = st_webhook_id (fst s)"
  "st_ce_attributes (fst (src_mark en k s)) = st_ce_attributes (fst s)"
  "st_observed_generation (fst (src_mark en k s)) = st_observed_generation (fst s)"
  by (cases k; simp add: manage_status)+

lemma src_mark_ticks: "ticks_only (snd s) (snd (src_mark en k s))"
  using mark_true_ticks [of "(st_conditions (fst s), snd s)"]
    mark_false_ticks [of "(st_conditions (fst s), snd s)"]
  by (cases k) (simp_all add: manage_status)

lemma src_mark_gitlab [simp]: "gitlab_calls (snd (src_mark en k s)) = gitlab_calls (snd s)"
  by (rule ticks_only_gitlab [OF src_mark_ticks])

declare apply_mark.simps [simp del]

end
