(* ===== verification/GenReconciler.thy ===== *)
theory GenReconciler
  imports SourceApi
begin

section \<open>The generated reconciler\<close>

text \<open>
  \<^verbatim>\<open>pkg/client/injection/reconciler/sources/v1alpha1/gitlabsource\<close>: what happens around the two
  operations of the source reconciler when a key comes out of the work queue. It decides by
  leadership and deletion which operation to run, keeps the finalizer, writes the status back and
  turns the result into an event or an error of the key. The operations are the fields of
  \<open>kind_reconciler\<close>; an absent optional interface is \<open>None\<close>.
\<close>

type_synonym kind_op = "gitlab_source \<Rightarrow> history \<Rightarrow> unit result \<times> gitlab_source \<times> history"

record kind_reconciler =
  kr_reconcile :: kind_op
  kr_finalize :: "kind_op option"
  kr_observe :: "kind_op option"
  kr_observe_deletion :: "(string \<Rightarrow> string \<Rightarrow> history \<Rightarrow> goerr option \<times> history) option"

record reconciler_impl =
  im_is_leader :: "string \<Rightarrow> string \<Rightarrow> bool"
  im_finalizer :: string
  im_server_side_apply :: bool
  im_field_manager :: string
  im_force_apply :: bool
  im_skip_status :: bool

definition default_finalizer_name :: string where
  "default_finalizer_name = ''gitlabsources.sources.knative.dev''"

subsection \<open>Options\<close>

text \<open>
  The options of \<^verbatim>\<open>NewReconciler\<close> and \<^verbatim>\<open>NewImpl\<close> that concern these fields; \<^verbatim>\<open>logger.Fatal\<close> ends
  the process, here a \<open>Panic\<close>.
\<close>

record controller_options =
  op_finalizer_name :: string
  op_skip_status :: bool
  op_server_side_apply :: bool
  op_field_manager :: string
  op_force_apply :: bool

definition default_impl :: "(string \<Rightarrow> string \<Rightarrow> bool) \<Rightarrow> reconciler_impl" where
  "default_impl leader =
     \<lparr>im_is_leader = leader, im_finalizer = default_finalizer_name, im_server_side_apply = False,
      im_field_manager = [], im_force_apply = False, im_skip_status = False\<rparr>"

definition apply_controller_options ::
  "controller_options \<Rightarrow> reconciler_impl \<Rightarrow> reconciler_impl result" where
  "apply_controller_options opts rec =
     (let rec1 = (if op_finalizer_name opts \<noteq> [] then rec\<lparr>im_finalizer := op_finalizer_name opts\<rparr> else rec);
          rec2 = (if op_skip_status opts then rec1\<lparr>im_skip_status := True\<rparr> else rec1)
      in if op_server_side_apply opts
         then (if op_field_manager opts = []
               then Panic ''FinalizerFieldManager must be provided when UseServerSideApplyForFinalizers is enabled''
               else Ok (rec2\<lparr>im_server_side_apply := True, im_field_manager := op_field_manager opts,
                             im_force_apply := op_force_apply opts\<rparr>))
         else Ok rec2)"

definition new_reconciler ::
  "(string \<Rightarrow> string \<Rightarrow> bool) \<Rightarrow> controller_options list \<Rightarrow> reconciler_impl result" where
  "new_reconciler leader options =
     (case options of
        [] \<Rightarrow> Ok (default_impl leader)
      | [opts] \<Rightarrow> apply_controller_options opts (default_impl leader)
      | _ \<Rightarrow> Panic ''Up to one options struct is supported'')"

subsection \<open>State of one run\<close>

record run_state =
  rs_key :: string
  rs_namespace :: string
  rs_name :: string
  rs_is_observer :: bool
  rs_is_leader :: bool

text \<open>\<^verbatim>\<open>SplitMetaNamespaceKey\<close>.\<close>

definition split_key :: "string \<Rightarrow> goerr + string \<times> string" where
  "split_key key =
     (case split_on CHR ''/'' key of
        [n] \<Rightarrow> Inr ([], n)
      | [ns, n] \<Rightarrow> Inr (ns, n)
      | _ \<Rightarrow> Inl (ErrText (''unexpected key format: '' @ quote key)))"

definition new_state :: "string \<Rightarrow> reconciler_impl \<Rightarrow> kind_reconciler \<Rightarrow> goerr + run_state" where
  "new_state key im kr =
     (case split_key key of
        Inl _ \<Rightarrow> Inl (ErrText (''invalid resource key: '' @ key))
      | Inr (ns, n) \<Rightarrow>
          Inr \<lparr>rs_key = key, rs_namespace = ns, rs_name = n, rs_is_observer = (\<not> Option.is_none (kr_observe kr)),
               rs_is_leader = im_is_leader im ns n\<rparr>)"

definition is_not_leader_nor_observer :: "run_state \<Rightarrow> bool" where
  "is_not_leader_nor_observer s = (\<not> rs_is_leader s \<and> \<not> rs_is_observer s)"

datatype target = DoReconcileKind kind_op | DoFinalizeKind kind_op | DoObserveKind kind_op | DoNothing

definition reconcile_method_for :: "run_state \<Rightarrow> kind_reconciler \<Rightarrow> gitlab_source \<Rightarrow> target" where
  "reconcile_method_for s kr src =
     (if \<not> om_deleted (src_meta src)
      then (if rs_is_leader s then DoReconcileKind (kr_reconcile kr)
            else case kr_observe kr of Some f \<Rightarrow> DoObserveKind f | None \<Rightarrow> DoNothing)
      else (case kr_finalize kr of
              Some f \<Rightarrow> (if rs_is_leader s then DoFinalizeKind f else DoNothing)
            | None \<Rightarrow> DoNothing))"

subsection \<open>Before and after ReconcileKind\<close>

text \<open>\<^verbatim>\<open>PreProcessReconcile\<close>, \<^verbatim>\<open>PostProcessReconcile\<close> of \<^verbatim>\<open>knative.dev/pkg/reconciler\<close>.\<close>

definition failedGenerationBump :: string where
  "failedGenerationBump = ''NewObservedGenFailure''"

definition pre_process :: "env \<Rightarrow> gitlab_source \<Rightarrow> history \<Rightarrow> gitlab_source \<times> history" where
  "pre_process en src h =
     (let src1 = source_set_defaults src;
          s1 = manage (initialize_conditions en source_cond_set) (src_status src1, h);
          s2 = (if st_observed_generation (fst s1) \<noteq> om_generation (src_meta src1)
                then manage (mark_unknown en source_cond_set (cs_happy source_cond_set)
                       failedGenerationBump ''unsuccessfully observed a new generation'') s1
                else s1)
      in (src1\<lparr>src_status := fst s2\<rparr>, snd s2))"

definition groom_condition :: "int \<Rightarrow> condition list \<Rightarrow> condition \<Rightarrow> condition" where
  "groom_condition now old c =
     (case get_condition (cond_type c) old of
        Some oc \<Rightarrow>
          (let c' = c\<lparr>cond_time := cond_time oc\<rparr>
           in if c' = oc then c' else c'\<lparr>cond_time := now\<rparr>)
      | None \<Rightarrow> c\<lparr>cond_time := now\<rparr>)"

definition post_process ::
  "env \<Rightarrow> gitlab_source \<Rightarrow> gitlab_source \<Rightarrow> history \<Rightarrow> gitlab_source \<times> history" where
  "post_process en src old h =
     (let st = (src_status src)\<lparr>st_observed_generation := om_generation (src_meta src)\<rparr>;
          (now, h') = time_now en h
      in (src\<lparr>src_status := st\<lparr>st_conditions :=
            map (groom_condition now (st_conditions (src_status old))) (st_conditions st)\<rparr>\<rparr>, h'))"

subsection \<open>Finalizers\<close>

text \<open>
  The set of desired finalizers, of which only the membership of the reconciler's own name is used,
  is a list. \<^verbatim>\<open>sets.List\<close> is sorted.
\<close>

definition set_insert :: "string \<Rightarrow> string list \<Rightarrow> string list" where
  "set_insert x xs = (if x \<in> set xs then xs else xs @ [x])"

definition set_delete :: "string \<Rightarrow> string list \<Rightarrow> string list" where
  "set_delete x xs = filter (\<lambda>y. y \<noteq> x) xs"

definition patch_finalizers ::
  "env \<Rightarrow> gitlab_source \<Rightarrow> finalizer_patch \<Rightarrow> string \<Rightarrow> string \<Rightarrow> history \<Rightarrow>
   (goerr + gitlab_source) \<times> history" where
  "patch_finalizers en src p failed_msg ok_msg h =
     (let ns = om_namespace (src_meta src); n = om_name (src_meta src)
      in case ask (\<lambda>h. e_patch_finalizers en h ns n p) (PatchFinalizers ns n p) h of
           (Inl e, h') \<Rightarrow>
             (Inl e, if is_conflict (Some e) then h'
                     else record_event ''Warning'' ''FinalizerUpdateFailed'' (failed_msg @ err_text e) h')
         | (Inr updated, h') \<Rightarrow> (Inr updated, record_event ''Normal'' ''FinalizerUpdate'' ok_msg h'))"

definition update_finalizers_apply ::
  "env \<Rightarrow> reconciler_impl \<Rightarrow> gitlab_source \<Rightarrow> string list \<Rightarrow> history \<Rightarrow>
   (goerr + gitlab_source) \<times> history" where
  "update_finalizers_apply en im src desired h =
     (let existing = om_finalizers (src_meta src); name = om_name (src_meta src);
          send = (\<lambda>fins. patch_finalizers en src
            (ApplyPatch fins (om_uid (src_meta src)) (im_field_manager im) (im_force_apply im))
            (''Failed to update finalizers for '' @ quote name @ '' via server-side apply: '')
            (''Updated finalizers for '' @ quote name @ '' via server-side apply'') h)
      in if im_finalizer im \<in> set desired
         then (if im_finalizer im \<in> set existing then (Inr src, h) else send [im_finalizer im])
         else (if im_finalizer im \<notin> set existing then (Inr src, h) else send []))"

definition update_finalizers_merge ::
  "env \<Rightarrow> reconciler_impl \<Rightarrow> gitlab_source \<Rightarrow> string list \<Rightarrow> history \<Rightarrow>
   (goerr + gitlab_source) \<times> history" where
  "update_finalizers_merge en im src desired h =
     (let existing = om_finalizers (src_meta src); name = om_name (src_meta src);
          send = (\<lambda>fins. patch_finalizers en src (MergePatch fins (om_resource_version (src_meta src)))
            (''Failed to update finalizers for '' @ quote name @ '': '')
            (''Updated '' @ quote name @ '' finalizers'') h)
      in if im_finalizer im \<in> set desired
         then (if im_finalizer im \<in> set existing then (Inr src, h)
               else send (existing @ [im_finalizer im]))
         else (if im_finalizer im \<notin> set existing then (Inr src, h)
               else send (sort (remdups (set_delete (im_finalizer im) existing)))))"

definition update_finalizers_filtered ::
  "env \<Rightarrow> reconciler_impl \<Rightarrow> gitlab_source \<Rightarrow> string list \<Rightarrow> history \<Rightarrow>
   (goerr + gitlab_source) \<times> history" where
  "update_finalizers_filtered en im src desired h =
     (if im_server_side_apply im then update_finalizers_apply en im src desired h
      else update_finalizers_merge en im src desired h)"

definition set_finalizer_if_finalizer ::
  "env \<Rightarrow> reconciler_impl \<Rightarrow> kind_reconciler \<Rightarrow> gitlab_source \<Rightarrow> history \<Rightarrow>
   (goerr + gitlab_source) \<times> history" where
  "set_finalizer_if_finalizer en im kr src h =
     (if Option.is_none (kr_finalize kr) then (Inr src, h)
      else
        (let fins = om_finalizers (src_meta src);
             desired = (if \<not> om_deleted (src_meta src) then set_insert (im_finalizer im) fins else fins)
         in update_finalizers_filtered en im src desired h))"

text \<open>An operation's outcome releases the finalizer if it is nil or an event of type Normal.\<close>

definition releases_finalizer :: "goerr option \<Rightarrow> bool" where
  "releases_finalizer ev =
     (case ev of
        None \<Rightarrow> True
      | Some e \<Rightarrow> (case errors_as sel_event e of Some (t, _, _) \<Rightarrow> t = ''Normal'' | None \<Rightarrow> False))"

definition clear_finalizer ::
  "env \<Rightarrow> reconciler_impl \<Rightarrow> kind_reconciler \<Rightarrow> gitlab_source \<Rightarrow> goerr option \<Rightarrow> history \<Rightarrow>
   (goerr + gitlab_source) \<times> history" where
  "clear_finalizer en im kr src ev h =
     (if Option.is_none (kr_finalize kr) \<or> \<not> om_deleted (src_meta src) then (Inr src, h)
      else
        (let fins = om_finalizers (src_meta src);
             desired = (if releases_finalizer ev then set_delete (im_finalizer im) fins else fins)
         in case update_finalizers_filtered en im src desired h of
              (Inr updated, h') \<Rightarrow> (Inr updated, h')
            | (Inl e, h') \<Rightarrow>
                (let ns = om_namespace (src_meta src); n = om_name (src_meta src)
                 in case ask (\<lambda>h. e_get_source en h ns n) (GetSource ns n) h' of
                      (Inl e', h'') \<Rightarrow> (if is_not_found (Some e') then Inr src else Inl e, h'')
                    | (Inr _, h'') \<Rightarrow> (Inl e, h''))))"

subsection \<open>Status\<close>

text \<open>
  One attempt of \<^verbatim>\<open>updateStatus\<close>: the first works on the object from the cache, the later ones on the
  one the API server has. \<open>retry_update n\<close> makes at most \<open>n\<close> attempts, again only after a conflict.
\<close>

definition update_attempt ::
  "env \<Rightarrow> gitlab_source \<Rightarrow> gitlab_source \<Rightarrow> nat \<Rightarrow> history \<Rightarrow> goerr option \<times> history" where
  "update_attempt en existing desired attempts h =
     (let ns = om_namespace (src_meta desired); n = om_name (src_meta desired);
          (cur, h1) = (if attempts > 0 then ask (\<lambda>h. e_get_source en h ns n) (GetSource ns n) h
                       else (Inr existing, h))
      in case cur of
           Inl e \<Rightarrow> (Some e, h1)
         | Inr ex \<Rightarrow>
             (if src_status ex = src_status desired then (None, h1)
              else (let ex' = ex\<lparr>src_status := src_status desired\<rparr>
                    in ask (\<lambda>h. e_update_status en h ex') (UpdateStatus ex') h1)))"

fun retry_update ::
  "env \<Rightarrow> gitlab_source \<Rightarrow> gitlab_source \<Rightarrow> nat \<Rightarrow> nat \<Rightarrow> history \<Rightarrow> goerr option \<times> history" where
  "retry_update en existing desired attempts 0 h = (None, h)"
| "retry_update en existing desired attempts (Suc n) h =
     (case update_attempt en existing desired attempts h of
        (None, h') \<Rightarrow> (None, h')
      | (Some e, h') \<Rightarrow>
          (if is_conflict (Some e) \<and> n > 0
           then retry_update en existing desired (attempts + 1) n h'
           else (Some e, h')))"

definition update_status :: "env \<Rightarrow> gitlab_source \<Rightarrow> gitlab_source \<Rightarrow> history \<Rightarrow> goerr option \<times> history" where
  "update_status en existing desired h = retry_update en existing desired 0 5 h"

subsection \<open>Reconcile\<close>

definition event_of_result :: "unit result \<Rightarrow> goerr option" where
  "event_of_result r = (case r of Err e \<Rightarrow> Some e | _ \<Rightarrow> None)"

text \<open>What becomes of the outcome of the operation, once the status is written.\<close>

definition report_event :: "goerr option \<Rightarrow> history \<Rightarrow> unit result \<times> history" where
  "report_event ev h =
     (case ev of
        None \<Rightarrow> (Ok (), h)
      | Some e \<Rightarrow>
          (case errors_as sel_event e of
             Some (t, reason, msg) \<Rightarrow>
               (if sel_event e = None then Err e else Ok (), record_event t reason msg h)
           | None \<Rightarrow>
               (if is_skip_key e \<or> is_conflict (Some e) then (Err e, h)
                else (Err e, record_event ''Warning'' ''InternalError'' (err_text e) h))))"

definition sync_status ::
  "env \<Rightarrow> reconciler_impl \<Rightarrow> run_state \<Rightarrow> gitlab_source \<Rightarrow> gitlab_source \<Rightarrow> history \<Rightarrow>
   goerr option \<times> history" where
  "sync_status en im s original src h =
     (if im_skip_status im then (None, h)
      else if src_status original = src_status src then (None, h)
      else if \<not> rs_is_leader s then (None, h)
      else (case update_status en original src h of
              (None, h') \<Rightarrow> (None, h')
            | (Some e, h') \<Rightarrow>
                (Some e, record_event ''Warning'' ''UpdateFailed''
                   (''Failed to update status for '' @ quote (om_name (src_meta src)) @ '': '' @ err_text e) h')))"

definition finish ::
  "env \<Rightarrow> reconciler_impl \<Rightarrow> run_state \<Rightarrow> gitlab_source \<Rightarrow> gitlab_source \<Rightarrow> goerr option \<Rightarrow> history \<Rightarrow>
   unit result \<times> history" where
  "finish en im s original src ev h =
     (case sync_status en im s original src h of
        (Some e, h') \<Rightarrow> (Err e, h')
      | (None, h') \<Rightarrow> report_event ev h')"

definition run_reconcile ::
  "env \<Rightarrow> reconciler_impl \<Rightarrow> kind_reconciler \<Rightarrow> run_state \<Rightarrow> kind_op \<Rightarrow> gitlab_source \<Rightarrow> history \<Rightarrow>
   unit result \<times> history" where
  "run_reconcile en im kr s f original h =
     (case set_finalizer_if_finalizer en im kr original h of
        (Inl e, h1) \<Rightarrow> (Err (ErrWrap ''failed to set finalizers: '' e), h1)
      | (Inr src, h1) \<Rightarrow>
          (let (src1, h2) = (if im_skip_status im then (src, h1) else pre_process en src h1)
           in case f src1 h2 of
                (Panic m, _, h3) \<Rightarrow> (Panic m, h3)
              | (r, src2, h3) \<Rightarrow>
                  (let (src3, h4) = (if im_skip_status im then (src2, h3)
                                     else post_process en src2 original h3)
                   in finish en im s original src3 (event_of_result r) h4)))"

definition run_finalize ::
  "env \<Rightarrow> reconciler_impl \<Rightarrow> kind_reconciler \<Rightarrow> run_state \<Rightarrow> kind_op \<Rightarrow> gitlab_source \<Rightarrow> history \<Rightarrow>
   unit result \<times> history" where
  "run_finalize en im kr s f original h =
     (case f original h of
        (Panic m, _, h1) \<Rightarrow> (Panic m, h1)
      | (r, src1, h1) \<Rightarrow>
          (case clear_finalizer en im kr src1 (event_of_result r) h1 of
             (Inl e, h2) \<Rightarrow> (Err (ErrWrap ''failed to clear finalizers: '' e), h2)
           | (Inr src2, h2) \<Rightarrow> finish en im s original src2 (event_of_result r) h2))"

definition run_observe ::
  "env \<Rightarrow> reconciler_impl \<Rightarrow> run_state \<Rightarrow> kind_op \<Rightarrow> gitlab_source \<Rightarrow> history \<Rightarrow>
   unit result \<times> history" where
  "run_observe en im s f original h =
     (case f original h of
        (Panic m, _, h1) \<Rightarrow> (Panic m, h1)
      | (r, src1, h1) \<Rightarrow> finish en im s original src1 (event_of_result r) h1)"

definition as_result :: "goerr option \<Rightarrow> unit result" where
  "as_result err = (case err of None \<Rightarrow> Ok () | Some e \<Rightarrow> Err e)"

definition reconcile ::
  "env \<Rightarrow> reconciler_impl \<Rightarrow> kind_reconciler \<Rightarrow> string \<Rightarrow> history \<Rightarrow> unit result \<times> history" where
  "reconcile en im kr key h =
     (case new_state key im kr of
        Inl _ \<Rightarrow> (Ok (), h)
      | Inr s \<Rightarrow>
          (if is_not_leader_nor_observer s then (Err (SkipKeyErr key), h)
           else
             (case ask (\<lambda>h. e_lister_get en h (rs_namespace s) (rs_name s))
                     (ListerGet (rs_namespace s) (rs_name s)) h of
                (Inl e, h1) \<Rightarrow>
                  (if is_not_found (Some e)
                   then (case kr_observe_deletion kr of
                           None \<Rightarrow> (Ok (), h1)
                         | Some del \<Rightarrow>
                             (let (err, h2) = del (rs_namespace s) (rs_name s) h1 in (as_result err, h2)))
                   else (Err e, h1))
              | (Inr original, h1) \<Rightarrow>
                  (case reconcile_method_for s kr original of
                     DoReconcileKind f \<Rightarrow> run_reconcile en im kr s f original h1
                   | DoFinalizeKind f \<Rightarrow> run_finalize en im kr s f original h1
                   | DoObserveKind f \<Rightarrow> run_observe en im s f original h1
                   | DoNothing \<Rightarrow> finish en im s original original None h1))))"

end
