(* ===== verification/Secrets.thy ===== *)
theory Secrets
  imports World
begin

section \<open>Reading Kubernetes Secrets\<close>

text \<open>
  \<^verbatim>\<open>pkg/secret/secret.go\<close>: a getter returns one value per selector and fetches each Secret object
  once, through a cache that lives for one call. The loop over the selectors carries the cache,
  the values collected so far and the history of requests.
\<close>

text \<open>\<^verbatim>\<open>string(secr.Data[key])\<close>: a missing key reads as the empty string.\<close>

definition data_value :: "secret_data \<Rightarrow> string \<Rightarrow> string" where
  "data_value d k = (case map_of d k of None \<Rightarrow> [] | Some v \<Rightarrow> v)"

definition get_secret :: "env \<Rightarrow> string \<Rightarrow> string \<Rightarrow> history \<Rightarrow> (goerr + secret_data) \<times> history" where
  "get_secret en ns name h = ask (\<lambda>h. e_get_secret en h ns name) (GetSecret ns name) h"

fun get_secrets_loop ::
  "env \<Rightarrow> string \<Rightarrow> (string \<rightharpoonup> secret_data) \<Rightarrow> string list \<Rightarrow> secret_key_selector option list \<Rightarrow>
   history \<Rightarrow> (goerr + string list) \<times> history" where
  "get_secrets_loop en ns cache s [] h = (Inr s, h)"
| "get_secrets_loop en ns cache s (None # refs) h =
     get_secrets_loop en ns cache (s @ [[]]) refs h"
| "get_secrets_loop en ns cache s (Some ref # refs) h =
     (case cache (sks_name ref) of
        Some secr \<Rightarrow>
          get_secrets_loop en ns cache (s @ [data_value secr (sks_key ref)]) refs h
      | None \<Rightarrow>
          (case get_secret en ns (sks_name ref) h of
             (Inl e, h') \<Rightarrow>
               (Inl (ErrWrap (''getting Secret '' @ quote (sks_name ref) @ '' from cluster: '') e), h')
           | (Inr secr, h') \<Rightarrow>
               get_secrets_loop en ns (cache(sks_name ref \<mapsto> secr))
                 (s @ [data_value secr (sks_key ref)]) refs h'))"

definition get_secrets ::
  "env \<Rightarrow> string \<Rightarrow> secret_key_selector option list \<Rightarrow> history \<Rightarrow>
   (goerr + string list) \<times> history" where
  "get_secrets en ns refs h = get_secrets_loop en ns Map.empty [] refs h"

subsection \<open>The contract of a getter\<close>

text \<open>
  The interface \<^verbatim>\<open>secret.Getter\<close> promises exactly one value per input. A client that asks for a
  fixed number of values then indexes them without a bounds check.
\<close>

locale secret_getter =
  fixes getter :: "secret_key_selector option list \<Rightarrow> 's \<Rightarrow> (goerr + string list) \<times> 's"
  assumes one_per_input: "getter refs s = (Inr vals, s') \<Longrightarrow> length vals = length refs"
    and nil_is_empty: "getter refs s = (Inr vals, s') \<Longrightarrow> i < length refs \<Longrightarrow> refs ! i = None \<Longrightarrow>
      vals ! i = []"
begin

lemma two_values:
  assumes "getter [a, b] s = (Inr vals, s')"
  obtains x y where "vals = [x, y]"
  using one_per_input [OF assms] that by (auto simp: length_Suc_conv)

lemma two_values_nil:
  assumes "getter [a, None] s = (Inr vals, s')"
  shows "vals ! 1 = []"
  by (rule nil_is_empty [OF assms]) simp_all

end

subsection \<open>The getter meets its contract\<close>

lemma get_secrets_loop_Some:
  "get_secrets_loop en ns cache s (Some ref # refs) h =
     (case cache (sks_name ref) of
        Some secr \<Rightarrow> get_secrets_loop en ns cache (s @ [data_value secr (sks_key ref)]) refs h
      | None \<Rightarrow>
          (case e_get_secret en h ns (sks_name ref) of
             Inl e \<Rightarrow>
               (Inl (ErrWrap (''getting Secret '' @ quote (sks_name ref) @ '' from cluster: '') e),
                h @ [GetSecret ns (sks_name ref)])
           | Inr secr \<Rightarrow>
               get_secrets_loop en ns (cache(sks_name ref \<mapsto> secr))
                 (s @ [data_value secr (sks_key ref)]) refs (h @ [GetSecret ns (sks_name ref)])))"
  by (simp add: get_secret_def ask_def split: option.split sum.split)

declare get_secrets_loop.simps(3) [simp del]
declare get_secrets_loop_Some [simp]

text \<open>A step of the loop appends one value, which stays where it is.\<close>

lemma get_secrets_loop_values:
  "get_secrets_loop en ns cache s refs h = (Inr vals, h') \<Longrightarrow>
   \<exists>ws. vals = s @ ws \<and> length ws = length refs \<and>
     (\<forall>i < length refs. refs ! i = None \<longrightarrow> ws ! i = [])"
proof (induction refs arbitrary: cache s h)
  case (Cons r refs)
  obtain v cache' h1 where step: "get_secrets_loop en ns cache' (s @ [v]) refs h1 = (Inr vals, h')"
    and v: "r = None \<longrightarrow> v = []"
    using Cons.prems by (cases r) (auto split: option.splits sum.splits)
  from Cons.IH [OF step] obtain ws where "vals = (s @ [v]) @ ws" "length ws = length refs"
    "\<forall>i < length refs. refs ! i = None \<longrightarrow> ws ! i = []" by blast
  with v show ?case by (intro exI [of _ "v # ws"]) (auto simp: nth_Cons split: nat.split)
qed simp

interpretation k8s_secrets: secret_getter "get_secrets en ns" for en ns
  by unfold_locales (auto simp: get_secrets_def dest!: get_secrets_loop_values)

subsection \<open>One round trip per Secret\<close>

fun selected_names :: "secret_key_selector option list \<Rightarrow> string list" where
  "selected_names [] = []"
| "selected_names (None # refs) = selected_names refs"
| "selected_names (Some r # refs) = sks_name r # selected_names refs"

text \<open>
  The requests of a call: \<open>GetSecret\<close> for pairwise distinct names, all of them selected and none
  of them already cached; after success, every selected name was cached or fetched.
\<close>

lemma get_secrets_loop_requests:
  "get_secrets_loop en ns cache s refs h = (r, h') \<Longrightarrow>
   \<exists>names. h' = h @ map (GetSecret ns) names \<and> distinct names \<and>
     set names \<subseteq> set (selected_names refs) - dom cache \<and>
     (\<forall>vals. r = Inr vals \<longrightarrow> set (selected_names refs) \<subseteq> dom cache \<union> set names)"
proof (induction refs arbitrary: cache s h)
  case Nil
  then show ?case by (auto intro: exI [of _ "[]"])
next
  case (Cons x refs)
  show ?case
  proof (cases x)
    case None
    with Cons show ?thesis by simp
  next
    case ref: (Some ref)
    show ?thesis
    proof (cases "cache (sks_name ref)")
      case (Some secr)
      with ref Cons.prems Cons.IH obtain names where
        "h' = h @ map (GetSecret ns) names" "distinct names"
        "set names \<subseteq> set (selected_names refs) - dom cache"
        "\<forall>vals. r = Inr vals \<longrightarrow> set (selected_names refs) \<subseteq> dom cache \<union> set names"
        by fastforce
      with Some ref show ?thesis by (intro exI [of _ names]) auto
    next
      case fresh: None
      show ?thesis
      proof (cases "e_get_secret en h ns (sks_name ref)")
        case (Inl e)
        with ref fresh Cons.prems have "r = Inl (ErrWrap
            (''getting Secret '' @ quote (sks_name ref) @ '' from cluster: '') e)"
          and "h' = h @ [GetSecret ns (sks_name ref)]" by auto
        with ref fresh show ?thesis by (intro exI [of _ "[sks_name ref]"]) auto
      next
        case (Inr secr)
        let ?c = "cache(sks_name ref \<mapsto> secr)" and ?h = "h @ [GetSecret ns (sks_name ref)]"
        have "get_secrets_loop en ns ?c (s @ [data_value secr (sks_key ref)]) refs ?h = (r, h')"
          using ref fresh Inr Cons.prems by simp
        from Cons.IH [OF this] obtain names where
          "h' = ?h @ map (GetSecret ns) names" "distinct names"
          "set names \<subseteq> set (selected_names refs) - dom ?c"
          "\<forall>vals. r = Inr vals \<longrightarrow> set (selected_names refs) \<subseteq> dom ?c \<union> set names"
          by blast
        with ref fresh show ?thesis by (intro exI [of _ "sks_name ref # names"]) auto
      qed
    qed
  qed
qed

lemma get_secrets_requests:
  "get_secrets en ns refs h = (r, h') \<Longrightarrow>
   \<exists>names. h' = h @ map (GetSecret ns) names \<and> distinct names \<and>
     set names \<subseteq> set (selected_names refs) \<and>
     (\<forall>vals. r = Inr vals \<longrightarrow> set names = set (selected_names refs))"
  using get_secrets_loop_requests [of en ns Map.empty "[]" refs h r h']
  by (auto simp: get_secrets_def)

lemma gitlab_calls_get_secrets [simp]: "gitlab_calls (map (GetSecret ns) names) = []"
  by (induction names) auto

lemma get_secrets_gitlab: "gitlab_calls (snd (get_secrets en ns refs h)) = gitlab_calls h"
  using get_secrets_requests [of en ns refs h "fst (get_secrets en ns refs h)"
      "snd (get_secrets en ns refs h)"] by auto

subsection \<open>The cache does not change the values\<close>

text \<open>
  The reference: fetch for every selector. \<open>stable en ns h\<close> says the API server gives the same
  answer for a Secret at every point of the call.
\<close>

fun fetch_all ::
  "env \<Rightarrow> string \<Rightarrow> history \<Rightarrow> secret_key_selector option list \<Rightarrow> goerr + string list" where
  "fetch_all en ns h [] = Inr []"
| "fetch_all en ns h (None # refs) =
     (case fetch_all en ns h refs of Inl e \<Rightarrow> Inl e | Inr vs \<Rightarrow> Inr ([] # vs))"
| "fetch_all en ns h (Some ref # refs) =
     (case e_get_secret en h ns (sks_name ref) of
        Inl e \<Rightarrow>
          Inl (ErrWrap (''getting Secret '' @ quote (sks_name ref) @ '' from cluster: '') e)
      | Inr secr \<Rightarrow>
          (case fetch_all en ns h refs of
             Inl e \<Rightarrow> Inl e | Inr vs \<Rightarrow> Inr (data_value secr (sks_key ref) # vs)))"

definition stable :: "env \<Rightarrow> string \<Rightarrow> history \<Rightarrow> bool" where
  "stable en ns h \<longleftrightarrow>
     (\<forall>names n. e_get_secret en (h @ map (GetSecret ns) names) ns n = e_get_secret en h ns n)"

lemma get_secrets_loop_fetch_all:
  "stable en ns h0 \<Longrightarrow> h = h0 @ map (GetSecret ns) names \<Longrightarrow>
   (\<forall>n d. cache n = Some d \<longrightarrow> e_get_secret en h0 ns n = Inr d) \<Longrightarrow>
   fst (get_secrets_loop en ns cache s refs h) =
     (case fetch_all en ns h0 refs of Inl e \<Rightarrow> Inl e | Inr vs \<Rightarrow> Inr (s @ vs))"
proof (induction refs arbitrary: cache s h names)
  case (Cons x refs)
  show ?case
  proof (cases x)
    case None
    with Cons.IH [OF Cons.prems] show ?thesis by (simp split: sum.split)
  next
    case ref: (Some ref)
    have e: "e_get_secret en h ns n = e_get_secret en h0 ns n" for n
      using Cons.prems(1,2) by (simp add: stable_def)
    show ?thesis
    proof (cases "cache (sks_name ref)")
      case (Some secr)
      with ref Cons.IH [OF Cons.prems] Cons.prems(3) show ?thesis by (simp split: sum.split)
    next
      case fresh: None
      show ?thesis
      proof (cases "e_get_secret en h0 ns (sks_name ref)")
        case (Inl x)
        with ref fresh e show ?thesis by simp
      next
        case (Inr secr)
        have "fst (get_secrets_loop en ns (cache(sks_name ref \<mapsto> secr))
            (s @ [data_value secr (sks_key ref)]) refs (h @ [GetSecret ns (sks_name ref)])) =
          (case fetch_all en ns h0 refs of Inl e \<Rightarrow> Inl e
           | Inr vs \<Rightarrow> Inr ((s @ [data_value secr (sks_key ref)]) @ vs))"
          by (rule Cons.IH [where names = "names @ [sks_name ref]"])
            (use Cons.prems Inr in auto)
        with ref fresh Inr e show ?thesis by (simp split: sum.split)
      qed
    qed
  qed
qed simp

lemma get_secrets_fetch_all: "stable en ns h \<Longrightarrow> fst (get_secrets en ns refs h) = fetch_all en ns h refs"
  using get_secrets_loop_fetch_all [of en ns h h "[]" Map.empty "[]" refs]
  by (simp add: get_secrets_def split: sum.splits)

end
