(* ===== verification/WebhookClient.thy ===== *)
theory WebhookClient
  imports SourceApi Secrets
begin

section \<open>The webhook client\<close>

text \<open>
  \<^verbatim>\<open>pkg/client/gitlab/webhook_client.go\<close>: the client for the hooks of one GitLab project and the
  getter that builds it from a source's project URL and Secrets. Below the client is the GitLab
  API, the answers \<open>e_gitlab\<close> of the environment; the vendored client's \<^verbatim>\<open>Do\<close> and
  \<^verbatim>\<open>CheckResponse\<close> turn an answer into an error.
\<close>

record webhook_client =
  wc_cli :: gl_client
  wc_project :: string
  wc_secret_token :: "string option"

subsection \<open>Hook options\<close>

definition empty_hook_options :: hook_options where
  "empty_hook_options =
     \<lparr>ho_url = None, ho_ssl_verification = None, ho_token = None,
      ho_confidential_issues = None, ho_confidential_note = None, ho_deployment = None,
      ho_issues = None, ho_job = None, ho_merge_requests = None, ho_note = None,
      ho_pipeline = None, ho_push = None, ho_tag_push = None, ho_wiki_page = None\<rparr>"

text \<open>The body of the loop over the event types, the same switch in \<^verbatim>\<open>Add\<close> and \<^verbatim>\<open>Edit\<close>.\<close>

definition enable_event :: "string \<Rightarrow> hook_options \<Rightarrow> hook_options" where
  "enable_event t opts =
     (if t = GitLabWebhookConfidentialIssues then opts\<lparr>ho_confidential_issues := Some True\<rparr>
      else if t = GitLabWebhookConfidentialNote then opts\<lparr>ho_confidential_note := Some True\<rparr>
      else if t = GitLabWebhookIssues then opts\<lparr>ho_issues := Some True\<rparr>
      else if t = GitLabWebhookJob then opts\<lparr>ho_job := Some True\<rparr>
      else if t = GitLabWebhookMergeRequests then opts\<lparr>ho_merge_requests := Some True\<rparr>
      else if t = GitLabWebhookNote then opts\<lparr>ho_note := Some True\<rparr>
      else if t = GitLabWebhookPipeline then opts\<lparr>ho_pipeline := Some True\<rparr>
      else if t = GitLabWebhookPush then opts\<lparr>ho_push := Some True\<rparr>
      else if t = GitLabWebhookTagPush then opts\<lparr>ho_tag_push := Some True\<rparr>
      else if t = GitLabWebhookWikiPage then opts\<lparr>ho_wiki_page := Some True\<rparr>
      else opts)"

definition add_hook_options :: "string option \<Rightarrow> string list \<Rightarrow> url option \<Rightarrow> bool \<Rightarrow> hook_options" where
  "add_hook_options token hook_types webhook_url tls =
     fold enable_event hook_types
       (empty_hook_options
          \<lparr>ho_url := Some (url_string webhook_url), ho_ssl_verification := Some tls,
           ho_token := token\<rparr>)"

definition edit_hook_options :: "string option \<Rightarrow> string list \<Rightarrow> url option \<Rightarrow> bool \<Rightarrow> hook_options" where
  "edit_hook_options token hook_types webhook_url tls =
     fold enable_event hook_types
       (empty_hook_options
          \<lparr>ho_url := Some (url_string webhook_url), ho_ssl_verification := Some tls,
           ho_token := token,
           ho_confidential_issues := Some False, ho_confidential_note := Some False,
           ho_issues := Some False, ho_job := Some False, ho_merge_requests := Some False,
           ho_note := Some False, ho_pipeline := Some False, ho_push := Some False,
           ho_tag_push := Some False, ho_wiki_page := Some False\<rparr>)"

subsection \<open>Calls\<close>

text \<open>
  A request of the history is a call of the vendored client's \<^verbatim>\<open>Do\<close> with all its attempts: after status 429 or 5xx the
  client sends it again, five times at most, the addition of a hook included. The answer is that of the last attempt.
  What earlier attempts did is the environment's: nothing in a GitLab whose failed requests change nothing, which is what
  the hypotheses about GitLab say.
\<close>

definition gl_call :: "env \<Rightarrow> gl_request \<Rightarrow> history \<Rightarrow> (goerr + int) \<times> history" where
  "gl_call en q h =
     (case ask (\<lambda>h. e_gitlab en h q) (GitLab q) h of
        (GlFailed m, h') \<Rightarrow> (Inl (ErrText m), h')
      | (GlResponse status m hook, h') \<Rightarrow>
          (case check_response status m of
             Some e \<Rightarrow> (Inl e, h') | None \<Rightarrow> (Inr hook, h')))"

definition wc_get :: "env \<Rightarrow> webhook_client \<Rightarrow> int \<Rightarrow> history \<Rightarrow> (goerr + int) \<times> history" where
  "wc_get en c hook h =
     (case gl_call en (GlGetHook (wc_cli c) (wc_project c) hook) h of
        (Inl e, h') \<Rightarrow>
          (Inl (ErrWrap (''getting webhook from project '' @ quote (wc_project c) @ '': '') e), h')
      | (Inr i, h') \<Rightarrow> (Inr i, h'))"

definition wc_add ::
  "env \<Rightarrow> webhook_client \<Rightarrow> string list \<Rightarrow> url option \<Rightarrow> bool \<Rightarrow> history \<Rightarrow>
   (goerr + int) \<times> history" where
  "wc_add en c hook_types webhook_url tls h =
     (case gl_call en (GlAddHook (wc_cli c) (wc_project c)
             (add_hook_options (wc_secret_token c) hook_types webhook_url tls)) h of
        (Inl e, h') \<Rightarrow>
          (Inl (ErrWrap (''adding webhook to project '' @ quote (wc_project c) @ '': '') e), h')
      | (Inr i, h') \<Rightarrow> (Inr i, h'))"

definition wc_edit ::
  "env \<Rightarrow> webhook_client \<Rightarrow> int \<Rightarrow> string list \<Rightarrow> url option \<Rightarrow> bool \<Rightarrow> history \<Rightarrow>
   goerr option \<times> history" where
  "wc_edit en c hook hook_types webhook_url tls h =
     (case gl_call en (GlEditHook (wc_cli c) (wc_project c) hook
             (edit_hook_options (wc_secret_token c) hook_types webhook_url tls)) h of
        (Inl e, h') \<Rightarrow>
          (Some (ErrWrap (''editing webhook in project '' @ quote (wc_project c) @ '': '') e), h')
      | (Inr _, h') \<Rightarrow> (None, h'))"

definition wc_delete :: "env \<Rightarrow> webhook_client \<Rightarrow> int \<Rightarrow> history \<Rightarrow> goerr option \<times> history" where
  "wc_delete en c hook h =
     (case gl_call en (GlDeleteHook (wc_cli c) (wc_project c) hook) h of
        (Inl e, h') \<Rightarrow>
          (Some (ErrWrap (''deleting webhook from project '' @ quote (wc_project c) @ '': '') e), h')
      | (Inr _, h') \<Rightarrow> (None, h'))"

subsection \<open>Building a client\<close>

text \<open>
  \<^verbatim>\<open>splitGitLabProjectURL\<close>. The slice expression \<^verbatim>\<open>u.Path[1:]\<close> panics on an empty path.
\<close>

definition split_project_url ::
  "(string \<Rightarrow> goerr option) \<Rightarrow> string \<Rightarrow> (string \<times> string) result" where
  "split_project_url auth project_url =
     (case url_parse auth project_url of
        Inl e \<Rightarrow> Err (ErrWrap (''parsing project URL '' @ quote project_url @ '': '') e)
      | Inr u \<Rightarrow>
          (if pu_path u = [] then Panic ''runtime error: slice bounds out of range [1:0]''
           else (let project = drop 1 (pu_path u)
                 in Ok (trim_suffix project_url project, project))))"

text \<open>
  \<^verbatim>\<open>gitlab.NewClient(token, gitlab.WithBaseURL(base))\<close> of the vendored client: the base URL gets
  a trailing slash and the path of the API's version.
\<close>

definition api_version_path :: string where
  "api_version_path = ''api/v4/''"

definition new_gitlab_client ::
  "(string \<Rightarrow> goerr option) \<Rightarrow> string \<Rightarrow> string \<Rightarrow> goerr + gl_client" where
  "new_gitlab_client auth token base =
     (let base' = (if has_suffix base ''/'' then base else base @ ''/'')
      in case url_parse auth base' of
           Inl e \<Rightarrow> Inl e
         | Inr u \<Rightarrow>
             Inr \<lparr>gl_base_url =
                    (if has_suffix (pu_path u) api_version_path then u
                     else u\<lparr>pu_path := pu_path u @ api_version_path\<rparr>),
                  gl_token = token\<rparr>)"

definition client_for ::
  "env \<Rightarrow> string \<Rightarrow> string \<Rightarrow> string list \<Rightarrow> webhook_client result" where
  "client_for en base project secrets =
     (case (index_slice secrets 0, index_slice secrets 1) of
        (Ok api_token, Ok secret_token) \<Rightarrow>
          (case new_gitlab_client (e_auth en) api_token base of
             Inl e \<Rightarrow> Err (ErrWrap ''creating a GitLab client: '' e)
           | Inr cli \<Rightarrow>
               Ok \<lparr>wc_cli = cli, wc_project = project,
                   wc_secret_token = (if secret_token \<noteq> [] then Some secret_token else None)\<rparr>)
      | (Panic m, _) \<Rightarrow> Panic m
      | (_, Panic m) \<Rightarrow> Panic m
      | (Err e, _) \<Rightarrow> Err e
      | (_, Err e) \<Rightarrow> Err e)"

definition get_webhook_client ::
  "env \<Rightarrow> gitlab_source \<Rightarrow> history \<Rightarrow> webhook_client result \<times> history" where
  "get_webhook_client en src h =
     (case split_project_url (e_auth en) (spec_project_url (src_spec src)) of
        Err e \<Rightarrow> (Err (ErrWrap ''reading components from the given project URL: '' e), h)
      | Panic m \<Rightarrow> (Panic m, h)
      | Ok (base, project) \<Rightarrow>
          (case get_secrets en (om_namespace (src_meta src))
                  [spec_access_token (src_spec src), spec_secret_token (src_spec src)] h of
             (Inl e, h') \<Rightarrow> (Err (ErrWrap ''retrieving user-provided GitLab secrets: '' e), h')
           | (Inr secrets, h') \<Rightarrow> (client_for en base project secrets, h')))"

subsection \<open>The interface\<close>

text \<open>
  The Go interfaces \<^verbatim>\<open>WebhookClientGetter\<close> and \<^verbatim>\<open>WebhookClient\<close>, as the table of the operations the
  reconciler calls, and this package's implementation of it.
\<close>

record 'c webhook_iface =
  wi_client :: "gitlab_source \<Rightarrow> history \<Rightarrow> 'c result \<times> history"
  wi_get :: "'c \<Rightarrow> int \<Rightarrow> history \<Rightarrow> (goerr + int) \<times> history"
  wi_add :: "'c \<Rightarrow> string list \<Rightarrow> url option \<Rightarrow> bool \<Rightarrow> history \<Rightarrow> (goerr + int) \<times> history"
  wi_edit :: "'c \<Rightarrow> int \<Rightarrow> string list \<Rightarrow> url option \<Rightarrow> bool \<Rightarrow> history \<Rightarrow> goerr option \<times> history"
  wi_delete :: "'c \<Rightarrow> int \<Rightarrow> history \<Rightarrow> goerr option \<times> history"

definition gitlab_iface :: "env \<Rightarrow> webhook_client webhook_iface" where
  "gitlab_iface en =
     \<lparr>wi_client = get_webhook_client en, wi_get = wc_get en, wi_add = wc_add en,
      wi_edit = wc_edit en, wi_delete = wc_delete en\<rparr>"


subsection \<open>Facts: hook options\<close>

definition supported_webhooks :: "string list" where
  "supported_webhooks =
     [GitLabWebhookConfidentialIssues, GitLabWebhookConfidentialNote, GitLabWebhookIssues,
      GitLabWebhookJob, GitLabWebhookMergeRequests, GitLabWebhookNote, GitLabWebhookPipeline,
      GitLabWebhookPush, GitLabWebhookTagPush, GitLabWebhookWikiPage]"

definition hook_flag :: "hook_options \<Rightarrow> string \<Rightarrow> bool option" where
  "hook_flag opts t =
     (if t = GitLabWebhookConfidentialIssues then ho_confidential_issues opts
      else if t = GitLabWebhookConfidentialNote then ho_confidential_note opts
      else if t = GitLabWebhookDeployment then ho_deployment opts
      else if t = GitLabWebhookIssues then ho_issues opts
      else if t = GitLabWebhookJob then ho_job opts
      else if t = GitLabWebhookMergeRequests then ho_merge_requests opts
      else if t = GitLabWebhookNote then ho_note opts
      else if t = GitLabWebhookPipeline then ho_pipeline opts
      else if t = GitLabWebhookPush then ho_push opts
      else if t = GitLabWebhookTagPush then ho_tag_push opts
      else if t = GitLabWebhookWikiPage then ho_wiki_page opts
      else None)"

text \<open>The names of the webhooks, as constructors a case split can use.\<close>

lemma supported_webhooks_distinct: "distinct (GitLabWebhookDeployment # supported_webhooks)"
  by (simp add: supported_webhooks_def webhook_defs)

lemma hook_flag_enable:
  "hook_flag (enable_event t opts) w =
     (if t = w \<and> w \<in> set supported_webhooks then Some True else hook_flag opts w)"
proof (cases "t \<in> set supported_webhooks")
  case True
  then show ?thesis
    using supported_webhooks_distinct
    by (auto simp: supported_webhooks_def hook_flag_def enable_event_def)
next
  case False
  then have "enable_event t opts = opts"
    by (simp add: supported_webhooks_def enable_event_def)
  with False show ?thesis by auto
qed

lemma hook_flag_fold:
  "hook_flag (fold enable_event ts opts) w =
     (if w \<in> set ts \<and> w \<in> set supported_webhooks then Some True else hook_flag opts w)"
  by (induction ts arbitrary: opts) (auto simp: hook_flag_enable)

lemma enable_event_fields [simp]:
  "ho_url (enable_event t opts) = ho_url opts"
  "ho_ssl_verification (enable_event t opts) = ho_ssl_verification opts"
  "ho_token (enable_event t opts) = ho_token opts"
  by (simp_all add: enable_event_def)

lemma enable_fold_fields [simp]:
  "ho_url (fold enable_event ts opts) = ho_url opts"
  "ho_ssl_verification (fold enable_event ts opts) = ho_ssl_verification opts"
  "ho_token (fold enable_event ts opts) = ho_token opts"
  by (induction ts arbitrary: opts) simp_all

lemma add_options_fields [simp]:
  "ho_url (add_hook_options token ts u tls) = Some (url_string u)"
  "ho_ssl_verification (add_hook_options token ts u tls) = Some tls"
  "ho_token (add_hook_options token ts u tls) = token"
  by (simp_all add: add_hook_options_def)

lemma edit_options_fields [simp]:
  "ho_url (edit_hook_options token ts u tls) = Some (url_string u)"
  "ho_ssl_verification (edit_hook_options token ts u tls) = Some tls"
  "ho_token (edit_hook_options token ts u tls) = token"
  by (simp_all add: edit_hook_options_def)

lemma add_options_flags:
  "hook_flag (add_hook_options token ts u tls) w =
     (if w \<in> set ts \<and> w \<in> set supported_webhooks then Some True else None)"
  by (simp add: add_hook_options_def hook_flag_fold) (simp add: hook_flag_def empty_hook_options_def)

lemma edit_options_flags:
  "hook_flag (edit_hook_options token ts u tls) w =
     (if w \<in> set supported_webhooks then Some (w \<in> set ts) else None)"
  by (simp add: edit_hook_options_def hook_flag_fold)
    (simp add: hook_flag_def empty_hook_options_def supported_webhooks_def webhook_defs)

subsection \<open>Facts: calls\<close>

lemma gl_call_history [simp]: "snd (gl_call en q h) = h @ [GitLab q]"
  by (simp add: gl_call_def ask_def split: gl_response.split option.split)

lemma gl_call_ok:
  "gl_call en q h = (Inr i, h') \<longleftrightarrow>
     h' = h @ [GitLab q] \<and>
     (\<exists>s m. e_gitlab en h q = GlResponse s m i \<and> s \<in> {200, 201, 202, 204, 304})"
  by (auto simp: gl_call_def ask_def check_response_def split: gl_response.splits)

lemma gl_call_history': "gl_call en q h = (r, h') \<Longrightarrow> h' = h @ [GitLab q]"
  using gl_call_history [of en q h] by simp

text \<open>
  The vendored client has no \<^verbatim>\<open>*ErrorResponse\<close> for status 404, so no error of a call is one.
\<close>

lemma gl_call_not_404:
  "gl_call en q h = (Inl e, h') \<Longrightarrow> errors_as sel_gitlab e \<noteq> Some 404"
  by (auto simp: gl_call_def ask_def err_simps dest: check_response_never_404
      split: gl_response.splits option.splits)

lemma wc_history [simp]:
  "snd (wc_get en c i h) = h @ [GitLab (GlGetHook (wc_cli c) (wc_project c) i)]"
  "snd (wc_add en c ts u tls h) =
     h @ [GitLab (GlAddHook (wc_cli c) (wc_project c) (add_hook_options (wc_secret_token c) ts u tls))]"
  "snd (wc_edit en c i ts u tls h) =
     h @ [GitLab (GlEditHook (wc_cli c) (wc_project c) i
            (edit_hook_options (wc_secret_token c) ts u tls))]"
  "snd (wc_delete en c i h) = h @ [GitLab (GlDeleteHook (wc_cli c) (wc_project c) i)]"
  by (auto simp: wc_get_def wc_add_def wc_edit_def wc_delete_def dest: gl_call_history'
      split: prod.split sum.split)

lemma wc_get_not_404: "wc_get en c i h = (Inl e, h') \<Longrightarrow> errors_as sel_gitlab e \<noteq> Some 404"
  by (auto simp: wc_get_def dest: gl_call_not_404 split: prod.splits sum.splits)

subsection \<open>Facts: building a client\<close>

text \<open>
  Indexing the two values cannot panic, by the getter's contract: the client getter panics only
  where the URL is split.
\<close>

lemma client_for_two: "\<not> is_panic (client_for en base project [a, b])"
  by (simp add: client_for_def index_slice_def is_panic_def split: sum.split)

lemma get_webhook_client_panic:
  "is_panic (fst (get_webhook_client en src h)) \<longleftrightarrow>
     is_panic (split_project_url (e_auth en) (spec_project_url (src_spec src)))"
proof (cases "split_project_url (e_auth en) (spec_project_url (src_spec src))")
  case (Ok bp)
  obtain base project where bp: "bp = (base, project)" by fastforce
  let ?g = "get_secrets en (om_namespace (src_meta src))
    [spec_access_token (src_spec src), spec_secret_token (src_spec src)] h"
  obtain r h' where g: "?g = (r, h')" by fastforce
  show ?thesis
  proof (cases r)
    case (Inl e)
    with Ok bp g show ?thesis by (simp add: get_webhook_client_def is_panic_def)
  next
    case (Inr vals)
    with g have "?g = (Inr vals, h')" by simp
    then obtain a b where "vals = [a, b]" by (rule k8s_secrets.two_values)
    with Ok bp g Inr client_for_two [of en base project a b] show ?thesis
      by (simp add: get_webhook_client_def is_panic_def)
  qed
qed (simp_all add: get_webhook_client_def is_panic_def)

lemma get_webhook_client_gitlab:
  "gitlab_calls (snd (get_webhook_client en src h)) = gitlab_calls h"
  using get_secrets_gitlab [of en "om_namespace (src_meta src)"
      "[spec_access_token (src_spec src), spec_secret_token (src_spec src)]" h]
  by (auto simp: get_webhook_client_def split: result.split prod.split sum.split)

lemma split_project_url_plain:
  assumes "plain_web_url scheme authority (CHR ''/'' # project)" and "auth authority = None"
  shows "split_project_url auth (scheme @ ''://'' @ authority @ CHR ''/'' # project) =
    Ok (scheme @ ''://'' @ authority @ ''/'', project)"
proof -
  have "trim_suffix ((scheme @ ''://'' @ authority @ ''/'') @ project) project =
      scheme @ ''://'' @ authority @ ''/''"
    by (rule trim_suffix_append)
  then show ?thesis
    using url_parse_web [where path = "CHR ''/'' # project" and auth = auth and scheme = scheme
        and authority = authority, OF assms]
    by (simp add: split_project_url_def)
qed

end
