(* ===== verification/WebhookService.thy ===== *)
theory WebhookService
  imports WebhookClient
begin

section \<open>The webhook service: what a webhook client promises\<close>

text \<open>
  The contract between the reconciler and its webhook client, stated over the hooks a GitLab
  project has: \<open>hooks c s\<close> maps the identifiers of the hooks of the project client \<open>c\<close> works on
  to their configuration. The contract is met by the client of \<open>WebhookClient\<close> on top of any
  GitLab that behaves as its API documentation says (\<open>gitlab_documented\<close>).
\<close>

subsection \<open>Configurations of hooks\<close>

record hook_config =
  hc_url :: string
  hc_ssl_verification :: bool
  hc_token :: "string option"
  hc_events :: "string \<Rightarrow> bool"

text \<open>A request sets the attributes it contains and leaves the others as they are.\<close>

definition apply_options :: "hook_config \<Rightarrow> hook_options \<Rightarrow> hook_config" where
  "apply_options cfg opts =
     \<lparr>hc_url = (case ho_url opts of Some u \<Rightarrow> u | None \<Rightarrow> hc_url cfg),
      hc_ssl_verification =
        (case ho_ssl_verification opts of Some b \<Rightarrow> b | None \<Rightarrow> hc_ssl_verification cfg),
      hc_token = (case ho_token opts of Some t \<Rightarrow> Some t | None \<Rightarrow> hc_token cfg),
      hc_events = (\<lambda>w. case hook_flag opts w of Some b \<Rightarrow> b | None \<Rightarrow> hc_events cfg w)\<rparr>"

text \<open>
  The configuration a source asks for, \<open>tok\<close> its secret token: the URL of the adapter, the flag
  for TLS verification and exactly the webhooks of the specification among the supported ones.
  The attributes outside of it (the token when there is none, other events) are those of \<open>cfg\<close>.
\<close>

definition desired_config ::
  "hook_config \<Rightarrow> string option \<Rightarrow> string list \<Rightarrow> url option \<Rightarrow> bool \<Rightarrow> hook_config" where
  "desired_config cfg tok ts u tls =
     \<lparr>hc_url = url_string u, hc_ssl_verification = tls,
      hc_token = (case tok of Some t \<Rightarrow> Some t | None \<Rightarrow> hc_token cfg),
      hc_events = (\<lambda>w. if w \<in> set supported_webhooks then w \<in> set ts else hc_events cfg w)\<rparr>"

text \<open>
  An edited hook is subscribed to the requested events of \<^verbatim>\<open>supportedWebhooks\<close> and no others of them. An added one is
  subscribed to the requested events and to those that GitLab switches on for a new hook, since \<^verbatim>\<open>Add\<close>
  mentions only the events to enable.
\<close>

definition added_config ::
  "hook_config \<Rightarrow> string option \<Rightarrow> string list \<Rightarrow> url option \<Rightarrow> bool \<Rightarrow> hook_config" where
  "added_config dflt tok ts u tls =
     \<lparr>hc_url = url_string u, hc_ssl_verification = tls,
      hc_token = (case tok of Some t \<Rightarrow> Some t | None \<Rightarrow> hc_token dflt),
      hc_events = (\<lambda>w. (w \<in> set supported_webhooks \<and> w \<in> set ts) \<or> hc_events dflt w)\<rparr>"

lemma apply_edit_options:
  "apply_options cfg (edit_hook_options tok ts u tls) = desired_config cfg tok ts u tls"
  by (simp add: apply_options_def desired_config_def edit_options_flags fun_eq_iff)

lemma apply_add_options:
  "apply_options dflt (add_hook_options tok ts u tls) = added_config dflt tok ts u tls"
  by (auto simp: apply_options_def added_config_def add_options_flags fun_eq_iff)

text \<open>Editing a hook twice with the same wishes is editing it once.\<close>

lemma desired_config_idem:
  "desired_config (desired_config cfg tok ts u tls) tok ts u tls = desired_config cfg tok ts u tls"
  by (simp add: desired_config_def fun_eq_iff split: option.split)

subsection \<open>The contract\<close>

locale webhook_service =
  fixes W :: "'c webhook_iface"
    and valid :: bool
    and hooks :: "'c \<Rightarrow> history \<Rightarrow> int \<Rightarrow> hook_config option"
    and token :: "'c \<Rightarrow> string option"
    and dflt :: hook_config
  assumes other_frame: "valid \<Longrightarrow> gitlab_request r = None \<Longrightarrow> hooks c (h @ [r]) = hooks c h"
    and client_frame: "valid \<Longrightarrow> hooks c (snd (wi_client W src h)) = hooks c h"
    and get_frame: "valid \<Longrightarrow> hooks c (snd (wi_get W c' i h)) = hooks c h"
    and get_found: "valid \<Longrightarrow> wi_get W c i h = (Inr j, h') \<Longrightarrow> hooks c h i \<noteq> None"
    and add_fresh: "valid \<Longrightarrow> wi_add W c ts u tls h = (Inr i, h') \<Longrightarrow> hooks c h i = None"
    and add_hook: "valid \<Longrightarrow> wi_add W c ts u tls h = (Inr i, h') \<Longrightarrow>
      hooks c h' = (hooks c h)(i \<mapsto> added_config dflt (token c) ts u tls)"
    and edit_hook: "valid \<Longrightarrow> wi_edit W c i ts u tls h = (None, h') \<Longrightarrow>
      \<exists>cfg. hooks c h i = Some cfg \<and>
        hooks c h' = (hooks c h)(i \<mapsto> desired_config cfg (token c) ts u tls)"
    and delete_hook: "valid \<Longrightarrow> wi_delete W c i h = (None, h') \<Longrightarrow>
      hooks c h' = (hooks c h)(i := None)"
begin

lemma ticks_frame: "valid \<Longrightarrow> ticks_only h h' \<Longrightarrow> hooks c h' = hooks c h"
proof -
  assume v: valid and t: "ticks_only h h'"
  have "hooks c (h @ replicate n Now) = hooks c h" for n
  proof (induction n)
    case (Suc n)
    have "h @ replicate (Suc n) Now = (h @ replicate n Now) @ [Now]"
      by (simp add: replicate_append_same)
    with Suc v show ?case by (metis other_frame gitlab_request.simps(2))
  qed simp
  with t show ?thesis by (auto simp: ticks_only_def)
qed

lemma record_frame: "valid \<Longrightarrow> hooks c (record_event t r msg h) = hooks c h"
  by (simp add: record_event_def other_frame)

end

subsection \<open>GitLab as documented\<close>

text \<open>
  What the API documentation of project hooks says, for a GitLab whose hooks after a history \<open>h\<close>
  are \<open>view h\<close> (by API base URL, project and identifier) and which gives a new hook the
  configuration \<open>dflt\<close> where the request says nothing: a request to anything else does not
  touch the hooks; reading succeeds only for a hook that exists and changes nothing; a
  successful addition creates a hook under a fresh identifier; a successful edit updates an
  existing hook; a successful deletion removes the hook. A request that fails may have had any
  effect.
\<close>

type_synonym hook_view = "history \<Rightarrow> parsed_url \<Rightarrow> string \<Rightarrow> int \<Rightarrow> hook_config option"

definition succeeded :: "env \<Rightarrow> history \<Rightarrow> gl_request \<Rightarrow> int \<Rightarrow> bool" where
  "succeeded en h q i \<longleftrightarrow>
     (\<exists>s m. e_gitlab en h q = GlResponse s m i \<and> s \<in> {200, 201, 202, 204, 304})"

definition documented_get :: "env \<Rightarrow> hook_view \<Rightarrow> bool" where
  "documented_get en view \<longleftrightarrow>
     (\<forall>h c p i. view (h @ [GitLab (GlGetHook c p i)]) = view h) \<and>
     (\<forall>h c p i j. succeeded en h (GlGetHook c p i) j \<longrightarrow> view h (gl_base_url c) p i \<noteq> None)"

definition documented_add :: "env \<Rightarrow> hook_view \<Rightarrow> hook_config \<Rightarrow> bool" where
  "documented_add en view dflt \<longleftrightarrow>
     (\<forall>h c p opts i. succeeded en h (GlAddHook c p opts) i \<longrightarrow>
        view h (gl_base_url c) p i = None \<and>
        view (h @ [GitLab (GlAddHook c p opts)]) (gl_base_url c) p =
          (view h (gl_base_url c) p)(i \<mapsto> apply_options dflt opts))"

definition documented_edit :: "env \<Rightarrow> hook_view \<Rightarrow> bool" where
  "documented_edit en view \<longleftrightarrow>
     (\<forall>h c p i opts j. succeeded en h (GlEditHook c p i opts) j \<longrightarrow>
        (\<exists>cfg. view h (gl_base_url c) p i = Some cfg \<and>
           view (h @ [GitLab (GlEditHook c p i opts)]) (gl_base_url c) p =
             (view h (gl_base_url c) p)(i \<mapsto> apply_options cfg opts)))"

definition documented_delete :: "env \<Rightarrow> hook_view \<Rightarrow> bool" where
  "documented_delete en view \<longleftrightarrow>
     (\<forall>h c p i j. succeeded en h (GlDeleteHook c p i) j \<longrightarrow>
        view (h @ [GitLab (GlDeleteHook c p i)]) (gl_base_url c) p =
          (view h (gl_base_url c) p)(i := None))"

definition gitlab_documented :: "env \<Rightarrow> hook_view \<Rightarrow> hook_config \<Rightarrow> bool" where
  "gitlab_documented en view dflt \<longleftrightarrow>
     (\<forall>h r. gitlab_request r = None \<longrightarrow> view (h @ [r]) = view h) \<and>
     documented_get en view \<and> documented_add en view dflt \<and> documented_edit en view \<and>
     documented_delete en view"

lemmas documented_defs = gitlab_documented_def documented_get_def documented_add_def
  documented_edit_def documented_delete_def

lemma documentedD:
  assumes "gitlab_documented en view dflt"
  shows "gitlab_request r = None \<Longrightarrow> view (h @ [r]) = view h"
    and "view (h @ [GitLab (GlGetHook c p i)]) = view h"
    and "succeeded en h (GlGetHook c p i) j \<Longrightarrow> view h (gl_base_url c) p i \<noteq> None"
    and "succeeded en h (GlAddHook c p opts) i \<Longrightarrow> view h (gl_base_url c) p i = None"
    and "succeeded en h (GlAddHook c p opts) i \<Longrightarrow>
      view (h @ [GitLab (GlAddHook c p opts)]) (gl_base_url c) p =
        (view h (gl_base_url c) p)(i \<mapsto> apply_options dflt opts)"
    and "succeeded en h (GlEditHook c p i opts) j \<Longrightarrow>
      \<exists>cfg. view h (gl_base_url c) p i = Some cfg \<and>
        view (h @ [GitLab (GlEditHook c p i opts)]) (gl_base_url c) p =
          (view h (gl_base_url c) p)(i \<mapsto> apply_options cfg opts)"
    and "succeeded en h (GlDeleteHook c p i) j \<Longrightarrow>
      view (h @ [GitLab (GlDeleteHook c p i)]) (gl_base_url c) p =
        (view h (gl_base_url c) p)(i := None)"
  using assms unfolding documented_defs by (metis (mono_tags, lifting))+

lemma gl_call_succeeded: "gl_call en q h = (Inr i, h') \<Longrightarrow> succeeded en h q i \<and> h' = h @ [GitLab q]"
  by (simp add: gl_call_ok succeeded_def)

lemma wc_get_Inr: "wc_get en c i h = (Inr j, h') \<Longrightarrow>
    succeeded en h (GlGetHook (wc_cli c) (wc_project c) i) j"
  by (auto simp: wc_get_def dest: gl_call_succeeded split: prod.splits sum.splits)

lemma wc_add_Inr: "wc_add en c ts u tls h = (Inr i, h') \<Longrightarrow>
    succeeded en h (GlAddHook (wc_cli c) (wc_project c)
      (add_hook_options (wc_secret_token c) ts u tls)) i"
  by (auto simp: wc_add_def dest: gl_call_succeeded split: prod.splits sum.splits)

lemma wc_edit_None: "wc_edit en c i ts u tls h = (None, h') \<Longrightarrow>
    \<exists>j. succeeded en h (GlEditHook (wc_cli c) (wc_project c) i
      (edit_hook_options (wc_secret_token c) ts u tls)) j"
  by (auto simp: wc_edit_def dest: gl_call_succeeded split: prod.splits sum.splits)

lemma wc_delete_None: "wc_delete en c i h = (None, h') \<Longrightarrow>
    \<exists>j. succeeded en h (GlDeleteHook (wc_cli c) (wc_project c) i) j"
  by (auto simp: wc_delete_def dest: gl_call_succeeded split: prod.splits sum.splits)

lemma wc_history' [dest]:
  "wc_add en c ts u tls h = (x, h') \<Longrightarrow> h' = h @ [GitLab (GlAddHook (wc_cli c) (wc_project c)
     (add_hook_options (wc_secret_token c) ts u tls))]"
  "wc_edit en c i ts u tls h = (y, h') \<Longrightarrow> h' = h @ [GitLab (GlEditHook (wc_cli c) (wc_project c) i
     (edit_hook_options (wc_secret_token c) ts u tls))]"
  "wc_delete en c i h = (y, h') \<Longrightarrow> h' = h @ [GitLab (GlDeleteHook (wc_cli c) (wc_project c) i)]"
  using wc_history [of en c] by (metis snd_conv)+

text \<open>The hooks of the project a client works on.\<close>

definition project_hooks :: "hook_view \<Rightarrow> webhook_client \<Rightarrow> history \<Rightarrow> int \<Rightarrow> hook_config option" where
  "project_hooks view c h = view h (gl_base_url (wc_cli c)) (wc_project c)"

lemma get_webhook_client_requests:
  "\<exists>names. snd (get_webhook_client en src h) = h @ map (GetSecret (om_namespace (src_meta src))) names"
  using get_secrets_requests [of en "om_namespace (src_meta src)"
      "[spec_access_token (src_spec src), spec_secret_token (src_spec src)]" h]
  by (fastforce simp: get_webhook_client_def split: result.split prod.split sum.split
      intro: exI [of _ "[]"])

lemma documented_requests:
  "gitlab_documented en view dflt \<Longrightarrow> view (h @ map (GetSecret ns) names) = view h"
proof (induction names rule: rev_induct)
  case (snoc n names)
  have "view ((h @ map (GetSecret ns) names) @ [GetSecret ns n]) = view (h @ map (GetSecret ns) names)"
    using snoc.prems by (simp only: gitlab_documented_def gitlab_request.simps simp_thms)
  with snoc show ?case by simp
qed simp

interpretation gl: webhook_service
  "gitlab_iface en"
  "gitlab_documented en view dflt"
  "project_hooks view"
  wc_secret_token
  dflt
  for en view dflt
proof
  assume doc: "gitlab_documented en view dflt"
  note d = documentedD [OF doc]
  show "gitlab_request r = None \<Longrightarrow> project_hooks view c (h @ [r]) = project_hooks view c h"
    for r c h using d(1) by (simp add: project_hooks_def)
  show "project_hooks view c (snd (wi_client (gitlab_iface en) src h)) = project_hooks view c h"
    for c src h
    using get_webhook_client_requests [of en src h] documented_requests [OF doc]
    by (auto simp: gitlab_iface_def project_hooks_def)
  show "project_hooks view c (snd (wi_get (gitlab_iface en) c' i h)) = project_hooks view c h"
    for c c' i h by (simp add: gitlab_iface_def project_hooks_def d(2))
  show "wi_get (gitlab_iface en) c i h = (Inr j, h') \<Longrightarrow> project_hooks view c h i \<noteq> None"
    for c i h j h'
    unfolding gitlab_iface_def project_hooks_def by (simp only: webhook_iface.simps)
      (rule d(3) [OF wc_get_Inr])
  show "wi_add (gitlab_iface en) c ts u tls h = (Inr i, h') \<Longrightarrow> project_hooks view c h i = None"
    for c ts u tls h i h'
    unfolding gitlab_iface_def project_hooks_def by (simp only: webhook_iface.simps)
      (rule d(4) [OF wc_add_Inr])
  show "project_hooks view c h' = (project_hooks view c h)
        (i \<mapsto> added_config dflt (wc_secret_token c) ts u tls)"
    if "wi_add (gitlab_iface en) c ts u tls h = (Inr i, h')" for c ts u tls h i h'
  proof -
    have a: "wc_add en c ts u tls h = (Inr i, h')" using that by (simp add: gitlab_iface_def)
    show ?thesis
      using d(5) [OF wc_add_Inr [OF a]] wc_history'(1) [OF a]
      by (simp add: project_hooks_def apply_add_options fun_upd_def)
  qed
  show "\<exists>cfg. project_hooks view c h i = Some cfg \<and> project_hooks view c h' =
        (project_hooks view c h)(i \<mapsto> desired_config cfg (wc_secret_token c) ts u tls)"
    if "wi_edit (gitlab_iface en) c i ts u tls h = (None, h')" for c i ts u tls h h'
  proof -
    have a: "wc_edit en c i ts u tls h = (None, h')" using that by (simp add: gitlab_iface_def)
    then obtain j where "succeeded en h (GlEditHook (wc_cli c) (wc_project c) i
        (edit_hook_options (wc_secret_token c) ts u tls)) j" by (blast dest: wc_edit_None)
    from d(6) [OF this] wc_history'(2) [OF a] show ?thesis
      by (auto simp: project_hooks_def apply_edit_options fun_upd_def)
  qed
  show "project_hooks view c h' = (project_hooks view c h)(i := None)"
    if "wi_delete (gitlab_iface en) c i h = (None, h')" for c i h h'
  proof -
    have a: "wc_delete en c i h = (None, h')" using that by (simp add: gitlab_iface_def)
    then obtain j where "succeeded en h (GlDeleteHook (wc_cli c) (wc_project c) i) j"
      by (blast dest: wc_delete_None)
    from d(7) [OF this] wc_history'(3) [OF a] show ?thesis
      by (simp add: project_hooks_def fun_upd_def)
  qed
qed

end
