(* ===== verification/SourceReconciler.thy ===== *)
theory SourceReconciler
  imports WebhookService
begin

section \<open>The source reconciler\<close>

text \<open>
  \<^verbatim>\<open>pkg/reconciler/source/gitlabsource.go\<close>: what the controller does with one \<^verbatim>\<open>GitLabSource\<close>. An
  operation takes the source and the history and returns its result, the source as it left it
  (the code mutates it through a pointer) and the history extended by its requests. The
  operations are parametric in the webhook interface \<open>W\<close>, as the Go code is.
\<close>

subsection \<open>Classification of errors\<close>

definition is_secret_not_found :: "goerr option \<Rightarrow> bool" where
  "is_secret_not_found err = is_not_found err"

definition gitlab_status_is :: "int \<Rightarrow> goerr option \<Rightarrow> bool" where
  "gitlab_status_is code err =
     (case err of
        None \<Rightarrow> False
      | Some e \<Rightarrow> (case errors_as sel_gitlab e of Some status \<Rightarrow> status = code | None \<Rightarrow> False))"

definition is_hook_not_found :: "goerr option \<Rightarrow> bool" where
  "is_hook_not_found = gitlab_status_is 404"

definition is_denied :: "goerr option \<Rightarrow> bool" where
  "is_denied = gitlab_status_is 401"

subsection \<open>CloudEvent attributes and the sink\<close>

definition create_cloud_event_attributes :: "string \<Rightarrow> string list \<Rightarrow> ce_attribute list" where
  "create_cloud_event_attributes source types =
     map (\<lambda>t. \<lparr>ce_attr_type = t, ce_attr_source = source\<rparr>) types"

text \<open>
  \<^verbatim>\<open>resolveSinkURL\<close> defaults the namespace of the sink's reference through the pointer in the
  source, so the source itself changes.
\<close>

definition default_sink_namespace :: "gitlab_source \<Rightarrow> gitlab_source" where
  "default_sink_namespace src =
     (case dest_ref (spec_sink (src_spec src)) of
        None \<Rightarrow> src
      | Some ref \<Rightarrow>
          (if kr_namespace ref = []
           then src\<lparr>src_spec := (src_spec src)\<lparr>spec_sink := (spec_sink (src_spec src))
                  \<lparr>dest_ref := Some (ref\<lparr>kr_namespace := om_namespace (src_meta src)\<rparr>)\<rparr>\<rparr>\<rparr>
           else src))"

definition resolve_sink_url ::
  "env \<Rightarrow> gitlab_source \<Rightarrow> history \<Rightarrow> (goerr + url option) \<times> gitlab_source \<times> history" where
  "resolve_sink_url en src h =
     (let src' = default_sink_namespace src;
          sink = spec_sink (src_spec src');
          (r, h') = ask (\<lambda>h. e_resolve_sink en h sink)
            (ResolveSink sink (om_namespace (src_meta src)) (om_name (src_meta src))) h
      in (r, src', h'))"

subsection \<open>The receive adapter\<close>

definition plain_env :: "string \<Rightarrow> string \<Rightarrow> env_var" where
  "plain_env n v = \<lparr>ev_name = n, ev_value = v, ev_value_from = None\<rparr>"

definition new_controller_ref :: "gitlab_source \<Rightarrow> owner_reference" where
  "new_controller_ref src =
     \<lparr>or_api_version = fst source_group_version @ ''/'' @ snd source_group_version,
      or_kind = ''GitLabSource'', or_name = om_name (src_meta src), or_uid = om_uid (src_meta src),
      or_controller = Some True, or_block_owner_deletion = Some True\<rparr>"

definition adapter_env_vars :: "env \<Rightarrow> gitlab_source \<Rightarrow> env_var list" where
  "adapter_env_vars en src =
     [\<lparr>ev_name = ''GITLAB_SECRET_TOKEN'', ev_value = [],
        ev_value_from = Some (spec_secret_token (src_spec src))\<rparr>,
      plain_env ''GITLAB_EVENT_SOURCE'' (as_event_source src),
      plain_env ''K_SINK'' (url_string (st_sink_uri (src_status src))),
      plain_env ''NAMESPACE'' (om_namespace (src_meta src)),
      plain_env ''METRICS_DOMAIN'' ''knative.dev/eventing'',
      plain_env ''METRICS_PROMETHEUS_PORT'' ''9092''] @ e_config_env en"

definition generate_kservice :: "env \<Rightarrow> gitlab_source \<Rightarrow> string \<Rightarrow> kservice" where
  "generate_kservice en src img =
     \<lparr>ks_meta =
        \<lparr>om_name = [], om_generate_name = om_name (src_meta src) @ ''-'',
         om_namespace = om_namespace (src_meta src), om_uid = [], om_resource_version = [],
         om_generation = 0, om_deleted = False, om_finalizers = [],
         om_labels = [(''receive-adapter'', ''gitlab'')],
         om_owner_references = [new_controller_ref src]\<rparr>,
      ks_service_account = spec_service_account (src_spec src),
      ks_image = img,
      ks_env = adapter_env_vars en src,
      ks_observed_generation = 0, ks_conditions = [], ks_url = None\<rparr>"

definition controller_ref :: "object_meta \<Rightarrow> owner_reference option" where
  "controller_ref m = find (\<lambda>r. or_controller r = Some True) (om_owner_references m)"

definition is_controlled_by :: "kservice \<Rightarrow> gitlab_source \<Rightarrow> bool" where
  "is_controlled_by ks src =
     (case controller_ref (ks_meta ks) of
        None \<Rightarrow> False | Some r \<Rightarrow> or_uid r = om_uid (src_meta src))"

definition get_owned_service :: "env \<Rightarrow> gitlab_source \<Rightarrow> history \<Rightarrow> (goerr + kservice) \<times> history" where
  "get_owned_service en src h =
     (let ns = om_namespace (src_meta src)
      in case ask (\<lambda>h. e_list_services en h ns) (ListServices ns) h of
           (Inl e, h') \<Rightarrow> (Inl e, h')
         | (Inr items, h') \<Rightarrow>
             (case find (\<lambda>ks. is_controlled_by ks src) items of
                Some ks \<Rightarrow> (Inr ks, h')
              | None \<Rightarrow> (Inl (not_found_error ''services.serving.knative.dev'' []), h')))"

definition reconcile_adapter ::
  "env \<Rightarrow> string \<Rightarrow> gitlab_source \<Rightarrow> history \<Rightarrow> (goerr + kservice) \<times> history" where
  "reconcile_adapter en img src h =
     (case get_owned_service en src h of
        (Inr ks, h') \<Rightarrow> (Inr ks, h')
      | (Inl e, h') \<Rightarrow>
          (if is_not_found (Some e)
           then (let ns = om_namespace (src_meta src); ks = generate_kservice en src img
                 in case ask (\<lambda>h. e_create_service en h ns ks) (CreateService ns ks) h' of
                      (Inl e', h'') \<Rightarrow> (Inl (ErrWrap ''creating receive adapter: '' e'), h'')
                    | (Inr ks', h'') \<Rightarrow> (Inr ks', h''))
           else (Inl (ErrWrap ''searching for existing receive adapter: '' e), h')))"

definition kservice_ready :: "kservice \<Rightarrow> bool" where
  "kservice_ready ks \<longleftrightarrow>
     ks_observed_generation ks = om_generation (ks_meta ks) \<and>
     is_true (get_condition condition_ready (ks_conditions ks))"

subsection \<open>The webhook\<close>

definition new_event :: "string \<Rightarrow> string \<Rightarrow> string \<Rightarrow> goerr" where
  "new_event etype reason msg = EventErr etype reason msg"

text \<open>Adding a hook, the same code for a source without a hook and for one whose hook is gone.\<close>

definition create_webhook ::
  "env \<Rightarrow> 'c webhook_iface \<Rightarrow> 'c \<Rightarrow> gitlab_source \<Rightarrow> url option \<Rightarrow> history \<Rightarrow>
   int result \<times> sstate" where
  "create_webhook en W cli src u h =
     (let st = src_status src; spec = src_spec src
      in case wi_add W cli (spec_event_types spec) u (spec_ssl_verify spec) h of
           (Inl e, h') \<Rightarrow>
             (let msg = ''Error adding webhook: '' @ err_text e
              in (Err (ErrWrap [] (new_event ''Warning'' ''WebhookError'' msg)),
                  mark_no_webhook en ''WebhookError'' msg (st, h')))
         | (Inr i, h') \<Rightarrow>
             (Ok i, (st, record_event ''Normal'' ''WebHookCreated''
                           ''Project webhook created successfully'' h')))"

definition update_webhook ::
  "env \<Rightarrow> 'c webhook_iface \<Rightarrow> 'c \<Rightarrow> gitlab_source \<Rightarrow> int \<Rightarrow> url option \<Rightarrow> history \<Rightarrow>
   int result \<times> sstate" where
  "update_webhook en W cli src current u h =
     (let st = src_status src; spec = src_spec src
      in case wi_edit W cli current (spec_event_types spec) u (spec_ssl_verify spec) h of
           (Some e, h') \<Rightarrow>
             (let msg = ''Error updating webhook: '' @ err_text e
              in (Err (ErrWrap [] (new_event ''Warning'' ''WebhookError'' msg)),
                  mark_no_webhook en ''WebhookError'' msg (st, h')))
         | (None, h') \<Rightarrow> (Ok current, (st, h')))"

definition sync_webhook ::
  "env \<Rightarrow> 'c webhook_iface \<Rightarrow> gitlab_source \<Rightarrow> url option \<Rightarrow> history \<Rightarrow> int result \<times> sstate" where
  "sync_webhook en W src u h =
     (let st = src_status src
      in case wi_client W src h of
           (Panic m, h1) \<Rightarrow> (Panic m, (st, h1))
         | (Err e, h1) \<Rightarrow>
             (if is_secret_not_found (Some e)
              then (let msg = ''Error obtaining credentials for GitLab API: '' @ err_text e
                    in (Err (new_event ''Warning'' ''AuthError'' msg),
                        mark_no_webhook en ''MissingCredentials'' msg (st, h1)))
              else (let msg = ''Error obtaining GitLab webhook client: '' @ err_text e
                    in (Err (ErrWrap [] (new_event ''Warning'' ''ClientError'' msg)),
                        mark_no_webhook en ''ClientError'' msg (st, h1))))
         | (Ok cli, h1) \<Rightarrow>
             (case st_webhook_id st of
                None \<Rightarrow> create_webhook en W cli src u h1
              | Some current \<Rightarrow>
                  (case wi_get W cli current h1 of
                     (Inl e, h2) \<Rightarrow>
                       (if is_hook_not_found (Some e) then create_webhook en W cli src u h2
                        else (let msg = ''Error retrieving webhook: '' @ err_text e
                              in (Err (ErrWrap [] (new_event ''Warning'' ''WebhookError'' msg)),
                                  mark_no_webhook en ''WebhookError'' msg (st, h2))))
                   | (Inr _, h2) \<Rightarrow> update_webhook en W cli src current u h2)))"

subsection \<open>ReconcileKind\<close>

text \<open>
  The steps after the sink is resolved: the adapter, then the webhook.
\<close>

definition reconcile_webhook ::
  "env \<Rightarrow> 'c webhook_iface \<Rightarrow> gitlab_source \<Rightarrow> url option \<Rightarrow> history \<Rightarrow>
   unit result \<times> gitlab_source \<times> history" where
  "reconcile_webhook en W src adapter_url h =
     (if adapter_url = None then (Ok (), src, h)
      else (case sync_webhook en W src adapter_url h of
              (Panic m, (st, h')) \<Rightarrow> (Panic m, src\<lparr>src_status := st\<rparr>, h')
            | (Err e, (st, h')) \<Rightarrow> (Err e, src\<lparr>src_status := st\<rparr>, h')
            | (Ok hook, (st, h')) \<Rightarrow>
                (let (st', h'') = mark_webhook en (st\<lparr>st_webhook_id := Some hook\<rparr>, h')
                 in (Ok (), src\<lparr>src_status := st'\<rparr>, h''))))"

definition reconcile_deployment ::
  "env \<Rightarrow> 'c webhook_iface \<Rightarrow> string \<Rightarrow> gitlab_source \<Rightarrow> history \<Rightarrow>
   unit result \<times> gitlab_source \<times> history" where
  "reconcile_deployment en W img src h =
     (case reconcile_adapter en img src h of
        (Inl e, h') \<Rightarrow>
          (let (st, h'') = mark_not_deployed en ''FailedSync''
                 (''Error reconciling receive adapter: '' @ err_text e) (src_status src, h')
           in (Err (ErrWrap ''reconciling receive adapter: '' e), src\<lparr>src_status := st\<rparr>, h''))
      | (Inr ks, h') \<Rightarrow>
          (if \<not> kservice_ready ks
           then (let (st, h'') = mark_not_deployed en ''NotReady''
                       ''Receive adapter Service is not ready'' (src_status src, h')
                 in (Ok (), src\<lparr>src_status := st\<rparr>, h''))
           else (let (st, h'') = mark_deployed en (src_status src, h')
                 in reconcile_webhook en W (src\<lparr>src_status := st\<rparr>) (ks_url ks) h'')))"

definition with_ce_attributes :: "gitlab_source \<Rightarrow> gitlab_source" where
  "with_ce_attributes src =
     src\<lparr>src_status := (src_status src)\<lparr>st_ce_attributes :=
       create_cloud_event_attributes (as_event_source src) (event_types src)\<rparr>\<rparr>"

definition reconcile_kind ::
  "env \<Rightarrow> 'c webhook_iface \<Rightarrow> string \<Rightarrow> gitlab_source \<Rightarrow> history \<Rightarrow>
   unit result \<times> gitlab_source \<times> history" where
  "reconcile_kind en W img src h =
     (case resolve_sink_url en (with_ce_attributes src) h of
        (Inl e, src', h') \<Rightarrow>
          (let (st, h'') = mark_no_sink en (src_status src', h')
           in (Err (new_event ''Warning'' ''BadSinkURI''
                      (''Could not resolve sink URI: '' @ err_text e)),
               src'\<lparr>src_status := st\<rparr>, h''))
      | (Inr uri, src', h') \<Rightarrow>
          (let (st, h'') = mark_sink en uri (src_status src', h')
           in reconcile_deployment en W img (src'\<lparr>src_status := st\<rparr>) h''))"

subsection \<open>FinalizeKind\<close>

definition finalize_kind ::
  "env \<Rightarrow> 'c webhook_iface \<Rightarrow> gitlab_source \<Rightarrow> history \<Rightarrow>
   unit result \<times> gitlab_source \<times> history" where
  "finalize_kind en W src h =
     (case st_webhook_id (src_status src) of
        None \<Rightarrow> (Ok (), src, h)
      | Some current \<Rightarrow>
          (case wi_client W src h of
             (Panic m, h1) \<Rightarrow> (Panic m, src, h1)
           | (Err e, h1) \<Rightarrow>
               (if is_secret_not_found (Some e)
                then (Ok (), src,
                      record_event ''Warning'' ''FailedWebhookDelete''
                        (''GitLab API token missing while finalizing event source. Ignoring: '' @
                         err_text e) h1)
                else if is_denied (Some e)
                then (Ok (), src,
                      record_event ''Warning'' ''FailedWebhookDelete''
                        (''Access denied to GitLab API while finalizing event source. Ignoring: '' @
                         err_text e) h1)
                else (Err (new_event ''Warning'' ''ClientError''
                             (''Error obtaining GitLab webhook client: '' @ err_text e)), src, h1))
           | (Ok cli, h1) \<Rightarrow>
               (case wi_delete W cli current h1 of
                  (Some e, h2) \<Rightarrow> (Err e, src, h2)
                | (None, h2) \<Rightarrow>
                    (Ok (), src\<lparr>src_status := (src_status src)\<lparr>st_webhook_id := None\<rparr>\<rparr>, h2))))"

subsection \<open>Facts: the conditions of each branch\<close>

text \<open>
  What a step may do to a source: its specification and metadata stay, its condition list keeps
  the invariant, and the three dependent conditions have the statuses \<open>a\<close>, \<open>b\<close>, \<open>c\<close>.
\<close>

definition conds_are ::
  "source_status \<Rightarrow> cond_status option \<Rightarrow> cond_status option \<Rightarrow> cond_status option \<Rightarrow> bool" where
  "conds_are st a b c \<longleftrightarrow>
     src_conds_wf st \<and> src_cond st SinkProvided = a \<and> src_cond st Deployed = b \<and>
     src_cond st WebhookConfigured = c"

lemma src_cond_fields [simp]:
  "src_cond (st\<lparr>st_webhook_id := i\<rparr>) = src_cond st"
  "src_cond (st\<lparr>st_ce_attributes := x\<rparr>) = src_cond st"
  by (simp_all add: src_cond_def fun_eq_iff)

lemma conds_are_fields [simp]:
  "conds_are (st\<lparr>st_webhook_id := i\<rparr>) a b c = conds_are st a b c"
  "conds_are (st\<lparr>st_ce_attributes := x\<rparr>) a b c = conds_are st a b c"
  by (simp_all add: conds_are_def src_conds_wf_def)

lemma ready_agrees_fields [simp]:
  "ready_agrees (st\<lparr>st_webhook_id := i\<rparr>) = ready_agrees st"
  "ready_agrees (st\<lparr>st_ce_attributes := x\<rparr>) = ready_agrees st"
  by (simp_all add: ready_agrees_def)

lemma conds_are_with_sink_uri [simp]:
  "conds_are (fst (with_sink_uri uri s)) a b c = conds_are (fst s) a b c"
  by (simp add: conds_are_def)

fun mark_conds ::
  "mark \<Rightarrow> cond_status option \<times> cond_status option \<times> cond_status option \<Rightarrow>
   cond_status option \<times> cond_status option \<times> cond_status option" where
  "mark_conds k (a, b, c) =
     (if mark_target k = SinkProvided then Some (mark_status k) else a,
      if mark_target k = Deployed then Some (mark_status k) else b,
      if mark_target k = WebhookConfigured then Some (mark_status k) else c)"

lemma conds_are_mark:
  assumes "conds_are (fst s) a b c" and "source_mark k" and "mark_conds k (a, b, c) = (a', b', c')"
  shows "conds_are (fst (src_mark en k s)) a' b' c'" and "ready_agrees (fst (src_mark en k s))"
  using assms by (auto simp: conds_are_def cond_simps)

lemma sync_webhook_result:
  "sync_webhook en W src u h = (r, s) \<Longrightarrow>
   (case r of
      Err e \<Rightarrow> \<exists>reason msg h1. s = mark_no_webhook en reason msg (src_status src, h1)
    | _ \<Rightarrow> fst s = src_status src)"
  by (auto simp: sync_webhook_def create_webhook_def update_webhook_def Let_def
      split: result.splits prod.splits sum.splits option.splits if_splits)

text \<open>The status of the sink's condition when resolution returned the URI \<open>uri\<close>.\<close>

definition sink_status :: "url option \<Rightarrow> cond_status" where
  "sink_status uri = (if uri = None then CFalse else CTrue)"

definition webhook_cond ::
  "url option \<Rightarrow> unit result \<Rightarrow> cond_status option \<Rightarrow> cond_status option" where
  "webhook_cond u r c =
     (if u = None then c
      else case r of Ok _ \<Rightarrow> Some CTrue | Err _ \<Rightarrow> Some CFalse | Panic _ \<Rightarrow> c)"

lemma reconcile_webhook_conds:
  assumes run: "reconcile_webhook en W src u h = (r, src', h')"
    and pre: "conds_are (src_status src) a b c" "ready_agrees (src_status src)"
  shows "conds_are (src_status src') a b (webhook_cond u r c) \<and> ready_agrees (src_status src') \<and>
    src_meta src' = src_meta src \<and> src_spec src' = src_spec src \<and>
    st_sink_uri (src_status src') = st_sink_uri (src_status src) \<and>
    (u = None \<longrightarrow> r = Ok ()) \<and>
    (u \<noteq> None \<and> r = Ok () \<longrightarrow> st_webhook_id (src_status src') \<noteq> None) \<and>
    (u = None \<or> r \<noteq> Ok () \<longrightarrow> st_webhook_id (src_status src') = st_webhook_id (src_status src))"
proof (cases "u = None")
  case True
  with run pre show ?thesis by (auto simp: reconcile_webhook_def webhook_cond_def)
next
  case False
  obtain q s where q: "sync_webhook en W src u h = (q, s)" by (metis surj_pair)
  note sr = sync_webhook_result [OF q]
  show ?thesis
  proof (cases q)
    case (Ok i)
    let ?s = "((src_status src)\<lparr>st_webhook_id := Some i\<rparr>, snd s)"
    have m: "conds_are (fst (src_mark en (MarkTrue WebhookConfigured) ?s)) a b (Some CTrue)"
      "ready_agrees (fst (src_mark en (MarkTrue WebhookConfigured) ?s))"
      using pre by - (rule conds_are_mark [where a = a and b = b and c = c]; simp)+
    have "r = Ok ()" "src' = src\<lparr>src_status := fst (mark_webhook en ?s)\<rparr>"
      using run False q Ok sr
      by (auto simp: reconcile_webhook_def split: prod.splits)
    with m False show ?thesis by (auto simp: mark_ops webhook_cond_def)
  next
    case (Err e)
    with sr obtain reason msg h1 where
      s: "s = src_mark en (MarkFalse WebhookConfigured reason msg) (src_status src, h1)"
      by (auto simp: mark_ops)
    have m: "conds_are (fst s) a b (Some CFalse)" "ready_agrees (fst s)"
      unfolding s using pre by - (rule conds_are_mark [where a = a and b = b and c = c]; simp)+
    have f: "st_sink_uri (fst s) = st_sink_uri (src_status src)"
      "st_webhook_id (fst s) = st_webhook_id (src_status src)" by (simp_all add: s)
    have "r = Err e" "src' = src\<lparr>src_status := fst s\<rparr>"
      using run False q Err by (auto simp: reconcile_webhook_def split: prod.splits)
    with m f False show ?thesis by (auto simp: webhook_cond_def)
  next
    case (Panic m)
    with run False q sr pre show ?thesis
      by (auto simp: reconcile_webhook_def webhook_cond_def split: prod.splits)
  qed
qed

subsection \<open>Facts: the adapter\<close>

text \<open>
  The requests of \<open>reconcile_adapter\<close>: it lists the services of the namespace and creates one
  exactly when the list holds none the source controls.
\<close>

lemma get_owned_service_Inr:
  "get_owned_service en src h = (Inr ks, h') \<longleftrightarrow>
     h' = h @ [ListServices (om_namespace (src_meta src))] \<and>
     (\<exists>items. e_list_services en h (om_namespace (src_meta src)) = Inr items \<and>
        find (\<lambda>ks. is_controlled_by ks src) items = Some ks)"
  by (auto simp: get_owned_service_def ask_def Let_def split: sum.splits option.splits)

lemma get_owned_service_history:
  "snd (get_owned_service en src h) = h @ [ListServices (om_namespace (src_meta src))]"
  by (auto simp: get_owned_service_def ask_def Let_def split: sum.splits option.splits)

lemma reconcile_adapter_owned:
  assumes "e_list_services en h (om_namespace (src_meta src)) = Inr items"
    and "find (\<lambda>ks. is_controlled_by ks src) items = Some ks"
  shows "reconcile_adapter en img src h = (Inr ks, h @ [ListServices (om_namespace (src_meta src))])"
  using assms by (simp add: reconcile_adapter_def get_owned_service_def ask_def Let_def)

lemma reconcile_adapter_none:
  assumes "e_list_services en h (om_namespace (src_meta src)) = Inr items"
    and "\<forall>ks \<in> set items. \<not> is_controlled_by ks src"
  shows "reconcile_adapter en img src h =
    (let h1 = h @ [ListServices (om_namespace (src_meta src))];
         ks = generate_kservice en src img;
         h2 = h1 @ [CreateService (om_namespace (src_meta src)) ks]
     in case e_create_service en h1 (om_namespace (src_meta src)) ks of
          Inl e \<Rightarrow> (Inl (ErrWrap ''creating receive adapter: '' e), h2)
        | Inr ks' \<Rightarrow> (Inr ks', h2))"
proof -
  have "find (\<lambda>ks. is_controlled_by ks src) items = None"
    using assms(2) by (simp add: find_None_all)
  with assms(1) show ?thesis
    by (simp add: reconcile_adapter_def get_owned_service_def ask_def Let_def split: sum.split)
qed

lemma reconcile_adapter_gitlab [simp]:
  "gitlab_calls (snd (reconcile_adapter en img src h)) = gitlab_calls h"
  using get_owned_service_history [of en src h]
  by (auto simp: reconcile_adapter_def ask_def Let_def split: prod.splits sum.splits)

lemma generated_service_owned:
  "is_controlled_by ks src" if "ks_meta ks = ks_meta (generate_kservice en src img)"
  using that by (simp add: is_controlled_by_def controller_ref_def generate_kservice_def
      new_controller_ref_def)

lemma reconcile_adapter_creates:
  "filter is_create_service (snd (reconcile_adapter en img src h)) =
     filter is_create_service h @
     (case get_owned_service en src h of
        (Inr _, _) \<Rightarrow> []
      | (Inl e, _) \<Rightarrow>
          (if is_not_found (Some e)
           then [CreateService (om_namespace (src_meta src)) (generate_kservice en src img)]
           else []))"
  using get_owned_service_history [of en src h]
  by (auto simp: reconcile_adapter_def ask_def Let_def split: prod.splits sum.splits)

subsection \<open>Facts: ReconcileKind\<close>

text \<open>
  After \<open>reconcile_deployment\<close>: the status of Deployed says whether the adapter is ready, and
  WebhookConfigured is touched only when it is.
\<close>

lemma reconcile_deployment_conds:
  assumes run: "reconcile_deployment en W img src h = (r, src', h')"
    and pre: "conds_are (src_status src) a b c" "ready_agrees (src_status src)"
  shows "src_meta src' = src_meta src \<and> src_spec src' = src_spec src \<and>
    st_sink_uri (src_status src') = st_sink_uri (src_status src) \<and>
    ready_agrees (src_status src') \<and>
    (case fst (reconcile_adapter en img src h) of
       Inl e \<Rightarrow> conds_are (src_status src') a (Some CFalse) c \<and> r \<noteq> Ok () \<and>
         st_webhook_id (src_status src') = st_webhook_id (src_status src)
     | Inr ks \<Rightarrow>
         (if kservice_ready ks
          then conds_are (src_status src') a (Some CTrue) (webhook_cond (ks_url ks) r c) \<and>
            (ks_url ks = None \<longrightarrow> r = Ok ()) \<and>
            (ks_url ks \<noteq> None \<and> r = Ok () \<longrightarrow> st_webhook_id (src_status src') \<noteq> None) \<and>
            (ks_url ks = None \<or> r \<noteq> Ok () \<longrightarrow>
               st_webhook_id (src_status src') = st_webhook_id (src_status src))
          else conds_are (src_status src') a (Some CFalse) c \<and> r = Ok () \<and>
            st_webhook_id (src_status src') = st_webhook_id (src_status src)))"
proof -
  have step: "conds_are (fst (src_mark en (MarkFalse Deployed reason msg) (src_status src, h1)))
      a (Some CFalse) c"
    "ready_agrees (fst (src_mark en (MarkFalse Deployed reason msg) (src_status src, h1)))"
    "conds_are (fst (src_mark en (MarkTrue Deployed) (src_status src, h1))) a (Some CTrue) c"
    "ready_agrees (fst (src_mark en (MarkTrue Deployed) (src_status src, h1)))"
    for reason msg h1
    using pre by - (rule conds_are_mark [where a = a and b = b and c = c]; simp)+
  obtain q h1 where q: "reconcile_adapter en img src h = (q, h1)" by (metis surj_pair)
  show ?thesis
  proof (cases q)
    case (Inl e)
    with run q have "r = Err (ErrWrap ''reconciling receive adapter: '' e)"
      "src' = src\<lparr>src_status := fst (mark_not_deployed en ''FailedSync''
        (''Error reconciling receive adapter: '' @ err_text e) (src_status src, h1))\<rparr>"
      by (auto simp: reconcile_deployment_def split: prod.splits)
    with q Inl step(1,2) show ?thesis by (simp add: mark_ops)
  next
    case ks: (Inr ks)
    show ?thesis
    proof (cases "kservice_ready ks")
      case False
      with ks run q have "r = Ok ()"
        "src' = src\<lparr>src_status := fst (mark_not_deployed en ''NotReady''
          ''Receive adapter Service is not ready'' (src_status src, h1))\<rparr>"
        by (auto simp: reconcile_deployment_def split: prod.splits)
      with q ks False step(1,2) show ?thesis by (simp add: mark_ops)
    next
      case True
      let ?src = "src\<lparr>src_status := fst (mark_deployed en (src_status src, h1))\<rparr>"
      have rw: "reconcile_webhook en W ?src (ks_url ks) (snd (mark_deployed en (src_status src, h1)))
          = (r, src', h')"
        using True ks run q by (auto simp: reconcile_deployment_def split: prod.splits)
      have c: "conds_are (src_status ?src) a (Some CTrue) c" "ready_agrees (src_status ?src)"
        using step(3,4) by (simp_all add: mark_ops)
      from reconcile_webhook_conds [OF rw c] q ks True show ?thesis by (simp add: mark_ops)
    qed
  qed
qed

text \<open>
  What the sink resolver answers a source, and the source and history once the sink is marked:
  the starting point of the adapter's reconciliation.
\<close>

definition sink_answer :: "env \<Rightarrow> gitlab_source \<Rightarrow> history \<Rightarrow> goerr + url option" where
  "sink_answer en src h =
     e_resolve_sink en h (spec_sink (src_spec (default_sink_namespace (with_ce_attributes src))))"

definition sink_marked :: "env \<Rightarrow> url option \<Rightarrow> gitlab_source \<Rightarrow> history \<Rightarrow> gitlab_source \<times> history" where
  "sink_marked en uri src h =
     (let (_, src1, h1) = resolve_sink_url en (with_ce_attributes src) h;
          (st, h2) = mark_sink en uri (src_status src1, h1)
      in (src1\<lparr>src_status := st\<rparr>, h2))"

lemma default_sink_namespace_frame [simp]:
  "src_meta (default_sink_namespace src) = src_meta src"
  "src_status (default_sink_namespace src) = src_status src"
  "spec_project_url (src_spec (default_sink_namespace src)) = spec_project_url (src_spec src)"
  "spec_event_types (src_spec (default_sink_namespace src)) = spec_event_types (src_spec src)"
  "spec_ssl_verify (src_spec (default_sink_namespace src)) = spec_ssl_verify (src_spec src)"
  "spec_access_token (src_spec (default_sink_namespace src)) = spec_access_token (src_spec src)"
  "spec_secret_token (src_spec (default_sink_namespace src)) = spec_secret_token (src_spec src)"
  "spec_service_account (src_spec (default_sink_namespace src)) = spec_service_account (src_spec src)"
  by (simp_all add: default_sink_namespace_def split: option.split)

lemma with_ce_attributes_frame [simp]:
  "src_meta (with_ce_attributes src) = src_meta src"
  "src_spec (with_ce_attributes src) = src_spec src"
  "st_webhook_id (src_status (with_ce_attributes src)) = st_webhook_id (src_status src)"
  "st_sink_uri (src_status (with_ce_attributes src)) = st_sink_uri (src_status src)"
  "conds_are (src_status (with_ce_attributes src)) a b c = conds_are (src_status src) a b c"
  by (simp_all add: with_ce_attributes_def)

lemma resolve_sink_url_eq:
  "resolve_sink_url en (with_ce_attributes src) h =
     (sink_answer en src h, default_sink_namespace (with_ce_attributes src),
      h @ [ResolveSink (spec_sink (src_spec (default_sink_namespace (with_ce_attributes src))))
             (om_namespace (src_meta src)) (om_name (src_meta src))])"
  by (simp add: resolve_sink_url_def sink_answer_def ask_def Let_def)

lemma reconcile_kind_sink_failed:
  assumes "sink_answer en src h = Inl e"
  shows "fst (reconcile_kind en W img src h) =
      Err (EventErr ''Warning'' ''BadSinkURI'' (''Could not resolve sink URI: '' @ err_text e))"
    and "snd (reconcile_kind en W img src h) =
      (let (st, h') = mark_no_sink en (src_status (with_ce_attributes src),
             snd (snd (resolve_sink_url en (with_ce_attributes src) h)))
       in ((default_sink_namespace (with_ce_attributes src))\<lparr>src_status := st\<rparr>, h'))"
  using assms
  by (simp_all add: reconcile_kind_def resolve_sink_url_eq new_event_def split: prod.splits)

lemma reconcile_kind_sink_ok:
  assumes "sink_answer en src h = Inr uri" and "sink_marked en uri src h = (src2, h2)"
  shows "reconcile_kind en W img src h = reconcile_deployment en W img src2 h2"
  using assms by (simp add: reconcile_kind_def sink_marked_def resolve_sink_url_eq split: prod.splits)

lemma sink_marked_eq:
  assumes "sink_marked en uri src h = (src2, h2)"
  defines "s \<equiv> with_sink_uri uri (src_status (with_ce_attributes src),
    h @ [ResolveSink (spec_sink (src_spec (default_sink_namespace (with_ce_attributes src))))
           (om_namespace (src_meta src)) (om_name (src_meta src))])"
  shows "src2 = (default_sink_namespace (with_ce_attributes src))
      \<lparr>src_status := fst (src_mark en (sink_mark uri) s)\<rparr>"
    and "h2 = snd (src_mark en (sink_mark uri) s)"
  using assms by (auto simp: sink_marked_def resolve_sink_url_eq mark_ops split: prod.splits)

lemma sink_marked_frame:
  assumes "sink_marked en uri src h = (src2, h2)"
  shows "st_sink_uri (src_status src2) = uri"
    and "st_webhook_id (src_status src2) = st_webhook_id (src_status src)"
    and "src_meta src2 = src_meta src"
    and "src_spec src2 = src_spec (default_sink_namespace (with_ce_attributes src))"
    and "extends (\<lambda>r. r = Now \<or> (\<exists>d ns n. r = ResolveSink d ns n)) h h2"
proof -
  note eq = sink_marked_eq [OF assms]
  show "st_sink_uri (src_status src2) = uri"
    and "st_webhook_id (src_status src2) = st_webhook_id (src_status src)"
    and "src_meta src2 = src_meta src"
    and "src_spec src2 = src_spec (default_sink_namespace (with_ce_attributes src))"
    by (simp_all add: eq(1))
  show "extends (\<lambda>r. r = Now \<or> (\<exists>d ns n. r = ResolveSink d ns n)) h h2"
    unfolding eq(2) by (rule extends_trans [OF _ extends_ticks [OF src_mark_ticks]]) simp_all
qed

lemma sink_marked_gitlab:
  assumes "sink_marked en uri src h = (src2, h2)"
  shows "gitlab_calls h2 = gitlab_calls h"
  unfolding sink_marked_eq(2) [OF assms] by simp

lemma sink_marked_conds:
  assumes run: "sink_marked en uri src h = (src2, h2)" and pre: "conds_are (src_status src) a b c"
  shows "conds_are (src_status src2) (Some (sink_status uri)) b c \<and> ready_agrees (src_status src2)"
proof -
  let ?s = "with_sink_uri uri (src_status (with_ce_attributes src),
    h @ [ResolveSink (spec_sink (src_spec (default_sink_namespace (with_ce_attributes src))))
           (om_namespace (src_meta src)) (om_name (src_meta src))])"
  have "conds_are (fst (src_mark en (sink_mark uri) ?s)) (Some (sink_status uri)) b c"
    "ready_agrees (fst (src_mark en (sink_mark uri) ?s))"
    using pre by - (rule conds_are_mark [where a = a and b = b and c = c];
        simp add: sink_mark_def sink_status_def split: option.split)+
  then show ?thesis by (simp add: sink_marked_eq(1) [OF run])
qed

text \<open>The conditions after a reconciliation, branch by branch.\<close>

lemma reconcile_kind_conds:
  assumes run: "reconcile_kind en W img src h = (r, src', h')"
    and pre: "conds_are (src_status src) a b c"
  shows "ready_agrees (src_status src') \<and>
    (case sink_answer en src h of
       Inl e \<Rightarrow> conds_are (src_status src') (Some CFalse) b c \<and> r \<noteq> Ok () \<and>
         st_webhook_id (src_status src') = st_webhook_id (src_status src)
     | Inr uri \<Rightarrow>
         st_sink_uri (src_status src') = uri \<and>
         (case fst (case sink_marked en uri src h of (src2, h2) \<Rightarrow> reconcile_adapter en img src2 h2) of
            Inl e \<Rightarrow> conds_are (src_status src') (Some (sink_status uri)) (Some CFalse) c \<and>
              r \<noteq> Ok () \<and> st_webhook_id (src_status src') = st_webhook_id (src_status src)
          | Inr ks \<Rightarrow>
              (if kservice_ready ks
               then conds_are (src_status src') (Some (sink_status uri)) (Some CTrue)
                   (webhook_cond (ks_url ks) r c) \<and>
                 (ks_url ks = None \<longrightarrow> r = Ok ()) \<and>
            (ks_url ks \<noteq> None \<and> r = Ok () \<longrightarrow> st_webhook_id (src_status src') \<noteq> None) \<and>
                 (ks_url ks = None \<or> r \<noteq> Ok () \<longrightarrow>
                    st_webhook_id (src_status src') = st_webhook_id (src_status src))
               else conds_are (src_status src') (Some (sink_status uri)) (Some CFalse) c \<and>
                 r = Ok () \<and> st_webhook_id (src_status src') = st_webhook_id (src_status src))))"
proof (cases "sink_answer en src h")
  case (Inl e)
  let ?s = "(src_status (with_ce_attributes src),
    snd (snd (resolve_sink_url en (with_ce_attributes src) h)))"
  have "conds_are (fst (mark_no_sink en ?s)) (Some CFalse) b c" "ready_agrees (fst (mark_no_sink en ?s))"
    using pre unfolding mark_ops
    by - (rule conds_are_mark [where a = a and b = b and c = c]; simp)+
  moreover have "src_status src' = fst (mark_no_sink en ?s)" "r \<noteq> Ok ()"
    using reconcile_kind_sink_failed [OF Inl, of W img] run by (auto split: prod.splits)
  ultimately show ?thesis using Inl by (simp add: mark_ops)
next
  case (Inr uri)
  obtain src2 h2 where m: "sink_marked en uri src h = (src2, h2)" by (metis surj_pair)
  note f = sink_marked_conds [OF m pre]
  have "reconcile_deployment en W img src2 h2 = (r, src', h')"
    using run reconcile_kind_sink_ok [OF Inr m] by metis
  from reconcile_deployment_conds [OF this f [THEN conjunct1] f [THEN conjunct2]] Inr m sink_marked_frame(1,2) [OF m] show ?thesis
    by (auto split: sum.splits if_splits)
qed

subsection \<open>Facts: the requests to GitLab\<close>

text \<open>
  The GitLab requests of \<open>sync_webhook\<close> with this package's client, exactly: one addition when
  the source has no hook yet, otherwise a reading of the hook and, if that succeeds, an edit.
\<close>

definition sync_calls :: "env \<Rightarrow> gitlab_source \<Rightarrow> url option \<Rightarrow> history \<Rightarrow> gl_request list" where
  "sync_calls en src u h =
     (case get_webhook_client en src h of
        (Ok c, h1) \<Rightarrow>
          (let ts = spec_event_types (src_spec src); tls = spec_ssl_verify (src_spec src)
           in case st_webhook_id (src_status src) of
                None \<Rightarrow>
                  [GlAddHook (wc_cli c) (wc_project c) (add_hook_options (wc_secret_token c) ts u tls)]
              | Some i \<Rightarrow>
                  GlGetHook (wc_cli c) (wc_project c) i #
                  (case fst (wc_get en c i h1) of
                     Inl _ \<Rightarrow> []
                   | Inr _ \<Rightarrow>
                       [GlEditHook (wc_cli c) (wc_project c) i
                          (edit_hook_options (wc_secret_token c) ts u tls)]))
      | _ \<Rightarrow> [])"

lemma mark_gitlab [simp]:
  "gitlab_calls (snd (mark_no_webhook en r msg s)) = gitlab_calls (snd s)"
  "gitlab_calls (snd (mark_webhook en s)) = gitlab_calls (snd s)"
  "gitlab_calls (snd (mark_sink en uri s)) = gitlab_calls (snd s)"
  "gitlab_calls (snd (mark_no_sink en s)) = gitlab_calls (snd s)"
  "gitlab_calls (snd (mark_deployed en s)) = gitlab_calls (snd s)"
  "gitlab_calls (snd (mark_not_deployed en r msg s)) = gitlab_calls (snd s)"
  by (simp_all add: mark_ops)

lemma mark_gitlab':
  "mark_webhook en s = (st, h') \<Longrightarrow> gitlab_calls h' = gitlab_calls (snd s)"
  "mark_not_deployed en r msg s = (st, h') \<Longrightarrow> gitlab_calls h' = gitlab_calls (snd s)"
  "mark_no_sink en s = (st, h') \<Longrightarrow> gitlab_calls h' = gitlab_calls (snd s)"
  using mark_gitlab(2) [of en s] mark_gitlab(6) [of en r msg s] mark_gitlab(4) [of en s]
  by simp_all

lemma record_event_gitlab [simp]: "gitlab_calls (record_event t r msg h) = gitlab_calls h"
  by (simp add: record_event_def)

lemma hook_not_found_wrapped:
  "wc_get en c i h = (Inl e, h') \<Longrightarrow> \<not> is_hook_not_found (Some e)"
  using wc_get_not_404 [of en c i h e h']
  by (auto simp: is_hook_not_found_def gitlab_status_is_def split: option.split)

lemma gitlab_iface_sel [simp]:
  "wi_client (gitlab_iface en) = get_webhook_client en"
  "wi_get (gitlab_iface en) = wc_get en"
  "wi_add (gitlab_iface en) = wc_add en"
  "wi_edit (gitlab_iface en) = wc_edit en"
  "wi_delete (gitlab_iface en) = wc_delete en"
  by (simp_all add: gitlab_iface_def)

lemma create_webhook_gitlab:
  "gitlab_calls (snd (snd (create_webhook en (gitlab_iface en) c src u h))) =
     gitlab_calls h @ [GlAddHook (wc_cli c) (wc_project c)
       (add_hook_options (wc_secret_token c) (spec_event_types (src_spec src)) u
         (spec_ssl_verify (src_spec src)))]"
  by (auto simp: create_webhook_def Let_def dest!: wc_history'(1) split: prod.split sum.split)

lemma update_webhook_gitlab:
  "gitlab_calls (snd (snd (update_webhook en (gitlab_iface en) c src i u h))) =
     gitlab_calls h @ [GlEditHook (wc_cli c) (wc_project c) i
       (edit_hook_options (wc_secret_token c) (spec_event_types (src_spec src)) u
         (spec_ssl_verify (src_spec src)))]"
  by (auto simp: update_webhook_def Let_def dest!: wc_history'(2) split: prod.split option.split)

lemma sync_webhook_gitlab:
  "gitlab_calls (snd (snd (sync_webhook en (gitlab_iface en) src u h))) =
     gitlab_calls h @ sync_calls en src u h"
proof -
  obtain q h1 where q: "get_webhook_client en src h = (q, h1)" by (metis surj_pair)
  have h1: "gitlab_calls h1 = gitlab_calls h" using get_webhook_client_gitlab [of en src h] q by simp
  show ?thesis
  proof (cases q)
    case (Ok c)
    show ?thesis
    proof (cases "st_webhook_id (src_status src)")
      case None
      with q h1 Ok show ?thesis
        by (simp add: sync_webhook_def sync_calls_def create_webhook_gitlab)
    next
      case (Some i)
      obtain g h2 where g: "wc_get en c i h1 = (g, h2)" by (metis surj_pair)
      then have h2: "h2 = h1 @ [GitLab (GlGetHook (wc_cli c) (wc_project c) i)]"
        using wc_history(1) [of en c i h1] by simp
      show ?thesis
        using q h1 Ok Some g h2 hook_not_found_wrapped [of en c i h1 _ h2]
        by (cases g) (simp_all add: sync_webhook_def sync_calls_def Let_def update_webhook_gitlab)
    qed
  qed (use q h1 in \<open>simp_all add: sync_webhook_def sync_calls_def Let_def\<close>)
qed

lemma reconcile_webhook_gitlab:
  "gitlab_calls (snd (snd (reconcile_webhook en (gitlab_iface en) src u h))) =
     gitlab_calls h @ (if u = None then [] else sync_calls en src u h)"
  using sync_webhook_gitlab [of en src u h]
  by (auto simp: reconcile_webhook_def Let_def dest!: mark_gitlab'(1) split: result.splits prod.splits)

text \<open>
  The source and history from which \<open>reconcile_deployment\<close> synchronises the webhook.
\<close>

definition deployed_marked ::
  "env \<Rightarrow> string \<Rightarrow> gitlab_source \<Rightarrow> history \<Rightarrow> gitlab_source \<times> history" where
  "deployed_marked en img src h =
     (let (st, h') = mark_deployed en (src_status src, snd (reconcile_adapter en img src h))
      in (src\<lparr>src_status := st\<rparr>, h'))"

lemma deployed_marked_frame:
  assumes "deployed_marked en img src h = (src', h')"
  shows "gitlab_calls h' = gitlab_calls h" and "src_meta src' = src_meta src"
    and "src_spec src' = src_spec src"
    and "st_webhook_id (src_status src') = st_webhook_id (src_status src)"
    and "filter is_create_service h' = filter is_create_service (snd (reconcile_adapter en img src h))"
proof -
  let ?s = "(src_status src, snd (reconcile_adapter en img src h))"
  have eq: "src' = src\<lparr>src_status := fst (mark_deployed en ?s)\<rparr>" "h' = snd (mark_deployed en ?s)"
    using assms by (auto simp: deployed_marked_def split: prod.splits)
  then show "gitlab_calls h' = gitlab_calls h" and "src_meta src' = src_meta src"
    and "src_spec src' = src_spec src"
    and "st_webhook_id (src_status src') = st_webhook_id (src_status src)"
    by (simp_all add: mark_ops(5))
  have "ticks_only (snd ?s) h'" using eq(2) src_mark_ticks [of ?s] by (simp add: mark_ops)
  then show "filter is_create_service h' = filter is_create_service (snd (reconcile_adapter en img src h))"
    by (auto simp: ticks_only_def)
qed

lemma reconcile_deployment_gitlab:
  "gitlab_calls (snd (snd (reconcile_deployment en (gitlab_iface en) img src h))) =
     gitlab_calls h @
     (case fst (reconcile_adapter en img src h) of
        Inl _ \<Rightarrow> []
      | Inr ks \<Rightarrow>
          (if kservice_ready ks \<and> ks_url ks \<noteq> None
           then (case deployed_marked en img src h of (src', h') \<Rightarrow> sync_calls en src' (ks_url ks) h')
           else []))"
proof -
  obtain q h1 where q: "reconcile_adapter en img src h = (q, h1)" by (metis surj_pair)
  have h1: "gitlab_calls h1 = gitlab_calls h"
    using reconcile_adapter_gitlab [of en img src h] q by simp
  show ?thesis
  proof (cases "\<exists>ks. q = Inr ks \<and> kservice_ready ks")
    case False
    then show ?thesis using q h1
      by (cases q) (auto simp: reconcile_deployment_def Let_def dest!: mark_gitlab'(2)
          split: prod.splits)
  next
    case True
    then obtain ks where ks: "q = Inr ks" "kservice_ready ks" by blast
    obtain src' h' where d: "deployed_marked en img src h = (src', h')" by (metis surj_pair)
    have "reconcile_deployment en (gitlab_iface en) img src h =
        reconcile_webhook en (gitlab_iface en) src' (ks_url ks) h'"
      using ks q d by (auto simp: reconcile_deployment_def deployed_marked_def split: prod.splits)
    then show ?thesis
      using ks q d deployed_marked_frame(1) [OF d] by (simp add: reconcile_webhook_gitlab)
  qed
qed

lemma reconcile_kind_gitlab:
  "gitlab_calls (snd (snd (reconcile_kind en (gitlab_iface en) img src h))) = gitlab_calls h @
     (case sink_answer en src h of
        Inl _ \<Rightarrow> []
      | Inr uri \<Rightarrow>
          (case sink_marked en uri src h of (src2, h2) \<Rightarrow>
             (case fst (reconcile_adapter en img src2 h2) of
                Inl _ \<Rightarrow> []
              | Inr ks \<Rightarrow>
                  (if kservice_ready ks \<and> ks_url ks \<noteq> None
                   then (case deployed_marked en img src2 h2 of
                           (src3, h3) \<Rightarrow> sync_calls en src3 (ks_url ks) h3)
                   else []))))"
proof (cases "sink_answer en src h")
  case (Inl e)
  have "gitlab_calls (snd (snd (resolve_sink_url en (with_ce_attributes src) h))) = gitlab_calls h"
    by (simp add: resolve_sink_url_eq)
  then show ?thesis
    using Inl reconcile_kind_sink_failed(2) [OF Inl, of "gitlab_iface en" img]
    by (auto dest!: mark_gitlab'(3) split: prod.splits)
next
  case (Inr uri)
  obtain src2 h2 where m: "sink_marked en uri src h = (src2, h2)" by (metis surj_pair)
  show ?thesis using Inr m sink_marked_gitlab [OF m]
    by (simp add: reconcile_kind_sink_ok [OF Inr m] reconcile_deployment_gitlab)
qed

text \<open>The requests of \<open>FinalizeKind\<close> to GitLab.\<close>

lemma finalize_kind_gitlab:
  "gitlab_calls (snd (snd (finalize_kind en (gitlab_iface en) src h))) = gitlab_calls h @
     (case (st_webhook_id (src_status src), fst (get_webhook_client en src h)) of
        (Some i, Ok c) \<Rightarrow> [GlDeleteHook (wc_cli c) (wc_project c) i]
      | _ \<Rightarrow> [])"
proof -
  obtain q h1 where q: "get_webhook_client en src h = (q, h1)" by (metis surj_pair)
  have "gitlab_calls h1 = gitlab_calls h" using get_webhook_client_gitlab [of en src h] q by simp
  with q show ?thesis
    by (auto simp: finalize_kind_def dest!: wc_history'(3)
        split: option.split prod.split result.split)
qed

subsection \<open>Facts: a successful reconciliation\<close>

text \<open>
  A reconciliation that succeeds and reaches GitLab went through the synchronisation, and records
  the identifier it returned.
\<close>

lemma reconcile_webhook_ok:
  assumes "reconcile_webhook en W src (Some u) h = (Ok (), src', h')"
  shows "\<exists>i st h1. sync_webhook en W src (Some u) h = (Ok i, (st, h1)) \<and> ticks_only h1 h' \<and>
    st_webhook_id (src_status src') = Some i"
proof -
  obtain q st h1 where q: "sync_webhook en W src (Some u) h = (q, (st, h1))" by (metis surj_pair)
  obtain i where i: "q = Ok i" using assms q by (cases q) (auto simp: reconcile_webhook_def)
  let ?s = "(st\<lparr>st_webhook_id := Some i\<rparr>, h1)"
  have "src_status src' = fst (mark_webhook en ?s)" "h' = snd (mark_webhook en ?s)"
    using assms q i by (auto simp: reconcile_webhook_def split: prod.splits)
  with q i src_mark_ticks [of ?s] show ?thesis by (auto simp: mark_ops)
qed

lemma reconcile_kind_synced:
  assumes run: "reconcile_kind en (gitlab_iface en) img src h = (Ok (), src', h')"
    and talked: "gitlab_calls h' \<noteq> gitlab_calls h"
  obtains uri src2 h2 ks u src3 h3 i st h4
  where "sink_marked en uri src h = (src2, h2)" and "fst (reconcile_adapter en img src2 h2) = Inr ks"
    and "kservice_ready ks" and "ks_url ks = Some u" and "deployed_marked en img src2 h2 = (src3, h3)"
    and "sync_webhook en (gitlab_iface en) src3 (Some u) h3 = (Ok i, (st, h4))"
    and "st_webhook_id (src_status src') = Some i" and "ticks_only h4 h'"
proof -
  have ne: "gitlab_calls (snd (snd (reconcile_kind en (gitlab_iface en) img src h))) \<noteq> gitlab_calls h"
    using run talked by simp
  obtain uri where uri: "sink_answer en src h = Inr uri"
    using ne unfolding reconcile_kind_gitlab by (cases "sink_answer en src h") auto
  obtain src2 h2 where m: "sink_marked en uri src h = (src2, h2)" by (metis surj_pair)
  obtain q h2' where q: "reconcile_adapter en img src2 h2 = (q, h2')" by (metis surj_pair)
  obtain ks u where ks: "q = Inr ks" "kservice_ready ks" "ks_url ks = Some u"
    using ne uri m q unfolding reconcile_kind_gitlab by (cases q) (auto split: if_splits)
  obtain src3 h3 where d: "deployed_marked en img src2 h2 = (src3, h3)" by (metis surj_pair)
  have "reconcile_webhook en (gitlab_iface en) src3 (Some u) h3 = (Ok (), src', h')"
    using run reconcile_kind_sink_ok [OF uri m, of "gitlab_iface en" img] q ks d
    by (auto simp: reconcile_deployment_def deployed_marked_def split: prod.splits)
  from reconcile_webhook_ok [OF this] obtain i st h4 where
    "sync_webhook en (gitlab_iface en) src3 (Some u) h3 = (Ok i, (st, h4))" "ticks_only h4 h'"
    "st_webhook_id (src_status src') = Some i" by blast
  from that [OF m _ ks(2,3) d this(1,3,2)] q ks(1) show ?thesis by simp
qed

text \<open>The clients built for a source; marking a source does not change them.\<close>

definition client_of :: "env \<Rightarrow> gitlab_source \<Rightarrow> webhook_client \<Rightarrow> bool" where
  "client_of en src c \<longleftrightarrow> (\<exists>h h'. get_webhook_client en src h = (Ok c, h'))"

lemma client_of_marked:
  assumes "sink_marked en uri src h = (src2, h2)" and "deployed_marked en img src2 h2 = (src3, h3)"
    and "get_webhook_client en src3 h' = (Ok c, h'')"
  shows "client_of en src c"
proof -
  have "get_webhook_client en src3 h' = get_webhook_client en src h'"
    unfolding get_webhook_client_def deployed_marked_frame(2,3) [OF assms(2)]
      sink_marked_frame(3,4) [OF assms(1)] default_sink_namespace_frame with_ce_attributes_frame
    by (rule refl)
  with assms(3) show ?thesis by (auto simp: client_of_def)
qed

subsection \<open>Facts: what happens to the hooks\<close>

text \<open>
  The client lemmas of the webhook service's contract: what a successful synchronisation and a
  successful finalisation leave among the hooks of the project.
\<close>

context webhook_service
begin

lemma create_webhook_hooks:
  assumes valid and "create_webhook en W c src u h = (Ok i, s)"
  shows "hooks c h i = None" and "hooks c (snd s) = (hooks c h)
      (i \<mapsto> added_config dflt (token c) (spec_event_types (src_spec src)) u (spec_ssl_verify (src_spec src)))"
proof -
  obtain h1 where a: "wi_add W c (spec_event_types (src_spec src)) u (spec_ssl_verify (src_spec src)) h
      = (Inr i, h1)"
    and s: "snd s = record_event ''Normal'' ''WebHookCreated'' ''Project webhook created successfully'' h1"
    using assms(2) by (auto simp: create_webhook_def Let_def split: prod.splits sum.splits)
  show "hooks c h i = None" by (rule add_fresh [OF assms(1) a])
  show "hooks c (snd s) = (hooks c h)
      (i \<mapsto> added_config dflt (token c) (spec_event_types (src_spec src)) u (spec_ssl_verify (src_spec src)))"
    unfolding s by (simp add: record_frame [OF assms(1)] add_hook [OF assms(1) a])
qed

lemma update_webhook_hooks:
  assumes valid and "update_webhook en W c src k u h = (Ok i, s)"
  shows "i = k \<and> (\<exists>cfg. hooks c h k = Some cfg \<and> hooks c (snd s) = (hooks c h)
      (k \<mapsto> desired_config cfg (token c) (spec_event_types (src_spec src)) u
              (spec_ssl_verify (src_spec src))))"
proof -
  have e: "wi_edit W c k (spec_event_types (src_spec src)) u (spec_ssl_verify (src_spec src)) h
      = (None, snd s)" and "i = k"
    using assms(2) by (auto simp: update_webhook_def Let_def split: prod.splits option.splits)
  with edit_hook [OF assms(1) e] show ?thesis by blast
qed

lemma sync_webhook_created:
  assumes v: valid and run: "sync_webhook en W src u h = (Ok i, s)"
    and new: "st_webhook_id (src_status src) = None"
  shows "\<exists>c h1. wi_client W src h = (Ok c, h1) \<and> hooks c h i = None \<and> hooks c (snd s) = (hooks c h)
      (i \<mapsto> added_config dflt (token c) (spec_event_types (src_spec src)) u (spec_ssl_verify (src_spec src)))"
proof -
  obtain c h1 where c: "wi_client W src h = (Ok c, h1)" "create_webhook en W c src u h1 = (Ok i, s)"
    using run new by (auto simp: sync_webhook_def Let_def split: prod.splits result.splits if_splits)
  moreover have "hooks c h1 = hooks c h" using client_frame [OF v, of c src h] c(1) by simp
  ultimately show ?thesis using create_webhook_hooks [OF v c(2)] by auto
qed

lemma sync_webhook_updated:
  assumes v: valid and run: "sync_webhook en W src u h = (Ok i, s)"
    and old: "st_webhook_id (src_status src) = Some k"
    and nf: "\<And>c h e h'. wi_get W c k h = (Inl e, h') \<Longrightarrow> \<not> is_hook_not_found (Some e)"
  shows "\<exists>c h1 cfg. wi_client W src h = (Ok c, h1) \<and> i = k \<and> hooks c h k = Some cfg \<and>
    hooks c (snd s) = (hooks c h)
      (k \<mapsto> desired_config cfg (token c) (spec_event_types (src_spec src)) u
              (spec_ssl_verify (src_spec src)))"
proof -
  obtain c h1 where c: "wi_client W src h = (Ok c, h1)"
    using run by (auto simp: sync_webhook_def Let_def split: prod.splits result.splits if_splits)
  obtain g h2 where g: "wi_get W c k h1 = (g, h2)" by (metis surj_pair)
  have up: "update_webhook en W c src k u h2 = (Ok i, s)"
    using run old c g nf [of c h1 _ h2]
    by (cases g) (auto simp: sync_webhook_def Let_def)
  have "hooks c h2 = hooks c h"
    using client_frame [OF v, of c src h] get_frame [OF v, of c c k h1] c g by simp
  with update_webhook_hooks [OF v up] c show ?thesis by auto
qed

lemma finalize_kind_deleted:
  assumes v: valid and run: "finalize_kind en W src h = (Ok (), src', h')"
    and old: "st_webhook_id (src_status src) = Some k"
    and gone: "st_webhook_id (src_status src') = None"
  shows "\<exists>c h1. wi_client W src h = (Ok c, h1) \<and> hooks c h' = (hooks c h)(k := None)"
proof -
  obtain c h1 where c: "wi_client W src h = (Ok c, h1)" "wi_delete W c k h1 = (None, h')"
    using run old gone
    by (auto simp: finalize_kind_def split: prod.splits result.splits if_splits option.splits)
  with delete_hook [OF v c(2)] client_frame [OF v, of c src h] show ?thesis by auto
qed

lemma mark_frame:
  assumes v: valid
  shows "hooks c (snd (src_mark en k s)) = hooks c (snd s)"
  by (rule ticks_frame [OF v src_mark_ticks])

lemma adapter_frame:
  assumes v: valid
  shows "hooks c (snd (reconcile_adapter en img src h)) = hooks c h"
  using get_owned_service_history [of en src h] other_frame [OF v]
  by (auto simp: reconcile_adapter_def ask_def Let_def split: prod.splits sum.splits)

lemma sink_marked_hooks:
  assumes v: valid and run: "sink_marked en uri src h = (src2, h2)"
  shows "hooks c h2 = hooks c h"
  unfolding sink_marked_eq(2) [OF run] by (simp add: mark_frame [OF v] other_frame [OF v])

lemma deployed_marked_hooks:
  assumes v: valid and run: "deployed_marked en img src h = (src2, h2)"
  shows "hooks c h2 = hooks c h"
proof -
  have "h2 = snd (src_mark en (MarkTrue Deployed)
      (src_status src, snd (reconcile_adapter en img src h)))"
    using run by (auto simp: deployed_marked_def mark_ops split: prod.splits)
  then show ?thesis by (simp only: mark_frame [OF v] snd_conv adapter_frame [OF v])
qed

text \<open>The hooks of a client's project across the steps before the synchronisation.\<close>

lemma before_sync_hooks:
  assumes valid and "sink_marked en uri src h = (src2, h2)"
    and "deployed_marked en img src2 h2 = (src3, h3)"
  shows "hooks c h3 = hooks c h"
  using sink_marked_hooks [OF assms(1,2)] deployed_marked_hooks [OF assms(1,3)] by simp

end

end
