(* ===== verification/Traces.thy ===== *)
theory Traces
  imports SourceReconciler
begin

section \<open>The requests of the source reconciler\<close>

text \<open>
  Which kinds of requests each operation of the source reconciler makes: the history only ever
  grows, the webhook's synchronisation reads Secrets, talks to GitLab and records events, and only
  \<open>reconcile_adapter\<close> creates a service. Nothing here writes the source itself.
\<close>

fun webhook_request :: "request \<Rightarrow> bool" where
  "webhook_request Now = True"
| "webhook_request (GetSecret _ _) = True"
| "webhook_request (GitLab _) = True"
| "webhook_request (RecordEvent _ _ _) = True"
| "webhook_request _ = False"

fun kind_request :: "request \<Rightarrow> bool" where
  "kind_request (ResolveSink _ _ _) = True"
| "kind_request (ListServices _) = True"
| "kind_request (CreateService _ _) = True"
| "kind_request r = webhook_request r"

lemma webhook_kind: "webhook_request r \<Longrightarrow> kind_request r"
  by (cases r) simp_all

lemma webhook_no_create: "webhook_request r \<Longrightarrow> \<not> is_create_service r"
  by (cases r) simp_all

lemma get_webhook_client_extends:
  "get_webhook_client en src h = (q, h') \<Longrightarrow> extends webhook_request h h'"
  using get_webhook_client_requests [of en src h] by (auto simp: extends_def list_all_iff)

lemma extends_append [simp]: "extends P h (h @ xs) = list_all P xs"
  by (auto simp: extends_def)

lemma mark_ticks:
  "mark_no_webhook en r msg s = (st, h') \<Longrightarrow> ticks_only (snd s) h'"
  "mark_webhook en s = (st, h') \<Longrightarrow> ticks_only (snd s) h'"
  "mark_sink en uri s = (st, h') \<Longrightarrow> ticks_only (snd s) h'"
  "mark_no_sink en s = (st, h') \<Longrightarrow> ticks_only (snd s) h'"
  "mark_deployed en s = (st, h') \<Longrightarrow> ticks_only (snd s) h'"
  "mark_not_deployed en r msg s = (st, h') \<Longrightarrow> ticks_only (snd s) h'"
  unfolding mark_ops
  using src_mark_ticks [of s en] src_mark_ticks [of "with_sink_uri uri s" en]
  by (simp_all, metis snd_conv, metis snd_conv, metis snd_conv, metis snd_conv, metis snd_conv, metis snd_conv)

text \<open>A step that ends in a mark extends the history as its start does.\<close>

lemma extends_mark:
  "extends P h (snd s) \<Longrightarrow> ticks_only (snd s) h' \<Longrightarrow> P Now \<Longrightarrow> extends P h h'"
  by (blast intro: extends_trans extends_ticks)

lemma extends_snoc_ticks:
  "ticks_only (h @ [r]) h' \<Longrightarrow> P r \<Longrightarrow> P Now \<Longrightarrow> extends P h h'"
  by (auto simp: extends_def ticks_only_def list_all_iff)

lemma create_webhook_extends:
  assumes that: "create_webhook en (gitlab_iface en) c src u h1 = (r, (st, h'))"
  shows "extends webhook_request h1 h'"
proof (cases "fst (wi_add (gitlab_iface en) c (spec_event_types (src_spec src)) u (spec_ssl_verify (src_spec src)) h1)")
  case (Inl e)
  with that show ?thesis
    by (auto simp: create_webhook_def Let_def dest!: wc_history'(1) mark_ticks(1) split: prod.splits
        intro: extends_snoc_ticks)
next
  case (Inr i)
  with that show ?thesis
    by (auto simp: create_webhook_def Let_def record_event_def dest!: wc_history'(1) split: prod.splits)
qed

lemma update_webhook_extends:
  assumes that: "update_webhook en (gitlab_iface en) c src k u h1 = (r, (st, h'))"
  shows "extends webhook_request h1 h'"
proof (cases "fst (wi_edit (gitlab_iface en) c k (spec_event_types (src_spec src)) u (spec_ssl_verify (src_spec src)) h1)")
  case (Some e)
  with that show ?thesis
    by (auto simp: update_webhook_def Let_def dest!: wc_history'(2) mark_ticks(1) split: prod.splits
        intro: extends_snoc_ticks)
next
  case None
  with that show ?thesis
    by (auto simp: update_webhook_def Let_def dest!: wc_history'(2) split: prod.splits)
qed

lemma sync_webhook_extends:
  assumes run: "sync_webhook en (gitlab_iface en) src u h = (r, (st, h'))"
  shows "extends webhook_request h h'"
proof -
  obtain q h1 where q: "get_webhook_client en src h = (q, h1)" by (metis surj_pair)
  note e1 = get_webhook_client_extends [OF q]
  have marked: "extends webhook_request h h'" if "extends webhook_request h h2"
    "mark_no_webhook en reason msg (src_status src, h2) = (st, h')" for reason msg h2
    using extends_mark [of webhook_request h "(src_status src, h2)" h'] that mark_ticks(1) [OF that(2)]
    by simp
  show ?thesis
  proof (cases q)
    case (Ok c)
    show ?thesis
    proof (cases "st_webhook_id (src_status src)")
      case None
      with run q Ok have "create_webhook en (gitlab_iface en) c src u h1 = (r, (st, h'))"
        by (simp add: sync_webhook_def)
      with create_webhook_extends e1 show ?thesis by (blast intro: extends_trans)
    next
      case (Some k)
      obtain g h2 where g: "wc_get en c k h1 = (g, h2)" by (metis surj_pair)
      have "h2 = h1 @ [GitLab (GlGetHook (wc_cli c) (wc_project c) k)]"
        using wc_history(1) [of en c k h1] g by simp
      then have e2: "extends webhook_request h h2" using e1 by (auto simp: extends_def)
      show ?thesis
      proof (cases g)
        case (Inl e)
        have nf: "\<not> is_hook_not_found (Some e)" using g Inl hook_not_found_wrapped by blast
        show ?thesis
          by (rule marked [OF e2]) (use run q Ok Some g Inl nf in \<open>auto simp: sync_webhook_def Let_def\<close>)
      next
        case (Inr i)
        with run q Ok Some g have "update_webhook en (gitlab_iface en) c src k u h2 = (r, (st, h'))"
          by (simp add: sync_webhook_def)
        with update_webhook_extends e2 show ?thesis by (blast intro: extends_trans)
      qed
    qed
  next
    case (Err e)
    show ?thesis
    proof (cases "is_secret_not_found (Some e)")
      case True
      show ?thesis
        by (rule marked [OF e1]) (use run q Err True in \<open>auto simp: sync_webhook_def Let_def\<close>)
    next
      case False
      show ?thesis
        by (rule marked [OF e1]) (use run q Err False in \<open>auto simp: sync_webhook_def Let_def\<close>)
    qed
  qed (use run q e1 in \<open>simp add: sync_webhook_def\<close>)
qed

definition quiet_request :: "request \<Rightarrow> bool" where
  "quiet_request r \<longleftrightarrow> kind_request r \<and> \<not> is_create_service r"

lemma quiet_simps [simp]:
  "quiet_request Now" "quiet_request (ResolveSink d ns n)" "quiet_request (ListServices ns)"
  "webhook_request r \<Longrightarrow> quiet_request r"
  by (simp_all add: quiet_request_def webhook_kind webhook_no_create)

lemma reconcile_webhook_extends:
  assumes "reconcile_webhook en (gitlab_iface en) src u h = (r, src', h')"
  shows "extends webhook_request h h'"
proof (cases "u = None")
  case True
  with assms show ?thesis by (simp add: reconcile_webhook_def)
next
  case False
  obtain q st h1 where q: "sync_webhook en (gitlab_iface en) src u h = (q, (st, h1))" by (metis surj_pair)
  note e = sync_webhook_extends [OF q]
  show ?thesis
  proof (cases q)
    case (Ok i)
    with assms False q have "ticks_only h1 h'"
      by (auto simp: reconcile_webhook_def dest!: mark_ticks(2) split: prod.splits)
    with e show ?thesis using extends_mark [of webhook_request h "(st, h1)" h'] by simp
  qed (use assms False q e in \<open>simp_all add: reconcile_webhook_def\<close>)
qed

text \<open>
  The shape of a reconciliation: quiet requests, then, if the sink resolved, those of
  \<open>reconcile_adapter\<close> for a source with the same metadata, then those of the webhook.
\<close>

lemma reconcile_kind_shape:
  assumes run: "reconcile_kind en (gitlab_iface en) img src h = (r, src', h')"
  obtains (sink) "extends quiet_request h h'"
  | (adapter) src2 h2 where "extends quiet_request h h2" "src_meta src2 = src_meta src"
      "extends webhook_request (snd (reconcile_adapter en img src2 h2)) h'"
proof (cases "sink_answer en src h")
  case (Inl e)
  let ?h1 = "snd (snd (resolve_sink_url en (with_ce_attributes src) h))"
  have "ticks_only ?h1 h'"
    using run reconcile_kind_sink_failed(2) [OF Inl, of "gitlab_iface en" img]
    by (auto dest!: mark_ticks(4) split: prod.splits)
  moreover have "extends quiet_request h ?h1" by (simp add: resolve_sink_url_eq)
  ultimately show ?thesis using extends_mark [of quiet_request h "(st, ?h1)" h' for st] by (intro sink) fastforce
next
  case (Inr uri)
  obtain src2 h2 where m: "sink_marked en uri src h = (src2, h2)" by (metis surj_pair)
  have q2: "extends quiet_request h h2"
    by (rule extends_mono [OF sink_marked_frame(5) [OF m]]) auto
  obtain q h3 where q: "reconcile_adapter en img src2 h2 = (q, h3)" by (metis surj_pair)
  have d: "reconcile_deployment en (gitlab_iface en) img src2 h2 = (r, src', h')"
    using run reconcile_kind_sink_ok [OF Inr m] by metis
  have "extends webhook_request h3 h'"
  proof (cases "\<exists>ks. q = Inr ks \<and> kservice_ready ks")
    case False
    with d q have "ticks_only h3 h'"
      by (cases q) (auto simp: reconcile_deployment_def dest!: mark_ticks(6) split: prod.splits)
    then show ?thesis by (rule extends_ticks) simp
  next
    case True
    then obtain ks where ks: "q = Inr ks" "kservice_ready ks" by blast
    obtain st h4 where m4: "mark_deployed en (src_status src2, h3) = (st, h4)" by (metis surj_pair)
    from d q ks m4 have "reconcile_webhook en (gitlab_iface en) (src2\<lparr>src_status := st\<rparr>) (ks_url ks) h4
        = (r, src', h')"
      by (simp add: reconcile_deployment_def)
    then have "extends webhook_request h4 h'" by (rule reconcile_webhook_extends)
    moreover have "extends webhook_request h3 h4"
      using mark_ticks(5) [OF m4] by (intro extends_ticks) simp_all
    ultimately show ?thesis by (blast intro: extends_trans)
  qed
  with q q2 sink_marked_frame(3) [OF m] show ?thesis by (intro adapter [of h2 src2]) simp_all
qed

lemma reconcile_adapter_extends:
  "extends kind_request h (snd (reconcile_adapter en img src h))"
  using get_owned_service_history [of en src h]
  by (auto simp: reconcile_adapter_def ask_def Let_def split: prod.splits sum.splits)

lemma reconcile_kind_extends:
  "reconcile_kind en (gitlab_iface en) img src h = (r, src', h') \<Longrightarrow> extends kind_request h h'"
proof (erule reconcile_kind_shape)
  assume "extends quiet_request h h'"
  then show ?thesis by (rule extends_mono) (simp add: quiet_request_def)
next
  fix src2 h2
  assume "extends quiet_request h h2"
  then have "extends kind_request h h2" by (rule extends_mono) (simp add: quiet_request_def)
  also have "extends kind_request h2 (snd (reconcile_adapter en img src2 h2))"
    by (rule reconcile_adapter_extends)
  also assume "extends webhook_request (snd (reconcile_adapter en img src2 h2)) h'"
  then have "extends kind_request (snd (reconcile_adapter en img src2 h2)) h'"
    by (rule extends_mono) (rule webhook_kind)
  finally show ?thesis .
qed

lemma finalize_kind_extends:
  assumes run: "finalize_kind en (gitlab_iface en) src h = (r, src', h')"
  shows "extends webhook_request h h'"
proof (cases "st_webhook_id (src_status src)")
  case None
  with run show ?thesis by (simp add: finalize_kind_def)
next
  case (Some i)
  obtain q h1 where q: "get_webhook_client en src h = (q, h1)" by (metis surj_pair)
  note e = get_webhook_client_extends [OF q]
  have "extends webhook_request h1 h'"
    using run Some q
    by (cases q) (auto simp: finalize_kind_def record_event_def dest!: wc_history'(3)
        split: prod.splits option.splits if_splits)
  with e show ?thesis by (blast intro: extends_trans)
qed

subsection \<open>The adapter of a run\<close>

text \<open>
  The services of the source's adapter that the cluster named in answer to a request made after \<open>h\<close>: the first one of
  the source's namespace that the source controls, or the one that was created under its control.
\<close>

definition named_service :: "env \<Rightarrow> gitlab_source \<Rightarrow> history \<Rightarrow> request \<Rightarrow> kservice list" where
  "named_service en src h r =
     (case r of
        ListServices ns \<Rightarrow>
          (if ns \<noteq> om_namespace (src_meta src) then []
           else case e_list_services en h ns of
                  Inl _ \<Rightarrow> []
                | Inr items \<Rightarrow> (case find (\<lambda>ks. is_controlled_by ks src) items of None \<Rightarrow> [] | Some ks \<Rightarrow> [ks]))
      | CreateService ns ks \<Rightarrow>
          (if ns \<noteq> om_namespace (src_meta src) \<or> \<not> is_controlled_by ks src then []
           else case e_create_service en h ns ks of Inl _ \<Rightarrow> [] | Inr ks' \<Rightarrow> [ks'])
      | _ \<Rightarrow> [])"

fun named_services :: "env \<Rightarrow> gitlab_source \<Rightarrow> history \<Rightarrow> request list \<Rightarrow> kservice list" where
  "named_services en src h [] = []"
| "named_services en src h (r # e) = named_service en src h r @ named_services en src (h @ [r]) e"

definition adapter_services :: "env \<Rightarrow> gitlab_source \<Rightarrow> history \<Rightarrow> history \<Rightarrow> kservice list" where
  "adapter_services en src h h' = named_services en src h (drop (length h) h')"

lemma named_services_append:
  "named_services en src h (e @ e') = named_services en src h e @ named_services en src (h @ e) e'"
  by (induction e arbitrary: h) simp_all

lemma adapter_services_trans:
  assumes "extends P h h1" and "extends Q h1 h2"
  shows "adapter_services en src h h2 = adapter_services en src h h1 @ adapter_services en src h1 h2"
  using assms by (auto simp: extends_def adapter_services_def named_services_append)

fun service_request :: "request \<Rightarrow> bool" where
  "service_request (ListServices _) = True"
| "service_request (CreateService _ _) = True"
| "service_request _ = False"

lemma named_service_other [simp]: "\<not> service_request r \<Longrightarrow> named_service en src h r = []"
  by (cases r) (simp_all add: named_service_def)

lemma adapter_services_other: "extends (\<lambda>r. \<not> service_request r) h h' \<Longrightarrow> adapter_services en src h h' = []"
proof -
  have "List.list_all (\<lambda>r. \<not> service_request r) e \<Longrightarrow> named_services en src h e = []" for e
    by (induction e arbitrary: h) simp_all
  then show "extends (\<lambda>r. \<not> service_request r) h h' \<Longrightarrow> ?thesis" by (auto simp: extends_def adapter_services_def)
qed

lemma reconcile_adapter_service:
  assumes run: "reconcile_adapter en img src2 h = (Inr ks, h')" and meta: "src_meta src2 = src_meta src"
  shows "adapter_services en src h h' = [ks]"
proof -
  let ?ns = "om_namespace (src_meta src)"
  have c: "is_controlled_by x src2 = is_controlled_by x src" for x unfolding is_controlled_by_def meta ..
  have g: "is_controlled_by (generate_kservice en src2 img) src"
    using generated_service_owned [of "generate_kservice en src2 img" en src2 img] c by simp
  show ?thesis
  proof (cases "e_list_services en h ?ns")
    case (Inl e)
    with run c g meta show ?thesis
      by (auto simp: reconcile_adapter_def get_owned_service_def ask_def Let_def adapter_services_def named_service_def
          split: if_splits sum.splits)
  next
    case (Inr items)
    with run c g meta show ?thesis
      by (cases "find (\<lambda>ks. is_controlled_by ks src) items")
        (auto simp: reconcile_adapter_def get_owned_service_def ask_def Let_def adapter_services_def named_service_def
          split: if_splits sum.splits)
  qed
qed

lemma webhook_no_service: "webhook_request r \<Longrightarrow> \<not> service_request r"
  by (cases r) simp_all

text \<open>
  A successful reconciliation that reaches GitLab synchronised the hook with the URL of the one service of the adapter
  that the cluster named in it.
\<close>

lemma reconcile_kind_served:
  assumes run: "reconcile_kind en (gitlab_iface en) img src h = (Ok (), src', h')"
    and talked: "gitlab_calls h' \<noteq> gitlab_calls h"
  obtains uri src2 h2 src3 h3 ks u i st h4
  where "sink_marked en uri src h = (src2, h2)" and "deployed_marked en img src2 h2 = (src3, h3)"
    and "sync_webhook en (gitlab_iface en) src3 (Some u) h3 = (Ok i, (st, h4))"
    and "st_webhook_id (src_status src') = Some i" and "ticks_only h4 h'"
    and "adapter_services en src h h' = [ks]" and "kservice_ready ks" and "ks_url ks = Some u"
  using run talked
proof (rule reconcile_kind_synced)
  fix uri src2 h2 ks u src3 h3 i st h4
  assume m: "sink_marked en uri src h = (src2, h2)" and a: "fst (reconcile_adapter en img src2 h2) = Inr ks"
    and ks: "kservice_ready ks" "ks_url ks = Some u" and d: "deployed_marked en img src2 h2 = (src3, h3)"
    and sync: "sync_webhook en (gitlab_iface en) src3 (Some u) h3 = (Ok i, (st, h4))"
    and i: "st_webhook_id (src_status src') = Some i" and t: "ticks_only h4 h'"
  let ?h2' = "snd (reconcile_adapter en img src2 h2)"
  have before: "extends (\<lambda>r. \<not> service_request r) h h2"
    by (rule extends_mono [OF sink_marked_frame(5) [OF m]]) auto
  have "ticks_only ?h2' h3" using d by (auto simp: deployed_marked_def dest!: mark_ticks(5) split: prod.splits)
  then have "extends webhook_request ?h2' h3" by (rule extends_ticks) simp
  also have "extends webhook_request h3 h4" by (rule sync_webhook_extends [OF sync])
  also have "extends webhook_request h4 h'" using t by (rule extends_ticks) simp
  finally have after: "extends (\<lambda>r. \<not> service_request r) ?h2' h'" by (rule extends_mono) (rule webhook_no_service)
  have one: "adapter_services en src h2 ?h2' = [ks]"
    by (rule reconcile_adapter_service [of en img src2]) (use a sink_marked_frame(3) [OF m] in \<open>simp_all add: prod_eq_iff\<close>)
  note mid = reconcile_adapter_extends [of h2 en img src2]
  have "adapter_services en src h h' = [ks]"
    using adapter_services_trans [OF before extends_trans [OF extends_mono [OF mid] extends_mono [OF after]], of "\<lambda>_. True"]
      adapter_services_trans [OF mid after] adapter_services_other [OF before] adapter_services_other [OF after] one by simp
  with m d sync i t ks that show ?thesis by blast
qed

text \<open>A first successful reconciliation that reaches GitLab adds one hook.\<close>

lemma reconcile_kind_created:
  assumes doc: "gitlab_documented en view dflt"
    and run: "reconcile_kind en (gitlab_iface en) img src h = (Ok (), src', h')"
    and talked: "gitlab_calls h' \<noteq> gitlab_calls h"
    and new: "st_webhook_id (src_status src) = None"
  shows "\<exists>c i ks u. client_of en src c \<and> adapter_services en src h h' = [ks] \<and> kservice_ready ks \<and> ks_url ks = Some u \<and>
    st_webhook_id (src_status src') = Some i \<and>
    project_hooks view c h i = None \<and> project_hooks view c h' = (project_hooks view c h)
      (i \<mapsto> added_config dflt (wc_secret_token c) (spec_event_types (src_spec src)) (Some u)
              (spec_ssl_verify (src_spec src)))"
  using run talked
proof (rule reconcile_kind_served)
  fix uri src2 h2 src3 h3 ks u i st h4
  assume m: "sink_marked en uri src h = (src2, h2)" and d: "deployed_marked en img src2 h2 = (src3, h3)"
    and sync: "sync_webhook en (gitlab_iface en) src3 (Some u) h3 = (Ok i, (st, h4))"
    and i: "st_webhook_id (src_status src') = Some i" and t: "ticks_only h4 h'"
    and ks: "adapter_services en src h h' = [ks]" "kservice_ready ks" "ks_url ks = Some u"
  have "st_webhook_id (src_status src3) = None"
    using new sink_marked_frame(2) [OF m] deployed_marked_frame(4) [OF d] by simp
  from gl.sync_webhook_created [OF doc sync this] obtain c h1
    where c: "wi_client (gitlab_iface en) src3 h3 = (Ok c, h1)" "project_hooks view c h3 i = None"
      "project_hooks view c h4 = (project_hooks view c h3)
        (i \<mapsto> added_config dflt (wc_secret_token c) (spec_event_types (src_spec src3)) (Some u)
                (spec_ssl_verify (src_spec src3)))"
    by (elim exE conjE) simp
  have "client_of en src c" using client_of_marked [OF m d] c(1) by simp
  with c i ks gl.ticks_frame [OF doc t, of c] gl.before_sync_hooks [OF doc m d, of c]
    sink_marked_frame(4) [OF m] deployed_marked_frame(3) [OF d]
  show ?thesis by (intro exI [of _ c] exI [of _ i] exI [of _ ks] exI [of _ u]) simp
qed

end
