(* ===== verification/GenFacts.thy ===== *)
theory GenFacts
  imports GenReconciler Traces
begin

section \<open>Facts about the generated reconciler\<close>

text \<open>
  The generated reconciler around any pair of operations: its requests, when it writes the
  finalizer and the status, and the cases of a run. The contract it relies on is the locale
  \<open>kind_contract\<close>; its client lemmas are about whole runs.
\<close>

subsection \<open>Requests by kind\<close>

fun status_write :: "request \<Rightarrow> gitlab_source option" where
  "status_write (UpdateStatus s) = Some s"
| "status_write _ = None"

definition status_writes :: "history \<Rightarrow> gitlab_source list" where
  "status_writes h = List.map_filter status_write h"

fun is_patch :: "request \<Rightarrow> bool" where
  "is_patch (PatchFinalizers _ _ _) = True"
| "is_patch _ = False"

fun is_event :: "request \<Rightarrow> bool" where
  "is_event (RecordEvent _ _ _) = True"
| "is_event _ = False"

fun is_get_source :: "request \<Rightarrow> bool" where
  "is_get_source (GetSource _ _) = True"
| "is_get_source _ = False"

lemma status_writes_simps [simp]:
  "status_writes [] = []"
  "status_writes (h @ h') = status_writes h @ status_writes h'"
  "status_writes (UpdateStatus s # h) = s # status_writes h"
  by (simp_all add: status_writes_def List.map_filter_def)

lemma status_writes_other [simp]:
  "status_write r = None \<Longrightarrow> status_writes (r # h) = status_writes h"
  by (simp add: status_writes_def map_filter_simps)

lemma status_writes_none:
  "list_all (\<lambda>r. status_write r = None) e \<Longrightarrow> status_writes e = []"
  by (induction e) simp_all

lemma extends_status_writes:
  "extends (\<lambda>r. status_write r = None) h h' \<Longrightarrow> status_writes h' = status_writes h"
  by (auto simp: extends_def status_writes_none)

lemma kind_request_no_write: "kind_request r \<Longrightarrow> status_write r = None"
  by (cases r) simp_all

lemma kind_request_no_patch: "kind_request r \<Longrightarrow> \<not> is_patch r"
  by (cases r) simp_all

lemma extends_gitlab:
  "extends (\<lambda>r. gitlab_request r = None) h h' \<Longrightarrow> gitlab_calls h' = gitlab_calls h"
proof -
  have "list_all (\<lambda>r. gitlab_request r = None) e \<Longrightarrow> gitlab_calls e = []" for e
    by (induction e) simp_all
  then show "extends (\<lambda>r. gitlab_request r = None) h h' \<Longrightarrow> gitlab_calls h' = gitlab_calls h"
    by (auto simp: extends_def)
qed

subsection \<open>Writing the status\<close>

lemma update_attempt_writes:
  assumes "update_attempt en existing desired k h = (e, h')"
  shows "\<exists>ws. status_writes h' = status_writes h @ ws \<and> length ws \<le> 1 \<and>
    (\<forall>w \<in> set ws. src_status w = src_status desired)"
  using assms
  by (auto simp: update_attempt_def ask_def Let_def split: if_splits sum.splits prod.splits)

lemma retry_update_writes:
  "retry_update en existing desired k n h = (e, h') \<Longrightarrow>
   \<exists>ws. status_writes h' = status_writes h @ ws \<and> length ws \<le> n \<and>
    (\<forall>w \<in> set ws. src_status w = src_status desired)"
proof (induction n arbitrary: k h)
  case (Suc n)
  obtain e1 h1 where a: "update_attempt en existing desired k h = (e1, h1)" by (metis surj_pair)
  obtain w where w: "status_writes h1 = status_writes h @ w" "length w \<le> 1"
      "\<forall>x \<in> set w. src_status x = src_status desired"
    using update_attempt_writes [OF a] by blast
  show ?case
  proof (cases "\<exists>x. e1 = Some x \<and> is_conflict (Some x) \<and> n > 0")
    case True
    then have "retry_update en existing desired (k + 1) n h1 = (e, h')"
      using Suc.prems a by auto
    from Suc.IH [OF this] obtain ws where "status_writes h' = status_writes h1 @ ws" "length ws \<le> n"
        "\<forall>x \<in> set ws. src_status x = src_status desired" by blast
    with w show ?thesis by (intro exI [of _ "w @ ws"]) auto
  next
    case False
    then have "h' = h1" using Suc.prems a by (auto split: option.splits if_splits)
    with w show ?thesis by (intro exI [of _ w]) auto
  qed
qed simp

lemma update_status_writes:
  "update_status en existing desired h = (e, h') \<Longrightarrow>
   \<exists>ws. status_writes h' = status_writes h @ ws \<and> length ws \<le> 5 \<and>
    (\<forall>w \<in> set ws. src_status w = src_status desired)"
  unfolding update_status_def by (rule retry_update_writes)

fun status_request :: "request \<Rightarrow> bool" where
  "status_request (GetSource _ _) = True"
| "status_request (UpdateStatus _) = True"
| "status_request _ = False"

lemma update_attempt_extends:
  "update_attempt en existing desired k h = (e, h') \<Longrightarrow> extends status_request h h'"
  by (auto simp: update_attempt_def ask_def Let_def extends_def
      split: if_splits sum.splits prod.splits)

lemma retry_update_extends:
  "retry_update en existing desired k n h = (e, h') \<Longrightarrow> extends status_request h h'"
proof (induction n arbitrary: k h)
  case (Suc n)
  obtain e1 h1 where a: "update_attempt en existing desired k h = (e1, h1)" by (metis surj_pair)
  note e1 = update_attempt_extends [OF a]
  show ?case
  proof (cases "\<exists>x. e1 = Some x \<and> is_conflict (Some x) \<and> n > 0")
    case True
    then have "retry_update en existing desired (k + 1) n h1 = (e, h')"
      using Suc.prems a by auto
    from e1 Suc.IH [OF this] show ?thesis by (rule extends_trans)
  next
    case False
    then have "h' = h1" using Suc.prems a by (auto split: option.splits if_splits)
    with e1 show ?thesis by simp
  qed
qed simp

text \<open>
  An update that succeeds ends with a write that the API server accepted, or with an object that
  has the desired status already.
\<close>

definition status_settled :: "env \<Rightarrow> gitlab_source \<Rightarrow> gitlab_source \<Rightarrow> history \<Rightarrow> bool" where
  "status_settled en existing desired h' \<longleftrightarrow>
     src_status existing = src_status desired \<or>
     (\<exists>h1 w. h' = h1 @ [UpdateStatus w] \<and> e_update_status en h1 w = None \<and>
        src_status w = src_status desired) \<or>
     (\<exists>h1 ex. h' = h1 @ [GetSource (om_namespace (src_meta desired)) (om_name (src_meta desired))] \<and>
        e_get_source en h1 (om_namespace (src_meta desired)) (om_name (src_meta desired)) = Inr ex \<and>
        src_status ex = src_status desired)"

lemma update_attempt_settled:
  "update_attempt en existing desired k h = (None, h') \<Longrightarrow> status_settled en existing desired h'"
  by (fastforce simp: update_attempt_def status_settled_def ask_def Let_def
      split: if_splits sum.splits)

lemma retry_update_settled:
  "retry_update en existing desired k n h = (None, h') \<Longrightarrow> n > 0 \<Longrightarrow>
   status_settled en existing desired h'"
proof (induction n arbitrary: k h)
  case (Suc n)
  obtain e1 h1 where a: "update_attempt en existing desired k h = (e1, h1)" by (metis surj_pair)
  show ?case
  proof (cases e1)
    case None
    with a Suc.prems show ?thesis by (auto dest: update_attempt_settled)
  next
    case (Some x)
    then have "is_conflict (Some x) \<and> n > 0" and "retry_update en existing desired (k + 1) n h1 = (None, h')"
      using a Suc.prems by (auto split: if_splits)
    with Suc.IH show ?thesis by blast
  qed
qed simp

lemma update_status_settled:
  "update_status en existing desired h = (None, h') \<Longrightarrow> status_settled en existing desired h'"
  unfolding update_status_def by (erule retry_update_settled) simp

text \<open>A conflict is reported only once every further attempt has read the object again.\<close>

lemma retry_update_exhausted:
  "retry_update en existing desired k (Suc n) h = (Some e, h') \<Longrightarrow> is_conflict (Some e) \<Longrightarrow>
   length (filter is_get_source h') = length (filter is_get_source h) + n + (if k > 0 then 1 else 0)"
proof (induction n arbitrary: k h)
  case 0
  then show ?case
    by (auto simp: update_attempt_def ask_def Let_def split: if_splits sum.splits option.splits prod.splits)
next
  case (Suc n)
  obtain e1 h1 where a: "update_attempt en existing desired k h = (e1, h1)" by (metis surj_pair)
  have h1: "length (filter is_get_source h1) =
      length (filter is_get_source h) + (if k > 0 then 1 else 0)"
    using a by (auto simp: update_attempt_def ask_def Let_def split: if_splits sum.splits)
  have "retry_update en existing desired (k + 1) (Suc n) h1 = (Some e, h')"
    using a Suc.prems by (auto split: if_splits option.splits)
  from Suc.IH [OF this Suc.prems(2)] h1 show ?case by simp
qed

subsection \<open>Transition times\<close>

text \<open>A condition that says the same as before keeps its transition time.\<close>

definition same_content :: "condition \<Rightarrow> condition \<Rightarrow> bool" where
  "same_content c d \<longleftrightarrow> c\<lparr>cond_time := cond_time d\<rparr> = d"

lemma same_content_fields:
  assumes "same_content c d"
  shows "cond_type d = cond_type c" "cond_status d = cond_status c" "cond_severity d = cond_severity c"
  using assms unfolding same_content_def
  by (auto dest!: arg_cong [where f = "\<lambda>x. (cond_type x, cond_status x, cond_severity x)"])

lemma groom_condition_fields [simp]:
  "cond_type (groom_condition now old c) = cond_type c"
  "cond_status (groom_condition now old c) = cond_status c"
  "cond_severity (groom_condition now old c) = cond_severity c"
proof -
  have "cond_type (groom_condition now old c) = cond_type c \<and>
      cond_status (groom_condition now old c) = cond_status c \<and>
      cond_severity (groom_condition now old c) = cond_severity c"
  proof (cases "get_condition (cond_type c) old")
    case (Some oc)
    then have "groom_condition now old c =
        (if same_content c oc then oc else c\<lparr>cond_time := now\<rparr>)"
      by (simp add: groom_condition_def same_content_def Let_def)
    then show ?thesis by (auto dest: same_content_fields)
  qed (simp add: groom_condition_def)
  then show "cond_type (groom_condition now old c) = cond_type c"
    "cond_status (groom_condition now old c) = cond_status c"
    "cond_severity (groom_condition now old c) = cond_severity c" by simp_all
qed

lemma groom_wf [simp]:
  "cond_wf S (map (groom_condition now old) cs) = cond_wf S cs"
  by (simp add: cond_wf_def comp_def)

lemma groom_status [simp]:
  "status_of (map (groom_condition now old) cs) = status_of cs"
proof
  fix t
  have "find (\<lambda>c. cond_type c = t) (map (groom_condition now old) cs) =
      map_option (groom_condition now old) (find (\<lambda>c. cond_type c = t) cs)"
    by (induction cs) auto
  then show "status_of (map (groom_condition now old) cs) t = status_of cs t"
    by (cases "find (\<lambda>c. cond_type c = t) cs") (simp_all add: status_of_def get_condition_def)
qed

lemma groom_same:
  "get_condition (cond_type c) old = Some oc \<Longrightarrow> same_content c oc \<Longrightarrow> groom_condition now old c = oc"
  by (simp add: groom_condition_def same_content_def Let_def)

lemma groom_restores:
  assumes "distinct (map cond_type old)" and "list_all2 same_content cs old"
  shows "map (groom_condition now old) cs = old"
proof (rule nth_equalityI)
  show len: "length (map (groom_condition now old) cs) = length old"
    using list_all2_lengthD [OF assms(2)] by simp
  fix i assume "i < length (map (groom_condition now old) cs)"
  with len have i: "i < length old" and i': "i < length cs" by simp_all
  have same: "same_content (cs ! i) (old ! i)" using assms(2) i' by (simp add: list_all2_nthD)
  then have "cond_type (cs ! i) = cond_type (old ! i)" by (simp add: same_content_fields)
  then have "get_condition (cond_type (cs ! i)) old = Some (old ! i)"
    using i assms(1) by (simp add: get_condition_iff)
  with same show "map (groom_condition now old) cs ! i = old ! i"
    using i' by (simp add: groom_same)
qed

subsection \<open>Finalizers\<close>

text \<open>
  \<open>stores_finalizer\<close>: the API server answered a patch, sent as the first request after \<open>h\<close>, with
  the object \<open>updated\<close>, and the patch holds the reconciler's own finalizer.
\<close>

fun patch_finalizer_list :: "finalizer_patch \<Rightarrow> string list" where
  "patch_finalizer_list (MergePatch fins _) = fins"
| "patch_finalizer_list (ApplyPatch fins _ _ _) = fins"

definition stores_finalizer ::
  "env \<Rightarrow> reconciler_impl \<Rightarrow> gitlab_source \<Rightarrow> history \<Rightarrow> gitlab_source \<Rightarrow> history \<Rightarrow> bool" where
  "stores_finalizer en im src h updated h' \<longleftrightarrow>
     (\<exists>p msg. im_finalizer im \<in> set (patch_finalizer_list p) \<and>
        e_patch_finalizers en h (om_namespace (src_meta src)) (om_name (src_meta src)) p = Inr updated \<and>
        h' = h @ [PatchFinalizers (om_namespace (src_meta src)) (om_name (src_meta src)) p,
                  RecordEvent ''Normal'' ''FinalizerUpdate'' msg])"

lemma patch_finalizers_cases:
  assumes "patch_finalizers en src p failed ok h = (r, h')"
  shows "case r of
      Inl e \<Rightarrow> e_patch_finalizers en h (om_namespace (src_meta src)) (om_name (src_meta src)) p = Inl e \<and>
        extends (\<lambda>r. is_patch r \<or> is_event r) h h'
    | Inr updated \<Rightarrow>
        e_patch_finalizers en h (om_namespace (src_meta src)) (om_name (src_meta src)) p = Inr updated \<and>
        h' = h @ [PatchFinalizers (om_namespace (src_meta src)) (om_name (src_meta src)) p,
                  RecordEvent ''Normal'' ''FinalizerUpdate'' ok]"
  using assms
  by (auto simp: patch_finalizers_def ask_def record_event_def Let_def extends_def
      split: sum.splits if_splits prod.splits)

lemma set_finalizer_stores:
  assumes run: "set_finalizer_if_finalizer en im kr src h = (Inr src', h')"
    and "kr_finalize kr = Some f" and "\<not> om_deleted (src_meta src)"
  shows "(src' = src \<and> h' = h \<and> im_finalizer im \<in> set (om_finalizers (src_meta src))) \<or>
    stores_finalizer en im src h src' h'"
proof -
  have desired: "im_finalizer im \<in> set (set_insert (im_finalizer im) xs)" for xs
    by (simp add: set_insert_def)
  show ?thesis
    using assms
    by (auto simp: set_finalizer_if_finalizer_def update_finalizers_filtered_def
        update_finalizers_apply_def update_finalizers_merge_def desired Let_def stores_finalizer_def
        dest!: patch_finalizers_cases split: if_splits)
qed

lemma update_finalizers_extends:
  "update_finalizers_filtered en im src desired h = (r, h') \<Longrightarrow>
   extends (\<lambda>r. is_patch r \<or> is_event r) h h'"
  by (auto simp: update_finalizers_filtered_def update_finalizers_apply_def
      update_finalizers_merge_def Let_def extends_def dest!: patch_finalizers_cases
      split: if_splits sum.splits)

lemma set_finalizer_extends:
  "set_finalizer_if_finalizer en im kr src h = (r, h') \<Longrightarrow>
   extends (\<lambda>r. is_patch r \<or> is_event r) h h'"
  by (auto simp: set_finalizer_if_finalizer_def Let_def dest: update_finalizers_extends split: if_splits)

text \<open>The desired set differs from the existing one only if the outcome releases the finalizer.\<close>

lemma update_finalizers_same:
  "update_finalizers_filtered en im src (om_finalizers (src_meta src)) h = (Inr src, h)"
  by (simp add: update_finalizers_filtered_def update_finalizers_apply_def
      update_finalizers_merge_def Let_def)

lemma clear_finalizer_kept:
  "\<not> releases_finalizer ev \<Longrightarrow> clear_finalizer en im kr src ev h = (Inr src, h)"
  by (simp add: clear_finalizer_def Let_def update_finalizers_same)

lemma clear_finalizer_extends:
  "clear_finalizer en im kr src ev h = (r, h') \<Longrightarrow>
   extends (\<lambda>r. is_patch r \<or> status_request r \<or> is_event r) h h'"
proof -
  assume run: "clear_finalizer en im kr src ev h = (r, h')"
  define d where "d = (if releases_finalizer ev then set_delete (im_finalizer im) (om_finalizers (src_meta src))
      else om_finalizers (src_meta src))"
  obtain q h1 where q: "update_finalizers_filtered en im src d h = (q, h1)" by (metis surj_pair)
  have "extends (\<lambda>r. is_patch r \<or> status_request r \<or> is_event r) h h1"
    by (rule extends_mono [OF update_finalizers_extends [OF q]]) auto
  with run q show ?thesis
    by (auto simp: clear_finalizer_def Let_def d_def ask_def extends_def
        split: if_splits sum.splits)
qed

subsection \<open>The steps of a run\<close>

lemma pre_process_frame:
  assumes "pre_process en src h = (src', h')"
  shows "src_meta src' = src_meta src" "src_spec src' = src_spec src" "ticks_only h h'"
    "st_webhook_id (src_status src') = st_webhook_id (src_status src)"
    "src_conds_wf (src_status src) \<Longrightarrow> src_conds_wf (src_status src')"
proof -
  have unknown_ticks: "ticks_only (snd m) (snd (mark_unknown en S t r msg m))" for S t r msg m
    unfolding mark_unknown_def Let_def
    by (auto intro: ticks_only_trans [OF set_condition_ticks'] set_condition_ticks' mark_false_ticks)
  have init_ticks: "ticks_only (snd m) (snd (initialize_conditions en S m))" for S m
  proof -
    have one: "ticks_only (snd m) (snd (initialize_terminal en st t m))" for st t m
      by (auto simp: initialize_terminal_def set_condition_ticks' split: option.split)
    show ?thesis
      unfolding initialize_conditions_def Let_def
      by (auto split: option.split prod.split
          intro: ticks_fold [OF one] ticks_only_trans [OF set_condition_ticks' ticks_fold [OF one]])
  qed
  let ?s1 = "manage (initialize_conditions en source_cond_set) (src_status src, h)"
  let ?s2 = "manage (mark_unknown en source_cond_set (cs_happy source_cond_set) failedGenerationBump
      ''unsuccessfully observed a new generation'') ?s1"
  define b where "b \<longleftrightarrow> st_observed_generation (fst ?s1) \<noteq> om_generation (src_meta src)"
  have "(src\<lparr>src_status := fst (if b then ?s2 else ?s1)\<rparr>, snd (if b then ?s2 else ?s1)) = (src', h')"
    unfolding assms [symmetric] pre_process_def Let_def source_set_defaults_def b_def by simp
  then have eq: "src' = src\<lparr>src_status := fst (if b then ?s2 else ?s1)\<rparr>"
      "h' = snd (if b then ?s2 else ?s1)" by simp_all
  show "src_meta src' = src_meta src" "src_spec src' = src_spec src"
    "st_webhook_id (src_status src') = st_webhook_id (src_status src)"
    by (simp_all add: eq manage_status)
  have t1: "ticks_only h (snd ?s1)" using init_ticks [of "(st_conditions (src_status src), h)"]
    by (simp add: manage_status)
  have "ticks_only (snd ?s1) (snd ?s2)"
    using unknown_ticks [of "(st_conditions (fst ?s1), snd ?s1)"] by (simp add: manage_status)
  with t1 show "ticks_only h h'" unfolding eq by (auto intro: ticks_only_trans)
  assume wf: "src_conds_wf (src_status src)"
  then have "src_conds_wf (fst ?s1)"
    by (simp add: src_conds_wf_def manage_status initialize_conditions_wf)
  moreover from this have "src_conds_wf (fst ?s2)"
    by (simp add: src_conds_wf_def manage_status mark_unknown_wf)
  ultimately show "src_conds_wf (src_status src')" by (simp add: eq)
qed

lemma post_process_frame:
  assumes "post_process en src old h = (src', h')"
  shows "src_meta src' = src_meta src" "src_spec src' = src_spec src" "h' = h @ [Now]"
    "st_webhook_id (src_status src') = st_webhook_id (src_status src)"
    "st_observed_generation (src_status src') = om_generation (src_meta src)"
    "src_conds_wf (src_status src') = src_conds_wf (src_status src)"
    "src_cond (src_status src') = src_cond (src_status src)"
    "ready_agrees (src_status src') = ready_agrees (src_status src)"
proof -
  have eq: "src' = src\<lparr>src_status := (src_status src)\<lparr>st_observed_generation := om_generation (src_meta src),
      st_conditions := map (groom_condition (e_now en h) (st_conditions (src_status old)))
        (st_conditions (src_status src))\<rparr>\<rparr>" "h' = h @ [Now]"
    using assms by (auto simp: post_process_def time_now_def ask_def Let_def)
  show "src_meta src' = src_meta src" "src_spec src' = src_spec src" "h' = h @ [Now]"
    "st_webhook_id (src_status src') = st_webhook_id (src_status src)"
    "st_observed_generation (src_status src') = om_generation (src_meta src)"
    "src_conds_wf (src_status src') = src_conds_wf (src_status src)"
    by (simp_all add: eq src_conds_wf_def)
  show "src_cond (src_status src') = src_cond (src_status src)"
    by (simp add: eq src_cond_def fun_eq_iff)
  then show "ready_agrees (src_status src') = ready_agrees (src_status src)"
    by (simp add: ready_agrees_def)
qed

lemma report_event_extends:
  "report_event ev h = (r, h') \<Longrightarrow> extends is_event h h'"
  by (auto simp: report_event_def record_event_def split: option.splits prod.splits if_splits)

lemma is_event_no_write: "is_event r \<Longrightarrow> status_write r = None"
  by (cases r) simp_all

lemma event_extends_writes:
  "extends is_event h h' \<Longrightarrow> status_writes h' = status_writes h"
  by (rule extends_status_writes) (erule extends_mono, rule is_event_no_write)

lemma sync_status_writes:
  assumes "sync_status en im s original src h = (e, h')"
  shows "\<exists>ws. status_writes h' = status_writes h @ ws \<and> length ws \<le> 5 \<and>
    (\<forall>w \<in> set ws. src_status w = src_status src) \<and>
    (src_status original = src_status src \<longrightarrow> ws = [])"
  using assms
  by (auto simp: sync_status_def record_event_def split: if_splits prod.splits option.splits
      dest!: update_status_writes)

lemma sync_status_extends:
  assumes "sync_status en im s original src h = (e, h')"
  shows "extends (\<lambda>r. status_request r \<or> is_event r) h h'"
proof -
  obtain q h1 where q: "update_status en original src h = (q, h1)" by (metis surj_pair)
  have "extends (\<lambda>r. status_request r \<or> is_event r) h h1"
    by (rule extends_mono [OF retry_update_extends [OF q [unfolded update_status_def]]]) simp
  with assms q show ?thesis
    by (auto simp: sync_status_def record_event_def extends_def split: if_splits option.splits)
qed

lemma finish_cases:
  assumes "finish en im s original src ev h = (r, h')"
  obtains (failed) e where "sync_status en im s original src h = (Some e, h')" "r = Err e"
  | (reported) h1 where "sync_status en im s original src h = (None, h1)" "report_event ev h1 = (r, h')"
  using assms by (auto simp: finish_def split: prod.splits option.splits)

lemma finish_writes:
  assumes "finish en im s original src ev h = (r, h')"
  shows "\<exists>ws. status_writes h' = status_writes h @ ws \<and> length ws \<le> 5 \<and>
    (\<forall>w \<in> set ws. src_status w = src_status src) \<and>
    (src_status original = src_status src \<longrightarrow> ws = [])"
  using assms
  by (rule finish_cases)
    (metis sync_status_writes, metis sync_status_writes report_event_extends event_extends_writes)

lemma finish_extends:
  assumes "finish en im s original src ev h = (r, h')"
  shows "extends (\<lambda>r. status_request r \<or> is_event r) h h'"
  using assms
proof (rule finish_cases)
  fix h1 assume "sync_status en im s original src h = (None, h1)" "report_event ev h1 = (r, h')"
  from sync_status_extends [OF this(1)]
  have "extends (\<lambda>r. status_request r \<or> is_event r) h h1" .
  also have "extends (\<lambda>r. status_request r \<or> is_event r) h1 h'"
    by (rule extends_mono [OF report_event_extends [OF \<open>report_event ev h1 = (r, h')\<close>]]) simp
  finally show ?thesis .
qed (rule sync_status_extends)

subsection \<open>The cases of a run\<close>

lemma run_reconcile_cases:
  assumes "run_reconcile en im kr s f original h = (r, h')" and "\<not> im_skip_status im"
  obtains (no_finalizer) e where
      "set_finalizer_if_finalizer en im kr original h = (Inl e, h')"
      "r = Err (ErrWrap ''failed to set finalizers: '' e)"
  | (panicked) src h1 src1 h2 m src2 where
      "set_finalizer_if_finalizer en im kr original h = (Inr src, h1)"
      "pre_process en src h1 = (src1, h2)" "f src1 h2 = (Panic m, src2, h')" "r = Panic m"
  | (finished) src h1 src1 h2 q src2 h3 src3 h4 where
      "set_finalizer_if_finalizer en im kr original h = (Inr src, h1)"
      "pre_process en src h1 = (src1, h2)" "f src1 h2 = (q, src2, h3)" "\<not> is_panic q"
      "post_process en src2 original h3 = (src3, h4)"
      "finish en im s original src3 (event_of_result q) h4 = (r, h')"
proof -
  obtain x h1 where x: "set_finalizer_if_finalizer en im kr original h = (x, h1)" by (metis surj_pair)
  show ?thesis
  proof (cases x)
    case (Inl e)
    with assms x show ?thesis by (intro no_finalizer) (auto simp: run_reconcile_def)
  next
    case (Inr src)
    obtain src1 h2 where p: "pre_process en src h1 = (src1, h2)" by (metis surj_pair)
    obtain q src2 h3 where f: "f src1 h2 = (q, src2, h3)" by (metis surj_pair)
    obtain src3 h4 where pp: "post_process en src2 original h3 = (src3, h4)" by (metis surj_pair)
    show ?thesis
    proof (cases "is_panic q")
      case True
      then obtain m where m: "q = Panic m" by (auto simp: is_panic_def)
      have "r = Panic m" "h' = h3" using assms x Inr p f m by (auto simp: run_reconcile_def)
      with x Inr p f m panicked show ?thesis by simp
    next
      case False
      then have "finish en im s original src3 (event_of_result q) h4 = (r, h')"
        using assms x Inr p f pp by (cases q) (simp_all add: run_reconcile_def is_panic_def)
      with x Inr p f pp False finished show ?thesis by simp
    qed
  qed
qed

lemma run_finalize_cases:
  assumes "run_finalize en im kr s f original h = (r, h')"
  obtains (panicked) m src1 where "f original h = (Panic m, src1, h')" "r = Panic m"
  | (not_cleared) q src1 h1 e where "f original h = (q, src1, h1)" "\<not> is_panic q"
      "clear_finalizer en im kr src1 (event_of_result q) h1 = (Inl e, h')"
      "r = Err (ErrWrap ''failed to clear finalizers: '' e)"
  | (finished) q src1 h1 src2 h2 where "f original h = (q, src1, h1)" "\<not> is_panic q"
      "clear_finalizer en im kr src1 (event_of_result q) h1 = (Inr src2, h2)"
      "finish en im s original src2 (event_of_result q) h2 = (r, h')"
proof -
  obtain q src1 h1 where f: "f original h = (q, src1, h1)" by (metis surj_pair)
  obtain x h2 where c: "clear_finalizer en im kr src1 (event_of_result q) h1 = (x, h2)" by (metis surj_pair)
  show ?thesis
  proof (cases "is_panic q")
    case True
    then obtain m where m: "q = Panic m" by (auto simp: is_panic_def)
    have "r = Panic m" "h' = h1" using assms f m by (auto simp: run_finalize_def)
    with f m panicked show ?thesis by simp
  next
    case False
    have "(case x of Inl e \<Rightarrow> (Err (ErrWrap ''failed to clear finalizers: '' e), h2)
      | Inr src2 \<Rightarrow> finish en im s original src2 (event_of_result q) h2) = (r, h')"
      using assms f c False by (cases q; cases x) (auto simp: run_finalize_def is_panic_def)
    with f c False not_cleared finished show ?thesis by (cases x) auto
  qed
qed

lemma reconcile_cases:
  assumes "reconcile en im kr key h = (r, h')"
  obtains (bad_key) "r = Ok ()" "h' = h"
  | (skipped) s where "new_state key im kr = Inr s" "\<not> rs_is_leader s" "r = Err (SkipKeyErr key)" "h' = h"
  | (not_read) s e where "new_state key im kr = Inr s"
      "e_lister_get en h (rs_namespace s) (rs_name s) = Inl e"
      "is_not_found (Some e) \<Longrightarrow> kr_observe_deletion kr = None \<Longrightarrow> r = Ok ()"
      "\<not> is_not_found (Some e) \<Longrightarrow> r = Err e"
      "kr_observe_deletion kr = None \<Longrightarrow> h' = h @ [ListerGet (rs_namespace s) (rs_name s)]"
  | (reconciled) s original f where "new_state key im kr = Inr s"
      "e_lister_get en h (rs_namespace s) (rs_name s) = Inr original"
      "reconcile_method_for s kr original = DoReconcileKind f"
      "run_reconcile en im kr s f original (h @ [ListerGet (rs_namespace s) (rs_name s)]) = (r, h')"
  | (finalized) s original f where "new_state key im kr = Inr s"
      "e_lister_get en h (rs_namespace s) (rs_name s) = Inr original"
      "reconcile_method_for s kr original = DoFinalizeKind f"
      "run_finalize en im kr s f original (h @ [ListerGet (rs_namespace s) (rs_name s)]) = (r, h')"
  | (observed) s original f where "new_state key im kr = Inr s"
      "e_lister_get en h (rs_namespace s) (rs_name s) = Inr original"
      "reconcile_method_for s kr original = DoObserveKind f"
      "run_observe en im s f original (h @ [ListerGet (rs_namespace s) (rs_name s)]) = (r, h')"
  | (idle) s original where "new_state key im kr = Inr s"
      "e_lister_get en h (rs_namespace s) (rs_name s) = Inr original"
      "reconcile_method_for s kr original = DoNothing"
      "r = Ok ()" "h' = h @ [ListerGet (rs_namespace s) (rs_name s)]"
proof (cases "new_state key im kr")
  case (Inl e)
  with assms bad_key show ?thesis by (auto simp: reconcile_def)
next
  case (Inr s)
  show ?thesis
  proof (cases "is_not_leader_nor_observer s")
    case True
    with assms Inr skipped [of s] show ?thesis
      by (auto simp: reconcile_def is_not_leader_nor_observer_def)
  next
    case False
    let ?get = "e_lister_get en h (rs_namespace s) (rs_name s)"
    show ?thesis
    proof (cases ?get)
      case (Inl e)
      with assms Inr False show ?thesis
        by (intro not_read [of s e])
          (auto simp: reconcile_def ask_def split: if_splits option.splits)
    next
      case got: (Inr original)
      note eq = assms [unfolded reconcile_def, simplified Inr False got ask_def]
      have none: "finish en im s original original None h0 = (Ok (), h0)" for h0
        by (simp add: finish_def sync_status_def report_event_def)
      show ?thesis
      proof (cases "reconcile_method_for s kr original")
        case (DoReconcileKind f) with eq Inr False got reconciled show ?thesis by simp
      next
        case (DoFinalizeKind f) with eq Inr False got finalized show ?thesis by simp
      next
        case (DoObserveKind f) with eq Inr False got observed show ?thesis by simp
      next
        case DoNothing
        then have "r = Ok ()" "h' = h @ [ListerGet (rs_namespace s) (rs_name s)]"
          using eq none Inr False got by auto
        with Inr got DoNothing idle show ?thesis by blast
      qed
    qed
  qed
qed

subsection \<open>The contract of an operation\<close>

text \<open>
  What a run relies on: an operation makes its own kinds of requests only, keeps the metadata of the
  object and the invariant of its conditions. The object a run works on comes from the API server;
  \<open>server_wf\<close> says that what the server answers a finalizer patch with satisfies that invariant.
\<close>

definition server_wf :: "env \<Rightarrow> bool" where
  "server_wf en \<longleftrightarrow>
     (\<forall>h ns n p u. e_patch_finalizers en h ns n p = Inr u \<longrightarrow> src_conds_wf (src_status u))"

locale kind_operation =
  fixes op :: kind_op
  assumes op_extends: "op src h = (r, src', h') \<Longrightarrow> extends kind_request h h'"
    and op_meta: "op src h = (r, src', h') \<Longrightarrow> src_meta src' = src_meta src"
    and op_wf: "op src h = (r, src', h') \<Longrightarrow> src_conds_wf (src_status src) \<Longrightarrow>
      src_conds_wf (src_status src')"
begin

lemma op_writes: "op src h = (r, src', h') \<Longrightarrow> status_writes h' = status_writes h"
  by (rule extends_status_writes) (erule extends_mono [OF op_extends], rule kind_request_no_write)

lemma op_patches: "op src h = (r, src', h') \<Longrightarrow> filter is_patch h' = filter is_patch h"
  by (rule extends_filter) (erule extends_mono [OF op_extends], rule kind_request_no_patch)

lemma run_finalize_patches:
  assumes run: "run_finalize en im kr s op original h = (r, h')"
    and patched: "filter is_patch h' \<noteq> filter is_patch h"
  shows "\<exists>q src1 h1. op original h = (q, src1, h1) \<and> \<not> is_panic q \<and>
    releases_finalizer (event_of_result q)"
  using run
proof (cases rule: run_finalize_cases)
  case (panicked m src1)
  with patched show ?thesis by (simp add: op_patches)
next
  case (not_cleared q src1 h1 e)
  then show ?thesis using clear_finalizer_kept [of "event_of_result q" en im kr src1 h1] by auto
next
  case (finished q src1 h1 src2 h2)
  have "filter is_patch h' = filter is_patch h2"
    by (rule extends_filter, rule extends_mono [OF finish_extends [OF finished(4)]])
      (erule disjE, erule status_request.elims, auto elim: is_event.elims)
  moreover have "filter is_patch h1 = filter is_patch h" using finished(1) by (rule op_patches)
  ultimately show ?thesis
    using finished patched clear_finalizer_kept [of "event_of_result q" en im kr src1 h1] by auto
qed

lemma run_finalize_result:
  assumes run: "run_finalize en im kr s op original h = (r, h')" and ok: "r = Ok ()"
  shows "\<exists>q src1 h1. op original h = (q, src1, h1) \<and> \<not> is_panic q"
  using run ok by (cases rule: run_finalize_cases) auto

end

text \<open>An operation after which Ready is the aggregate of the other conditions.\<close>

locale ready_operation = kind_operation +
  assumes op_ready: "op src h = (r, src', h') \<Longrightarrow> src_conds_wf (src_status src) \<Longrightarrow>
    ready_agrees (src_status src')"
begin

lemma run_reconcile_writes:
  assumes run: "run_reconcile en im kr s op original h = (r, h')" and "\<not> im_skip_status im"
    and wf: "src_conds_wf (src_status original)" and srv: "server_wf en"
    and fin: "kr_finalize kr = Some f" "\<not> om_deleted (src_meta original)"
  shows "\<exists>ws st src. status_writes h' = status_writes h @ ws \<and> length ws \<le> 5 \<and>
    (src = original \<or> (\<exists>h1. stores_finalizer en im original h src h1)) \<and>
    (\<forall>w \<in> set ws. src_status w = st \<and> src_conds_wf st \<and> ready_agrees st \<and>
       st_observed_generation st = om_generation (src_meta src))"
proof -
  have patch: "status_writes h1 = status_writes h"
    if "set_finalizer_if_finalizer en im kr original h = (x, h1)" for x h1
    by (rule extends_status_writes, rule extends_mono [OF set_finalizer_extends [OF that]])
      (auto elim: is_patch.elims is_event.elims)
  have pre: "status_writes h2 = status_writes h1" if "pre_process en src h1 = (src1, h2)" for src h1 src1 h2
    by (rule extends_status_writes, rule extends_ticks [OF pre_process_frame(3) [OF that]]) simp
  from run \<open>\<not> im_skip_status im\<close> show ?thesis
  proof (cases rule: run_reconcile_cases)
    case (no_finalizer e)
    with patch show ?thesis by fastforce
  next
    case (panicked src h1 src1 h2 m src2)
    with patch pre op_writes show ?thesis by fastforce
  next
    case (finished src h1 src1 h2 q src2 h3 src3 h4)
    have "src_conds_wf (src_status src)"
      and src: "src = original \<or> (\<exists>h1. stores_finalizer en im original h src h1)"
      using set_finalizer_stores [OF finished(1) fin] wf srv
      by (auto simp: stores_finalizer_def server_wf_def)
    from this(1) have "src_conds_wf (src_status src1)" by (rule pre_process_frame(5) [OF finished(2)])
    with op_wf [OF finished(3)] op_ready [OF finished(3)]
    have st: "src_conds_wf (src_status src3)" "ready_agrees (src_status src3)"
      "st_observed_generation (src_status src3) = om_generation (src_meta src)"
      using op_meta [OF finished(3)] pre_process_frame(1) [OF finished(2)]
      by (simp_all add: post_process_frame [OF finished(5)])
    have "status_writes h4 = status_writes h"
      using patch [OF finished(1)] pre [OF finished(2)] op_writes [OF finished(3)]
        post_process_frame(3) [OF finished(5)] by simp
    with finish_writes [OF finished(6)] st src show ?thesis by metis
  qed
qed

end

end
