(* ===== verification/Simulation.thy ===== *)
theory Simulation
  imports SourceReconciler
begin

section \<open>A concrete outside world\<close>

text \<open>
  An executable environment, with which the hypotheses about the outside are shown to be
  satisfiable and the development is run on concrete inputs: a GitLab that replays the requests
  of the history on a store of hooks, Kubernetes Secrets that hold fixed data, a sink that
  resolves to its own URI, and services that are ready as soon as they exist.
\<close>

subsection \<open>GitLab\<close>

text \<open>The store: the hooks by API base URL, project and identifier, and the next identifier.\<close>

type_synonym gl_store = "(parsed_url \<Rightarrow> string \<Rightarrow> int \<Rightarrow> hook_config option) \<times> int"

definition sim_default :: hook_config where
  "sim_default =
     \<lparr>hc_url = [], hc_ssl_verification = True, hc_token = None, hc_events = (\<lambda>_. False)\<rparr>"

definition store_hook ::
  "parsed_url \<Rightarrow> string \<Rightarrow> int \<Rightarrow> hook_config option \<Rightarrow> gl_store \<Rightarrow> gl_store" where
  "store_hook b p i cfg s =
     ((\<lambda>b' p' i'. if b' = b \<and> p' = p \<and> i' = i then cfg else fst s b' p' i'), snd s)"

fun sim_step :: "gl_request \<Rightarrow> gl_store \<Rightarrow> gl_store" where
  "sim_step (GlGetHook c p i) s = s"
| "sim_step (GlAddHook c p opts) s =
     (let (m, n) = store_hook (gl_base_url c) p (snd s) (Some (apply_options sim_default opts)) s
      in (m, n + 1))"
| "sim_step (GlEditHook c p i opts) s =
     (case fst s (gl_base_url c) p i of
        None \<Rightarrow> s
      | Some cfg \<Rightarrow> store_hook (gl_base_url c) p i (Some (apply_options cfg opts)) s)"
| "sim_step (GlDeleteHook c p i) s = store_hook (gl_base_url c) p i None s"

definition sim_store :: "history \<Rightarrow> gl_store" where
  "sim_store h = fold sim_step (gitlab_calls h) ((\<lambda>_ _ _. None), 1)"

definition sim_view :: hook_view where
  "sim_view h = fst (sim_store h)"

definition if_stored :: "hook_config option \<Rightarrow> int \<Rightarrow> int \<Rightarrow> gl_response" where
  "if_stored found status i =
     (case found of None \<Rightarrow> GlResponse 404 ''Not Found'' 0 | Some _ \<Rightarrow> GlResponse status [] i)"

fun sim_gitlab :: "history \<Rightarrow> gl_request \<Rightarrow> gl_response" where
  "sim_gitlab h (GlGetHook c p i) = if_stored (sim_view h (gl_base_url c) p i) 200 i"
| "sim_gitlab h (GlAddHook c p opts) = GlResponse 201 [] (snd (sim_store h))"
| "sim_gitlab h (GlEditHook c p i opts) = if_stored (sim_view h (gl_base_url c) p i) 200 i"
| "sim_gitlab h (GlDeleteHook c p i) = if_stored (sim_view h (gl_base_url c) p i) 204 0"

lemma sim_store_snoc:
  "sim_store (h @ [GitLab q]) = sim_step q (sim_store h)"
  "gitlab_request r = None \<Longrightarrow> sim_store (h @ [r]) = sim_store h"
  by (simp_all add: sim_store_def)

text \<open>Identifiers are given out in increasing order.\<close>

lemma sim_store_fresh: "fst (sim_store h) b p i \<noteq> None \<Longrightarrow> i < snd (sim_store h)"
proof (induction h arbitrary: b p i rule: rev_induct)
  case Nil
  then show ?case by (simp add: sim_store_def)
next
  case (snoc r h)
  show ?case
  proof (cases "gitlab_request r")
    case None
    with snoc show ?thesis by (simp add: sim_store_snoc)
  next
    case (Some q)
    then have r: "r = GitLab q" by (cases r) simp_all
    obtain m n where s: "sim_store h = (m, n)" by (metis surj_pair)
    have IH: "m b' p' i' = Some x \<Longrightarrow> i' < n" for b' p' i' x using snoc.IH [of b' p' i'] s by simp
    have "fst (sim_step q (m, n)) b p i \<noteq> None \<Longrightarrow> i < snd (sim_step q (m, n))"
      by (cases q) (auto simp: store_hook_def Let_def dest: IH split: option.splits if_splits
          intro: less_imp_le)
    with snoc.prems show ?thesis by (simp add: r sim_store_snoc s)
  qed
qed

subsection \<open>Kubernetes and the sink\<close>

definition sim_adapter_url :: url where
  "sim_adapter_url = ''http://adapter.svc''"

definition ready_condition :: condition where
  "ready_condition = mk_condition ''Ready'' CTrue SevError [] []"

text \<open>The service the API server stores: named, and ready.\<close>

definition sim_stored_service :: "kservice \<Rightarrow> kservice" where
  "sim_stored_service ks =
     ks\<lparr>ks_meta := (ks_meta ks)\<lparr>om_name := om_generate_name (ks_meta ks) @ ''x'', om_uid := ''u9''\<rparr>,
        ks_conditions := [ready_condition], ks_url := Some sim_adapter_url\<rparr>"

fun created_services :: "history \<Rightarrow> kservice list" where
  "created_services [] = []"
| "created_services (CreateService ns ks # h) = sim_stored_service ks # created_services h"
| "created_services (_ # h) = created_services h"

definition sim_secret :: "string \<Rightarrow> goerr + secret_data" where
  "sim_secret name =
     (if name = ''tokens'' then Inr [(''access'', ''glpat''), (''secret'', ''s3cret'')]
      else Inl (not_found_error ''secrets'' name))"

definition sim_env :: env where
  "sim_env =
     \<lparr>e_now = (\<lambda>h. int (length h)),
      e_resolve_sink = (\<lambda>h d. case dest_uri d of
          None \<Rightarrow> Inl (ErrText ''destination missing Ref and URI'') | Some u \<Rightarrow> Inr (Some u)),
      e_list_services = (\<lambda>h ns. Inr (created_services h)),
      e_create_service = (\<lambda>h ns ks. Inr (sim_stored_service ks)),
      e_get_secret = (\<lambda>h ns name. sim_secret name),
      e_gitlab = sim_gitlab,
      e_lister_get = (\<lambda>h ns name. Inl (not_found_error ''gitlabsources.sources.knative.dev'' name)),
      e_get_source = (\<lambda>h ns name. Inl (not_found_error ''gitlabsources.sources.knative.dev'' name)),
      e_update_status = (\<lambda>h src. None),
      e_patch_finalizers = (\<lambda>h ns name p. Inl (not_found_error ''gitlabsources.sources.knative.dev'' name)),
      e_auth = (\<lambda>_. None),
      e_config_env = []\<rparr>"

definition sim_meta :: object_meta where
  "sim_meta =
     \<lparr>om_name = ''src'', om_generate_name = [], om_namespace = ''ns'', om_uid = ''u1'',
      om_resource_version = ''1'', om_generation = 1, om_deleted = False, om_finalizers = [],
      om_labels = [], om_owner_references = []\<rparr>"

definition sim_selector :: "string \<Rightarrow> secret_key_selector option" where
  "sim_selector key = Some \<lparr>sks_name = ''tokens'', sks_key = key\<rparr>"

definition sim_spec :: source_spec where
  "sim_spec =
     \<lparr>spec_sink = \<lparr>dest_ref = None, dest_uri = Some ''http://sink''\<rparr>, spec_ce_overrides = None,
      spec_service_account = ''default'', spec_project_url = ''https://gitlab.com/g/p'',
      spec_event_types = [GitLabWebhookPush, GitLabWebhookIssues],
      spec_access_token = sim_selector ''access'', spec_secret_token = sim_selector ''secret'',
      spec_ssl_verify = True\<rparr>"

definition sim_status :: source_status where
  "sim_status =
     \<lparr>st_observed_generation = 0, st_conditions = [], st_sink_uri = None, st_ce_attributes = [],
      st_webhook_id = None\<rparr>"

definition sim_source :: gitlab_source where
  "sim_source = \<lparr>src_meta = sim_meta, src_spec = sim_spec, src_status = sim_status\<rparr>"

lemmas sim_defs = sim_env_def sim_meta_def sim_selector_def sim_spec_def sim_status_def
  sim_source_def

text \<open>The replayed GitLab is one the contract of the webhook service admits.\<close>

lemma sim_env_gitlab [simp]: "e_gitlab sim_env = sim_gitlab"
  by (simp add: sim_env_def)

lemma sim_documented: "gitlab_documented sim_env sim_view sim_default"
proof -
  have fresh: "fst (sim_store h) b p (snd (sim_store h)) = None" for h b p
    using sim_store_fresh [of h b p "snd (sim_store h)"] by (meson order_less_irrefl)
  have "documented_get sim_env sim_view"
    by (auto simp: documented_get_def succeeded_def sim_view_def sim_store_snoc if_stored_def
        split: option.splits)
  moreover have "documented_add sim_env sim_view sim_default"
    by (auto simp: documented_add_def succeeded_def sim_view_def sim_store_snoc store_hook_def
        Let_def fresh fun_eq_iff)
  moreover have "documented_edit sim_env sim_view"
    by (auto simp: documented_edit_def succeeded_def sim_view_def sim_store_snoc store_hook_def
        if_stored_def fun_eq_iff split: if_splits option.splits)
  moreover have "documented_delete sim_env sim_view"
    by (auto simp: documented_delete_def succeeded_def sim_view_def sim_store_snoc store_hook_def
        fun_eq_iff split: if_splits)
  ultimately show ?thesis
    by (simp add: gitlab_documented_def sim_view_def sim_store_snoc)
qed

subsection \<open>The client of the simulated source\<close>

text \<open>The simulated source with a webhook identifier in its status.\<close>

definition sim_source_id :: "int option \<Rightarrow> gitlab_source" where
  "sim_source_id i = sim_source\<lparr>src_status := sim_status\<lparr>st_webhook_id := i\<rparr>\<rparr>"

lemma sim_source_id_sel [simp]:
  "src_meta (sim_source_id i) = sim_meta" "src_spec (sim_source_id i) = sim_spec"
  "st_webhook_id (src_status (sim_source_id i)) = i"
  "src_conds_wf (src_status (sim_source_id i))"
  by (simp_all add: sim_source_id_def sim_source_def sim_status_def src_conds_wf_def)

definition sim_client :: webhook_client where
  "sim_client =
     \<lparr>wc_cli =
        \<lparr>gl_base_url =
           \<lparr>pu_scheme = ''https'', pu_opaque = [], pu_authority = ''gitlab.com'',
            pu_path = ''/api/v4/'', pu_query = []\<rparr>,
         gl_token = ''glpat''\<rparr>,
      wc_project = ''g/p'', wc_secret_token = Some ''s3cret''\<rparr>"

lemma sim_split: "split_project_url (\<lambda>_. None) ''https://gitlab.com/g/p'' = Ok (''https://gitlab.com/'', ''g/p'')"
  by code_simp

lemma sim_client_for:
  "client_for sim_env ''https://gitlab.com/'' ''g/p'' [''glpat'', ''s3cret''] = Ok sim_client"
  by code_simp

lemma sim_get_client:
  assumes "src_meta src = sim_meta" and "src_spec src = sim_spec"
  shows "get_webhook_client sim_env src h = (Ok sim_client, h @ [GetSecret ''ns'' ''tokens''])"
proof -
  have "get_secrets sim_env ''ns'' [sim_selector ''access'', sim_selector ''secret''] h
      = (Inr [''glpat'', ''s3cret''], h @ [GetSecret ''ns'' ''tokens''])"
    by (simp add: get_secrets_def sim_selector_def sim_env_def sim_secret_def data_value_def)
  then show ?thesis
    using sim_split sim_client_for assms
    by (simp add: get_webhook_client_def sim_meta_def sim_spec_def sim_env_def)
qed

text \<open>A history after which the simulated project has one hook, with identifier 1.\<close>

definition sim_history :: history where
  "sim_history =
     [GitLab (GlAddHook (wc_cli sim_client) (wc_project sim_client)
       (add_hook_options (Some ''old'') [GitLabWebhookNote] (Some sim_adapter_url) False))]"

end
