(* ===== verification/SourceController.thy ===== *)
theory SourceController
  imports GenFacts Simulation
begin

section \<open>The controller of sources\<close>

text \<open>
  \<^verbatim>\<open>pkg/reconciler/source/controller.go\<close>: the generated reconciler around the source reconciler,
  leader-aware and with the default options, and what holds of one key taken from the work queue.
\<close>

definition source_kind :: "env \<Rightarrow> string \<Rightarrow> kind_reconciler" where
  "source_kind en img =
     \<lparr>kr_reconcile = reconcile_kind en (gitlab_iface en) img,
      kr_finalize = Some (finalize_kind en (gitlab_iface en)),
      kr_observe = None, kr_observe_deletion = None\<rparr>"

definition source_reconcile ::
  "env \<Rightarrow> (string \<Rightarrow> string \<Rightarrow> bool) \<Rightarrow> string \<Rightarrow> string \<Rightarrow> history \<Rightarrow> unit result \<times> history" where
  "source_reconcile en leader img key h =
     reconcile en (default_impl leader) (source_kind en img) key h"

lemma source_kind_sel [simp]:
  "kr_reconcile (source_kind en img) = reconcile_kind en (gitlab_iface en) img"
  "kr_finalize (source_kind en img) = Some (finalize_kind en (gitlab_iface en))"
  "kr_observe (source_kind en img) = None" "kr_observe_deletion (source_kind en img) = None"
  by (simp_all add: source_kind_def)

lemma default_impl_sel [simp]:
  "im_is_leader (default_impl leader) = leader" "im_finalizer (default_impl leader) = default_finalizer_name"
  "\<not> im_server_side_apply (default_impl leader)" "\<not> im_skip_status (default_impl leader)"
  by (simp_all add: default_impl_def)

subsection \<open>The source reconciler keeps the contract\<close>

lemma reconcile_webhook_meta:
  "reconcile_webhook en W src u h = (r, src', h') \<Longrightarrow> src_meta src' = src_meta src"
  by (auto simp: reconcile_webhook_def split: if_splits prod.splits result.splits)

lemma reconcile_kind_meta:
  assumes "reconcile_kind en W img src h = (r, src', h')"
  shows "src_meta src' = src_meta src"
proof -
  have sink: "src_meta src2 = src_meta src" if "resolve_sink_url en (with_ce_attributes src) h = (x, src2, h2)"
    for x src2 h2
    using that by (auto simp: resolve_sink_url_def Let_def ask_def default_sink_namespace_def
        with_ce_attributes_def split: option.splits if_splits)
  have deployment: "src_meta src2 = src_meta src1" if "reconcile_deployment en W img src1 h1 = (q, src2, h2)"
    for src1 h1 q src2 h2
    using that by (auto simp: reconcile_deployment_def dest: reconcile_webhook_meta
        split: prod.splits sum.splits if_splits)
  from assms show ?thesis
    by (auto simp: reconcile_kind_def dest!: sink deployment split: prod.splits sum.splits)
qed

lemma finalize_kind_meta:
  assumes "finalize_kind en W src h = (r, src', h')"
  shows "src_meta src' = src_meta src" "st_conditions (src_status src') = st_conditions (src_status src)"
  using assms by (auto simp: finalize_kind_def split: prod.splits result.splits option.splits if_splits)

interpretation reconciling: ready_operation "reconcile_kind en (gitlab_iface en) img" for en img
proof unfold_locales
  fix src h r src' h'
  assume run: "reconcile_kind en (gitlab_iface en) img src h = (r, src', h')"
  show "extends kind_request h h'" by (rule reconcile_kind_extends [OF run])
  show "src_meta src' = src_meta src" by (rule reconcile_kind_meta [OF run])
  assume "src_conds_wf (src_status src)"
  then have "conds_are (src_status src) (src_cond (src_status src) SinkProvided)
      (src_cond (src_status src) Deployed) (src_cond (src_status src) WebhookConfigured)"
    by (simp add: conds_are_def)
  from reconcile_kind_conds [OF run this]
  show "src_conds_wf (src_status src')" "ready_agrees (src_status src')"
    by (auto simp: conds_are_def split: sum.splits if_splits)
qed

interpretation finalizing: kind_operation "finalize_kind en (gitlab_iface en)" for en
proof unfold_locales
  fix src h r src' h'
  assume run: "finalize_kind en (gitlab_iface en) src h = (r, src', h')"
  have "extends webhook_request h h'" by (rule finalize_kind_extends [OF run])
  then show "extends kind_request h h'" by (rule extends_mono) (rule webhook_kind)
  show "src_meta src' = src_meta src" by (rule finalize_kind_meta(1) [OF run])
  assume "src_conds_wf (src_status src)"
  then show "src_conds_wf (src_status src')" by (simp add: src_conds_wf_def finalize_kind_meta(2) [OF run])
qed

subsection \<open>The cases of a key\<close>

lemma source_reconcile_cases:
  assumes "source_reconcile en leader img key h = (r, h')"
  obtains (no_request) "h' = h" "r = Ok () \<or> r = Err (SkipKeyErr key)"
  | (not_read) s e where "new_state key (default_impl leader) (source_kind en img) = Inr s"
      "leader (rs_namespace s) (rs_name s)" "e_lister_get en h (rs_namespace s) (rs_name s) = Inl e"
      "r = (if is_not_found (Some e) then Ok () else Err e)"
      "h' = h @ [ListerGet (rs_namespace s) (rs_name s)]"
  | (reconciled) s original where "new_state key (default_impl leader) (source_kind en img) = Inr s"
      "leader (rs_namespace s) (rs_name s)" "e_lister_get en h (rs_namespace s) (rs_name s) = Inr original"
      "\<not> om_deleted (src_meta original)"
      "run_reconcile en (default_impl leader) (source_kind en img) s
         (reconcile_kind en (gitlab_iface en) img) original
         (h @ [ListerGet (rs_namespace s) (rs_name s)]) = (r, h')"
  | (finalized) s original where "new_state key (default_impl leader) (source_kind en img) = Inr s"
      "leader (rs_namespace s) (rs_name s)" "e_lister_get en h (rs_namespace s) (rs_name s) = Inr original"
      "om_deleted (src_meta original)"
      "run_finalize en (default_impl leader) (source_kind en img) s
         (finalize_kind en (gitlab_iface en)) original
         (h @ [ListerGet (rs_namespace s) (rs_name s)]) = (r, h')"
proof -
  have leads: "rs_is_leader s = leader (rs_namespace s) (rs_name s)" "\<not> rs_is_observer s"
    if "new_state key (default_impl leader) (source_kind en img) = Inr s" for s
    using that by (auto simp: new_state_def split: sum.splits prod.splits)
  have skip: "r = Err (SkipKeyErr key) \<and> h' = h"
    if "new_state key (default_impl leader) (source_kind en img) = Inr s" "\<not> rs_is_leader s" for s
    using assms that leads [OF that(1)]
    by (simp add: source_reconcile_def reconcile_def is_not_leader_nor_observer_def)
  from assms [unfolded source_reconcile_def] show ?thesis
  proof (cases rule: reconcile_cases)
    case bad_key
    with no_request show ?thesis by blast
  next
    case (skipped s)
    with no_request show ?thesis by blast
  next
    case (not_read s e)
    with that(2) [of s e] no_request skip leads show ?thesis by (cases "rs_is_leader s") auto
  next
    case (reconciled s original f)
    with that(3) [of s original] no_request skip leads show ?thesis
      by (cases "rs_is_leader s") (auto simp: reconcile_method_for_def split: if_splits)
  next
    case (finalized s original f)
    with that(4) [of s original] no_request skip leads show ?thesis
      by (cases "rs_is_leader s") (auto simp: reconcile_method_for_def split: if_splits)
  next
    case (observed s original f)
    with no_request skip show ?thesis
      by (cases "rs_is_leader s") (auto simp: reconcile_method_for_def split: if_splits)
  next
    case (idle s original)
    with no_request skip leads show ?thesis
      by (cases "rs_is_leader s") (auto simp: reconcile_method_for_def split: if_splits)
  qed
qed

subsection \<open>A world that serves one source\<close>

definition serving :: "gitlab_source \<Rightarrow> env" where
  "serving src = sim_env
     \<lparr>e_lister_get := (\<lambda>h ns n. Inr src),
      e_patch_finalizers := (\<lambda>h ns n p. Inr (src\<lparr>src_meta := (src_meta src)
        \<lparr>om_finalizers := patch_finalizer_list p\<rparr>\<rparr>))\<rparr>"

lemma serving_documented: "gitlab_documented (serving src) sim_view sim_default"
  using sim_documented
  by (simp add: gitlab_documented_def documented_get_def documented_add_def documented_edit_def
      documented_delete_def succeeded_def serving_def)

definition deleted_source :: "int option \<Rightarrow> string list \<Rightarrow> gitlab_source" where
  "deleted_source i fins = (sim_source_id i)
     \<lparr>src_meta := sim_meta\<lparr>om_deleted := True, om_finalizers := fins\<rparr>\<rparr>"

subsection \<open>Leadership and keys\<close>

lemma new_state_source:
  "new_state key (default_impl leader) (source_kind en img) =
     (case split_key key of
        Inl _ \<Rightarrow> Inl (ErrText (''invalid resource key: '' @ key))
      | Inr (ns, n) \<Rightarrow> Inr \<lparr>rs_key = key, rs_namespace = ns, rs_name = n, rs_is_observer = False,
          rs_is_leader = leader ns n\<rparr>)"
  by (simp add: new_state_def split: sum.split prod.split)

lemma run_extends:
  "run_reconcile en im kr s f original h = (r, h') \<Longrightarrow> \<not> im_skip_status im \<Longrightarrow>
   (\<And>src h r src' h'. f src h = (r, src', h') \<Longrightarrow> extends kind_request h h') \<Longrightarrow>
   extends (\<lambda>_. True) h h'"
  "run_finalize en im kr s f original h = (r, h') \<Longrightarrow>
   (\<And>src h r src' h'. f src h = (r, src', h') \<Longrightarrow> extends kind_request h h') \<Longrightarrow>
   extends (\<lambda>_. True) h h'"
proof -
  let ?E = "extends (\<lambda>_. True) :: history \<Rightarrow> history \<Rightarrow> bool"
  have any: "extends P a b \<Longrightarrow> ?E a b" for P a b by (erule extends_mono) simp
  note steps = any [OF set_finalizer_extends] any [OF clear_finalizer_extends] any [OF finish_extends]
  {
    assume run: "run_reconcile en im kr s f original h = (r, h')" "\<not> im_skip_status im"
      and f: "\<And>src h r src' h'. f src h = (r, src', h') \<Longrightarrow> extends kind_request h h'"
    have ticks: "ticks_only a b \<Longrightarrow> ?E a b" for a b by (erule extends_ticks) simp
    from run show "?E h h'"
    proof (cases rule: run_reconcile_cases)
      case (panicked src h1 src1 h2 m src2)
      from extends_trans [OF extends_trans [OF steps(1) [OF panicked(1)]
          ticks [OF pre_process_frame(3) [OF panicked(2)]]] any [OF f [OF panicked(3)]]]
      show ?thesis .
    next
      case (finished src h1 src1 h2 q src2 h3 src3 h4)
      have "?E h3 h4" using post_process_frame(3) [OF finished(5)] by simp
      from extends_trans [OF extends_trans [OF extends_trans [OF extends_trans [OF steps(1) [OF finished(1)]
          ticks [OF pre_process_frame(3) [OF finished(2)]]] any [OF f [OF finished(3)]]] this]
          steps(3) [OF finished(6)]]
      show ?thesis .
    qed (rule steps(1))
  next
    assume run: "run_finalize en im kr s f original h = (r, h')"
      and f: "\<And>src h r src' h'. f src h = (r, src', h') \<Longrightarrow> extends kind_request h h'"
    from run show "?E h h'"
    proof (cases rule: run_finalize_cases)
      case (panicked m src1)
      then show ?thesis by (blast intro: any [OF f])
    next
      case (not_cleared q src1 h1 e)
      from extends_trans [OF any [OF f [OF not_cleared(1)]] steps(2) [OF not_cleared(3)]]
      show ?thesis .
    next
      case (finished q src1 h1 src2 h2)
      from extends_trans [OF extends_trans [OF any [OF f [OF finished(1)]] steps(2) [OF finished(3)]]
          steps(3) [OF finished(4)]]
      show ?thesis .
    qed
  }
qed

text \<open>
  The gate of the controller. A key that is not a namespace and a name is dropped without a
  request; a replica that does not lead the key makes no request and reports the key as skipped; the
  leader first reads the source from its cache.
\<close>

theorem source_reconcile_gate:
  "case split_key key of
     Inl _ \<Rightarrow> source_reconcile en leader img key h = (Ok (), h)
   | Inr (ns, n) \<Rightarrow>
       (if leader ns n
        then (\<exists>e. snd (source_reconcile en leader img key h) = h @ ListerGet ns n # e)
        else source_reconcile en leader img key h = (Err (SkipKeyErr key), h))"
proof (cases "split_key key")
  case (Inl e)
  then show ?thesis by (simp add: source_reconcile_def reconcile_def new_state_source)
next
  case (Inr p)
  obtain ns n where p: "p = (ns, n)" by (cases p)
  let ?s = "\<lparr>rs_key = key, rs_namespace = ns, rs_name = n, rs_is_observer = False, rs_is_leader = leader ns n\<rparr>"
  have s: "new_state key (default_impl leader) (source_kind en img) = Inr ?s"
    using Inr p by (simp add: new_state_source)
  obtain r h' where run: "source_reconcile en leader img key h = (r, h')" by (metis surj_pair)
  show ?thesis
  proof (cases "leader ns n")
    case False
    with s Inr p show ?thesis
      by (simp add: source_reconcile_def reconcile_def is_not_leader_nor_observer_def)
  next
    case True
    have "extends (\<lambda>_. True) (h @ [ListerGet ns n]) h'"
    proof (cases "e_lister_get en h ns n")
      case (Inl e)
      with run s True show ?thesis
        by (auto simp: source_reconcile_def reconcile_def is_not_leader_nor_observer_def ask_def split: if_splits)
    next
      case original: (Inr original)
      from run [unfolded source_reconcile_def reconcile_def] s True original show ?thesis
        using run_extends(1) [OF _ _ reconciling.op_extends] run_extends(2) [OF _ finalizing.op_extends]
        by (auto simp: is_not_leader_nor_observer_def ask_def reconcile_method_for_def split: if_splits)
    qed
    with run True Inr p show ?thesis by (auto simp: extends_def)
  qed
qed

theorem source_reconcile_gate_witness:
  "source_reconcile (serving sim_source) (\<lambda>_ _. False) ''img'' ''ns/src'' [] =
     (Err (SkipKeyErr ''ns/src''), [])"
proof -
  have "split_key ''ns/src'' = Inr (''ns'', ''src'')" by code_simp
  with source_reconcile_gate [of "serving sim_source" "\<lambda>_ _. False" "''img''" "''ns/src''" "[]"]
  show ?thesis by simp
qed

subsection \<open>The finalizer comes first and goes last\<close>

definition effect :: "request \<Rightarrow> bool" where
  "effect r \<longleftrightarrow> is_create_service r \<or> gitlab_request r \<noteq> None"

lemma no_effect:
  "extends (\<lambda>r. is_patch r \<or> is_event r) h h' \<Longrightarrow> filter effect h' = filter effect h"
  by (rule extends_filter, erule extends_mono)
    (auto simp: effect_def elim: is_patch.elims is_event.elims)

lemma split_new_state:
  "new_state key (default_impl leader) (source_kind en img) = Inr s \<Longrightarrow>
   split_key key = Inr (rs_namespace s, rs_name s)"
  by (auto simp: new_state_source split: sum.splits prod.splits)

text \<open>
  C11: the controller creates a receive adapter or sends anything to GitLab for a live source only once
  its finalizer is stored: the source in the cache already has it, or the first request after
  reading the cache was a patch with the finalizer in it, which the API server accepted.
\<close>

theorem finalizer_before_effects:
  assumes run: "source_reconcile en leader img key h = (r, h')"
    and effects: "filter effect h' \<noteq> filter effect h"
  shows "\<exists>ns n original. split_key key = Inr (ns, n) \<and> leader ns n \<and>
    e_lister_get en h ns n = Inr original \<and>
    (om_deleted (src_meta original) \<or> default_finalizer_name \<in> set (om_finalizers (src_meta original)) \<or>
     (\<exists>src h1. stores_finalizer en (default_impl leader) original (h @ [ListerGet ns n]) src h1))"
  using run
proof (cases rule: source_reconcile_cases)
  case (reconciled s original)
  let ?h0 = "h @ [ListerGet (rs_namespace s) (rs_name s)]"
  have fin: "kr_finalize (source_kind en img) = Some (finalize_kind en (gitlab_iface en))" by simp
  have "default_finalizer_name \<in> set (om_finalizers (src_meta original)) \<or>
      (\<exists>src h1. stores_finalizer en (default_impl leader) original ?h0 src h1)"
    using reconciled(5) default_impl_sel(4)
  proof (cases rule: run_reconcile_cases)
    case (no_finalizer e)
    from no_effect [OF set_finalizer_extends [OF no_finalizer(1)]] effects show ?thesis
      by (simp add: effect_def)
  next
    case (panicked src h1 src1 h2 m src2)
    from set_finalizer_stores [OF panicked(1) fin reconciled(4)] show ?thesis by auto
  next
    case (finished src h1 src1 h2 q src2 h3 src3 h4)
    from set_finalizer_stores [OF finished(1) fin reconciled(4)] show ?thesis by auto
  qed
  with reconciled split_new_state [OF reconciled(1)] show ?thesis by metis
next
  case (finalized s original)
  with split_new_state [OF finalized(1)] show ?thesis by metis
next
  case (not_read s e)
  with effects show ?thesis by (simp add: effect_def)
next
  case no_request
  with effects show ?thesis by simp
qed

theorem finalizer_before_effects_witness:
  "\<exists>src h1. stores_finalizer (serving sim_source) (default_impl (\<lambda>_ _. True)) sim_source
     [ListerGet ''ns'' ''src''] src h1"
proof -
  let ?run = "source_reconcile (serving sim_source) (\<lambda>_ _. True) ''img'' ''ns/src'' []"
  obtain r h' where run: "?run = (r, h')" by (metis surj_pair)
  have "filter effect (snd ?run) \<noteq> filter effect []" and "split_key ''ns/src'' = Inr (''ns'', ''src'')"
    by code_simp+
  moreover have "e_lister_get (serving sim_source) [] ns n = Inr sim_source" for ns n
    by (simp add: serving_def)
  ultimately show ?thesis
    using finalizer_before_effects [OF run] run by (auto simp: sim_source_def sim_meta_def)
qed

text \<open>The patch of an object: for a live one the finalizer added, for a deleted one removed.\<close>

definition exact_patch :: "gitlab_source \<Rightarrow> request \<Rightarrow> bool" where
  "exact_patch src q \<longleftrightarrow>
     (\<exists>fins. q = PatchFinalizers (om_namespace (src_meta src)) (om_name (src_meta src))
          (MergePatch fins (om_resource_version (src_meta src))) \<and>
        (if om_deleted (src_meta src)
         then default_finalizer_name \<in> set (om_finalizers (src_meta src)) \<and>
           set fins = set (om_finalizers (src_meta src)) - {default_finalizer_name}
         else default_finalizer_name \<notin> set (om_finalizers (src_meta src)) \<and>
           fins = om_finalizers (src_meta src) @ [default_finalizer_name]))"

definition patched_exactly :: "gitlab_source \<Rightarrow> history \<Rightarrow> history \<Rightarrow> bool" where
  "patched_exactly src h h' \<longleftrightarrow>
     filter is_patch h' = filter is_patch h \<or>
     (\<exists>q. filter is_patch h' = filter is_patch h @ [q] \<and> exact_patch src q)"

lemma exact_patch_meta: "src_meta a = src_meta b \<Longrightarrow> exact_patch a = exact_patch b"
  by (simp add: exact_patch_def fun_eq_iff)

lemma patch_finalizers_patches:
  "patch_finalizers en src p failed ok h = (r, h') \<Longrightarrow>
   filter is_patch h' = filter is_patch h @
     [PatchFinalizers (om_namespace (src_meta src)) (om_name (src_meta src)) p]"
  by (auto simp: patch_finalizers_def ask_def record_event_def Let_def split: sum.splits if_splits)

lemma set_finalizer_exact:
  assumes run: "set_finalizer_if_finalizer en (default_impl leader) (source_kind en img) src h = (r, h')"
    and live: "\<not> om_deleted (src_meta src)"
  shows "patched_exactly src h h'"
  using run live
  by (auto simp: set_finalizer_if_finalizer_def update_finalizers_filtered_def
      update_finalizers_merge_def set_insert_def patched_exactly_def exact_patch_def Let_def
      dest!: patch_finalizers_patches split: if_splits)

lemma get_source_no_patch [simp]: "filter is_patch (h @ [GetSource ns n]) = filter is_patch h"
  by simp

lemma clear_finalizer_exact:
  assumes run: "clear_finalizer en (default_impl leader) (source_kind en img) src ev h = (r, h')"
  shows "patched_exactly src h h'"
proof (cases "releases_finalizer ev \<and> om_deleted (src_meta src)")
  case True
  let ?f = "default_finalizer_name" and ?fins = "om_finalizers (src_meta src)"
  obtain q h1 where q: "update_finalizers_filtered en (default_impl leader) src
      (set_delete ?f ?fins) h = (q, h1)" by (metis surj_pair)
  have nf: "?f \<notin> set (set_delete ?f xs)" for xs by (simp add: set_delete_def)
  have "filter is_patch h' = filter is_patch h1"
    using run q True by (auto simp: clear_finalizer_def Let_def ask_def split: sum.splits if_splits)
  moreover have "patched_exactly src h h1"
    using q True nf
    by (auto simp: update_finalizers_filtered_def update_finalizers_merge_def patched_exactly_def
        exact_patch_def set_delete_def Let_def dest!: patch_finalizers_patches split: if_splits)
  ultimately show ?thesis by (simp add: patched_exactly_def)
next
  case False
  have "h' = h"
  proof (cases "om_deleted (src_meta src)")
    case True
    with False run show ?thesis using clear_finalizer_kept [of ev en] by (metis snd_conv)
  qed (use run in \<open>simp add: clear_finalizer_def\<close>)
  then show ?thesis by (simp add: patched_exactly_def)
qed

lemma finish_patches:
  "finish en im s original src ev h = (r, h') \<Longrightarrow> filter is_patch h' = filter is_patch h"
  by (rule extends_filter, rule extends_mono, erule finish_extends)
    (auto elim: status_request.elims is_event.elims)

lemma ticks_patches: "ticks_only h h' \<Longrightarrow> filter is_patch h' = filter is_patch h"
  by (auto simp: ticks_only_def)

lemma live_run_patches:
  assumes run: "run_reconcile en (default_impl leader) (source_kind en img) s
      (reconcile_kind en (gitlab_iface en) img) original h = (r, h')" and live: "\<not> om_deleted (src_meta original)"
  shows "patched_exactly original h h'"
proof -
  have exact: "patched_exactly original h h1"
    if "set_finalizer_if_finalizer en (default_impl leader) (source_kind en img) original h = (x, h1)" for x h1
    by (rule set_finalizer_exact [OF that live])
  show ?thesis
    using run default_impl_sel(4)
  proof (cases rule: run_reconcile_cases)
    case (panicked src h1 src1 h2 m src2)
    with exact [OF panicked(1)] ticks_patches [OF pre_process_frame(3) [OF panicked(2)]]
      reconciling.op_patches [OF panicked(3)] show ?thesis by (simp add: patched_exactly_def)
  next
    case (finished src h1 src1 h2 q src2 h3 src3 h4)
    with exact [OF finished(1)] ticks_patches [OF pre_process_frame(3) [OF finished(2)]]
      reconciling.op_patches [OF finished(3)] post_process_frame(3) [OF finished(5)]
      finish_patches [OF finished(6)] show ?thesis by (simp add: patched_exactly_def)
  qed (rule exact)
qed

lemma finalized_run_patches:
  assumes run: "run_finalize en (default_impl leader) (source_kind en img) s
      (finalize_kind en (gitlab_iface en)) original h = (r, h')"
  shows "patched_exactly original h h'"
proof -
  have exact: "patched_exactly original h h2"
    if "finalize_kind en (gitlab_iface en) original h = (q, src1, h1)"
      and "clear_finalizer en (default_impl leader) (source_kind en img) src1 ev h1 = (x, h2)" for q src1 h1 ev x h2
    using clear_finalizer_exact [OF that(2)] finalizing.op_patches [OF that(1)]
      exact_patch_meta [OF finalizing.op_meta [OF that(1)]]
    by (simp add: patched_exactly_def)
  show ?thesis
    using run
  proof (cases rule: run_finalize_cases)
    case (panicked m src1)
    then show ?thesis using finalizing.op_patches [OF panicked(1)] by (simp add: patched_exactly_def)
  next
    case (not_cleared q src1 h1 e)
    then show ?thesis using exact by blast
  next
    case (finished q src1 h1 src2 h2)
    then show ?thesis using exact [OF finished(1,3)] finish_patches [OF finished(4)]
      by (simp add: patched_exactly_def)
  qed
qed

text \<open>
  C13: a run for a key patches finalizers at most once, and only of the source it read: for a live
  source it adds its own finalizer after the existing ones, for a deleted one it removes exactly its
  own, and the patch carries the resource version of what it read, so that the API server refuses it
  when the source has changed meanwhile.
\<close>

theorem finalizer_patch_exact:
  assumes run: "source_reconcile en leader img key h = (r, h')"
    and patched: "filter is_patch h' \<noteq> filter is_patch h"
  shows "\<exists>ns n original q. split_key key = Inr (ns, n) \<and> e_lister_get en h ns n = Inr original \<and>
    filter is_patch h' = filter is_patch h @ [q] \<and> exact_patch original q"
proof -
  have read: ?thesis
    if "new_state key (default_impl leader) (source_kind en img) = Inr s"
      "e_lister_get en h (rs_namespace s) (rs_name s) = Inr original"
      "patched_exactly original (h @ [ListerGet (rs_namespace s) (rs_name s)]) h'" for s original
  proof -
    from that(3) patched have "\<exists>q. filter is_patch h' = filter is_patch h @ [q] \<and> exact_patch original q"
      by (simp add: patched_exactly_def)
    with that(2) split_new_state [OF that(1)] show ?thesis by metis
  qed
  from run show ?thesis
  proof (cases rule: source_reconcile_cases)
    case (reconciled s original)
    show ?thesis by (rule read [OF reconciled(1,3) live_run_patches [OF reconciled(5,4)]])
  next
    case (finalized s original)
    show ?thesis by (rule read [OF finalized(1,3) finalized_run_patches [OF finalized(5)]])
  qed (use patched in simp_all)
qed

theorem finalizer_patch_exact_witness:
  "\<exists>q. exact_patch (deleted_source None [default_finalizer_name, ''other'']) q"
proof -
  let ?src = "deleted_source None [default_finalizer_name, ''other'']"
  let ?run = "source_reconcile (serving ?src) (\<lambda>_ _. True) ''img'' ''ns/src'' []"
  obtain r h' where run: "?run = (r, h')" by (metis surj_pair)
  have "filter is_patch (snd ?run) \<noteq> filter is_patch []" by code_simp
  moreover have "e_lister_get (serving ?src) [] ns n = Inr ?src" for ns n by (simp add: serving_def)
  ultimately show ?thesis using finalizer_patch_exact [OF run] run by auto
qed

subsection \<open>Deleting a source\<close>

context webhook_service
begin

lemma extends_frame:
  assumes v: valid
  shows "extends (\<lambda>r. gitlab_request r = None) h h' \<Longrightarrow> hooks c h' = hooks c h"
proof -
  have "list_all (\<lambda>r. gitlab_request r = None) e \<Longrightarrow> hooks c (h @ e) = hooks c h" for e
  proof (induction e rule: rev_induct)
    case (snoc r e)
    then show ?case using other_frame [OF v, of r c "h @ e"] by simp
  qed simp
  then show "extends (\<lambda>r. gitlab_request r = None) h h' \<Longrightarrow> hooks c h' = hooks c h"
    by (auto simp: extends_def)
qed

end

lemma gl_call_error:
  "gl_call en q h = (Inl e, h') \<Longrightarrow> errors_as sel_event e = None"
  by (auto simp: gl_call_def ask_def check_response_def gitlab_ErrNotFound_def err_simps
      split: gl_response.splits if_splits option.splits)

lemma delete_error_keeps:
  "wc_delete en c i h = (Some e, h') \<Longrightarrow> \<not> releases_finalizer (Some e)"
  by (auto simp: wc_delete_def releases_finalizer_def dest!: gl_call_error split: prod.splits sum.splits)

text \<open>The outcomes of \<open>FinalizeKind\<close> that release the finalizer.\<close>

lemma finalize_kind_releases:
  assumes run: "finalize_kind en (gitlab_iface en) src h = (q, src', h')" and "\<not> is_panic q"
    and "releases_finalizer (event_of_result q)" and id: "st_webhook_id (src_status src) = Some i"
  shows "(\<exists>e h1. get_webhook_client en src h = (Err e, h1) \<and> (is_not_found (Some e) \<or> is_denied (Some e))) \<or>
    (\<exists>c h1. get_webhook_client en src h = (Ok c, h1) \<and> wc_delete en c i h1 = (None, h'))"
  using assms
  by (auto simp: finalize_kind_def event_of_result_def is_panic_def is_secret_not_found_def
      new_event_def dest: delete_error_keeps
      split: prod.splits result.splits option.splits if_splits)
    (simp_all add: releases_finalizer_def err_simps)

lemma finish_gitlab: "finish en im s original src ev h = (r, h') \<Longrightarrow>
    extends (\<lambda>r. gitlab_request r = None) h h'"
  by (rule extends_mono, erule finish_extends)
    (auto elim: status_request.elims is_event.elims)

lemma clear_finalizer_gitlab: "clear_finalizer en im kr src ev h = (r, h') \<Longrightarrow>
    extends (\<lambda>r. gitlab_request r = None) h h'"
  by (rule extends_mono, erule clear_finalizer_extends)
    (auto elim: status_request.elims is_event.elims is_patch.elims)

text \<open>
  C12: on a GitLab that behaves as documented, when the controller asks the API server to remove its
  finalizer from a deleted source that has a hook recorded, the hook no longer exists in the source's
  project, unless the source's credentials are missing (or refused), in which case the hook is given up.
\<close>

theorem finalizer_released_after_cleanup:
  assumes doc: "gitlab_documented en view dflt"
    and run: "source_reconcile en leader img key h = (r, h')"
    and patched: "filter is_patch h' \<noteq> filter is_patch h"
    and key: "split_key key = Inr (ns, n)"
    and lister: "e_lister_get en h ns n = Inr original" "om_deleted (src_meta original)"
    and id: "st_webhook_id (src_status original) = Some i"
  shows "(\<exists>c. client_of en original c \<and> project_hooks view c h' i = None) \<or>
    (\<exists>e h1. get_webhook_client en original (h @ [ListerGet ns n]) = (Err e, h1) \<and>
       (is_not_found (Some e) \<or> is_denied (Some e)))"
  using run
proof (cases rule: source_reconcile_cases)
  case (finalized s original')
  let ?h0 = "h @ [ListerGet ns n]"
  have s: "rs_namespace s = ns" "rs_name s = n" "original' = original"
    using split_new_state [OF finalized(1)] key finalized(3) lister by auto
  note run' = finalized(5) [unfolded s]
  obtain q src1 h1 where q: "finalize_kind en (gitlab_iface en) original ?h0 = (q, src1, h1)"
      "\<not> is_panic q" "releases_finalizer (event_of_result q)"
    using finalizing.run_finalize_patches [OF run'] patched by auto
  have after: "extends (\<lambda>r. gitlab_request r = None) h1 h'"
    using run'
  proof (cases rule: run_finalize_cases)
    case (panicked m src1)
    with q show ?thesis by (simp add: is_panic_def)
  next
    case (not_cleared q src1 h1 e)
    with q clear_finalizer_gitlab [OF not_cleared(3)] show ?thesis by simp
  next
    case (finished q src1 h1 src2 h2)
    with q extends_trans [OF clear_finalizer_gitlab [OF finished(3)] finish_gitlab [OF finished(4)]]
    show ?thesis by simp
  qed
  consider (missing) e h2 where "get_webhook_client en original ?h0 = (Err e, h2)"
      "is_not_found (Some e) \<or> is_denied (Some e)"
    | (gone) c h2 where "get_webhook_client en original ?h0 = (Ok c, h2)" "wc_delete en c i h2 = (None, h1)"
    using finalize_kind_releases [OF q id] by blast
  then show ?thesis
  proof cases
    case (gone c h2)
    from gl.delete_hook [OF doc, of c i h2 h1] gone(2) gl.extends_frame [OF doc after, of c]
    have "project_hooks view c h' i = None" by simp
    moreover have "client_of en original c" using gone(1) by (auto simp: client_of_def)
    ultimately show ?thesis by blast
  qed blast
qed (use key lister patched split_new_state in \<open>auto\<close>)

theorem finalizer_released_after_cleanup_witness:
  "\<exists>c. client_of (serving (deleted_source (Some 1) [default_finalizer_name]))
     (deleted_source (Some 1) [default_finalizer_name]) c"
proof -
  let ?src = "deleted_source (Some 1) [default_finalizer_name]"
  let ?run = "source_reconcile (serving ?src) (\<lambda>_ _. True) ''img'' ''ns/src'' sim_history"
  obtain r h' where run: "?run = (r, h')" by (metis surj_pair)
  have patched: "filter is_patch (snd ?run) \<noteq> filter is_patch sim_history"
    and key: "split_key ''ns/src'' = Inr (''ns'', ''src'')"
    and ok: "case fst (get_webhook_client (serving ?src) ?src (sim_history @ [ListerGet ''ns'' ''src''])) of
       Ok c \<Rightarrow> True | _ \<Rightarrow> False"
    by code_simp+
  have lister: "e_lister_get (serving ?src) sim_history ''ns'' ''src'' = Inr ?src" by (simp add: serving_def)
  have src: "om_deleted (src_meta ?src)" "st_webhook_id (src_status ?src) = Some 1"
    by (simp_all add: deleted_source_def)
  from finalizer_released_after_cleanup [OF serving_documented run _ key lister src] patched run ok
  show ?thesis by auto
qed

text \<open>
  A deleted source with a hook recorded, for which no GitLab client can be built for a reason other
  than missing or refused credentials (an invalid project URL, an API server that does not answer),
  is given up for now: the run records one warning event and returns no error, so that the work queue
  does not try the key again; the finalizer stays and the hook too. \<^verbatim>\<open>FinalizeKind\<close> returns its event
  bare, unlike \<^verbatim>\<open>syncWebhook\<close>, which wraps its own to have them retried.
\<close>

theorem finalizer_client_error_dropped:
  assumes key: "split_key key = Inr (ns, n)" and leads: "leader ns n"
    and lister: "e_lister_get en h ns n = Inr original" "om_deleted (src_meta original)"
    and id: "st_webhook_id (src_status original) = Some i"
    and cli: "get_webhook_client en original (h @ [ListerGet ns n]) = (Err e, h1)"
    and other: "\<not> is_not_found (Some e)" "\<not> is_denied (Some e)"
  shows "source_reconcile en leader img key h =
    (Ok (), h1 @ [RecordEvent ''Warning'' ''ClientError''
       (''Error obtaining GitLab webhook client: '' @ err_text e)])"
proof -
  define msg where "msg = ''Error obtaining GitLab webhook client: '' @ err_text e"
  let ?ev = "EventErr ''Warning'' ''ClientError'' msg"
  have fin: "finalize_kind en (gitlab_iface en) original (h @ [ListerGet ns n]) = (Err ?ev, original, h1)"
    using id cli other by (simp add: finalize_kind_def is_secret_not_found_def new_event_def msg_def)
  have "\<not> releases_finalizer (Some ?ev)" by (simp add: releases_finalizer_def err_simps)
  note keep = clear_finalizer_kept [OF this]
  show ?thesis
    unfolding msg_def [symmetric]
    using key leads lister
    by (simp add: source_reconcile_def reconcile_def new_state_source is_not_leader_nor_observer_def
        ask_def reconcile_method_for_def run_finalize_def fin event_of_result_def keep finish_def
        sync_status_def report_event_def err_simps record_event_def)
qed

definition bad_url_source :: gitlab_source where
  "bad_url_source = (deleted_source (Some 7) [default_finalizer_name])
     \<lparr>src_spec := sim_spec\<lparr>spec_project_url := ''://gitlab''\<rparr>\<rparr>"

theorem finalizer_client_error_dropped_witness:
  "fst (source_reconcile (serving bad_url_source) (\<lambda>_ _. True) ''img'' ''ns/src'' []) = Ok ()"
proof -
  let ?q = "get_webhook_client (serving bad_url_source) bad_url_source ([] @ [ListerGet ''ns'' ''src''])"
  have key: "split_key ''ns/src'' = Inr (''ns'', ''src'')"
    and err: "case fst ?q of Err e \<Rightarrow> \<not> is_not_found (Some e) \<and> \<not> is_denied (Some e) | _ \<Rightarrow> False"
    by code_simp+
  obtain e where e: "fst ?q = Err e" "\<not> is_not_found (Some e)" "\<not> is_denied (Some e)"
    using err by (cases "fst ?q") auto
  obtain h1 where q: "?q = (Err e, h1)" using e(1) by (metis prod.collapse)
  have lister: "e_lister_get (serving bad_url_source) [] ''ns'' ''src'' = Inr bad_url_source"
    by (simp add: serving_def)
  have src: "om_deleted (src_meta bad_url_source)" "st_webhook_id (src_status bad_url_source) = Some 7"
    by (simp_all add: bad_url_source_def deleted_source_def)
  show ?thesis
    using finalizer_client_error_dropped [OF key _ lister src q e(2,3), of "\<lambda>_ _. True" "''img''"] by simp
qed

subsection \<open>The status that is written\<close>

text \<open>
  C14: when the source in the cache, and the object the API server answers a finalizer patch with, have
  well-formed conditions, every status the controller writes for a live source in one run is the same
  status, tried at most five times; it is well-formed, its Ready condition is the aggregate of the
  others, and its observed generation is that of the object the run worked on.
\<close>

theorem status_writes_sound:
  assumes run: "source_reconcile en leader img key h = (r, h')"
    and key: "split_key key = Inr (ns, n)" and lister: "e_lister_get en h ns n = Inr original"
    and live: "\<not> om_deleted (src_meta original)"
    and wf: "src_conds_wf (src_status original)" and srv: "server_wf en"
  shows "\<exists>ws st src. status_writes h' = status_writes h @ ws \<and> length ws \<le> 5 \<and>
    (src = original \<or> (\<exists>h1. stores_finalizer en (default_impl leader) original (h @ [ListerGet ns n]) src h1)) \<and>
    (\<forall>w \<in> set ws. src_status w = st \<and> src_conds_wf st \<and> ready_agrees st \<and>
       st_observed_generation st = om_generation (src_meta src))"
  using run
proof (cases rule: source_reconcile_cases)
  case (reconciled s original')
  have s: "rs_namespace s = ns" "rs_name s = n" "original' = original"
    using split_new_state [OF reconciled(1)] key reconciled(3) lister by auto
  have fin: "kr_finalize (source_kind en img) = Some (finalize_kind en (gitlab_iface en))" by simp
  from reconciling.run_reconcile_writes [OF reconciled(5) [unfolded s] default_impl_sel(4) wf srv fin live]
  show ?thesis by simp
next
  case (finalized s original')
  with split_new_state [OF finalized(1)] key lister live show ?thesis by auto
next
  case (not_read s e)
  with split_new_state [OF not_read(1)] key lister show ?thesis by auto
next
  case no_request
  then show ?thesis by (intro exI [of _ "[]"]) auto
qed

lemma serving_wf: "src_conds_wf (src_status src) \<Longrightarrow> server_wf (serving src)"
  by (auto simp: server_wf_def serving_def)

theorem status_writes_sound_witness:
  "\<exists>w \<in> set (status_writes (snd (source_reconcile (serving sim_source) (\<lambda>_ _. True) ''img'' ''ns/src'' []))).
     ready_agrees (src_status w)"
proof -
  let ?run = "source_reconcile (serving sim_source) (\<lambda>_ _. True) ''img'' ''ns/src'' []"
  obtain r h' where run: "?run = (r, h')" by (metis surj_pair)
  have key: "split_key ''ns/src'' = Inr (''ns'', ''src'')"
    and some: "status_writes (snd ?run) \<noteq> status_writes []" by code_simp+
  have lister: "e_lister_get (serving sim_source) [] ''ns'' ''src'' = Inr sim_source" by (simp add: serving_def)
  have wf: "src_conds_wf (src_status sim_source)" by (simp add: sim_source_def sim_status_def src_conds_wf_def)
  have live: "\<not> om_deleted (src_meta sim_source)" by (simp add: sim_source_def sim_meta_def)
  from status_writes_sound [OF run key lister live wf serving_wf [OF wf]] some run
  obtain w ws where "status_writes h' = w # ws" "ready_agrees (src_status w)"
    by (auto simp: neq_Nil_conv)
  with run show ?thesis by auto
qed

subsection \<open>A hook whose identifier was not stored\<close>

text \<open>All clients of a source work on the same project, whatever its secrets hold.\<close>

lemma client_for_project:
  "client_for en base project xs = Ok c \<Longrightarrow> client_for en base project ys = Ok c' \<Longrightarrow>
   gl_base_url (wc_cli c) = gl_base_url (wc_cli c') \<and> wc_project c = wc_project c'"
  by (auto simp: client_for_def new_gitlab_client_def split: result.splits sum.splits if_splits)

lemma client_of_parts:
  assumes "client_of en src d"
  shows "\<exists>base project xs. split_project_url (e_auth en) (spec_project_url (src_spec src)) = Ok (base, project) \<and>
    client_for en base project xs = Ok d"
proof -
  obtain h h' where g: "get_webhook_client en src h = (Ok d, h')" using assms by (auto simp: client_of_def)
  then obtain base project where p:
      "split_project_url (e_auth en) (spec_project_url (src_spec src)) = Ok (base, project)"
    by (cases "split_project_url (e_auth en) (spec_project_url (src_spec src))")
      (auto simp: get_webhook_client_def)
  with g show ?thesis by (auto simp: get_webhook_client_def split: sum.splits prod.splits)
qed

lemma client_of_project:
  assumes "client_of en src c" and "client_of en src c'"
  shows "project_hooks view c = project_hooks view c'"
proof -
  obtain base project xs base' project' ys where
    "split_project_url (e_auth en) (spec_project_url (src_spec src)) = Ok (base, project)"
    "client_for en base project xs = Ok c"
    "split_project_url (e_auth en) (spec_project_url (src_spec src)) = Ok (base', project')"
    "client_for en base' project' ys = Ok c'"
    using client_of_parts [OF assms(1)] client_of_parts [OF assms(2)] by metis
  then have "client_for en base project xs = Ok c" "client_for en base project ys = Ok c'" by simp_all
  from client_for_project [OF this] show ?thesis by (simp add: project_hooks_def fun_eq_iff)
qed

text \<open>
  A source whose identifier was lost between two successful reconciliations (the write of the
  status failed, or the cache is behind) ends up with two hooks: on a GitLab that behaves as
  documented the second reconciliation adds another hook with the same configuration, and the first
  one stays in the project without anything that refers to it.
\<close>

theorem lost_status_duplicates_hook:
  assumes doc: "gitlab_documented en view dflt"
    and run1: "reconcile_kind en (gitlab_iface en) img src h = (Ok (), src1, h1)"
    and run2: "reconcile_kind en (gitlab_iface en) img src h2 = (Ok (), src2, h3)"
    and talked: "gitlab_calls h1 \<noteq> gitlab_calls h" "gitlab_calls h3 \<noteq> gitlab_calls h2"
    and between: "extends (\<lambda>r. gitlab_request r = None) h1 h2"
    and new: "st_webhook_id (src_status src) = None"
  shows "\<exists>c i j. client_of en src c \<and> st_webhook_id (src_status src1) = Some i \<and>
    st_webhook_id (src_status src2) = Some j \<and> i \<noteq> j \<and>
    project_hooks view c h i = None \<and> project_hooks view c h j = None \<and>
    project_hooks view c h3 i \<noteq> None \<and> project_hooks view c h3 j \<noteq> None"
proof -
  obtain c i u where c: "client_of en src c" "st_webhook_id (src_status src1) = Some i"
      "project_hooks view c h i = None" and h1: "project_hooks view c h1 = (project_hooks view c h)
        (i \<mapsto> added_config dflt (wc_secret_token c) (spec_event_types (src_spec src)) (Some u)
              (spec_ssl_verify (src_spec src)))"
    using reconcile_kind_created [OF doc run1 talked(1) new] by blast
  obtain d j v where d: "client_of en src d" "st_webhook_id (src_status src2) = Some j"
      "project_hooks view d h2 j = None" and h3: "project_hooks view d h3 = (project_hooks view d h2)
        (j \<mapsto> added_config dflt (wc_secret_token d) (spec_event_types (src_spec src)) (Some v)
              (spec_ssl_verify (src_spec src)))"
    using reconcile_kind_created [OF doc run2 talked(2) new] by blast
  have same: "project_hooks view d = project_hooks view c" by (rule client_of_project [OF d(1) c(1)])
  have h2: "project_hooks view c h2 = project_hooks view c h1" by (rule gl.extends_frame [OF doc between])
  have "i \<noteq> j" using d(3) h1 same h2 by auto
  moreover have "project_hooks view c h j = None" using d(3) h1 same h2 \<open>i \<noteq> j\<close> by simp
  moreover have "project_hooks view c h3 i \<noteq> None" "project_hooks view c h3 j \<noteq> None"
    using h1 h3 same h2 by auto
  ultimately show ?thesis using c d by blast
qed

theorem lost_status_duplicates_hook_witness:
  "\<exists>c i j. client_of sim_env sim_source c \<and> i \<noteq> j \<and>
     project_hooks sim_view c (snd (snd (reconcile_kind sim_env (gitlab_iface sim_env) ''img'' sim_source
       (snd (snd (reconcile_kind sim_env (gitlab_iface sim_env) ''img'' sim_source [])))))) i \<noteq> None \<and>
     project_hooks sim_view c (snd (snd (reconcile_kind sim_env (gitlab_iface sim_env) ''img'' sim_source
       (snd (snd (reconcile_kind sim_env (gitlab_iface sim_env) ''img'' sim_source [])))))) j \<noteq> None"
proof -
  let ?run = "\<lambda>h. reconcile_kind sim_env (gitlab_iface sim_env) ''img'' sim_source h"
  obtain r1 src1 h1 where run1: "?run [] = (r1, src1, h1)" by (metis surj_pair)
  obtain r2 src2 h2 where run2: "?run h1 = (r2, src2, h2)" by (metis surj_pair)
  have "fst (?run []) = Ok ()" "gitlab_calls (snd (snd (?run []))) \<noteq> gitlab_calls []"
    "fst (?run (snd (snd (?run [])))) = Ok ()"
    "gitlab_calls (snd (snd (?run (snd (snd (?run [])))))) \<noteq> gitlab_calls (snd (snd (?run [])))"
    by code_simp+
  with run1 run2 have ok: "?run [] = (Ok (), src1, h1)" "?run h1 = (Ok (), src2, h2)"
    "gitlab_calls h1 \<noteq> gitlab_calls []" "gitlab_calls h2 \<noteq> gitlab_calls h1" by simp_all
  have "st_webhook_id (src_status sim_source) = None" by (simp add: sim_source_def sim_status_def)
  from lost_status_duplicates_hook [OF sim_documented ok extends_refl this] run1 run2
  show ?thesis by (simp only: snd_conv) blast
qed

end
