(* ===== verification/SteadyState.thy ===== *)
theory SteadyState
  imports SourceController
begin

section \<open>A source with nothing left to do\<close>

text \<open>
  The fixed point of the controller: a source whose conditions are all True, whose hook is recorded
  and whose status says what the world answers is reconciled without any change to the API server.
\<close>

definition settled_condition :: "condition_set \<Rightarrow> condition list \<Rightarrow> string \<Rightarrow> bool" where
  "settled_condition S cs t \<longleftrightarrow>
     (case get_condition t cs of
        None \<Rightarrow> False
      | Some c \<Rightarrow> c\<lparr>cond_time := 0\<rparr> = mk_condition t CTrue (severity S t) [] [])"

definition settled :: "condition_set \<Rightarrow> condition list \<Rightarrow> bool" where
  "settled S cs \<longleftrightarrow> cond_wf S cs \<and> list_all (settled_condition S cs) (cs_happy S # cs_dependents S)"

lemma settledE:
  assumes "settled S cs" and "t \<in> insert (cs_happy S) (set (cs_dependents S))"
  obtains c where "get_condition t cs = Some c"
    "(mk_condition t CTrue (severity S t) [] [])\<lparr>cond_time := cond_time c\<rparr> = c" "cond_status c = CTrue"
proof -
  obtain c where c: "get_condition t cs = Some c"
      "c\<lparr>cond_time := 0\<rparr> = mk_condition t CTrue (severity S t) [] []"
    using assms by (auto simp: settled_def settled_condition_def list_all_iff split: option.splits)
  have "(c\<lparr>cond_time := 0\<rparr>)\<lparr>cond_time := cond_time c\<rparr> = c" by simp
  then have "(mk_condition t CTrue (severity S t) [] [])\<lparr>cond_time := cond_time c\<rparr> = c"
    unfolding c(2) .
  moreover have "cond_status c = CTrue" using arg_cong [OF c(2), of cond_status] by simp
  ultimately show ?thesis using c(1) that by blast
qed

lemma settled_status:
  "settled S cs \<Longrightarrow> t \<in> insert (cs_happy S) (set (cs_dependents S)) \<Longrightarrow> status_of cs t = Some CTrue"
  by (erule (1) settledE) (simp add: status_of_def)

lemma set_condition_same:
  "settled S cs \<Longrightarrow> t \<in> insert (cs_happy S) (set (cs_dependents S)) \<Longrightarrow>
   set_condition en (mk_condition t CTrue (severity S t) [] []) (cs, h) = (cs, h)"
  by (erule (1) settledE, frule get_condition_type) (auto simp: set_condition_def list_ex_iff)

lemma settled_unhappy:
  assumes "settled S cs" and "set_wf S"
  shows "find_unhappy_dependent S cs = None"
proof (cases "cs_dependents S = []")
  case False
  have "aggregate (cs_dependents S) (status_of cs) = CTrue"
    using settled_status [OF assms(1)] by (auto simp: aggregate_def list_ex_iff list_all_iff)
  then have "map_option cond_status (find_unhappy_dependent S cs) = None"
    using find_unhappy_dependent_aggregate [OF _ assms(2) False, of cs] assms(1)
    by (simp add: settled_def Let_def)
  then show ?thesis by simp
qed (simp add: find_unhappy_dependent_def)

lemma mark_true_same:
  assumes "settled S cs" and "set_wf S" and "t \<in> set (cs_dependents S)"
  shows "mark_true en S t (cs, h) = (cs, h)"
  using assms settled_unhappy [OF assms(1,2)]
  by (simp add: mark_true_def recompute_happiness_def set_condition_same)

lemma initialize_conditions_same:
  assumes "settled S cs"
  shows "initialize_conditions en S (cs, h) = (cs, h)"
proof -
  have some: "\<exists>c. get_condition t cs = Some c" if "t \<in> insert (cs_happy S) (set (cs_dependents S))" for t
    using settledE [OF assms that] by blast
  then have "fold (initialize_terminal en status) ts (cs, h) = (cs, h)" if "set ts \<subseteq> set (cs_dependents S)" for ts status
    using that by (induction ts) (force simp: initialize_terminal_def)+
  moreover obtain c where "get_condition (cs_happy S) cs = Some c" using some by blast
  ultimately show ?thesis by (simp add: initialize_conditions_def Let_def)
qed

subsection \<open>Settled sources\<close>

definition settled_source :: "gitlab_source \<Rightarrow> url \<Rightarrow> bool" where
  "settled_source src u \<longleftrightarrow>
     settled source_cond_set (st_conditions (src_status src)) \<and>
     st_sink_uri (src_status src) = Some u \<and>
     st_ce_attributes (src_status src) =
       create_cloud_event_attributes (as_event_source src) (event_types src) \<and>
     st_webhook_id (src_status src) \<noteq> None"

lemma manage_same:
  "f (st_conditions (fst s), snd s) = (st_conditions (fst s), snd s) \<Longrightarrow> manage f s = s"
  by (simp add: manage_def)

lemma source_set_wf [simp]: "set_wf source_cond_set"
  by (simp add: source_cond_set_def new_living_condition_set_def)

lemma mark_same:
  assumes "settled source_cond_set (st_conditions st)"
  shows "mark_deployed en (st, h) = (st, h)" and "mark_webhook en (st, h) = (st, h)"
    and "st_sink_uri st = Some u \<Longrightarrow> mark_sink en (Some u) (st, h) = (st, h)"
  using mark_true_same [OF assms source_set_wf]
  by (simp_all add: mark_deployed_def mark_webhook_def mark_sink_def manage_same source_deps)

lemma create_webhook_status:
  "create_webhook en W c src u h = (Ok i, s) \<Longrightarrow> fst s = src_status src"
  by (auto simp: create_webhook_def Let_def split: prod.splits sum.splits)

lemma sync_webhook_status:
  assumes "sync_webhook en W src u h = (Ok i, (st, h'))"
  shows "st = src_status src"
proof -
  have "update_webhook en W c src k u h1 = (Ok i, s) \<Longrightarrow> fst s = src_status src" for c k h1 s
    by (auto simp: update_webhook_def Let_def split: prod.splits option.splits)
  with assms create_webhook_status show ?thesis
    by (fastforce simp: sync_webhook_def Let_def split: prod.splits result.splits option.splits
        sum.splits if_splits)
qed

lemma sync_webhook_same_id:
  assumes run: "sync_webhook en (gitlab_iface en) src u h = (Ok j, s)"
    and id: "st_webhook_id (src_status src) = Some i"
  shows "j = i"
proof -
  have upd: "update_webhook en W c src k u h1 = (Ok j, s) \<Longrightarrow> j = k" for W :: "webhook_client webhook_iface" and c k h1
    by (auto simp: update_webhook_def Let_def split: prod.splits option.splits)
  obtain c h1 where c: "get_webhook_client en src h = (Ok c, h1)"
    using run by (auto simp: sync_webhook_def Let_def split: prod.splits result.splits if_splits)
  obtain g h2 where g: "wc_get en c i h1 = (g, h2)" by (metis surj_pair)
  show ?thesis
    using run id c g hook_not_found_wrapped [of en c i h1 _ h2] upd
    by (cases g) (auto simp: sync_webhook_def Let_def)
qed

text \<open>A settled source is reconciled to itself, its sink's defaulted namespace apart.\<close>

lemma reconcile_kind_settled:
  assumes steady: "settled_source src u" and sink: "sink_answer en src h = Inr (Some u)"
    and id: "st_webhook_id (src_status src) = Some i"
    and run: "reconcile_kind en (gitlab_iface en) img src h = (Ok (), src', h')"
    and talked: "gitlab_calls h' \<noteq> gitlab_calls h"
  shows "src_status src' = src_status src"
proof -
  let ?st = "src_status src"
  have set: "settled source_cond_set (st_conditions ?st)" and uri: "st_sink_uri ?st = Some u"
    using steady by (simp_all add: settled_source_def)
  obtain src2 h2 where m: "sink_marked en (Some u) src h = (src2, h2)" by (metis surj_pair)
  have "src_status (with_ce_attributes src) = ?st"
    using steady by (simp add: with_ce_attributes_def settled_source_def)
  then have st2: "src_status src2 = ?st"
    using m mark_same(3) [OF set uri]
    by (auto simp: sink_marked_def resolve_sink_url_eq split: prod.splits)
  note run' = run [unfolded reconcile_kind_sink_ok [OF sink m]]
  have talked': "gitlab_calls (snd (snd (reconcile_deployment en (gitlab_iface en) img src2 h2))) \<noteq> gitlab_calls h2"
    using talked run' sink_marked_gitlab [OF m] by simp
  obtain q h3 where q: "reconcile_adapter en img src2 h2 = (q, h3)" by (metis surj_pair)
  obtain ks v where ks: "q = Inr ks" "kservice_ready ks" "ks_url ks = Some v"
    using talked' q unfolding reconcile_deployment_gitlab by (cases q) (auto split: if_splits)
  have dep: "mark_deployed en (src_status src2, h3) = (?st, h3)" using mark_same(1) [OF set] st2 by simp
  have w: "reconcile_webhook en (gitlab_iface en) (src2\<lparr>src_status := ?st\<rparr>) (Some v) h3 = (Ok (), src', h')"
    using run' q ks dep by (simp add: reconcile_deployment_def)
  from reconcile_webhook_ok [OF w] obtain j st h4 where j:
      "sync_webhook en (gitlab_iface en) (src2\<lparr>src_status := ?st\<rparr>) (Some v) h3 = (Ok j, (st, h4))"
    by auto
  with sync_webhook_same_id [OF j, of i] id have sync:
      "sync_webhook en (gitlab_iface en) (src2\<lparr>src_status := ?st\<rparr>) (Some v) h3 = (Ok i, (st, h4))"
    by simp
  have "st = ?st" using sync_webhook_status [OF sync] by simp
  then have "st\<lparr>st_webhook_id := Some i\<rparr> = ?st" using id by simp
  then show ?thesis
    using w sync mark_same(2) [OF set] by (auto simp: reconcile_webhook_def)
qed

subsection \<open>A run for a settled source\<close>

lemma pre_process_settled:
  assumes "settled source_cond_set (st_conditions (src_status src))"
    and "st_observed_generation (src_status src) = om_generation (src_meta src)"
  shows "pre_process en src h = (src, h)"
  using assms initialize_conditions_same [OF assms(1)]
  by (simp add: pre_process_def source_set_defaults_def Let_def manage_same)

lemma post_process_same:
  assumes "src_status src = src_status old" and "src_meta src = src_meta old"
    and "distinct (map cond_type (st_conditions (src_status old)))"
    and "st_observed_generation (src_status old) = om_generation (src_meta old)"
  shows "post_process en src old h = (src, h @ [Now])"
proof -
  have "list_all2 same_content cs cs" for cs
    by (rule list_all2_refl) (simp add: same_content_def)
  from groom_restores [OF assms(3) this] assms(1,2,4) show ?thesis
    by (simp add: post_process_def time_now_def ask_def Let_def)
qed

text \<open>The reconciler of a source whose hook is recorded records no event: only the addition of a hook does.\<close>

fun is_event :: "request \<Rightarrow> bool" where
  "is_event (RecordEvent _ _ _) = True"
| "is_event _ = False"

abbreviation no_event :: "history \<Rightarrow> history \<Rightarrow> bool" where
  "no_event \<equiv> extends (\<lambda>r. \<not> is_event r)"

lemma mark_no_event: "no_event h (snd s) \<Longrightarrow> ticks_only (snd s) h' \<Longrightarrow> no_event h h'"
  by (rule extends_mark) simp_all

lemma sync_webhook_no_event:
  assumes run: "sync_webhook en (gitlab_iface en) src u h = (r, (st, h'))" and id: "st_webhook_id (src_status src) = Some i"
  shows "no_event h h'"
proof -
  obtain q h1 where q: "get_webhook_client en src h = (q, h1)" by (metis surj_pair)
  have e1: "no_event h h1" using get_webhook_client_requests [of en src h] q by (auto simp: list_all_iff)
  have marked: "no_event h h'" if "no_event h h2" "mark_no_webhook en reason msg (src_status src, h2) = (st, h')" for reason msg h2
    using mark_no_event [of h "(src_status src, h2)" h'] that mark_ticks(1) [OF that(2)] by simp
  show ?thesis
  proof (cases q)
    case (Ok c)
    obtain g h2 where g: "wc_get en c i h1 = (g, h2)" by (metis surj_pair)
    have "h2 = h1 @ [GitLab (GlGetHook (wc_cli c) (wc_project c) i)]" using wc_history(1) [of en c i h1] g by simp
    then have e2: "no_event h h2" using e1 by (auto simp: extends_def)
    show ?thesis
    proof (cases g)
      case (Inl e)
      have "\<not> is_hook_not_found (Some e)" using g Inl hook_not_found_wrapped by blast
      with run q Ok id g Inl show ?thesis by (auto simp: sync_webhook_def Let_def intro: marked [OF e2])
    next
      case (Inr j)
      let ?opts = "edit_hook_options (wc_secret_token c) (spec_event_types (src_spec src)) u (spec_ssl_verify (src_spec src))"
      let ?h3 = "h2 @ [GitLab (GlEditHook (wc_cli c) (wc_project c) i ?opts)]"
      have e3: "no_event h ?h3" using e2 by (auto simp: extends_def)
      have up: "update_webhook en (gitlab_iface en) c src i u h2 = (r, (st, h'))"
        using run q Ok id g Inr by (simp add: sync_webhook_def)
      show ?thesis
      proof (cases "fst (wc_edit en c i (spec_event_types (src_spec src)) u (spec_ssl_verify (src_spec src)) h2)")
        case None
        then have "h' = ?h3" using up by (auto simp: update_webhook_def Let_def dest!: wc_history'(2) split: prod.splits)
        then show ?thesis using e3 by simp
      next
        case (Some e)
        then show ?thesis using up
          by (auto simp: update_webhook_def Let_def dest!: wc_history'(2) split: prod.splits intro: marked [OF e3])
      qed
    qed
  next
    case (Err e)
    with run q show ?thesis
      by (cases "is_secret_not_found (Some e)") (auto simp: sync_webhook_def Let_def intro: marked [OF e1])
  qed (use run q e1 in \<open>simp add: sync_webhook_def\<close>)
qed

lemma reconcile_kind_no_event:
  assumes run: "reconcile_kind en (gitlab_iface en) img src h = (Ok (), src', h')"
    and talked: "gitlab_calls h' \<noteq> gitlab_calls h" and id: "st_webhook_id (src_status src) = Some i"
  shows "no_event h h'"
  using run talked
proof (rule reconcile_kind_synced)
  fix uri src2 h2 ks u src3 h3 j st h4
  assume m: "sink_marked en uri src h = (src2, h2)" and d: "deployed_marked en img src2 h2 = (src3, h3)"
    and sync: "sync_webhook en (gitlab_iface en) src3 (Some u) h3 = (Ok j, (st, h4))" and t: "ticks_only h4 h'"
  have "no_event h h2" by (rule extends_mono [OF sink_marked_frame(5) [OF m]]) auto
  also have "no_event h2 (snd (reconcile_adapter en img src2 h2))"
    using get_owned_service_history [of en src2 h2]
    by (auto simp: reconcile_adapter_def ask_def Let_def split: prod.splits sum.splits)
  also have "ticks_only (snd (reconcile_adapter en img src2 h2)) h3"
    using d by (auto simp: deployed_marked_def dest!: mark_ticks(5) split: prod.splits)
  then have "no_event (snd (reconcile_adapter en img src2 h2)) h3" by (rule extends_ticks) simp
  also have "no_event h3 h4"
    by (rule sync_webhook_no_event [OF sync, of i]) (use id sink_marked_frame(2) [OF m] deployed_marked_frame(4) [OF d] in simp)
  also have "no_event h4 h'" using t by (rule extends_ticks) simp
  finally show ?thesis .
qed

text \<open>The requests that change the source in the API server, or are seen by its user.\<close>

fun touches_source :: "request \<Rightarrow> bool" where
  "touches_source (PatchFinalizers _ _ _) = True"
| "touches_source (UpdateStatus _) = True"
| "touches_source r = is_event r"

lemma kind_touches: "kind_request r \<Longrightarrow> \<not> is_event r \<Longrightarrow> \<not> touches_source r"
  by (cases r) simp_all

text \<open>
  C15: a settled source (all conditions True, the sink's URI, the CloudEvent attributes and the hook in
  the status, the current generation observed, the finalizer stored) is a fixed point: a run in which
  the sink resolves as before and the reconciliation succeeds returns no error and makes no
  request beyond those of \<^verbatim>\<open>ReconcileKind\<close> and one reading of the clock. Among all its requests, those of
  \<^verbatim>\<open>ReconcileKind\<close> included, none patches the finalizers, writes the status or records an event.
\<close>

theorem steady_state_quiet:
  assumes key: "split_key key = Inr (ns, n)" and leads: "leader ns n"
    and lister: "e_lister_get en h ns n = Inr src" and live: "\<not> om_deleted (src_meta src)"
    and fin: "default_finalizer_name \<in> set (om_finalizers (src_meta src))"
    and steady: "settled_source src u" "st_webhook_id (src_status src) = Some i"
    and gen: "st_observed_generation (src_status src) = om_generation (src_meta src)"
    and sink: "sink_answer en src (h @ [ListerGet ns n]) = Inr (Some u)"
    and run: "reconcile_kind en (gitlab_iface en) img src (h @ [ListerGet ns n]) = (Ok (), src', h')"
    and talked: "gitlab_calls h' \<noteq> gitlab_calls h"
  shows "source_reconcile en leader img key h = (Ok (), h' @ [Now]) \<and>
    (\<exists>rs. h' @ [Now] = h @ rs \<and> (\<forall>r \<in> set rs. \<not> touches_source r))"
proof -
  have set: "settled source_cond_set (st_conditions (src_status src))"
    using steady by (simp add: settled_source_def)
  have talked': "gitlab_calls h' \<noteq> gitlab_calls (h @ [ListerGet ns n])" using talked by simp
  have same: "src_status src' = src_status src"
    by (rule reconcile_kind_settled [OF steady(1) sink steady(2) run talked'])
  have "distinct (map cond_type (st_conditions (src_status src)))"
    using set by (simp add: settled_def cond_wf_def)
  note post = post_process_same [OF same reconcile_kind_meta [OF run] this gen]
  have "set_finalizer_if_finalizer en (default_impl leader) (source_kind en img) src h0 = (Inr src, h0)" for h0
    using live fin by (simp add: set_finalizer_if_finalizer_def set_insert_def update_finalizers_same)
  then have "source_reconcile en leader img key h = (Ok (), h' @ [Now])"
    using key leads lister live run pre_process_settled [OF set gen] post same
    by (simp add: source_reconcile_def reconcile_def new_state_source is_not_leader_nor_observer_def
        ask_def reconcile_method_for_def run_reconcile_def finish_def sync_status_def
        event_of_result_def report_event_def)
  moreover obtain e where e: "h' = (h @ [ListerGet ns n]) @ e" "\<forall>r \<in> set e. \<not> is_event r"
    using reconcile_kind_no_event [OF run talked' steady(2)] by (auto simp: extends_def list_all_iff)
  moreover have "\<forall>r \<in> set e. kind_request r"
    using reconcile_kind_extends [OF run] e(1) by (auto simp: extends_def list_all_iff)
  ultimately show ?thesis by (auto simp: kind_touches)
qed

text \<open>The simulated source as the controller leaves it.\<close>

definition ready_source :: gitlab_source where
  "ready_source = (sim_source_id (Some 1))
     \<lparr>src_meta := sim_meta\<lparr>om_finalizers := [default_finalizer_name]\<rparr>,
      src_status := \<lparr>st_observed_generation = 1,
        st_conditions = map (\<lambda>t. mk_condition t CTrue SevError [] [])
          [Deployed, condition_ready, SinkProvided, WebhookConfigured],
        st_sink_uri = Some ''http://sink'',
        st_ce_attributes = create_cloud_event_attributes (as_event_source sim_source) (event_types sim_source),
        st_webhook_id = Some 1\<rparr>\<rparr>"

theorem steady_state_quiet_witness:
  "\<exists>rs. source_reconcile (serving ready_source) (\<lambda>_ _. True) ''img'' ''ns/src'' sim_history = (Ok (), sim_history @ rs) \<and>
     (\<forall>r \<in> set rs. \<not> touches_source r)"
proof -
  let ?en = "serving ready_source" and ?h = "sim_history @ [ListerGet ''ns'' ''src'']"
  let ?run = "reconcile_kind ?en (gitlab_iface ?en) ''img'' ready_source ?h"
  obtain r src' h' where run: "?run = (r, src', h')" by (metis surj_pair)
  have key: "split_key ''ns/src'' = Inr (''ns'', ''src'')"
    and ok: "fst ?run = Ok ()" "gitlab_calls (snd (snd ?run)) \<noteq> gitlab_calls sim_history"
    and sink: "sink_answer ?en ready_source ?h = Inr (Some ''http://sink'')"
    and steady: "settled_source ready_source ''http://sink''"
    by code_simp+
  have lister: "e_lister_get ?en sim_history ''ns'' ''src'' = Inr ready_source" by (simp add: serving_def)
  have src: "\<not> om_deleted (src_meta ready_source)"
    "default_finalizer_name \<in> set (om_finalizers (src_meta ready_source))"
    "st_webhook_id (src_status ready_source) = Some 1"
    "st_observed_generation (src_status ready_source) = om_generation (src_meta ready_source)"
    by (simp_all add: ready_source_def sim_meta_def)
  from steady_state_quiet [OF key _ lister src(1,2) steady src(3,4) sink, of "\<lambda>_ _. True" "''img''"] run ok
  show ?thesis by auto
qed

end
