(* ===== verification/WorkQueue.thy ===== *)
theory WorkQueue
  imports SourceController
begin

section \<open>The work queue of the controller\<close>

text \<open>
  What \<^verbatim>\<open>NewController\<close> connects: the informers' events become keys of the work queue
  (\<^verbatim>\<open>controller.HandleAll\<close>, \<^verbatim>\<open>FilterController\<close>, \<^verbatim>\<open>EnqueueControllerOf\<close>), and a key taken from the queue
  becomes a run of the reconciler, whose result decides whether the key comes back.
\<close>

type_synonym queue_key = "string \<times> string"

text \<open>
  The events of an informer. \<open>DeletedUnknown\<close> is a \<^verbatim>\<open>cache.DeletedFinalStateUnknown\<close>: the deletion was
  seen only by listing again, and \<^verbatim>\<open>Obj\<close> is the last known state.
\<close>

datatype 'a informer_event = Added 'a | Updated 'a 'a | Deleted 'a | DeletedUnknown string 'a

subsection \<open>From events to keys\<close>

definition parse_group_version :: "string \<Rightarrow> goerr + string \<times> string" where
  "parse_group_version gv =
     (if gv = [] \<or> gv = ''/'' then Inr ([], [])
      else case split_on CHR ''/'' gv of
             [v] \<Rightarrow> Inr ([], v)
           | [g, v] \<Rightarrow> Inr (g, v)
           | _ \<Rightarrow> Inl (ErrText (''unexpected GroupVersion string: '' @ gv)))"

definition filter_controller_gk :: "string \<times> string \<Rightarrow> object_meta \<Rightarrow> bool" where
  "filter_controller_gk gk m =
     (case controller_ref m of
        None \<Rightarrow> False
      | Some owner \<Rightarrow>
          (case parse_group_version (or_api_version owner) of
             Inl _ \<Rightarrow> False
           | Inr (g, _) \<Rightarrow> g = fst gk \<and> or_kind owner = snd gk))"

definition source_gk :: "string \<times> string" where
  "source_gk = (fst source_gvk, snd (snd source_gvk))"

text \<open>A tombstone is not a \<^verbatim>\<open>metav1.Object\<close>, so the filter refuses it.\<close>

fun filter_event :: "('a \<Rightarrow> bool) \<Rightarrow> 'a informer_event \<Rightarrow> 'a informer_event option" where
  "filter_event f (Added x) = (if f x then Some (Added x) else None)"
| "filter_event f (Updated old new) =
     (if f new \<and> f old then Some (Updated old new)
      else if f new then Some (Added new)
      else if f old then Some (Deleted old)
      else None)"
| "filter_event f (Deleted x) = (if f x then Some (Deleted x) else None)"
| "filter_event f (DeletedUnknown k x) = None"

text \<open>\<^verbatim>\<open>HandleAll\<close> and \<^verbatim>\<open>DeletionHandlingAccessor\<close>: the object an event is handled with.\<close>

fun handled_object :: "'a informer_event \<Rightarrow> 'a" where
  "handled_object (Added x) = x"
| "handled_object (Updated old new) = new"
| "handled_object (Deleted x) = x"
| "handled_object (DeletedUnknown k x) = x"

definition enqueue :: "object_meta \<Rightarrow> queue_key list" where
  "enqueue m = [(om_namespace m, om_name m)]"

definition enqueue_controller_of :: "object_meta \<Rightarrow> queue_key list" where
  "enqueue_controller_of m =
     (case controller_ref m of None \<Rightarrow> [] | Some owner \<Rightarrow> [(om_namespace m, or_name owner)])"

definition on_source_event :: "gitlab_source informer_event \<Rightarrow> queue_key list" where
  "on_source_event ev = enqueue (src_meta (handled_object ev))"

definition on_service_event :: "kservice informer_event \<Rightarrow> queue_key list" where
  "on_service_event ev =
     (case filter_event (\<lambda>ks. filter_controller_gk source_gk (ks_meta ks)) ev of
        None \<Rightarrow> []
      | Some ev' \<Rightarrow> enqueue_controller_of (ks_meta (handled_object ev')))"

subsection \<open>From keys to runs\<close>

definition safe_key :: "queue_key \<Rightarrow> string" where
  "safe_key k = (if fst k = [] then snd k else fst k @ ''/'' @ snd k)"

text \<open>
  What becomes of a key after a run; a panic of the reconciler ends the process. The program makes
  neither requeue-key errors nor permanent errors, so these branches of \<^verbatim>\<open>handleErr\<close> are not here.
\<close>

datatype outcome = Forget | AddRateLimited | Crashed string

definition handle_err :: "bool \<Rightarrow> goerr \<Rightarrow> outcome" where
  "handle_err shutting_down e =
     (if is_skip_key e \<or> shutting_down then Forget
      else if is_conflict (Some e) then AddRateLimited
      else AddRateLimited)"

definition process_item ::
  "env \<Rightarrow> (string \<Rightarrow> string \<Rightarrow> bool) \<Rightarrow> string \<Rightarrow> bool \<Rightarrow> queue_key \<Rightarrow> history \<Rightarrow> outcome \<times> history" where
  "process_item en leader img shutting_down k h =
     (case source_reconcile en leader img (safe_key k) h of
        (Ok _, h') \<Rightarrow> (Forget, h')
      | (Err e, h') \<Rightarrow> (handle_err shutting_down e, h')
      | (Panic m, h') \<Rightarrow> (Crashed m, h'))"

subsection \<open>Keys: facts\<close>

text \<open>
  A key survives the queue: for a namespace and a name without a slash, splitting the text of the
  key gives them back; and a key that splits into a namespace and a name is their text, a leading slash
  apart, with no slash in either.
\<close>

theorem key_roundtrip:
  "(CHR ''/'' \<notin> set ns \<and> CHR ''/'' \<notin> set n \<longrightarrow> split_key (safe_key (ns, n)) = Inr (ns, n)) \<and>
   (split_key key = Inr (ns, n) \<longrightarrow>
      CHR ''/'' \<notin> set ns \<and> CHR ''/'' \<notin> set n \<and>
      (key = safe_key (ns, n) \<or> (ns = [] \<and> key = CHR ''/'' # n)))"
proof (intro conjI impI)
  assume "CHR ''/'' \<notin> set ns \<and> CHR ''/'' \<notin> set n"
  then show "split_key (safe_key (ns, n)) = Inr (ns, n)"
    by (auto simp: split_key_def safe_key_def)
next
  assume split: "split_key key = Inr (ns, n)"
  then consider "ns = []" "split_on CHR ''/'' key = [n]" | "split_on CHR ''/'' key = [ns, n]"
    by (auto simp: split_key_def split: list.splits)
  then have "CHR ''/'' \<notin> set ns \<and> CHR ''/'' \<notin> set n \<and>
      (key = safe_key (ns, n) \<or> (ns = [] \<and> key = CHR ''/'' # n))"
  proof cases
    case 1
    have "CHR ''/'' \<notin> set n" using split_on_parts [of n "CHR ''/''" key] 1(2) by simp
    then show ?thesis using 1(1) split_on_one [OF 1(2)] by (simp add: safe_key_def)
  next
    case 2
    have "CHR ''/'' \<notin> set ns" "CHR ''/'' \<notin> set n"
      using split_on_parts [of _ "CHR ''/''" key] 2 by simp_all
    then show ?thesis using split_on_two [OF 2] by (simp add: safe_key_def)
  qed
  then show "CHR ''/'' \<notin> set ns" "CHR ''/'' \<notin> set n"
    "key = safe_key (ns, n) \<or> (ns = [] \<and> key = CHR ''/'' # n)" by blast+
qed

theorem key_roundtrip_witness: "split_key (safe_key (''ns'', ''src'')) = Inr (''ns'', ''src'')"
  using key_roundtrip [of "''ns''" "''src''" "[]"] by simp

text \<open>
  Every event about a receive adapter's service, identified by the owner reference and the namespace
  it was created with, puts exactly the key of its source on the queue, except a deletion that was
  missed: a tombstone wakes nobody.
\<close>

theorem adapter_event_wakes_source:
  assumes "om_owner_references (ks_meta ks) = om_owner_references (ks_meta (generate_kservice en src img))"
    and "om_namespace (ks_meta ks) = om_namespace (ks_meta (generate_kservice en src img))"
    and "ev \<in> {Added ks, Deleted ks} \<union> range (\<lambda>old. Updated old ks)"
  shows "on_service_event ev = [(om_namespace (src_meta src), om_name (src_meta src))] \<and>
    on_service_event (DeletedUnknown k ks) = []"
proof -
  have "split_on CHR ''/'' (''sources.knative.dev/v1alpha1'') = [''sources.knative.dev'', ''v1alpha1'']"
    by code_simp
  then have "filter_controller_gk source_gk (ks_meta ks)"
    and "controller_ref (ks_meta ks) = Some (new_controller_ref src)"
    and "om_namespace (ks_meta ks) = om_namespace (src_meta src)"
    using assms(1,2)
    by (simp_all add: filter_controller_gk_def controller_ref_def generate_kservice_def
        new_controller_ref_def parse_group_version_def source_gk_def source_gvk_def
        source_group_version_def)
  then show ?thesis
    using assms(3)
    by (auto simp: on_service_event_def enqueue_controller_of_def new_controller_ref_def)
qed

theorem adapter_event_wakes_source_witness:
  "on_service_event (Deleted (generate_kservice sim_env sim_source ''img'')) = [(''ns'', ''src'')]"
  using adapter_event_wakes_source [of "generate_kservice sim_env sim_source ''img''" sim_env sim_source
      "''img''" "Deleted (generate_kservice sim_env sim_source ''img'')" "[]"]
  by (simp add: sim_source_def sim_meta_def)

subsection \<open>Retries\<close>

text \<open>
  The errors of \<^verbatim>\<open>ReconcileKind\<close> that are bare events, which the generated reconciler takes for a
  reconciliation that is over.
\<close>

lemma sync_webhook_bare:
  assumes "sync_webhook en (gitlab_iface en) src u h = (Err e, s)" and "sel_event e \<noteq> None"
  shows "\<exists>e' h1. get_webhook_client en src h = (Err e', h1) \<and> is_not_found (Some e') \<and>
    e = EventErr ''Warning'' ''AuthError'' (''Error obtaining credentials for GitLab API: '' @ err_text e')"
proof -
  obtain q h1 where q: "get_webhook_client en src h = (q, h1)" by (metis surj_pair)
  have create: "create_webhook en W c src u h2 = (Err e, s) \<Longrightarrow> False" for W :: "webhook_client webhook_iface" and c h2
    using assms(2) by (auto simp: create_webhook_def Let_def split: prod.splits sum.splits)
  have update: "update_webhook en W c src i u h2 = (Err e, s) \<Longrightarrow> False"
    for W :: "webhook_client webhook_iface" and c i h2
    using assms(2) by (auto simp: update_webhook_def Let_def split: prod.splits option.splits)
  show ?thesis
  proof (cases q)
    case (Ok c)
    with assms q create update show ?thesis
      by (auto simp: sync_webhook_def Let_def split: option.splits prod.splits sum.splits if_splits)
  next
    case (Err e')
    with assms q show ?thesis
      by (auto simp: sync_webhook_def Let_def is_secret_not_found_def new_event_def split: if_splits)
  qed (use assms q in \<open>simp add: sync_webhook_def\<close>)
qed

lemma reconcile_kind_bare:
  assumes run: "reconcile_kind en (gitlab_iface en) img src h = (Err e, src', h')"
    and bare: "sel_event e \<noteq> None"
  shows "(\<exists>e'. sink_answer en src h = Inl e') \<or>
    (\<exists>src1 h1 e' h2. src_spec src1 = src_spec (default_sink_namespace src) \<and> src_meta src1 = src_meta src \<and>
       get_webhook_client en src1 h1 = (Err e', h2) \<and> is_not_found (Some e'))"
proof (cases "sink_answer en src h")
  case (Inr uri)
  obtain src2 h2 where m: "sink_marked en uri src h = (src2, h2)" by (metis surj_pair)
  obtain q h3 where q: "reconcile_adapter en img src2 h2 = (q, h3)" by (metis surj_pair)
  obtain src3 h4 where d: "deployed_marked en img src2 h2 = (src3, h4)" by (metis surj_pair)
  have dep: "reconcile_deployment en (gitlab_iface en) img src2 h2 = (Err e, src', h')"
    using run reconcile_kind_sink_ok [OF Inr m] by metis
  then obtain ks where ks: "q = Inr ks" "kservice_ready ks"
    using q bare by (cases q) (auto simp: reconcile_deployment_def split: if_splits prod.splits)
  have "reconcile_webhook en (gitlab_iface en) src3 (ks_url ks) h4 = (Err e, src', h')"
    using dep q ks d by (auto simp: reconcile_deployment_def deployed_marked_def split: prod.splits)
  then obtain s where "sync_webhook en (gitlab_iface en) src3 (ks_url ks) h4 = (Err e, s)"
    by (auto simp: reconcile_webhook_def split: if_splits result.splits prod.splits)
  from sync_webhook_bare [OF this bare] obtain e' h1
    where "get_webhook_client en src3 h4 = (Err e', h1)" "is_not_found (Some e')" by blast
  moreover have "src_spec src3 = src_spec (default_sink_namespace src)" "src_meta src3 = src_meta src"
    using deployed_marked_frame(2,3) [OF d] sink_marked_frame(3,4) [OF m]
    by (simp_all add: default_sink_namespace_def with_ce_attributes_def split: option.split)
  ultimately show ?thesis by blast
qed blast

text \<open>
  C30: when a reconciliation of a live source fails and its status is written, the key comes back to the
  queue unless the failure is a bare event. Only an unresolvable sink and credentials that
  do not exist are reported that way; every other failure (of the adapter's service, of GitLab, of
  building the client) is retried.
\<close>

theorem failed_reconciliation_requeued:
  assumes key: "CHR ''/'' \<notin> set ns" "CHR ''/'' \<notin> set n" and leads: "leader ns n"
    and lister: "e_lister_get en h ns n = Inr original" "\<not> om_deleted (src_meta original)"
    and fin: "default_finalizer_name \<in> set (om_finalizers (src_meta original))"
    and pre: "pre_process en original (h @ [ListerGet ns n]) = (src1, h1)"
    and run: "reconcile_kind en (gitlab_iface en) img src1 h1 = (Err e, src2, h2)"
    and skip: "\<not> is_skip_key e"
    and done_status: "sync_status en (default_impl leader)
      \<lparr>rs_key = safe_key (ns, n), rs_namespace = ns, rs_name = n, rs_is_observer = False, rs_is_leader = True\<rparr>
      original (fst (post_process en src2 original h2)) (snd (post_process en src2 original h2)) = (None, h3)"
  shows "fst (process_item en leader img False (ns, n) h) =
      (if sel_event e \<noteq> None then Forget else AddRateLimited) \<and>
    (sel_event e \<noteq> None \<longrightarrow>
      (\<exists>e'. sink_answer en src1 h1 = Inl e') \<or>
      (\<exists>src3 h4 e' h5. src_spec src3 = src_spec (default_sink_namespace src1) \<and>
         src_meta src3 = src_meta src1 \<and>
         get_webhook_client en src3 h4 = (Err e', h5) \<and> is_not_found (Some e')))"
proof -
  have split: "split_key (safe_key (ns, n)) = Inr (ns, n)"
    using key by (auto simp: split_key_def safe_key_def)
  have same: "set_finalizer_if_finalizer en (default_impl leader) (source_kind en img) original h0 = (Inr original, h0)" for h0
    using lister(2) fin by (simp add: set_finalizer_if_finalizer_def set_insert_def update_finalizers_same)
  obtain src3 h4 where post: "post_process en src2 original h2 = (src3, h4)" by (metis surj_pair)
  have rep: "fst (report_event (Some e) h3) = (if sel_event e \<noteq> None then Ok () else Err e)"
  proof (cases "errors_as sel_event e")
    case None
    then have "sel_event e = None" using errors_as_hit [of sel_event e] by (cases "sel_event e") auto
    with None show ?thesis by (simp add: report_event_def)
  next
    case (Some p)
    then show ?thesis by (cases p) (auto simp: report_event_def)
  qed
  have "fst (source_reconcile en leader img (safe_key (ns, n)) h) = (if sel_event e \<noteq> None then Ok () else Err e)"
    using split leads lister same pre run post done_status rep
    by (simp add: source_reconcile_def reconcile_def new_state_source is_not_leader_nor_observer_def
        ask_def reconcile_method_for_def run_reconcile_def finish_def event_of_result_def)
  then have "fst (process_item en leader img False (ns, n) h) =
      (if sel_event e \<noteq> None then Forget else AddRateLimited)"
    using skip by (auto simp: process_item_def handle_err_def split: prod.splits if_splits)
  with reconcile_kind_bare [OF run] show ?thesis by blast
qed

definition sinkless_source :: gitlab_source where
  "sinkless_source = sim_source
     \<lparr>src_meta := sim_meta\<lparr>om_finalizers := [default_finalizer_name]\<rparr>,
      src_spec := sim_spec\<lparr>spec_sink := \<lparr>dest_ref = None, dest_uri = None\<rparr>\<rparr>\<rparr>"

theorem failed_reconciliation_requeued_witness:
  "fst (process_item (serving sinkless_source) (\<lambda>_ _. True) ''img'' False (''ns'', ''src'') []) = Forget"
proof -
  let ?en = "serving sinkless_source" and ?h = "[] @ [ListerGet ''ns'' ''src'']"
  let ?s = "\<lparr>rs_key = safe_key (''ns'', ''src''), rs_namespace = ''ns'', rs_name = ''src'',
      rs_is_observer = False, rs_is_leader = True\<rparr>"
  let ?pre = "pre_process ?en sinkless_source ?h"
  let ?run = "reconcile_kind ?en (gitlab_iface ?en) ''img'' (fst ?pre) (snd ?pre)"
  let ?post = "post_process ?en (fst (snd ?run)) sinkless_source (snd (snd ?run))"
  have err: "case fst ?run of Err e \<Rightarrow> sel_event e \<noteq> None \<and> \<not> is_skip_key e | _ \<Rightarrow> False"
    and written: "fst (sync_status ?en (default_impl (\<lambda>_ _. True)) ?s sinkless_source (fst ?post) (snd ?post)) = None"
    by code_simp+
  obtain e where e: "fst ?run = Err e" "sel_event e \<noteq> None" "\<not> is_skip_key e"
    using err by (cases "fst ?run") auto
  have pre: "?pre = (fst ?pre, snd ?pre)" by simp
  have run: "?run = (Err e, fst (snd ?run), snd (snd ?run))" using e(1) by (simp add: prod_eq_iff)
  have sync: "sync_status ?en (default_impl (\<lambda>_ _. True)) ?s sinkless_source (fst ?post) (snd ?post) =
      (None, snd (sync_status ?en (default_impl (\<lambda>_ _. True)) ?s sinkless_source (fst ?post) (snd ?post)))"
    using written by (simp only: prod_eq_iff fst_conv snd_conv simp_thms)
  have lister: "e_lister_get ?en [] ''ns'' ''src'' = Inr sinkless_source" by (simp add: serving_def)
  have src: "\<not> om_deleted (src_meta sinkless_source)"
    "default_finalizer_name \<in> set (om_finalizers (src_meta sinkless_source))"
    by (simp_all add: sinkless_source_def sim_meta_def)
  show ?thesis
    using failed_reconciliation_requeued [OF _ _ _ lister src pre run e(3) sync] e(2) by simp
qed

end
