(* ===== verification/Transitions.thy ===== *)
theory Transitions
  imports Prelude
begin

section \<open>Transition systems\<close>

text \<open>
  States reached from an initial one by labelled steps, and the contract of an invariant: it holds
  initially and every step keeps it. The components whose behaviour is an interleaving (the
  adapter's server, the services of the sources, the life of a source) are instances.
\<close>

inductive reachable :: "('s \<Rightarrow> 'e \<Rightarrow> 's \<Rightarrow> bool) \<Rightarrow> 's \<Rightarrow> 's \<Rightarrow> bool" for step init where
  start: "reachable step init init"
| advance: "reachable step init s \<Longrightarrow> step s e s' \<Longrightarrow> reachable step init s'"

lemma reachable_trans: "reachable step b c \<Longrightarrow> reachable step a b \<Longrightarrow> reachable step a c"
  by (induction rule: reachable.induct) (auto intro: reachable.intros)

lemma reachable_step: "step a e b \<Longrightarrow> reachable step a b"
  by (rule reachable.advance [OF reachable.start])

lemma reachable_mono:
  assumes "\<And>s e s'. step s e s' \<Longrightarrow> step' s e s'" and "reachable step a b"
  shows "reachable step' a b"
  using assms(2) by (induction rule: reachable.induct) (blast intro: reachable.intros assms(1))+

locale step_closed =
  fixes step :: "'s \<Rightarrow> 'e \<Rightarrow> 's \<Rightarrow> bool"
    and inv :: "'s \<Rightarrow> bool"
  assumes preserved: "inv s \<Longrightarrow> step s e s' \<Longrightarrow> inv s'"
begin

lemma stays_inv: "reachable step s s' \<Longrightarrow> inv s \<Longrightarrow> inv s'"
  by (induction rule: reachable.induct) (auto intro: preserved)

end

locale invariant_system = step_closed +
  fixes init :: 'a
  assumes initial: "inv init"
begin

lemma reachable_inv: "reachable step init s \<Longrightarrow> inv s"
  by (rule stays_inv [OF _ initial])

end

text \<open>
  A goal that some step always brings closer, by a measure, is reached.
\<close>

locale progress_system = step_closed +
  fixes goal :: "'a \<Rightarrow> bool" and rank :: "'a \<Rightarrow> nat"
  assumes progress: "inv s \<Longrightarrow> \<not> goal s \<Longrightarrow> \<exists>e s'. step s e s' \<and> rank s' < rank s"
begin

lemma goal_reached: "inv s \<Longrightarrow> \<exists>s'. reachable step s s' \<and> goal s'"
proof (induction "rank s" arbitrary: s rule: less_induct)
  case less
  show ?case
  proof (cases "goal s")
    case True
    then show ?thesis by (blast intro: reachable.start)
  next
    case False
    with less.prems progress obtain e s' where s': "step s e s'" "rank s' < rank s" by blast
    with less.hyps [OF s'(2)] preserved [OF less.prems s'(1)] obtain s''
      where "reachable step s' s''" "goal s''" by blast
    with reachable_trans reachable_step [of step, OF s'(1)] show ?thesis by metis
  qed
qed

end

end
