(* ===== verification/KeyQueue.thy ===== *)
theory KeyQueue
  imports WorkQueue Transitions "HOL-Library.AList"
begin

section \<open>The queue between the events and the workers\<close>

text \<open>
  The work queue of a controller, with every goroutine that touches it: client-go's
  \<^verbatim>\<open>util/workqueue/queue.go\<close> and \<^verbatim>\<open>delaying_queue.go\<close>, knative's \<^verbatim>\<open>controller/two_lane_queue.go\<close>, which joins a fast
  and a slow lane, and the workers that \<^verbatim>\<open>RunContext\<close> of \<^verbatim>\<open>controller/controller.go\<close> starts. Keys are of any type
  \<open>'k\<close>; the controllers use \<open>queue_key\<close>. The delays are arbitrary. Metrics are not modelled, nor is \<^verbatim>\<open>ShutDownWithDrain\<close>, which nothing calls.
\<close>

subsection \<open>One lane\<close>

record 'k lane =
  ln_queue :: "'k list"
  ln_dirty :: "'k set"
  ln_processing :: "'k set"
  ln_shutting_down :: bool

definition new_lane :: "'k lane" where
  "new_lane = \<lparr>ln_queue = [], ln_dirty = {}, ln_processing = {}, ln_shutting_down = False\<rparr>"

definition lane_add :: "'k \<Rightarrow> 'k lane \<Rightarrow> 'k lane" where
  "lane_add k q =
     (if ln_shutting_down q then q
      else if k \<in> ln_dirty q then q
      else (let q' = q\<lparr>ln_dirty := insert k (ln_dirty q)\<rparr>
            in if k \<in> ln_processing q then q' else q'\<lparr>ln_queue := ln_queue q @ [k]\<rparr>))"

datatype 'k got = GotItem 'k | GotShutdown

text \<open>\<^verbatim>\<open>Get\<close> blocks where this is \<open>None\<close>.\<close>

definition lane_get :: "'k lane \<Rightarrow> ('k got \<times> 'k lane) option" where
  "lane_get q =
     (case ln_queue q of
        [] \<Rightarrow> if ln_shutting_down q then Some (GotShutdown, q) else None
      | k # ks \<Rightarrow> Some (GotItem k, q\<lparr>ln_queue := ks, ln_processing := insert k (ln_processing q),
          ln_dirty := ln_dirty q - {k}\<rparr>))"

definition lane_done :: "'k \<Rightarrow> 'k lane \<Rightarrow> 'k lane" where
  "lane_done k q =
     (let q' = q\<lparr>ln_processing := ln_processing q - {k}\<rparr>
      in if k \<in> ln_dirty q then q'\<lparr>ln_queue := ln_queue q @ [k]\<rparr> else q')"

definition lane_shut_down :: "'k lane \<Rightarrow> 'k lane" where
  "lane_shut_down q = q\<lparr>ln_shutting_down := True\<rparr>"

subsection \<open>Two lanes, the delays and the workers\<close>

text \<open>
  The goroutine \<^verbatim>\<open>process\<close> of a lane: it waits for an item, holds it until \<^verbatim>\<open>Done\<close>, then offers it on an unbuffered
  channel, which it closes at the end. The goroutine \<^verbatim>\<open>runConsumer\<close>: it looks at the fast lane only, then at
  both, then adds what it received to the joint lane.
\<close>

datatype 'k producer = Fetching | Holding 'k | Offering 'k | Closed

datatype 'k consumer = Polling | Selecting | Merging 'k | Stopped

datatype lane_name = Fast | Slow

record 'k controller_queue =
  cq_lane :: "lane_name \<Rightarrow> 'k lane"
  cq_producer :: "lane_name \<Rightarrow> 'k producer"
  cq_open :: "lane_name \<Rightarrow> bool"
  cq_consumer :: "'k consumer"
  cq_joint :: "'k lane"
  cq_arriving :: "('k \<times> int) list" \<comment> \<open>the channel of \<^verbatim>\<open>AddAfter\<close>, with the instants\<close>
  cq_waiting :: "('k \<times> int) list" \<comment> \<open>the heap of the waiting loop, one entry for a key\<close>
  cq_workers :: "('k \<times> bool) list" \<comment> \<open>the keys of the workers, and whether their outcome has been handled\<close>
  cq_threads :: nat \<comment> \<open>workers that have not returned\<close>

definition new_controller_queue :: "nat \<Rightarrow> 'k controller_queue" where
  "new_controller_queue n =
     \<lparr>cq_lane = (\<lambda>_. new_lane), cq_producer = (\<lambda>_. Fetching), cq_open = (\<lambda>_. True), cq_consumer = Polling,
      cq_joint = new_lane, cq_arriving = [], cq_waiting = [], cq_workers = [], cq_threads = n\<rparr>"

definition on_lane :: "('k lane \<Rightarrow> 'k lane) \<Rightarrow> lane_name \<Rightarrow> 'k controller_queue \<Rightarrow> 'k controller_queue" where
  "on_lane f l s = s\<lparr>cq_lane := (cq_lane s)(l := f (cq_lane s l))\<rparr>"

definition set_producer :: "lane_name \<Rightarrow> 'k producer \<Rightarrow> 'k controller_queue \<Rightarrow> 'k controller_queue" where
  "set_producer l p s = s\<lparr>cq_producer := (cq_producer s)(l := p)\<rparr>"

definition queue_shutting_down :: "'k controller_queue \<Rightarrow> bool" where
  "queue_shutting_down s \<longleftrightarrow> ln_shutting_down (cq_lane s Fast) \<or> ln_shutting_down (cq_lane s Slow)"

definition add_after :: "'k \<Rightarrow> int \<Rightarrow> int \<Rightarrow> 'k controller_queue \<Rightarrow> 'k controller_queue" where
  "add_after k delay now s =
     (if queue_shutting_down s then s
      else if delay \<le> 0 then on_lane (lane_add k) Fast s
      else s\<lparr>cq_arriving := cq_arriving s @ [(k, now + delay)]\<rparr>)"

text \<open>\<^verbatim>\<open>insert\<close>: an entry that exists is only moved forward.\<close>

definition wait_insert :: "'k \<Rightarrow> int \<Rightarrow> ('k \<times> int) list \<Rightarrow> ('k \<times> int) list" where
  "wait_insert k t w =
     (case map_of w k of
        Some t' \<Rightarrow> (if t' > t then AList.update k t w else w)
      | None \<Rightarrow> w @ [(k, t)])"

text \<open>What an outcome of a run does to the queue before \<^verbatim>\<open>Done\<close>.\<close>

definition handle_outcome :: "outcome \<Rightarrow> 'k \<Rightarrow> int \<Rightarrow> int \<Rightarrow> 'k controller_queue \<Rightarrow> 'k controller_queue" where
  "handle_outcome oc k delay now s = (case oc of AddRateLimited \<Rightarrow> add_after k delay now s | _ \<Rightarrow> s)"

definition ready_producer :: "'k producer \<Rightarrow> bool" where
  "ready_producer p \<longleftrightarrow> (case p of Offering _ \<Rightarrow> True | Closed \<Rightarrow> True | _ \<Rightarrow> False)"

datatype 'k queue_event =
    Enqueue lane_name 'k
  | Fetch lane_name 'k
  | FetchDone lane_name 'k
  | CloseLane lane_name
  | PassPoll
  | Receive lane_name 'k
  | NoticeClosed lane_name
  | Merge 'k
  | StopJoint
  | Take 'k
  | Handle 'k outcome
  | Release 'k
  | Quit
  | Arrive 'k
  | Expire 'k
  | ShutLane lane_name

text \<open>
  The steps of all goroutines. \<^verbatim>\<open>runConsumer\<close> takes from the slow lane only in its second \<^verbatim>\<open>select\<close>, which it reaches when
  the fast lane had nothing to receive or is closed. \<^verbatim>\<open>ShutDown\<close> shuts the fast lane first; a key whose delay
  ends, or that is added, after that is dropped. \<^verbatim>\<open>AddAfter\<close> blocks on a full channel, which holds 1000 keys. A run that
  panics ends the process and has no step.
\<close>

inductive queue_step :: "'k controller_queue \<Rightarrow> 'k queue_event \<Rightarrow> 'k controller_queue \<Rightarrow> bool" where
  enqueue: "queue_step s (Enqueue l k) (on_lane (lane_add k) l s)"
| fetch: "cq_producer s l = Fetching \<Longrightarrow> lane_get (cq_lane s l) = Some (GotItem k, q) \<Longrightarrow>
    queue_step s (Fetch l k) (set_producer l (Holding k) (on_lane (\<lambda>_. q) l s))"
| fetched: "cq_producer s l = Holding k \<Longrightarrow>
    queue_step s (FetchDone l k) (set_producer l (Offering k) (on_lane (lane_done k) l s))"
| close: "cq_producer s l = Fetching \<Longrightarrow> lane_get (cq_lane s l) = Some (GotShutdown, q) \<Longrightarrow>
    queue_step s (CloseLane l) (set_producer l Closed s)"
| pass: "cq_consumer s = Polling \<Longrightarrow> cq_open s Fast \<or> cq_open s Slow \<Longrightarrow>
    \<not> (cq_open s Fast \<and> ready_producer (cq_producer s Fast)) \<Longrightarrow>
    queue_step s PassPoll (s\<lparr>cq_consumer := Selecting\<rparr>)"
| receive: "cq_consumer s = Selecting \<or> cq_consumer s = Polling \<and> l = Fast \<and> cq_open s Fast \<Longrightarrow>
    cq_producer s l = Offering k \<Longrightarrow>
    queue_step s (Receive l k) (set_producer l Fetching (s\<lparr>cq_consumer := Merging k\<rparr>))"
| notice: "cq_consumer s = Selecting \<or> cq_consumer s = Polling \<and> l = Fast \<and> cq_open s Fast \<Longrightarrow>
    cq_producer s l = Closed \<Longrightarrow>
    queue_step s (NoticeClosed l) (s\<lparr>cq_open := (cq_open s)(l := False), cq_consumer := Polling\<rparr>)"
| merge: "cq_consumer s = Merging k \<Longrightarrow>
    queue_step s (Merge k) (s\<lparr>cq_joint := lane_add k (cq_joint s), cq_consumer := Polling\<rparr>)"
| stop: "cq_consumer s = Polling \<Longrightarrow> \<not> cq_open s Fast \<Longrightarrow> \<not> cq_open s Slow \<Longrightarrow>
    queue_step s StopJoint (s\<lparr>cq_joint := lane_shut_down (cq_joint s), cq_consumer := Stopped\<rparr>)"
| take: "length (cq_workers s) < cq_threads s \<Longrightarrow> lane_get (cq_joint s) = Some (GotItem k, q) \<Longrightarrow>
    queue_step s (Take k) (s\<lparr>cq_joint := q, cq_workers := cq_workers s @ [(k, False)]\<rparr>)"
| handle: "(k, False) \<in> set (cq_workers s) \<Longrightarrow> oc \<in> {Forget, AddRateLimited} \<Longrightarrow>
    (oc = AddRateLimited \<Longrightarrow> queue_shutting_down s \<or> length (cq_arriving s) < 1000) \<Longrightarrow>
    queue_step s (Handle k oc) ((handle_outcome oc k delay now s)
      \<lparr>cq_workers := map (\<lambda>w. if w = (k, False) then (k, True) else w) (cq_workers s)\<rparr>)"
| release: "(k, True) \<in> set (cq_workers s) \<Longrightarrow>
    queue_step s (Release k) (s\<lparr>cq_joint := lane_done k (cq_joint s),
      cq_workers := filter (\<lambda>w. fst w \<noteq> k) (cq_workers s)\<rparr>)"
| quit: "length (cq_workers s) < cq_threads s \<Longrightarrow> lane_get (cq_joint s) = Some (GotShutdown, q) \<Longrightarrow>
    queue_step s Quit (s\<lparr>cq_threads := cq_threads s - 1\<rparr>)"
| arrive: "cq_arriving s = (k, t) # rest \<Longrightarrow> \<not> queue_shutting_down s \<Longrightarrow>
    queue_step s (Arrive k) ((if t > now then s\<lparr>cq_waiting := wait_insert k t (cq_waiting s)\<rparr>
      else on_lane (lane_add k) Fast s)\<lparr>cq_arriving := rest\<rparr>)"
| expire: "(k, t) \<in> set (cq_waiting s) \<Longrightarrow> \<forall>(_, t') \<in> set (cq_waiting s). t \<le> t' \<Longrightarrow> \<not> queue_shutting_down s \<Longrightarrow>
    queue_step s (Expire k) ((on_lane (lane_add k) Fast s)\<lparr>cq_waiting := AList.delete k (cq_waiting s)\<rparr>)"
| shut: "l = Fast \<or> ln_shutting_down (cq_lane s Fast) \<Longrightarrow>
    queue_step s (ShutLane l) (on_lane lane_shut_down l s)"

inductive_cases queue_stepE: "queue_step s e s'"

inductive_simps enqueue_step_iff: "queue_step s (Enqueue l k) s'"

subsection \<open>Facts on a lane\<close>

text \<open>The comment on \<^verbatim>\<open>Typed\<close>: the queue holds, once each, the dirty keys that are not being processed.\<close>

definition lane_wf :: "'k lane \<Rightarrow> bool" where
  "lane_wf q \<longleftrightarrow> distinct (ln_queue q) \<and> set (ln_queue q) = ln_dirty q - ln_processing q"

lemma lane_wf_new [simp]: "lane_wf new_lane"
  by (simp add: lane_wf_def new_lane_def)

lemma lane_wf_add [simp]: "lane_wf q \<Longrightarrow> lane_wf (lane_add k q)"
  by (auto simp: lane_wf_def lane_add_def Let_def)

lemma lane_add_simps [simp]:
  "ln_processing (lane_add k q) = ln_processing q" "ln_shutting_down (lane_add k q) = ln_shutting_down q"
  "ln_dirty (lane_add k q) = (if ln_shutting_down q then ln_dirty q else insert k (ln_dirty q))"
  by (auto simp: lane_add_def Let_def)

lemma lane_add_shut [simp]: "ln_shutting_down q \<Longrightarrow> lane_add k q = q"
  by (simp add: lane_add_def)

lemma lane_wf_shut_down [simp]: "lane_wf (lane_shut_down q) = lane_wf q"
  by (simp add: lane_wf_def lane_shut_down_def)

lemma lane_shut_down_simps [simp]:
  "ln_processing (lane_shut_down q) = ln_processing q" "ln_dirty (lane_shut_down q) = ln_dirty q"
  "ln_queue (lane_shut_down q) = ln_queue q" "ln_shutting_down (lane_shut_down q)"
  by (simp_all add: lane_shut_down_def)

lemma lane_get_item:
  assumes "lane_get q = Some (GotItem k, q')"
  shows "lane_wf q \<Longrightarrow> lane_wf q'" "ln_processing q' = insert k (ln_processing q)" "ln_dirty q' = ln_dirty q - {k}"
    "ln_shutting_down q' = ln_shutting_down q" "lane_wf q \<Longrightarrow> k \<notin> ln_processing q"
    "lane_wf q \<Longrightarrow> k \<in> ln_dirty q" "ln_queue q = k # ln_queue q'"
  using assms by (auto simp: lane_get_def lane_wf_def split: list.splits if_splits)

lemma lane_get_shutdown:
  "lane_get q = Some (GotShutdown, q') \<longleftrightarrow> ln_queue q = [] \<and> ln_shutting_down q \<and> q' = q"
  by (auto simp: lane_get_def split: list.splits)

lemma lane_get_some: "ln_queue q \<noteq> [] \<Longrightarrow> \<exists>k q'. lane_get q = Some (GotItem k, q')"
  by (cases "ln_queue q") (simp_all add: lane_get_def)

lemma lane_done_wf: "lane_wf q \<Longrightarrow> k \<in> ln_processing q \<Longrightarrow> lane_wf (lane_done k q)"
  by (auto simp: lane_wf_def lane_done_def Let_def)

lemma lane_done_simps [simp]:
  "ln_processing (lane_done k q) = ln_processing q - {k}" "ln_dirty (lane_done k q) = ln_dirty q"
  "ln_shutting_down (lane_done k q) = ln_shutting_down q"
  by (auto simp: lane_done_def Let_def)

lemma lane_idle: "lane_wf q \<Longrightarrow> ln_queue q = [] \<Longrightarrow> ln_processing q = {} \<Longrightarrow> ln_dirty q = {}"
  by (auto simp: lane_wf_def)

subsection \<open>The invariant\<close>

definition held :: "'k producer \<Rightarrow> 'k set" where
  "held p = (case p of Holding k \<Rightarrow> {k} | _ \<Rightarrow> {})"

definition lane_inv :: "'k controller_queue \<Rightarrow> lane_name \<Rightarrow> bool" where
  "lane_inv s l \<longleftrightarrow>
     lane_wf (cq_lane s l) \<and> ln_processing (cq_lane s l) = held (cq_producer s l) \<and>
     (cq_producer s l = Closed \<longrightarrow> ln_shutting_down (cq_lane s l) \<and> ln_queue (cq_lane s l) = []) \<and>
     (\<not> cq_open s l \<longrightarrow> cq_producer s l = Closed)"

definition joint_inv :: "'k controller_queue \<Rightarrow> bool" where
  "joint_inv s \<longleftrightarrow>
     lane_wf (cq_joint s) \<and> ln_processing (cq_joint s) = fst ` set (cq_workers s) \<and>
     distinct (map fst (cq_workers s)) \<and>
     (ln_shutting_down (cq_joint s) \<longleftrightarrow> cq_consumer s = Stopped) \<and>
     (cq_consumer s = Stopped \<longrightarrow> (\<forall>l. \<not> cq_open s l))"

definition threads_inv :: "nat \<Rightarrow> 'k controller_queue \<Rightarrow> bool" where
  "threads_inv n s \<longleftrightarrow>
     length (cq_workers s) \<le> cq_threads s \<and> cq_threads s \<le> n \<and>
     (cq_threads s < n \<longrightarrow> ln_shutting_down (cq_joint s)) \<and>
     (cq_threads s = 0 \<longrightarrow> n = 0 \<or> ln_queue (cq_joint s) = [])"

definition queue_inv :: "nat \<Rightarrow> 'k controller_queue \<Rightarrow> bool" where
  "queue_inv n s \<longleftrightarrow> (\<forall>l. lane_inv s l) \<and> joint_inv s \<and> threads_inv n s"

lemma held_simps [simp]: "held Fetching = {}" "held (Holding k) = {k}" "held (Offering k) = {}" "held Closed = {}"
  by (simp_all add: held_def)

lemma on_lane_simps [simp]:
  "cq_producer (on_lane f l s) = cq_producer s" "cq_open (on_lane f l s) = cq_open s"
  "cq_consumer (on_lane f l s) = cq_consumer s" "cq_joint (on_lane f l s) = cq_joint s"
  "cq_workers (on_lane f l s) = cq_workers s" "cq_threads (on_lane f l s) = cq_threads s"
  "cq_lane (on_lane f l s) l' = (if l' = l then f (cq_lane s l) else cq_lane s l')"
  by (simp_all add: on_lane_def)

lemma set_producer_simps [simp]:
  "cq_lane (set_producer l p s) = cq_lane s" "cq_open (set_producer l p s) = cq_open s"
  "cq_consumer (set_producer l p s) = cq_consumer s" "cq_joint (set_producer l p s) = cq_joint s"
  "cq_workers (set_producer l p s) = cq_workers s" "cq_threads (set_producer l p s) = cq_threads s"
  "cq_producer (set_producer l p s) l' = (if l' = l then p else cq_producer s l')"
  by (simp_all add: set_producer_def)

text \<open>A lane is left alone by the steps that do not name it, the joint lane by all but four.\<close>

lemma lane_inv_add [simp]: "lane_inv s l \<Longrightarrow> lane_inv (on_lane (lane_add k) l' s) l"
  by (auto simp: lane_inv_def)

lemma lane_inv_shut [simp]: "lane_inv s l \<Longrightarrow> lane_inv (on_lane lane_shut_down l' s) l"
  by (auto simp: lane_inv_def)

lemma lane_inv_update [simp]:
  "lane_inv (s\<lparr>cq_arriving := a\<rparr>) l = lane_inv s l" "lane_inv (s\<lparr>cq_waiting := w\<rparr>) l = lane_inv s l"
  "lane_inv (s\<lparr>cq_workers := x\<rparr>) l = lane_inv s l" "lane_inv (s\<lparr>cq_joint := q\<rparr>) l = lane_inv s l"
  "lane_inv (s\<lparr>cq_consumer := c\<rparr>) l = lane_inv s l" "lane_inv (s\<lparr>cq_threads := m\<rparr>) l = lane_inv s l"
  by (simp_all add: lane_inv_def)

lemma add_after_simps [simp]:
  "cq_producer (add_after k d t s) = cq_producer s" "cq_open (add_after k d t s) = cq_open s"
  "cq_consumer (add_after k d t s) = cq_consumer s" "cq_joint (add_after k d t s) = cq_joint s"
  "cq_workers (add_after k d t s) = cq_workers s" "cq_threads (add_after k d t s) = cq_threads s"
  by (simp_all add: add_after_def)

lemma handle_outcome_simps [simp]:
  "cq_producer (handle_outcome oc k d t s) = cq_producer s" "cq_open (handle_outcome oc k d t s) = cq_open s"
  "cq_consumer (handle_outcome oc k d t s) = cq_consumer s" "cq_joint (handle_outcome oc k d t s) = cq_joint s"
  "cq_workers (handle_outcome oc k d t s) = cq_workers s" "cq_threads (handle_outcome oc k d t s) = cq_threads s"
  by (simp_all add: handle_outcome_def split: outcome.split)

lemma lane_inv_after [simp]: "lane_inv s l \<Longrightarrow> lane_inv (handle_outcome oc k d t s) l"
  by (simp add: handle_outcome_def add_after_def split: outcome.split)

lemma lane_inv_step:
  assumes "queue_step s e s'" and "\<forall>l. lane_inv s l"
  shows "lane_inv s' l"
  using assms(1)
proof cases
  case (fetch l' k q)
  then show ?thesis
    using assms(2) lane_get_item [OF fetch(4)] by (auto simp: lane_inv_def)
next
  case (fetched l' k)
  then show ?thesis using assms(2) lane_done_wf [of "cq_lane s l'" k] by (auto simp: lane_inv_def)
next
  case (close l' q)
  then show ?thesis using assms(2) by (auto simp: lane_inv_def lane_get_shutdown)
next
  case (receive l' k)
  then show ?thesis using assms(2) by (auto simp: lane_inv_def)
next
  case (notice l')
  then show ?thesis using assms(2) by (auto simp: lane_inv_def)
qed (use assms(2) in simp_all)

lemma stopped_lanes:
  assumes "\<forall>l. lane_inv s l" "joint_inv s" "cq_consumer s = Stopped"
  shows "cq_producer s l = Closed" "ln_dirty (cq_lane s l) = {}"
proof -
  show closed: "cq_producer s l = Closed" using assms by (auto simp: lane_inv_def joint_inv_def)
  have "lane_wf (cq_lane s l)" "ln_queue (cq_lane s l) = []" "ln_processing (cq_lane s l) = {}"
    using assms(1) closed by (auto simp: lane_inv_def)
  then show "ln_dirty (cq_lane s l) = {}" by (rule lane_idle)
qed

lemma map_fst_flag: "map fst (map (\<lambda>w. if w = (k, False) then (k, True) else w) ws) = map fst ws"
  by simp

lemma joint_inv_step:
  assumes "queue_step s e s'" and lanes: "\<forall>l. lane_inv s l" and "joint_inv s"
  shows "joint_inv s'"
  using assms(1)
proof cases
  case (take k q)
  then have "k \<notin> fst ` set (cq_workers s)" using assms(3) lane_get_item(5) [OF take(4)] by (simp add: joint_inv_def)
  then show ?thesis using take assms(3) lane_get_item [OF take(4)] by (auto simp: joint_inv_def)
next
  case (handle k oc delay now)
  have "fst ` set (map (\<lambda>w. if w = (k, False) then (k, True) else w) (cq_workers s)) = fst ` set (cq_workers s)"
    by (metis map_fst_flag set_map)
  with handle map_fst_flag [of k "cq_workers s"] assms(3) show ?thesis by (simp add: joint_inv_def del: set_map map_map)
next
  case (release k)
  then have "k \<in> fst ` set (cq_workers s)" by force
  then have "lane_wf (lane_done k (cq_joint s))" using assms(3) by (intro lane_done_wf) (simp_all add: joint_inv_def)
  moreover have "distinct (map fst (filter (\<lambda>w. fst w \<noteq> k) (cq_workers s)))"
    using assms(3) by (simp add: joint_inv_def distinct_map_filter)
  ultimately show ?thesis using release assms(3) by (auto simp: joint_inv_def)
next
  case (receive l k)
  then have "cq_consumer s \<noteq> Stopped" by auto
  with receive assms(3) show ?thesis by (auto simp: joint_inv_def)
next
  case (notice l)
  then have "cq_consumer s \<noteq> Stopped" by auto
  with notice assms(3) show ?thesis by (auto simp: joint_inv_def)
next
  case stop
  have "\<not> cq_open s l" for l using stop by (cases l) simp_all
  with stop assms(3) show ?thesis by (auto simp: joint_inv_def)
qed (use assms(3) in \<open>auto simp: joint_inv_def\<close>)

lemma threads_inv_step:
  assumes "queue_step s e s'" and lanes: "\<forall>l. lane_inv s l" and joint: "joint_inv s" and "threads_inv n s"
  shows "threads_inv n s'"
  using assms(1)
proof cases
  case (take k q)
  then show ?thesis using assms(4) lane_get_item [OF take(4)] by (auto simp: threads_inv_def)
next
  case (release k)
  have "length (filter (\<lambda>w. fst w \<noteq> k) (cq_workers s)) < length (cq_workers s)"
    using release(3) by (intro length_filter_less) auto
  with release assms(4) show ?thesis by (auto simp: threads_inv_def)
next
  case (merge k)
  then have "cq_consumer s \<noteq> Stopped" by auto
  then have "\<not> ln_shutting_down (cq_joint s)" using joint by (simp add: joint_inv_def)
  with merge assms(4) show ?thesis by (auto simp: threads_inv_def)
next
  case (quit q)
  then show ?thesis using assms(4) by (auto simp: threads_inv_def lane_get_shutdown)
qed (use assms(4) in \<open>auto simp: threads_inv_def\<close>)

interpretation queue: invariant_system queue_step "queue_inv n" "new_controller_queue n" for n
proof
  fix s s' :: "'k controller_queue" and e
  assume inv: "queue_inv n s" and step: "queue_step s e s'"
  then show "queue_inv n s'"
    using lane_inv_step [OF step] joint_inv_step [OF step] threads_inv_step [OF step]
    by (simp add: queue_inv_def)
next
  show "queue_inv n (new_controller_queue n :: 'k controller_queue)"
    by (simp add: queue_inv_def lane_inv_def joint_inv_def threads_inv_def new_controller_queue_def)
      (simp add: new_lane_def)
qed

subsection \<open>Keys on their way\<close>

definition carried :: "'k producer \<Rightarrow> 'k set" where
  "carried p = (case p of Holding k \<Rightarrow> {k} | Offering k \<Rightarrow> {k} | _ \<Rightarrow> {})"

definition merging :: "'k consumer \<Rightarrow> 'k set" where
  "merging c = (case c of Merging k \<Rightarrow> {k} | _ \<Rightarrow> {})"

text \<open>The keys that were added and that no worker has taken since.\<close>

definition pending :: "'k controller_queue \<Rightarrow> 'k set" where
  "pending s = (\<Union>l \<in> {Fast, Slow}. ln_dirty (cq_lane s l) \<union> carried (cq_producer s l)) \<union>
     merging (cq_consumer s) \<union> ln_dirty (cq_joint s)"

lemma carried_simps [simp]:
  "carried Fetching = {}" "carried (Holding k) = {k}" "carried (Offering k) = {k}" "carried Closed = {}"
  by (simp_all add: carried_def)

lemma merging_simps [simp]: "merging Polling = {}" "merging Selecting = {}" "merging (Merging k) = {k}" "merging Stopped = {}"
  by (simp_all add: merging_def)

lemma ex_lane: "(\<exists>l. P l) \<longleftrightarrow> P Fast \<or> P Slow"
  by (metis lane_name.exhaust)

lemma in_pending:
  "k \<in> pending s \<longleftrightarrow> (\<exists>l. k \<in> ln_dirty (cq_lane s l) \<or> k \<in> carried (cq_producer s l)) \<or>
     k \<in> merging (cq_consumer s) \<or> k \<in> ln_dirty (cq_joint s)"
  by (auto simp: pending_def ex_lane)

lemma pending_add: "pending s \<subseteq> pending (on_lane (lane_add k) l s)"
  by (auto simp: in_pending)

lemma pending_update [simp]:
  "pending (s\<lparr>cq_arriving := a\<rparr>) = pending s" "pending (s\<lparr>cq_waiting := w\<rparr>) = pending s"
  "pending (s\<lparr>cq_workers := x\<rparr>) = pending s" "pending (s\<lparr>cq_threads := m\<rparr>) = pending s"
  by (simp_all add: pending_def)

lemma pending_enqueue: "\<not> ln_shutting_down (cq_lane s l) \<Longrightarrow> k \<in> pending (on_lane (lane_add k) l s)"
  by (auto simp: in_pending)

text \<open>Only a worker takes a pending key.\<close>

lemma pending_step:
  assumes step: "queue_step s e s'" and inv: "queue_inv n s" and k: "k \<in> pending s"
  shows "k \<in> pending s' \<or> e = Take k"
  using step
proof cases
  case (fetch l k' q)
  then show ?thesis using k lane_get_item [OF fetch(4)] by (cases l) (auto simp: pending_def)
next
  case (fetched l k')
  then show ?thesis using k by (cases l) (auto simp: pending_def)
next
  case (close l q)
  then show ?thesis using k by (cases l) (auto simp: pending_def)
next
  case (pass)
  then show ?thesis using k by (auto simp: pending_def)
next
  case (receive l k')
  then show ?thesis using k by (cases l) (auto simp: pending_def)
next
  case (merge k')
  then have "\<not> ln_shutting_down (cq_joint s)" using inv by (auto simp: queue_inv_def joint_inv_def)
  then show ?thesis using merge k by (auto simp: pending_def)
next
  case (take k' q)
  then show ?thesis using k lane_get_item [OF take(4)] by (auto simp: pending_def)
next
  case (handle k' oc delay now)
  then show ?thesis using k pending_add [of s k' Fast] by (auto simp: handle_outcome_def add_after_def split: outcome.split)
next
  case (arrive k' t rest now)
  then show ?thesis using k pending_add [of s k' Fast] by auto
next
  case (expire k' t)
  then show ?thesis using k pending_add [of s k' Fast] by auto
next
  case (enqueue l k')
  then show ?thesis using k pending_add [of s k' l] by auto
next
  case (shut l)
  then show ?thesis using k by (auto simp: pending_def)
qed (use k in \<open>auto simp: pending_def\<close>)


lemma taken_step:
  assumes inv: "queue_inv n s" and k: "k \<in> pending s" and gone: "k \<notin> pending s'" and run: "reachable queue_step s s'"
  shows "\<exists>s1 s2. reachable queue_step s s1 \<and> queue_step s1 (Take k) s2 \<and> reachable queue_step s2 s'"
  using run gone
proof (induction rule: reachable.induct)
  case (advance s' e s'')
  show ?case
  proof (cases "k \<in> pending s'")
    case True
    have "queue_inv n s'" using queue.stays_inv [OF advance.hyps(1) inv] .
    then have "e = Take k" using pending_step [OF advance.hyps(2)] True advance.prems by blast
    with advance.hyps show ?thesis by (blast intro: reachable.start)
  next
    case False
    with advance.IH advance.hyps(2) show ?thesis by (meson reachable.advance)
  qed
qed (use k in simp)

text \<open>When the last worker has returned, nothing is pending.\<close>

lemma no_worker_left:
  assumes inv: "queue_inv (Suc n) s" and none: "cq_threads s = 0"
  shows "pending s = {}"
proof -
  have j: "joint_inv s" and l: "\<forall>l. lane_inv s l" using inv by (simp_all add: queue_inv_def)
  have t: "ln_queue (cq_joint s) = []" "cq_workers s = []" "ln_shutting_down (cq_joint s)"
    using inv none by (auto simp: queue_inv_def threads_inv_def)
  have stopped: "cq_consumer s = Stopped" using j t(3) by (simp add: joint_inv_def)
  have "ln_dirty (cq_joint s) = {}" using j t(1,2) by (intro lane_idle) (simp_all add: joint_inv_def)
  with stopped stopped_lanes [OF l j stopped] show ?thesis by (auto simp: pending_def)
qed

subsection \<open>A run\<close>

text \<open>A key goes from \<^verbatim>\<open>Add\<close> to a worker: through the fast lane, the consumer and the joint lane.\<close>

definition example_taken :: "nat controller_queue" where
  "example_taken =
     (let s1 = on_lane (lane_add 7) Fast (new_controller_queue 2);
          q = \<lparr>ln_queue = [], ln_dirty = {}, ln_processing = {7}, ln_shutting_down = False\<rparr>;
          s2 = set_producer Fast (Holding 7) (on_lane (\<lambda>_. q) Fast s1);
          s3 = set_producer Fast (Offering 7) (on_lane (lane_done 7) Fast s2);
          s4 = set_producer Fast Fetching (s3\<lparr>cq_consumer := Merging 7\<rparr>);
          s5 = s4\<lparr>cq_joint := lane_add 7 (cq_joint s4), cq_consumer := Polling\<rparr>
      in s5\<lparr>cq_joint := q, cq_workers := cq_workers s5 @ [(7, False)]\<rparr>)"

lemma example_taken_workers [simp]: "cq_workers example_taken = [(7, False)]" "cq_threads example_taken = 2"
  by (simp_all add: example_taken_def Let_def) (simp_all add: new_controller_queue_def)

lemma example_run: "reachable queue_step (new_controller_queue 2) example_taken"
  unfolding example_taken_def Let_def
  apply (rule reachable.advance)
   prefer 2
   apply (rule queue_step.take)
    apply (simp add: new_controller_queue_def)
   apply (simp add: new_controller_queue_def lane_get_def lane_add_def new_lane_def)
  apply (rule reachable.advance)
   prefer 2
   apply (rule queue_step.merge, simp)
  apply (rule reachable.advance)
   prefer 2
   apply (rule queue_step.receive)
    apply (simp add: new_controller_queue_def)
   apply simp
  apply (rule reachable.advance)
   prefer 2
   apply (rule queue_step.fetched, simp)
  apply (rule reachable.advance)
   prefer 2
   apply (rule queue_step.fetch)
    apply (simp add: new_controller_queue_def)
   apply (simp add: new_controller_queue_def lane_get_def lane_add_def new_lane_def)
  apply (rule reachable_step)
  apply (rule queue_step.enqueue)
  done

lemma example_running [simp]: "\<not> ln_shutting_down (cq_lane example_taken l)" "\<not> queue_shutting_down example_taken"
  by (simp_all add: example_taken_def Let_def queue_shutting_down_def)
    (simp_all add: new_controller_queue_def new_lane_def)

definition example_failed :: "nat controller_queue" where
  "example_failed = (handle_outcome AddRateLimited 7 5 100 example_taken)\<lparr>cq_workers := [(7, True)]\<rparr>"

lemma example_failed_step: "queue_step example_taken (Handle 7 AddRateLimited) example_failed"
  using queue_step.handle [of 7 example_taken AddRateLimited 5 100]
  by (simp add: example_failed_def) (simp add: example_taken_def new_controller_queue_def on_lane_def set_producer_def Let_def)

lemma example_failed_running [simp]: "\<not> queue_shutting_down example_failed"
  using example_running by (simp add: example_failed_def handle_outcome_def add_after_def queue_shutting_down_def)

subsection \<open>Keys in work\<close>

text \<open>
  C31: In every state that the goroutines of a controller's queue can reach, whatever was enqueued in whatever lane
  and however the workers' runs ended, no two workers have the same key, there are at most as many keys in work as
  workers, and a worker only takes a key that no other one has.
\<close>

theorem one_worker_per_key:
  assumes "reachable queue_step (new_controller_queue n) s"
  shows "distinct (map fst (cq_workers s)) \<and> length (cq_workers s) \<le> n \<and>
    (queue_step s (Take k) s' \<longrightarrow> k \<notin> fst ` set (cq_workers s))"
proof -
  have inv: "queue_inv n s" by (rule queue.reachable_inv [OF assms])
  have "k \<notin> fst ` set (cq_workers s)" if "queue_step s (Take k) s'"
    using that
  proof cases
    case (take q)
    then show ?thesis using inv lane_get_item(5) [OF take(3)] by (auto simp: queue_inv_def joint_inv_def)
  qed
  with inv show ?thesis by (auto simp: queue_inv_def joint_inv_def threads_inv_def)
qed

theorem one_worker_per_key_witness:
  "distinct (map fst (cq_workers example_taken)) \<and> (\<nexists>s'. queue_step example_taken (Take 7) s')"
  using one_worker_per_key [OF example_run, of 7] by auto

end
