(* ===== verification/QueueDraining.thy ===== *)
theory QueueDraining
  imports KeyQueue
begin

section \<open>No key is lost between the events and the workers\<close>

text \<open>
  Progress of the queue of \<^verbatim>\<open>KeyQueue\<close>: some step always brings a pending key closer to a worker, and the waiting
  loop adds every delayed key in the end. So a key that was enqueued, or whose run failed, stays where a worker can
  take it until one has.
\<close>

subsection \<open>The queue can always be drained\<close>

definition producer_rank :: "'k producer \<Rightarrow> nat" where
  "producer_rank p = (case p of Holding _ \<Rightarrow> 9 | Offering _ \<Rightarrow> 8 | _ \<Rightarrow> 0)"

definition consumer_rank :: "'k consumer \<Rightarrow> nat" where
  "consumer_rank c = (case c of Polling \<Rightarrow> 1 | Merging _ \<Rightarrow> 6 | _ \<Rightarrow> 0)"

definition lane_rank :: "'k controller_queue \<Rightarrow> lane_name \<Rightarrow> nat" where
  "lane_rank s l = 10 * card (ln_dirty (cq_lane s l)) + producer_rank (cq_producer s l) + (if cq_open s l then 2 else 0)"

definition worker_rank :: "('k \<times> bool) list \<Rightarrow> nat" where
  "worker_rank ws = sum_list (map (\<lambda>w. if snd w then 1 else 2) ws)"

definition queue_rank :: "'k controller_queue \<Rightarrow> nat" where
  "queue_rank s = lane_rank s Fast + lane_rank s Slow + consumer_rank (cq_consumer s) +
     3 * card (ln_dirty (cq_joint s)) + worker_rank (cq_workers s)"

lemma rank_simps [simp]:
  "producer_rank Fetching = 0" "producer_rank (Holding k) = 9" "producer_rank (Offering k) = 8"
  "producer_rank Closed = 0" "consumer_rank Polling = 1" "consumer_rank Selecting = 0"
  "consumer_rank (Merging k) = 6" "consumer_rank Stopped = 0"
  by (simp_all add: producer_rank_def consumer_rank_def)

lemma lane_wf_finite: "lane_wf q \<Longrightarrow> finite (ln_processing q) \<Longrightarrow> finite (ln_dirty q)"
  by (metis List.finite_set finite_Diff2 lane_wf_def)

lemma held_finite [simp]: "finite (held p)"
  by (cases p) simp_all

lemma inv_finite:
  assumes "queue_inv n s"
  shows "finite (ln_dirty (cq_lane s l))" "finite (ln_dirty (cq_joint s))"
proof -
  show "finite (ln_dirty (cq_lane s l))" using assms
    by (intro lane_wf_finite) (auto simp: queue_inv_def lane_inv_def)
  show "finite (ln_dirty (cq_joint s))" using assms
    by (intro lane_wf_finite) (simp_all add: queue_inv_def joint_inv_def)
qed

lemma worker_rank_handled:
  "(k, False) \<in> set ws \<Longrightarrow>
    worker_rank (map (\<lambda>w. if w = (k, False) then (k, True) else w) ws) < worker_rank ws"
proof (induction ws)
  case (Cons w ws)
  have "worker_rank (map (\<lambda>w. if w = (k, False) then (k, True) else w) ws) \<le> worker_rank ws"
    unfolding worker_rank_def map_map by (intro sum_list_mono) simp
  with Cons show ?case by (cases "w = (k, False)") (auto simp: worker_rank_def)
qed simp

lemma worker_rank_released:
  "(k, True) \<in> set ws \<Longrightarrow> worker_rank (filter (\<lambda>w. fst w \<noteq> k) ws) < worker_rank ws"
proof (induction ws)
  case (Cons w ws)
  have "worker_rank (filter (\<lambda>w. fst w \<noteq> k) ws) \<le> worker_rank ws"
    unfolding worker_rank_def by (intro sum_list_filter_le_nat)
  with Cons show ?case by (cases "w = (k, True)") (auto simp: worker_rank_def)
qed simp


text \<open>The workers first, then the joint lane, the consumer and the producers, each when those after it have nothing to do.\<close>

lemma worker_progress:
  assumes "w \<in> set (cq_workers s)"
  shows "\<exists>e s'. queue_step s e s' \<and> queue_rank s' < queue_rank s"
proof -
  obtain k b where w: "(k, b) \<in> set (cq_workers s)" using assms by (metis surj_pair)
  show ?thesis
  proof (cases b)
    case True
    with w have m: "(k, True) \<in> set (cq_workers s)" by simp
    show ?thesis using queue_step.release [OF m] worker_rank_released [OF m]
      by (intro exI conjI) (assumption, simp add: queue_rank_def lane_rank_def)
  next
    case False
    with w have m: "(k, False) \<in> set (cq_workers s)" by simp
    show ?thesis using queue_step.handle [OF m, of Forget] worker_rank_handled [OF m]
      by (intro exI conjI) (rule queue_step.handle [OF m, of Forget], simp_all add: queue_rank_def lane_rank_def handle_outcome_def)
  qed
qed

lemma joint_progress:
  assumes inv: "queue_inv (Suc n) s" and idle: "cq_workers s = []" and some: "ln_queue (cq_joint s) \<noteq> []"
  shows "\<exists>e s'. queue_step s e s' \<and> queue_rank s' < queue_rank s"
proof -
  obtain k q where g: "lane_get (cq_joint s) = Some (GotItem k, q)" using lane_get_some [OF some] by blast
  have free: "length (cq_workers s) < cq_threads s" using inv idle some by (auto simp: queue_inv_def threads_inv_def)
  have "lane_wf (cq_joint s)" using inv by (simp add: queue_inv_def joint_inv_def)
  then have "k \<in> ln_dirty (cq_joint s)" using lane_get_item [OF g] by blast
  moreover have "finite (ln_dirty (cq_joint s))" by (rule inv_finite [OF inv])
  ultimately have "0 < card (ln_dirty (cq_joint s))" by (auto simp: card_gt_0_iff)
  with \<open>k \<in> ln_dirty (cq_joint s)\<close> lane_get_item(3) [OF g] idle show ?thesis
    by (intro exI conjI) (rule queue_step.take [OF free g], simp add: queue_rank_def lane_rank_def worker_rank_def)
qed

lemma fetch_progress:
  assumes inv: "queue_inv n s" and fetching: "cq_producer s l = Fetching" and some: "ln_queue (cq_lane s l) \<noteq> []"
  shows "\<exists>e s'. queue_step s e s' \<and> queue_rank s' < queue_rank s"
proof -
  obtain k q where g: "lane_get (cq_lane s l) = Some (GotItem k, q)" using lane_get_some [OF some] by blast
  have "lane_wf (cq_lane s l)" using inv by (simp add: queue_inv_def lane_inv_def)
  then have k: "k \<in> ln_dirty (cq_lane s l)" using lane_get_item [OF g] by blast
  moreover have "finite (ln_dirty (cq_lane s l))" by (rule inv_finite [OF inv])
  ultimately have c: "0 < card (ln_dirty (cq_lane s l))" by (auto simp: card_gt_0_iff)
  show ?thesis using k c fetching lane_get_item(3) [OF g]
    by (cases l; intro exI conjI) (rule queue_step.fetch [OF fetching g], simp add: queue_rank_def lane_rank_def)+
qed

lemma holding_progress:
  "cq_producer s l = Holding k \<Longrightarrow> \<exists>e s'. queue_step s e s' \<and> queue_rank s' < queue_rank s"
  by (cases l; intro exI conjI) (rule queue_step.fetched, assumption, simp add: queue_rank_def lane_rank_def)+

lemma merge_progress:
  assumes inv: "queue_inv n s" and m: "cq_consumer s = Merging k"
  shows "\<exists>e s'. queue_step s e s' \<and> queue_rank s' < queue_rank s"
proof -
  have "card (insert k (ln_dirty (cq_joint s))) \<le> Suc (card (ln_dirty (cq_joint s)))"
    by (simp add: card_insert_le_m1 card_insert_if inv_finite [OF inv])
  with m show ?thesis
    by (intro exI conjI) (rule queue_step.merge [OF m], simp add: queue_rank_def lane_rank_def)
qed

lemma receive_progress:
  assumes "cq_consumer s = Selecting \<or> cq_consumer s = Polling \<and> l = Fast \<and> cq_open s Fast"
    and "cq_producer s l = Offering k"
  shows "\<exists>e s'. queue_step s e s' \<and> queue_rank s' < queue_rank s"
proof -
  have "queue_rank (set_producer l Fetching (s\<lparr>cq_consumer := Merging k\<rparr>)) < queue_rank s"
    using assms by (cases l) (auto simp: queue_rank_def lane_rank_def)
  then show ?thesis using queue_step.receive [OF assms] by blast
qed

lemma offering_progress:
  assumes inv: "queue_inv n s" and off: "cq_producer s l = Offering k"
    and cons: "cq_consumer s = Polling \<or> cq_consumer s = Selecting"
  shows "\<exists>e s'. queue_step s e s' \<and> queue_rank s' < queue_rank s"
proof -
  have "cq_open s l" using inv off by (auto simp: queue_inv_def lane_inv_def)
  then have op: "cq_open s Fast \<or> cq_open s Slow" by (cases l) simp_all
  consider (receive) "cq_consumer s = Selecting" | (poll) "cq_consumer s = Polling" using cons by blast
  then show ?thesis
  proof cases
    case receive
    then show ?thesis using off by (intro receive_progress) simp_all
  next
    case poll
    consider (pass) "\<not> (cq_open s Fast \<and> ready_producer (cq_producer s Fast))"
      | (item) k' where "cq_open s Fast" "cq_producer s Fast = Offering k'"
      | (closed) "cq_open s Fast" "cq_producer s Fast = Closed"
      unfolding ready_producer_def by (cases "cq_producer s Fast"; cases "cq_open s Fast") simp_all
    then show ?thesis
    proof cases
      case pass
      then show ?thesis using poll queue_step.pass [OF poll op pass]
        by (intro exI conjI) (assumption, simp add: queue_rank_def lane_rank_def)
    next
      case item
      then show ?thesis using poll by (intro receive_progress [where l = Fast]) simp_all
    next
      case closed
      then show ?thesis using poll
        by (intro exI conjI) (rule queue_step.notice [of s Fast], simp_all add: queue_rank_def lane_rank_def)
    qed
  qed
qed

interpretation draining:
  progress_system queue_step "queue_inv (Suc n)" "\<lambda>s. pending s = {}" queue_rank for n
proof
  fix s :: "'k controller_queue"
  assume inv: "queue_inv (Suc n) s" and some: "pending s \<noteq> {}"
  have j: "joint_inv s" and l: "\<forall>l. lane_inv s l" using inv by (simp_all add: queue_inv_def)
  let ?progress = "\<exists>e s'. queue_step s e s' \<and> queue_rank s' < queue_rank s"
  consider "cq_workers s \<noteq> []" | "cq_workers s = []" "ln_queue (cq_joint s) \<noteq> []"
    | k where "cq_consumer s = Merging k" | l k where "cq_producer s l = Holding k"
    | l where "cq_producer s l = Fetching" "ln_queue (cq_lane s l) \<noteq> []"
    | (quiet) "cq_workers s = []" "ln_queue (cq_joint s) = []" "merging (cq_consumer s) = {}"
      "\<forall>l k. cq_producer s l \<noteq> Holding k" "\<forall>l. cq_producer s l = Fetching \<longrightarrow> ln_queue (cq_lane s l) = []"
    by (cases "cq_consumer s") (auto simp: merging_def)
  then show ?progress
  proof cases
    case quiet
    have joint: "ln_dirty (cq_joint s) = {}" using j quiet(1,2) by (intro lane_idle) (simp_all add: joint_inv_def)
    have lane: "(\<exists>k. cq_producer s l = Offering k) \<or> ln_dirty (cq_lane s l) = {} \<and> carried (cq_producer s l) = {}" for l
    proof (cases "cq_producer s l")
      case Fetching
      then have "ln_dirty (cq_lane s l) = {}" using l quiet(5) by (intro lane_idle) (simp_all add: lane_inv_def)
      with Fetching show ?thesis by simp
    next
      case Closed
      then have "ln_dirty (cq_lane s l) = {}" using l by (intro lane_idle) (auto simp: lane_inv_def)
      with Closed show ?thesis by simp
    qed (use quiet(4) in auto)
    have "\<exists>l' k. cq_producer s l' = Offering k"
    proof (rule ccontr)
      assume "\<not> ?thesis"
      then have "ln_dirty (cq_lane s l) = {} \<and> carried (cq_producer s l) = {}" for l using lane by blast
      with some joint quiet(3) show False by (simp add: pending_def)
    qed
    then obtain l' k where off: "cq_producer s l' = Offering k" by blast
    have "cq_consumer s \<noteq> Stopped" using stopped_lanes [OF l j] off by force
    then have "cq_consumer s = Polling \<or> cq_consumer s = Selecting" using quiet(3) by (cases "cq_consumer s") auto
    then show ?thesis by (rule offering_progress [OF inv off])
  next
    case 1
    then show ?thesis using worker_progress by (metis list.set_intros(1) neq_Nil_conv)
  next
    case 2
    then show ?thesis using joint_progress [OF inv] by blast
  next
    case 3
    then show ?thesis using merge_progress [OF inv] by blast
  next
    case 4
    then show ?thesis by (rule holding_progress)
  next
    case 5
    then show ?thesis using fetch_progress [OF inv] by blast
  qed
qed

text \<open>A key that was added while its lane was open can be taken as long as it has not been, whatever happened meanwhile.\<close>

lemma pending_can_be_taken:
  assumes inv: "queue_inv (Suc n) s" and k: "k \<in> pending s"
  shows "\<exists>s1 s2. reachable queue_step s s1 \<and> queue_step s1 (Take k) s2"
proof -
  obtain s' where s': "reachable queue_step s s'" "pending s' = {}" using draining.goal_reached [OF inv] by blast
  then have "k \<notin> pending s'" by simp
  from taken_step [OF inv k this s'(1)] show ?thesis by blast
qed

subsection \<open>Keys with a delay\<close>

text \<open>The keys that will be added when their delay is over.\<close>

definition delayed :: "'k controller_queue \<Rightarrow> 'k set" where
  "delayed s = fst ` set (cq_arriving s) \<union> fst ` set (cq_waiting s)"

lemma delayed_simps [simp]:
  "delayed (on_lane f l s) = delayed s" "delayed (set_producer l p s) = delayed s"
  "delayed (s\<lparr>cq_consumer := c\<rparr>) = delayed s" "delayed (s\<lparr>cq_joint := q\<rparr>) = delayed s"
  "delayed (s\<lparr>cq_workers := ws\<rparr>) = delayed s" "delayed (s\<lparr>cq_threads := m\<rparr>) = delayed s"
  "delayed (s\<lparr>cq_open := op\<rparr>) = delayed s"
  by (simp_all add: delayed_def on_lane_def set_producer_def)

lemma delayed_after: "delayed s \<subseteq> delayed (add_after k d t s)"
  by (auto simp: add_after_def) (auto simp: delayed_def)

lemma wait_insert_keys: "fst ` set (wait_insert k t w) = insert k (fst ` set w)"
proof (cases "map_of w k")
  case None
  then show ?thesis by (auto simp: wait_insert_def)
next
  case (Some t')
  then have "k \<in> fst ` set w" by (metis map_of_SomeD fst_conv image_eqI)
  then show ?thesis using Some by (auto simp: wait_insert_def AList.update_conv' simp flip: dom_map_of_conv_image_fst)
qed

lemma shutting_down_stays: "queue_step s e s' \<Longrightarrow> queue_shutting_down s \<Longrightarrow> queue_shutting_down s'"
  by (induction rule: queue_step.induct)
    (auto simp: queue_shutting_down_def handle_outcome_def add_after_def lane_get_item dest: lane_get_item(4) split: outcome.split)


text \<open>A delayed key is kept until it is added, while the queue is not shutting down.\<close>

lemma delayed_step:
  assumes step: "queue_step s e s'" and running: "\<not> queue_shutting_down s'" and k: "k \<in> delayed s"
  shows "k \<in> delayed s' \<or> k \<in> pending s'"
  using step
proof cases
  case (handle k' oc delay now)
  then show ?thesis using k delayed_after [of s k' delay now]
    by (auto simp: handle_outcome_def split: outcome.split)
next
  case (arrive k' t rest now)
  have fast: "k' \<in> pending (on_lane (lane_add k') Fast s)"
    using arrive(4) by (intro pending_enqueue) (simp add: queue_shutting_down_def)
  show ?thesis
  proof (cases "t > now")
    case True
    then show ?thesis using k arrive by (simp add: delayed_def wait_insert_keys)
  next
    case False
    then show ?thesis using k arrive fast by (auto simp: delayed_def on_lane_def)
  qed
next
  case (expire k' t)
  have "k' \<in> pending (on_lane (lane_add k') Fast s)"
    using expire(5) by (intro pending_enqueue) (simp add: queue_shutting_down_def)
  then show ?thesis using k expire
    by (cases "k = k'") (auto simp: delayed_def on_lane_def delete_conv' image_iff AList.delete_eq)
qed (use k in simp_all)

definition awaited :: "'k controller_queue \<Rightarrow> 'k set" where
  "awaited s = pending s \<union> delayed s"

lemma awaited_step:
  assumes "queue_step s e s'" "queue_inv n s" "\<not> queue_shutting_down s'" "k \<in> awaited s"
  shows "k \<in> awaited s' \<or> e = Take k"
  using assms delayed_step [OF assms(1,3), of k] pending_step [OF assms(1,2), of k] by (auto simp: awaited_def)

lemma awaited_until_taken:
  assumes inv: "queue_inv n s" and k: "k \<in> awaited s" and run: "reachable queue_step s s'"
    and "\<not> queue_shutting_down s'"
  shows "k \<in> awaited s' \<or> (\<exists>s1 s2. reachable queue_step s s1 \<and> queue_step s1 (Take k) s2 \<and> reachable queue_step s2 s')"
  using run assms(4)
proof (induction rule: reachable.induct)
  case (advance s' e s'')
  then have "\<not> queue_shutting_down s'" using shutting_down_stays by blast
  with advance.IH consider "k \<in> awaited s'"
    | s1 s2 where "reachable queue_step s s1" "queue_step s1 (Take k) s2" "reachable queue_step s2 s'" by blast
  then show ?case
  proof cases
    case 1
    with awaited_step [OF advance.hyps(2) queue.stays_inv [OF advance.hyps(1) inv] advance.prems] advance.hyps
    show ?thesis by (blast intro: reachable.start)
  next
    case 2
    with advance.hyps(2) show ?thesis by (meson reachable.advance)
  qed
qed (use k in simp)

text \<open>A run that failed leaves its key awaited, while the queue is not shutting down.\<close>

lemma failed_run_awaited:
  assumes "queue_step s (Handle k AddRateLimited) s'" "\<not> queue_shutting_down s"
  shows "k \<in> awaited s'"
  using assms(1)
proof cases
  case (handle delay now)
  have "k \<in> pending (on_lane (lane_add k) Fast s)"
    using assms(2) by (intro pending_enqueue) (simp add: queue_shutting_down_def)
  then show ?thesis using handle assms(2)
    by (auto simp: awaited_def handle_outcome_def add_after_def delayed_def)
qed


text \<open>Left alone, the waiting loop adds every key in the end.\<close>

definition wake_step :: "'k controller_queue \<Rightarrow> 'k queue_event \<Rightarrow> 'k controller_queue \<Rightarrow> bool" where
  "wake_step s e s' \<longleftrightarrow> queue_step s e s' \<and> (\<exists>k. e = Arrive k \<or> e = Expire k)"

lemma first_to_expire:
  assumes "w \<noteq> []"
  shows "\<exists>k t. (k, t) \<in> set w \<and> (\<forall>(_, t') \<in> set w. t \<le> (t' :: int))"
proof -
  let ?t = "Min (snd ` set w)"
  have "?t \<in> snd ` set w" using assms by (intro Min_in) simp_all
  then obtain k where "(k, ?t) \<in> set w" by force
  moreover have "\<forall>x \<in> set w. ?t \<le> snd x" by simp
  ultimately show ?thesis by (metis (mono_tags, lifting) case_prod_beta)
qed

lemma delete_shorter: "k \<in> fst ` set w \<Longrightarrow> length (AList.delete k w) < length w"
  by (auto simp: AList.delete_eq intro!: length_filter_less)

lemma wake_keeps_running: "wake_step s e s' \<Longrightarrow> queue_shutting_down s' = queue_shutting_down s"
  by (auto simp: wake_step_def queue_shutting_down_def elim!: queue_stepE split: if_splits)

interpretation waking:
  progress_system wake_step "\<lambda>s. queue_inv n s \<and> \<not> queue_shutting_down s \<and> k \<in> awaited s"
    "\<lambda>s. k \<in> pending s" "\<lambda>s. length (cq_arriving s) + length (cq_waiting s)" for n and k :: 'k
proof
  fix s s' :: "'k controller_queue" and e
  assume inv: "queue_inv n s \<and> \<not> queue_shutting_down s \<and> k \<in> awaited s" and step: "wake_step s e s'"
  then have e: "queue_step s e s'" "e \<noteq> Take k" by (auto simp: wake_step_def)
  have running: "\<not> queue_shutting_down s'" using inv wake_keeps_running [OF step] by simp
  with inv e awaited_step [OF e(1) _ running, of n k] queue.preserved [OF _ e(1), of n]
  show "queue_inv n s' \<and> \<not> queue_shutting_down s' \<and> k \<in> awaited s'" by simp
next
  fix s :: "'k controller_queue"
  assume inv: "queue_inv n s \<and> \<not> queue_shutting_down s \<and> k \<in> awaited s" and "k \<notin> pending s"
  then have "cq_arriving s \<noteq> [] \<or> cq_waiting s \<noteq> []" by (auto simp: awaited_def delayed_def)
  then show "\<exists>e s'. wake_step s e s' \<and>
    length (cq_arriving s') + length (cq_waiting s') < length (cq_arriving s) + length (cq_waiting s)"
  proof (cases "cq_arriving s")
    case (Cons a rest)
    then obtain k' t where arr: "cq_arriving s = (k', t) # rest" by (metis surj_pair)
    with inv show ?thesis unfolding wake_step_def
      by (intro exI conjI) (rule queue_step.arrive [OF arr, of t], simp, simp, simp add: on_lane_def)
  next
    case Nil
    with \<open>cq_arriving s \<noteq> [] \<or> cq_waiting s \<noteq> []\<close> obtain k' t where
      first: "(k', t) \<in> set (cq_waiting s)" "\<forall>(_, t') \<in> set (cq_waiting s). t \<le> t'"
      using first_to_expire [of "cq_waiting s"] by blast
    have "length (AList.delete k' (cq_waiting s)) < length (cq_waiting s)"
      using first(1) by (intro delete_shorter) force
    with inv show ?thesis unfolding wake_step_def
      by (intro exI conjI) (rule queue_step.expire [OF first], simp, simp, simp add: on_lane_def)
  qed
qed

lemma awaited_can_be_taken:
  assumes inv: "queue_inv (Suc n) s" and "\<not> queue_shutting_down s" and k: "k \<in> awaited s"
  shows "\<exists>s1 s2. reachable queue_step s s1 \<and> queue_step s1 (Take k) s2"
proof -
  obtain s' where s': "reachable wake_step s s'" "k \<in> pending s'"
    using waking.goal_reached [of "Suc n" s k] assms by auto
  have run: "reachable queue_step s s'"
    by (rule reachable_mono [OF _ s'(1)]) (simp add: wake_step_def)
  from pending_can_be_taken [OF queue.stays_inv [OF run inv] s'(2)] run show ?thesis
    by (meson reachable_trans)
qed

subsection \<open>What the workers get\<close>

text \<open>
  C32: A key that is enqueued in a lane that is not shut down is not lost: in every later state a worker has taken it
  since, or some worker has not returned and can still take it. So the workers only all return, after a shutdown,
  when every key enqueued before it has been taken.
\<close>

theorem queued_key_is_taken:
  assumes "reachable queue_step (new_controller_queue (Suc n)) s"
    and "queue_step s (Enqueue l k) s1" and "\<not> ln_shutting_down (cq_lane s l)"
    and "reachable queue_step s1 s'"
  shows "(\<exists>s2 s3. reachable queue_step s1 s2 \<and> queue_step s2 (Take k) s3 \<and> reachable queue_step s3 s') \<or>
    0 < cq_threads s' \<and> (\<exists>s2 s3. reachable queue_step s' s2 \<and> queue_step s2 (Take k) s3)"
proof -
  have inv: "queue_inv (Suc n) s1" by (rule queue.preserved [OF queue.reachable_inv [OF assms(1)] assms(2)])
  then have inv': "queue_inv (Suc n) s'" by (rule queue.stays_inv [OF assms(4)])
  have added: "k \<in> pending s1" using assms(2) pending_enqueue [OF assms(3)] by (simp add: enqueue_step_iff)
  show ?thesis
  proof (cases "k \<in> pending s'")
    case True
    with no_worker_left [OF inv'] pending_can_be_taken [OF inv' True] show ?thesis by auto
  next
    case False
    from taken_step [OF inv added False assms(4)] show ?thesis by (rule disjI1)
  qed
qed

text \<open>Key 7 is enqueued in the slow lane while a worker has it: a worker can take it again.\<close>

theorem queued_key_is_taken_witness:
  "\<exists>s2 s3. reachable queue_step (on_lane (lane_add 7) Slow example_taken) s2 \<and> queue_step s2 (Take 7) s3"
proof -
  have "reachable queue_step (new_controller_queue (Suc 1)) example_taken"
    using example_run by (simp add: numeral_2_eq_2)
  from queued_key_is_taken [OF this queue_step.enqueue _ reachable.start, of Slow 7] show ?thesis by auto
qed

text \<open>
  C33: A key whose run failed is run again: as long as the queue is not shutting down, a worker has taken it since, or
  it is waiting and a worker can still take it.
\<close>

theorem failed_key_is_retried:
  assumes "reachable queue_step (new_controller_queue (Suc n)) s"
    and "queue_step s (Handle k AddRateLimited) s1"
    and "reachable queue_step s1 s'" and "\<not> queue_shutting_down s" "\<not> queue_shutting_down s'"
  shows "(\<exists>s2 s3. reachable queue_step s1 s2 \<and> queue_step s2 (Take k) s3 \<and> reachable queue_step s3 s') \<or>
    (\<exists>s2 s3. reachable queue_step s' s2 \<and> queue_step s2 (Take k) s3)"
proof -
  have inv: "queue_inv (Suc n) s1" by (rule queue.preserved [OF queue.reachable_inv [OF assms(1)] assms(2)])
  have "k \<in> awaited s1" by (rule failed_run_awaited [OF assms(2,4)])
  from awaited_until_taken [OF inv this assms(3,5)] awaited_can_be_taken [OF queue.stays_inv [OF assms(3) inv] assms(5)]
  show ?thesis by blast
qed

text \<open>Key 7's run fails with a delay of 5: a worker can take it again.\<close>

theorem failed_key_is_retried_witness:
  "\<exists>s2 s3. reachable queue_step example_failed s2 \<and> queue_step s2 (Take 7) s3"
proof -
  have "reachable queue_step (new_controller_queue (Suc 1)) example_taken"
    using example_run by (simp add: numeral_2_eq_2)
  from failed_key_is_retried [OF this example_failed_step reachable.start] show ?thesis by auto
qed

end
