(* ===== verification/Adapter.thy ===== *)
theory Adapter
  imports SourceApi
begin

section \<open>The receive adapter\<close>

text \<open>
  \<^verbatim>\<open>pkg/adapter\<close>: the HTTP server that receives the webhooks of GitLab and sends each as a
  CloudEvent to the sink (\<^verbatim>\<open>webhook.go\<close>, \<^verbatim>\<open>receive_adapter.go\<close>). A handler returns the sequence of its
  actions, in order: what it does to the body of the request, what it sends and what it answers.
  GitLab's \<^verbatim>\<open>ParseWebhook\<close>, the JSON encoder and the CloudEvents client are parameters.
\<close>

subsection \<open>Requests, events, actions\<close>

text \<open>
  \<open>rq_body\<close> is what \<^verbatim>\<open>io.ReadAll\<close> returns on the body, the bytes and the error; the two other
  fields are the errors of discarding the rest and of closing.
\<close>

record http_request =
  rq_method :: string
  rq_header :: "string \<Rightarrow> string list"
  rq_body :: "string \<times> goerr option"
  rq_discard :: "goerr option"
  rq_close :: "goerr option"

text \<open>\<^verbatim>\<open>header.Get(key)\<close> for a key in canonical form.\<close>

definition header_get :: "(string \<Rightarrow> string list) \<Rightarrow> string \<Rightarrow> string" where
  "header_get hdr k = (case hdr k of [] \<Rightarrow> [] | v # _ \<Rightarrow> v)"

text \<open>A CloudEvent, as the arguments the program gives to the setters of the SDK.\<close>

record cloud_event =
  ce_type :: string
  ce_source :: string
  ce_extensions :: "(string \<times> string) list"
  ce_data :: string

datatype action =
    ReadBody
  | DiscardBody
  | CloseBody
  | LogMessage string
  | SendEvent cloud_event
  | WriteHeader nat
  | WriteBody string

text \<open>
  The result of sending: nil, or a result with its text, of which \<^verbatim>\<open>errors.Is\<close> tells whether it is an
  acknowledgement.
\<close>

datatype ce_result = ResNil | ResReceipt bool goerr

fun is_ack :: "ce_result \<Rightarrow> bool" where
  "is_ack ResNil = True"
| "is_ack (ResReceipt ack _) = ack"

record 'p adapter_env =
  ae_parse :: "string \<Rightarrow> string \<Rightarrow> goerr + 'p"
  ae_marshal :: "'p \<Rightarrow> goerr + string"
  ae_send :: "cloud_event \<Rightarrow> ce_result"

subsection \<open>Configuration\<close>

record env_config =
  cfg_secret :: string
  cfg_port :: string
  cfg_event_source :: string

record adapter =
  ra_event_source :: string
  ra_secret_token :: string
  ra_port :: string

definition new_adapter :: "env_config \<Rightarrow> adapter" where
  "new_adapter cfg =
     \<lparr>ra_event_source = cfg_event_source cfg, ra_secret_token = cfg_secret cfg,
      ra_port = cfg_port cfg\<rparr>"

subsection \<open>The webhook handler\<close>

record 'p webhook =
  wh_secret :: string
  wh_sender :: "'p \<Rightarrow> (string \<Rightarrow> string list) \<Rightarrow> goerr option \<times> action list"

definition new_webhook_handler ::
  "string \<Rightarrow> ('p \<Rightarrow> (string \<Rightarrow> string list) \<Rightarrow> goerr option \<times> action list) \<Rightarrow> 'p webhook" where
  "new_webhook_handler secret sender = \<lparr>wh_secret = secret, wh_sender = sender\<rparr>"

definition ErrMissingGitLabEventHeader :: goerr where
  "ErrMissingGitLabEventHeader = ErrText ''missing X-Gitlab-Event Header''"
definition ErrReadingRequestBody :: goerr where
  "ErrReadingRequestBody = ErrText ''error reading request body''"
definition ErrGitLabTokenVerificationFailed :: goerr where
  "ErrGitLabTokenVerificationFailed = ErrText ''token validation failed''"
definition ErrCouldNotParseWebhookEvent :: goerr where
  "ErrCouldNotParseWebhookEvent = ErrText ''could parse the webhook event''"
definition ErrCouldNotHandleEvent :: goerr where
  "ErrCouldNotHandleEvent = ErrText ''error handling the event''"

text \<open>The function \<^verbatim>\<open>parse\<close> defers: it runs on every return.\<close>

definition log_error :: "string \<Rightarrow> goerr option \<Rightarrow> action list" where
  "log_error m err = (case err of None \<Rightarrow> [] | Some e \<Rightarrow> [LogMessage (m @ err_text e)])"

definition release_body :: "http_request \<Rightarrow> action list" where
  "release_body rq =
     [DiscardBody] @ log_error ''could discard request body: '' (rq_discard rq) @
     [CloseBody] @ log_error ''could not close request body: '' (rq_close rq)"

definition parse_body ::
  "(string \<Rightarrow> string \<Rightarrow> goerr + 'p) \<Rightarrow> string \<Rightarrow> http_request \<Rightarrow> (goerr + 'p) \<times> action list" where
  "parse_body parse secret rq =
     (if rq_method rq \<noteq> ''POST'' then (Inl (ErrText ''invalid HTTP Method''), [])
      else if length secret > 0 \<and> header_get (rq_header rq) ''X-Gitlab-Token'' \<noteq> secret
      then (Inl ErrGitLabTokenVerificationFailed, [])
      else
        (let event = header_get (rq_header rq) ''X-Gitlab-Event''
         in if blank event then (Inl ErrMissingGitLabEventHeader, [])
            else
              (let (payload, err) = rq_body rq
               in if err \<noteq> None \<or> length payload = 0 then (Inl ErrReadingRequestBody, [ReadBody])
                  else (parse event payload, [ReadBody]))))"

definition parse_request ::
  "(string \<Rightarrow> string \<Rightarrow> goerr + 'p) \<Rightarrow> string \<Rightarrow> http_request \<Rightarrow> (goerr + 'p) \<times> action list" where
  "parse_request parse secret rq =
     (let (r, acts) = parse_body parse secret rq in (r, acts @ release_body rq))"

definition serve_http ::
  "(string \<Rightarrow> string \<Rightarrow> goerr + 'p) \<Rightarrow> 'p webhook \<Rightarrow> http_request \<Rightarrow> action list" where
  "serve_http parse hook rq =
     (case parse_request parse (wh_secret hook) rq of
        (Inl e, acts) \<Rightarrow>
          acts @ [WriteHeader 400, WriteBody (err_text ErrCouldNotParseWebhookEvent @ '': '' @ err_text e)]
      | (Inr event, acts) \<Rightarrow>
          (case wh_sender hook event (rq_header rq) of
             (Some e, acts') \<Rightarrow>
               acts @ acts' @
               [WriteHeader 500, WriteBody (err_text ErrCouldNotHandleEvent @ '': '' @ err_text e)]
           | (None, acts') \<Rightarrow> acts @ acts' @ [WriteHeader 202]))"

subsection \<open>From a webhook to a CloudEvent\<close>

definition glHeaderEvent :: string where "glHeaderEvent = ''X-Gitlab-Event''"
definition glHeaderEventCEAttr :: string where "glHeaderEventCEAttr = ''comgitlabevent''"

definition header_suffix :: string where
  "header_suffix = '' Hook''"

definition gitlab_event_header_to_event_type :: "string \<Rightarrow> string" where
  "gitlab_event_header_to_event_type header =
     (if \<not> has_suffix header header_suffix then []
      else to_lower (replace_all_char (CHR '' '') (CHR ''_'')
             (take (length header - length header_suffix) header)))"

definition post_message ::
  "'p adapter_env \<Rightarrow> 'p \<Rightarrow> string \<Rightarrow> string \<Rightarrow> (string \<times> string) list \<Rightarrow> goerr option \<times> action list" where
  "post_message ae payload source etype extensions =
     (case ae_marshal ae payload of
        Inl e \<Rightarrow> (Some (ErrWrap ''failed to marshal event data: '' e), [])
      | Inr data \<Rightarrow>
          (let event = \<lparr>ce_type = etype, ce_source = source, ce_extensions = extensions, ce_data = data\<rparr>
           in case ae_send ae event of
                ResNil \<Rightarrow> (None, [SendEvent event])
              | ResReceipt ack e \<Rightarrow> ((if ack then None else Some e), [SendEvent event])))"

definition handle_event ::
  "'p adapter_env \<Rightarrow> adapter \<Rightarrow> 'p \<Rightarrow> (string \<Rightarrow> string list) \<Rightarrow> goerr option \<times> action list" where
  "handle_event ae ra payload hdr =
     (let event_header = header_get hdr glHeaderEvent;
          event_type = gitlab_event_header_to_event_type event_header
      in if event_type = [] then (Some (ErrText (''invalid webhook event type '' @ event_header)), [])
         else post_message ae payload (ra_event_source ra) (gitlab_event_type event_type)
                [(glHeaderEventCEAttr, event_header)])"

text \<open>The handler the server runs: \<^verbatim>\<open>NewWebhookHandler(ra.secretToken, ra.handleEvent)\<close>.\<close>

definition adapter_handler :: "'p adapter_env \<Rightarrow> adapter \<Rightarrow> http_request \<Rightarrow> action list" where
  "adapter_handler ae ra =
     serve_http (ae_parse ae) (new_webhook_handler (ra_secret_token ra) (handle_event ae ra))"

text \<open>
  The event types \<^verbatim>\<open>ParseWebhook\<close> of the vendored client recognises; for any other it returns an
  error.
\<close>

definition webhook_event_headers :: "string list" where
  "webhook_event_headers =
     [''Build Hook'', ''Deployment Hook'', ''Feature Flag Hook'', ''Issue Hook'',
      ''Confidential Issue Hook'', ''Job Hook'', ''Member Hook'', ''Merge Request Hook'',
      ''Note Hook'', ''Confidential Note Hook'', ''Pipeline Hook'', ''Push Hook'', ''Release Hook'',
      ''Resource Access Token Hook'', ''Service Hook'', ''Subgroup Hook'', ''Tag Push Hook'',
      ''Wiki Page Hook'']"

definition parses_known :: "(string \<Rightarrow> string \<Rightarrow> goerr + 'p) \<Rightarrow> bool" where
  "parses_known parse \<longleftrightarrow> (\<forall>t body x. parse t body = Inr x \<longrightarrow> t \<in> set webhook_event_headers)"

subsection \<open>Facts\<close>

text \<open>The event of an accepted payload.\<close>

definition event_of :: "adapter \<Rightarrow> string \<Rightarrow> string \<Rightarrow> cloud_event" where
  "event_of ra hdr data =
     \<lparr>ce_type = gitlab_event_type (gitlab_event_header_to_event_type hdr),
      ce_source = ra_event_source ra, ce_extensions = [(glHeaderEventCEAttr, hdr)], ce_data = data\<rparr>"

text \<open>Which requests are let through to the parser.\<close>

definition admitted :: "string \<Rightarrow> http_request \<Rightarrow> bool" where
  "admitted secret rq \<longleftrightarrow>
     rq_method rq = ''POST'' \<and>
     (secret = [] \<or> header_get (rq_header rq) ''X-Gitlab-Token'' = secret) \<and>
     \<not> blank (header_get (rq_header rq) ''X-Gitlab-Event'') \<and>
     snd (rq_body rq) = None \<and> fst (rq_body rq) \<noteq> []"

lemma parse_body_Inr:
  "fst (parse_body parse secret rq) = Inr x \<longleftrightarrow>
     admitted secret rq \<and>
     parse (header_get (rq_header rq) ''X-Gitlab-Event'') (fst (rq_body rq)) = Inr x"
  by (auto simp: parse_body_def admitted_def Let_def split: prod.split)

lemma parse_body_actions: "set (snd (parse_body parse secret rq)) \<subseteq> {ReadBody}"
  by (auto simp: parse_body_def Let_def split: prod.split)

lemma release_body_no_response:
  "WriteHeader n \<notin> set (release_body rq)" "SendEvent e \<notin> set (release_body rq)"
  "WriteBody m \<notin> set (release_body rq)"
  by (auto simp: release_body_def log_error_def split: option.splits)

lemma parse_request_eq:
  "parse_request parse secret rq =
     (fst (parse_body parse secret rq), snd (parse_body parse secret rq) @ release_body rq)"
  by (simp add: parse_request_def split: prod.split)

lemma header_type_nonempty:
  "h \<in> set webhook_event_headers \<Longrightarrow> gitlab_event_header_to_event_type h \<noteq> []"
  by (auto simp: webhook_event_headers_def gitlab_event_header_to_event_type_def header_suffix_def
      has_suffix_def)

text \<open>
  What the sender does with a parsed payload: nothing if the header has no event type or the
  payload cannot be encoded, otherwise it sends one event.
\<close>

lemma handle_event_cases:
  obtains (invalid) "gitlab_event_header_to_event_type (header_get hdr glHeaderEvent) = []"
      "handle_event ae ra p hdr =
        (Some (ErrText (''invalid webhook event type '' @ header_get hdr glHeaderEvent)), [])"
  | (marshal) e where "ae_marshal ae p = Inl e"
      "handle_event ae ra p hdr = (Some (ErrWrap ''failed to marshal event data: '' e), [])"
  | (sent) data err where "ae_marshal ae p = Inr data"
      "gitlab_event_header_to_event_type (header_get hdr glHeaderEvent) \<noteq> []"
      "handle_event ae ra p hdr = (err, [SendEvent (event_of ra (header_get hdr glHeaderEvent) data)])"
      "err = None \<longleftrightarrow> is_ack (ae_send ae (event_of ra (header_get hdr glHeaderEvent) data))"
proof (cases "gitlab_event_header_to_event_type (header_get hdr glHeaderEvent) = []")
  case True
  then show ?thesis by (intro invalid) (simp_all add: handle_event_def)
next
  case ne: False
  show ?thesis
  proof (cases "ae_marshal ae p")
    case (Inl e)
    with ne show ?thesis by (intro marshal) (simp_all add: handle_event_def post_message_def)
  next
    case (Inr data)
    show ?thesis
      by (rule sent [OF Inr ne, of "fst (handle_event ae ra p hdr)"])
        (use Inr ne in \<open>auto simp: handle_event_def post_message_def event_of_def Let_def
          split: ce_result.split\<close>)
  qed
qed

text \<open>The actions of the handler, in the two cases of the parser.\<close>

lemma handler_rejects:
  assumes "fst (parse_body (ae_parse ae) (ra_secret_token ra) rq) = Inl e"
  shows "adapter_handler ae ra rq =
    snd (parse_body (ae_parse ae) (ra_secret_token ra) rq) @ release_body rq @
    [WriteHeader 400, WriteBody (err_text ErrCouldNotParseWebhookEvent @ '': '' @ err_text e)]"
  using assms by (simp add: adapter_handler_def serve_http_def new_webhook_handler_def parse_request_eq)

lemma handler_accepts:
  assumes "fst (parse_body (ae_parse ae) (ra_secret_token ra) rq) = Inr p"
  shows "adapter_handler ae ra rq =
    snd (parse_body (ae_parse ae) (ra_secret_token ra) rq) @ release_body rq @
    snd (handle_event ae ra p (rq_header rq)) @
    (case fst (handle_event ae ra p (rq_header rq)) of
       Some e \<Rightarrow> [WriteHeader 500, WriteBody (err_text ErrCouldNotHandleEvent @ '': '' @ err_text e)]
     | None \<Rightarrow> [WriteHeader 202])"
  using assms
  by (simp add: adapter_handler_def serve_http_def new_webhook_handler_def parse_request_eq
      split: prod.split option.split)

lemma parse_body_no_response:
  "WriteHeader n \<notin> set (snd (parse_body parse secret rq))"
  "SendEvent e \<notin> set (snd (parse_body parse secret rq))"
  "WriteBody m \<notin> set (snd (parse_body parse secret rq))"
  using parse_body_actions [of parse secret rq] by auto

lemmas handler_frame = parse_body_no_response release_body_no_response

fun is_response :: "action \<Rightarrow> bool" where
  "is_response (WriteHeader _) = True"
| "is_response (WriteBody _) = True"
| "is_response _ = False"

fun is_send :: "action \<Rightarrow> bool" where
  "is_send (SendEvent _) = True"
| "is_send _ = False"

lemma frame_filters:
  "filter is_response (snd (parse_body parse secret rq)) = []"
  "filter is_send (snd (parse_body parse secret rq)) = []"
  "filter is_response (release_body rq) = []"
  "filter is_send (release_body rq) = []"
  using parse_body_actions [of parse secret rq]
  by (auto simp: filter_empty_conv release_body_def log_error_def split: option.splits)

subsection \<open>A concrete adapter\<close>

definition sim_adapter :: adapter where
  "sim_adapter =
     \<lparr>ra_event_source = ''https://gitlab.com/g/p'', ra_secret_token = ''s3cret'', ra_port = ''8080''\<rparr>"

definition sim_adapter_env :: "ce_result \<Rightarrow> string adapter_env" where
  "sim_adapter_env res =
     \<lparr>ae_parse = (\<lambda>t body. if t \<in> set webhook_event_headers then Inr body
        else Inl (ErrText (''unexpected event type: '' @ t))),
      ae_marshal = Inr, ae_send = (\<lambda>_. res)\<rparr>"

definition sim_request :: "string \<Rightarrow> string \<Rightarrow> http_request" where
  "sim_request token event =
     \<lparr>rq_method = ''POST'',
      rq_header = (\<lambda>k. if k = ''X-Gitlab-Token'' then [token]
        else if k = ''X-Gitlab-Event'' then [event] else []),
      rq_body = (''{}'', None), rq_discard = None, rq_close = None\<rparr>"

lemma sim_parses_known: "parses_known (ae_parse (sim_adapter_env res))"
  by (simp add: parses_known_def sim_adapter_env_def)

section \<open>Properties of the receive adapter\<close>

text \<open>
  C25: the adapter sends an event only for an authenticated request: a POST with the secret token of
  the source, if there is one, an event header and a non-empty body that parses; the event is the
  one of the header and the payload, with the project's URL as its source.
\<close>

theorem adapter_sends_authenticated:
  assumes "SendEvent ev \<in> set (adapter_handler ae ra rq)"
  shows "admitted (ra_secret_token ra) rq \<and>
    (\<exists>p data. ae_parse ae (header_get (rq_header rq) ''X-Gitlab-Event'') (fst (rq_body rq)) = Inr p \<and>
       ae_marshal ae p = Inr data \<and>
       ev = event_of ra (header_get (rq_header rq) ''X-Gitlab-Event'') data)"
proof (cases "fst (parse_body (ae_parse ae) (ra_secret_token ra) rq)")
  case (Inl e)
  with assms show ?thesis by (simp add: handler_rejects handler_frame)
next
  case (Inr p)
  with assms have "SendEvent ev \<in> set (snd (handle_event ae ra p (rq_header rq)))"
    by (auto simp: handler_accepts handler_frame split: option.splits)
  then show ?thesis
    using Inr [unfolded parse_body_Inr]
    by (cases rule: handle_event_cases [of "rq_header rq" ae ra p]) (auto simp: glHeaderEvent_def)
qed

theorem adapter_sends_authenticated_witness:
  "admitted ''s3cret'' (sim_request ''s3cret'' ''Push Hook'')"
proof -
  have "SendEvent (event_of sim_adapter ''Push Hook'' ''{}'')
      \<in> set (adapter_handler (sim_adapter_env ResNil) sim_adapter (sim_request ''s3cret'' ''Push Hook''))"
    by code_simp
  from adapter_sends_authenticated [OF this] show ?thesis by (simp add: sim_adapter_def)
qed

text \<open>
  Every request gets exactly one response, with status 202, 400 or 500, as the last thing the
  handler does; before it, the body has been discarded and closed exactly once, and at most one event
  has been sent.
\<close>

theorem adapter_one_response:
  "\<exists>pre n body. adapter_handler ae ra rq = pre @ WriteHeader n # body \<and> n \<in> {202, 400, 500} \<and>
     filter is_response pre = [] \<and> (\<exists>m. body = [] \<or> body = [WriteBody m]) \<and>
     count_list pre DiscardBody = 1 \<and> count_list pre CloseBody = 1 \<and> length (filter is_send pre) \<le> 1"
proof -
  let ?b = "parse_body (ae_parse ae) (ra_secret_token ra) rq"
  have none: "count_list (snd ?b) DiscardBody = 0" "count_list (snd ?b) CloseBody = 0"
    using parse_body_actions [of "ae_parse ae" "ra_secret_token ra" rq]
    by (auto simp: count_list_0_iff)
  have once: "count_list (release_body rq) DiscardBody = 1" "count_list (release_body rq) CloseBody = 1"
    by (simp_all add: release_body_def log_error_def split: option.split)
  show ?thesis
  proof (cases "fst ?b")
    case (Inl e)
    with none once show ?thesis
      by (intro exI [of _ "snd ?b @ release_body rq"] exI [of _ 400]
          exI [of _ "[WriteBody (err_text ErrCouldNotParseWebhookEvent @ '': '' @ err_text e)]"])
        (simp add: handler_rejects frame_filters)
  next
    case (Inr p)
    let ?h = "handle_event ae ra p (rq_header rq)"
    have h: "filter is_response (snd ?h) = []" "length (filter is_send (snd ?h)) \<le> 1"
      "count_list (snd ?h) DiscardBody = 0" "count_list (snd ?h) CloseBody = 0"
      by (cases rule: handle_event_cases [of "rq_header rq" ae ra p]; simp)+
    show ?thesis
    proof (cases "fst ?h")
      case None
      with none once h Inr show ?thesis
        by (intro exI [of _ "snd ?b @ release_body rq @ snd ?h"] exI [of _ 202] exI [of _ "[]"])
          (simp add: handler_accepts frame_filters)
    next
      case (Some e)
      with none once h Inr show ?thesis
        by (intro exI [of _ "snd ?b @ release_body rq @ snd ?h"] exI [of _ 500]
            exI [of _ "[WriteBody (err_text ErrCouldNotHandleEvent @ '': '' @ err_text e)]"])
          (simp add: handler_accepts frame_filters)
    qed
  qed
qed

text \<open>
  The adapter answers 202 exactly when the sink acknowledged the event, so that GitLab, which
  repeats a delivery that failed, is told of a success only after the event has arrived.
\<close>

theorem adapter_accepts_acknowledged:
  "WriteHeader 202 \<in> set (adapter_handler ae ra rq) \<longleftrightarrow>
     (\<exists>ev. SendEvent ev \<in> set (adapter_handler ae ra rq) \<and> is_ack (ae_send ae ev))"
proof (cases "fst (parse_body (ae_parse ae) (ra_secret_token ra) rq)")
  case (Inl e)
  then show ?thesis by (simp add: handler_rejects handler_frame)
next
  case (Inr p)
  show ?thesis
    by (cases rule: handle_event_cases [of "rq_header rq" ae ra p])
      (auto simp: handler_accepts [OF Inr] handler_frame split: option.splits)
qed

text \<open>
  With a parser that recognises the event types of GitLab only, the check of the event type in
  \<^verbatim>\<open>handleEvent\<close> never fails: a request that parses is answered 500 only if the payload could not be
  encoded or the sink did not acknowledge the event.
\<close>

theorem adapter_internal_errors:
  assumes known: "parses_known (ae_parse ae)"
    and err: "WriteHeader 500 \<in> set (adapter_handler ae ra rq)"
  shows "(\<exists>p e. ae_marshal ae p = Inl e) \<or>
    (\<exists>ev. SendEvent ev \<in> set (adapter_handler ae ra rq) \<and> \<not> is_ack (ae_send ae ev))"
proof (cases "fst (parse_body (ae_parse ae) (ra_secret_token ra) rq)")
  case (Inl e)
  with err show ?thesis by (simp add: handler_rejects handler_frame)
next
  case (Inr p)
  then have "header_get (rq_header rq) glHeaderEvent \<in> set webhook_event_headers"
    using known by (auto simp: parse_body_Inr parses_known_def glHeaderEvent_def)
  then have "gitlab_event_header_to_event_type (header_get (rq_header rq) glHeaderEvent) \<noteq> []"
    by (rule header_type_nonempty)
  then show ?thesis
    using err
    by (cases rule: handle_event_cases [of "rq_header rq" ae ra p])
      (auto simp: handler_accepts [OF Inr] handler_frame split: option.splits)
qed

theorem adapter_internal_errors_witness:
  "\<exists>ev. SendEvent ev \<in> set (adapter_handler (sim_adapter_env (ResReceipt False (ErrText ''503'')))
     sim_adapter (sim_request ''s3cret'' ''Push Hook''))"
proof -
  let ?ae = "sim_adapter_env (ResReceipt False (ErrText ''503''))"
  have "WriteHeader 500 \<in> set (adapter_handler ?ae sim_adapter (sim_request ''s3cret'' ''Push Hook''))"
    by code_simp
  from adapter_internal_errors [OF sim_parses_known this] show ?thesis
    by (auto simp: sim_adapter_env_def)
qed







text \<open>
  An event type has no upper-case letter and no space, and it is empty exactly for a header that
  is not of the form \<open>T Hook\<close> with a non-empty \<open>T\<close>.
\<close>

theorem event_type_snake_case:
  "CHR '' '' \<notin> set (gitlab_event_header_to_event_type hdr) \<and>
   to_lower (gitlab_event_header_to_event_type hdr) = gitlab_event_header_to_event_type hdr \<and>
   (gitlab_event_header_to_event_type hdr = [] \<longleftrightarrow> \<not> (\<exists>t. t \<noteq> [] \<and> hdr = t @ '' Hook''))"
proof -
  have low: "CHR '' '' \<notin> set s \<Longrightarrow> CHR '' '' \<notin> set (to_lower s)" for s
    by (auto simp: to_lower_def lower_char_def is_upper_def split: if_splits)
      (auto dest!: arg_cong [of _ _ "of_char :: char \<Rightarrow> nat"])
  show ?thesis
    by (auto simp: gitlab_event_header_to_event_type_def header_suffix_def has_suffix_iff
        intro!: low replace_all_char_absent)
qed

end
