(* ===== verification/AdapterMain.thy ===== *)
theory AdapterMain
  imports Adapter Simulation Traces "HOL-Library.AList"
begin

section \<open>The process of the receive adapter\<close>

text \<open>
  \<^verbatim>\<open>cmd/receive_adapter/main.go\<close> and what it calls: the environment of the process is read by
  \<^verbatim>\<open>github.com/kelseyhightower/envconfig\<close> into the fields of \<^verbatim>\<open>envConfig\<close> (\<^verbatim>\<open>pkg/adapter/receive_adapter.go\<close>) and of the
  \<^verbatim>\<open>EnvConfig\<close> it embeds (\<^verbatim>\<open>knative.dev/eventing/pkg/adapter/v2\<close>), from which the CloudEvents client and the adapter are
  built. The environment is the one of the container that the controller's service describes, so this is where the two
  processes meet: the hook that the controller keeps in the project and the adapter that answers its calls.
\<close>

subsection \<open>Reading the environment\<close>

text \<open>A field of the specification: the key of its tag, its default (empty if there is none) and whether it is required.\<close>

record env_field =
  ef_key :: string
  ef_default :: string
  ef_required :: bool

definition lookup_field :: "(string \<Rightarrow> string option) \<Rightarrow> env_field \<Rightarrow> goerr + string option" where
  "lookup_field lk f =
     (case lk (ef_key f) of
        Some v \<Rightarrow> Inr (Some v)
      | None \<Rightarrow>
          if ef_default f \<noteq> [] then Inr (Some (ef_default f))
          else if ef_required f then Inl (ErrText (''required key '' @ ef_key f @ '' missing value''))
          else Inr None)"

text \<open>The fields in the order of the struct, the embedded ones first; the first error ends it. All are strings, so none fails to parse.\<close>

fun process_fields :: "(string \<Rightarrow> string option) \<Rightarrow> env_field list \<Rightarrow> goerr + (string \<times> string) list" where
  "process_fields lk [] = Inr []"
| "process_fields lk (f # fs) =
     (case lookup_field lk f of
        Inl e \<Rightarrow> Inl e
      | Inr v \<Rightarrow>
          (case process_fields lk fs of
             Inl e \<Rightarrow> Inl e
           | Inr vs \<Rightarrow> Inr ((case v of None \<Rightarrow> [] | Some x \<Rightarrow> [(ef_key f, x)]) @ vs)))"

definition optional_field :: "string \<Rightarrow> string \<Rightarrow> env_field" where
  "optional_field k d = \<lparr>ef_key = k, ef_default = d, ef_required = False\<rparr>"

definition required_field :: "string \<Rightarrow> env_field" where
  "required_field k = \<lparr>ef_key = k, ef_default = [], ef_required = True\<rparr>"

definition base_fields :: "env_field list" where
  "base_fields =
     [optional_field ''K_COMPONENT'' [], optional_field ''NAMESPACE'' [], optional_field ''NAME'' ''adapter'',
      optional_field ''K_RESOURCE_GROUP'' ''adapter.sources.knative.dev'', optional_field ''K_SINK'' [],
      optional_field ''K_AUDIENCE'' [], optional_field ''K_OIDC_SERVICE_ACCOUNT'' [], optional_field ''K_CA_CERTS'' [],
      optional_field ''K_CE_OVERRIDES'' [], optional_field ''K_LOGGING_CONFIG'' ''{}'',
      optional_field ''K_KLOG_VERBOSITY'' ''0'', optional_field ''K_OBSERVABILITY_CONFIG'' ''{}'',
      optional_field ''K_LEADER_ELECTION_CONFIG'' [], optional_field ''K_SINK_TIMEOUT'' []]"

definition adapter_fields :: "env_field list" where
  "adapter_fields =
     base_fields @ [required_field ''GITLAB_SECRET_TOKEN'', optional_field ''PORT'' ''8080'',
       required_field ''GITLAB_EVENT_SOURCE'']"

text \<open>The fields of the embedded \<^verbatim>\<open>EnvConfig\<close> that the client is built from; a pointer that was not set is \<open>None\<close>.\<close>

record base_config =
  bc_namespace :: string
  bc_sink :: string
  bc_audience :: "string option"
  bc_oidc_account :: "string option"
  bc_ce_overrides :: string

definition new_env_config :: env_config where
  "new_env_config = \<lparr>cfg_secret = [], cfg_port = [], cfg_event_source = []\<rparr>"

text \<open>A field that no value was found for stays as \<^verbatim>\<open>NewEnvConfig\<close> left it.\<close>

definition field_or :: "string \<Rightarrow> (string \<times> string) list \<Rightarrow> string \<Rightarrow> string" where
  "field_or z vs k = (case map_of vs k of None \<Rightarrow> z | Some v \<Rightarrow> v)"

definition base_config_of :: "(string \<times> string) list \<Rightarrow> base_config" where
  "base_config_of vs =
     \<lparr>bc_namespace = field_or [] vs ''NAMESPACE'', bc_sink = field_or [] vs ''K_SINK'',
      bc_audience = map_of vs ''K_AUDIENCE'', bc_oidc_account = map_of vs ''K_OIDC_SERVICE_ACCOUNT'',
      bc_ce_overrides = field_or [] vs ''K_CE_OVERRIDES''\<rparr>"

definition env_config_of :: "(string \<times> string) list \<Rightarrow> env_config" where
  "env_config_of vs =
     (let z = new_env_config
      in z\<lparr>cfg_secret := field_or (cfg_secret z) vs ''GITLAB_SECRET_TOKEN'',
           cfg_port := field_or (cfg_port z) vs ''PORT'',
           cfg_event_source := field_or (cfg_event_source z) vs ''GITLAB_EVENT_SOURCE''\<rparr>)"

definition construct_env_or_die :: "(string \<Rightarrow> string option) \<Rightarrow> (base_config \<times> env_config) result" where
  "construct_env_or_die lk =
     (case process_fields lk adapter_fields of
        Inl e \<Rightarrow> Panic (''Error processing env var: '' @ err_text e)
      | Inr vs \<Rightarrow> Ok (base_config_of vs, env_config_of vs))"

subsection \<open>The CloudEvents client\<close>

text \<open>
  Parameters: the parser and the encoder of GitLab's events, the JSON decoder of the overrides, what the SDK's
  constructor says of the target, the token of an OIDC account, and the delivery of an event to the target.
\<close>

record 'p process_env =
  pe_parse :: "string \<Rightarrow> string \<Rightarrow> goerr + 'p"
  pe_marshal :: "'p \<Rightarrow> goerr + string"
  pe_decode :: "string \<Rightarrow> goerr + (string \<times> string) list"
  pe_new_http :: "string option \<Rightarrow> goerr option"
  pe_auth :: "string \<Rightarrow> string \<times> string \<Rightarrow> goerr option"
  pe_deliver :: "string option \<Rightarrow> cloud_event \<Rightarrow> ce_result"

record ce_client =
  cl_target :: "string option"
  cl_overrides :: "(string \<times> string) list"
  cl_audience :: "string option"
  cl_oidc_account :: "(string \<times> string) option"

definition cloud_event_overrides ::
  "(string \<Rightarrow> goerr + (string \<times> string) list) \<Rightarrow> base_config \<Rightarrow> goerr + (string \<times> string) list" where
  "cloud_event_overrides decode bc = (if length (bc_ce_overrides bc) > 0 then decode (bc_ce_overrides bc) else Inr [])"

definition new_ce_client :: "'p process_env \<Rightarrow> base_config \<Rightarrow> goerr + ce_client" where
  "new_ce_client pe bc =
     (let target = (if length (bc_sink bc) > 0 then Some (bc_sink bc) else None)
      in case cloud_event_overrides (pe_decode pe) bc of
           Inl e \<Rightarrow> Inl e
         | Inr ov \<Rightarrow>
             (case pe_new_http pe target of
                Some e \<Rightarrow> Inl e
              | None \<Rightarrow> Inr \<lparr>cl_target = target, cl_overrides = ov, cl_audience = bc_audience bc,
                  cl_oidc_account = map_option (\<lambda>n. (bc_namespace bc, n)) (bc_oidc_account bc)\<rparr>))"

definition apply_overrides :: "(string \<times> string) list \<Rightarrow> cloud_event \<Rightarrow> cloud_event" where
  "apply_overrides ov ev = ev\<lparr>ce_extensions := fold (\<lambda>(n, v). AList.update n v) ov (ce_extensions ev)\<rparr>"

definition client_send :: "'p process_env \<Rightarrow> ce_client \<Rightarrow> cloud_event \<Rightarrow> ce_result" where
  "client_send pe cl ev =
     (let out = apply_overrides (cl_overrides cl) ev
      in case (cl_audience cl, cl_oidc_account cl) of
           (Some a, Some s) \<Rightarrow>
             (case pe_auth pe a s of Some e \<Rightarrow> ResReceipt False e | None \<Rightarrow> pe_deliver pe (cl_target cl) out)
         | _ \<Rightarrow> pe_deliver pe (cl_target cl) out)"

subsection \<open>The main function\<close>

text \<open>
  Up to \<^verbatim>\<open>Start\<close>: the adapter and the environment of its handler. \<open>Err\<close> is the exit of \<^verbatim>\<open>logger.Fatalw\<close>. The informers,
  health probes and profiling server that \<^verbatim>\<open>MainWithEnv\<close> starts besides do not reach the adapter.
\<close>

definition adapter_main :: "'p process_env \<Rightarrow> (string \<Rightarrow> string option) \<Rightarrow> (adapter \<times> 'p adapter_env) result" where
  "adapter_main pe lk =
     (case construct_env_or_die lk of
        Panic m \<Rightarrow> Panic m
      | Err e \<Rightarrow> Err e
      | Ok (bc, cfg) \<Rightarrow>
          (case new_ce_client pe bc of
             Inl e \<Rightarrow> Err (ErrWrap ''Error building cloud event client: '' e)
           | Inr cl \<Rightarrow> Ok (new_adapter cfg,
               \<lparr>ae_parse = pe_parse pe, ae_marshal = pe_marshal pe, ae_send = client_send pe cl\<rparr>)))"

subsection \<open>The variables of the configuration\<close>

text \<open>
  \<^verbatim>\<open>ConfigWatcher.ToEnvVars\<close> of the controller: the logging and the observability configuration as JSON text, \<open>None\<close>
  where the watcher has none.
\<close>

definition to_env_vars :: "string option \<Rightarrow> string \<Rightarrow> string option \<Rightarrow> env_var list" where
  "to_env_vars logging verbosity observability =
     (case logging of
        None \<Rightarrow> []
      | Some c \<Rightarrow> [plain_env ''K_LOGGING_CONFIG'' c,
          plain_env ''K_KLOG_VERBOSITY'' (if verbosity = [] then ''0'' else verbosity)]) @
     (case observability of None \<Rightarrow> [] | Some c \<Rightarrow> [plain_env ''K_OBSERVABILITY_CONFIG'' c])"

subsection \<open>The container\<close>

text \<open>
  What Kubernetes documents of the environment of a container: a variable that is listed once has its value, where
  a value without a dollar sign has no reference to expand, or the value of the key of the Secret it names, without
  which the container does not start. The adapter's image and Knative Serving set none of the adapter's other variables
  but \<^verbatim>\<open>PORT\<close>.
\<close>

definition container_env ::
  "(secret_key_selector \<Rightarrow> string option) \<Rightarrow> env_var list \<Rightarrow> (string \<Rightarrow> string option) \<Rightarrow> bool" where
  "container_env secret vars lk \<longleftrightarrow>
     (\<forall>v \<in> set vars. length (filter (\<lambda>w. ev_name w = ev_name v) vars) = 1 \<longrightarrow>
        (case ev_value_from v of
           None \<Rightarrow> CHR ''$'' \<in> set (ev_value v) \<or> lk (ev_name v) = Some (ev_value v)
         | Some None \<Rightarrow> False
         | Some (Some sel) \<Rightarrow> secret sel \<noteq> None \<and> lk (ev_name v) = secret sel)) \<and>
     (\<forall>f \<in> set adapter_fields. ef_key f \<notin> ev_name ` set vars \<and> ef_key f \<noteq> ''PORT'' \<longrightarrow> lk (ef_key f) = None)"


subsection \<open>Facts on the environment\<close>

definition field_value :: "(string \<Rightarrow> string option) \<Rightarrow> env_field \<Rightarrow> string option" where
  "field_value lk f =
     (case lk (ef_key f) of Some v \<Rightarrow> Some v | None \<Rightarrow> if ef_default f \<noteq> [] then Some (ef_default f) else None)"

definition missing_field :: "(string \<Rightarrow> string option) \<Rightarrow> env_field \<Rightarrow> bool" where
  "missing_field lk f \<longleftrightarrow> ef_required f \<and> field_value lk f = None"

lemma lookup_field_eq:
  "lookup_field lk f = (if missing_field lk f then Inl (ErrText (''required key '' @ ef_key f @ '' missing value''))
     else Inr (field_value lk f))"
  by (simp add: lookup_field_def field_value_def missing_field_def split: option.split)

lemma process_fields_ok:
  assumes "\<forall>f \<in> set fs. \<not> missing_field lk f" and "distinct (map ef_key fs)"
  shows "\<exists>vs. process_fields lk fs = Inr vs \<and> (\<forall>f \<in> set fs. map_of vs (ef_key f) = field_value lk f) \<and>
    fst ` set vs \<subseteq> ef_key ` set fs"
  using assms
proof (induction fs)
  case (Cons f fs)
  then obtain vs where vs: "process_fields lk fs = Inr vs" "\<forall>g \<in> set fs. map_of vs (ef_key g) = field_value lk g"
    "fst ` set vs \<subseteq> ef_key ` set fs" by auto
  then have none: "map_of vs (ef_key f) = None" using Cons.prems(2) by (auto simp: map_of_eq_None_iff)
  show ?case
  proof (cases "field_value lk f")
    case None
    then show ?thesis using vs none Cons.prems(1) by (intro exI [of _ vs]) (auto simp: lookup_field_eq)
  next
    case (Some v)
    then show ?thesis using vs none Cons.prems
      by (intro exI [of _ "(ef_key f, v) # vs"]) (auto simp: lookup_field_eq, metis imageI)
  qed
qed simp

lemma process_fields_missing:
  assumes "\<exists>f \<in> set fs. missing_field lk f"
  shows "\<exists>f \<in> set fs. missing_field lk f \<and>
    process_fields lk fs = Inl (ErrText (''required key '' @ ef_key f @ '' missing value''))"
  using assms
proof (induction fs)
  case (Cons f fs)
  show ?case
  proof (cases "missing_field lk f")
    case False
    with Cons obtain g where "g \<in> set fs" "missing_field lk g"
      "process_fields lk fs = Inl (ErrText (''required key '' @ ef_key g @ '' missing value''))" by auto
    with False show ?thesis by (intro bexI [of _ g]) (simp_all add: lookup_field_eq)
  qed (simp add: lookup_field_eq)
qed simp

lemma adapter_fields_distinct: "distinct (map ef_key adapter_fields)"
  by code_simp

lemma adapter_fields_missing:
  "(\<exists>f \<in> set adapter_fields. missing_field lk f) \<longleftrightarrow>
     lk ''GITLAB_SECRET_TOKEN'' = None \<or> lk ''GITLAB_EVENT_SOURCE'' = None"
  by (auto simp: adapter_fields_def base_fields_def missing_field_def field_value_def optional_field_def
      required_field_def split: option.splits)

lemma adapter_values:
  assumes "lk ''GITLAB_SECRET_TOKEN'' = Some tok" "lk ''GITLAB_EVENT_SOURCE'' = Some url"
  shows "\<exists>bc cfg. construct_env_or_die lk = Ok (bc, cfg) \<and> cfg_secret cfg = tok \<and> cfg_event_source cfg = url \<and>
    cfg_port cfg = (case lk ''PORT'' of None \<Rightarrow> ''8080'' | Some p \<Rightarrow> p) \<and>
    bc_sink bc = (case lk ''K_SINK'' of None \<Rightarrow> [] | Some u \<Rightarrow> u) \<and>
    bc_ce_overrides bc = (case lk ''K_CE_OVERRIDES'' of None \<Rightarrow> [] | Some u \<Rightarrow> u) \<and>
    bc_audience bc = lk ''K_AUDIENCE'' \<and> bc_oidc_account bc = lk ''K_OIDC_SERVICE_ACCOUNT''"
proof -
  have "\<forall>f \<in> set adapter_fields. \<not> missing_field lk f" using adapter_fields_missing [of lk] assms by auto
  from process_fields_ok [OF this adapter_fields_distinct] obtain vs where vs: "process_fields lk adapter_fields = Inr vs"
    "\<forall>f \<in> set adapter_fields. map_of vs (ef_key f) = field_value lk f" by blast
  have opt: "map_of vs k = field_value lk (optional_field k d)" if "optional_field k d \<in> set adapter_fields" for k d
    using vs(2) that by (force simp: optional_field_def)
  have req: "map_of vs k = field_value lk (required_field k)" if "required_field k \<in> set adapter_fields" for k
    using vs(2) that by (force simp: required_field_def)
  have "map_of vs ''GITLAB_SECRET_TOKEN'' = Some tok" "map_of vs ''GITLAB_EVENT_SOURCE'' = Some url"
    using req [of "''GITLAB_SECRET_TOKEN''"] req [of "''GITLAB_EVENT_SOURCE''"] assms
    by (simp_all add: adapter_fields_def field_value_def required_field_def)
  moreover have "map_of vs ''PORT'' = Some (case lk ''PORT'' of None \<Rightarrow> ''8080'' | Some p \<Rightarrow> p)"
    using opt [of "''PORT''" "''8080''"] by (simp add: adapter_fields_def field_value_def optional_field_def split: option.split)
  moreover have "map_of vs k = lk k" if "optional_field k [] \<in> set base_fields" for k
    using opt [of k "[]"] that by (simp add: adapter_fields_def field_value_def optional_field_def split: option.split)
  ultimately show ?thesis using vs(1)
    by (simp add: construct_env_or_die_def base_config_of_def env_config_of_def new_env_config_def field_or_def base_fields_def
        optional_field_def)
qed

subsection \<open>The container of a source's adapter\<close>

lemma adapter_names_distinct:
  "e_config_env en = to_env_vars l v ob \<Longrightarrow> distinct (map ev_name (adapter_env_vars en src))"
  by (cases l; cases ob) (auto simp: adapter_env_vars_def plain_env_def to_env_vars_def)

lemma container_value:
  assumes "container_env secret vars lk" and distinct: "distinct (map ev_name vars)" and v: "v \<in> set vars"
  shows "ev_value_from v = None \<Longrightarrow> CHR ''$'' \<notin> set (ev_value v) \<Longrightarrow> lk (ev_name v) = Some (ev_value v)"
    "ev_value_from v = Some (Some sel) \<Longrightarrow> \<exists>x. secret sel = Some x \<and> lk (ev_name v) = Some x"
proof -
  have "length (filter (\<lambda>w. ev_name w = ev_name v) vars) = 1"
    using distinct v by (induction vars) (auto simp: filter_empty_conv image_iff)
  with assms(1) v have "case ev_value_from v of
      None \<Rightarrow> CHR ''$'' \<in> set (ev_value v) \<or> lk (ev_name v) = Some (ev_value v)
    | Some None \<Rightarrow> False | Some (Some sel) \<Rightarrow> secret sel \<noteq> None \<and> lk (ev_name v) = secret sel"
    unfolding container_env_def by blast
  then show "ev_value_from v = None \<Longrightarrow> CHR ''$'' \<notin> set (ev_value v) \<Longrightarrow> lk (ev_name v) = Some (ev_value v)"
    and "ev_value_from v = Some (Some sel) \<Longrightarrow> \<exists>x. secret sel = Some x \<and> lk (ev_name v) = Some x" by auto
qed

lemma container_unset:
  assumes "container_env secret vars lk" and "f \<in> set adapter_fields" and "ef_key f \<notin> ev_name ` set vars" "ef_key f \<noteq> ''PORT''"
  shows "lk (ef_key f) = None"
  using assms by (auto simp: container_env_def)

lemma adapter_container:
  assumes hosted: "container_env secret (adapter_env_vars en src) lk" and config: "e_config_env en = to_env_vars l v ob"
    and token: "spec_secret_token (src_spec src) = Some sel"
  shows "\<exists>tok. secret sel = Some tok \<and> lk ''GITLAB_SECRET_TOKEN'' = Some tok"
    "CHR ''$'' \<notin> set (as_event_source src) \<Longrightarrow> lk ''GITLAB_EVENT_SOURCE'' = Some (as_event_source src)"
    "CHR ''$'' \<notin> set (url_string (st_sink_uri (src_status src))) \<Longrightarrow>
      lk ''K_SINK'' = Some (url_string (st_sink_uri (src_status src)))"
    "lk ''K_CE_OVERRIDES'' = None" "lk ''K_AUDIENCE'' = None"
proof -
  note listed = container_value [OF hosted adapter_names_distinct [OF config]]
  show "\<exists>tok. secret sel = Some tok \<and> lk ''GITLAB_SECRET_TOKEN'' = Some tok"
    using listed(2) [of "\<lparr>ev_name = ''GITLAB_SECRET_TOKEN'', ev_value = [], ev_value_from = Some (Some sel)\<rparr>" sel]
    by (simp add: adapter_env_vars_def token)
  show "lk ''GITLAB_EVENT_SOURCE'' = Some (as_event_source src)" if "CHR ''$'' \<notin> set (as_event_source src)"
    using listed(1) [of "plain_env ''GITLAB_EVENT_SOURCE'' (as_event_source src)"] that
    by (simp add: adapter_env_vars_def plain_env_def)
  show "lk ''K_SINK'' = Some (url_string (st_sink_uri (src_status src)))"
    if "CHR ''$'' \<notin> set (url_string (st_sink_uri (src_status src)))"
    using listed(1) [of "plain_env ''K_SINK'' (url_string (st_sink_uri (src_status src)))"] that
    by (simp add: adapter_env_vars_def plain_env_def)
  have names: "ev_name ` set (adapter_env_vars en src) \<subseteq> {''GITLAB_SECRET_TOKEN'', ''GITLAB_EVENT_SOURCE'', ''K_SINK'',
      ''NAMESPACE'', ''METRICS_DOMAIN'', ''METRICS_PROMETHEUS_PORT'', ''K_LOGGING_CONFIG'', ''K_KLOG_VERBOSITY'',
      ''K_OBSERVABILITY_CONFIG''}"
    by (auto simp: adapter_env_vars_def plain_env_def config to_env_vars_def split: option.splits)
  show "lk ''K_CE_OVERRIDES'' = None"
    using container_unset [OF hosted, of "optional_field ''K_CE_OVERRIDES'' []"] names
    by (auto simp: adapter_fields_def base_fields_def optional_field_def)
  show "lk ''K_AUDIENCE'' = None"
    using container_unset [OF hosted, of "optional_field ''K_AUDIENCE'' []"] names
    by (auto simp: adapter_fields_def base_fields_def optional_field_def)
qed


definition sink_target :: "source_status \<Rightarrow> string option" where
  "sink_target st = (let u = url_string (st_sink_uri st) in if u = [] then None else Some u)"

text \<open>The adapter that starts in the container, and where its events go: the overrides are empty.\<close>

lemma adapter_process:
  assumes hosted: "container_env secret (adapter_env_vars en src) lk" and config: "e_config_env en = to_env_vars l v ob"
    and token: "spec_secret_token (src_spec src) = Some sel" "secret sel = Some tok"
    and plain: "CHR ''$'' \<notin> set (as_event_source src)" "CHR ''$'' \<notin> set (url_string (st_sink_uri (src_status src)))"
    and http: "pe_new_http pe (sink_target (src_status src)) = None"
  shows "\<exists>port. adapter_main pe lk =
    Ok (\<lparr>ra_event_source = as_event_source src, ra_secret_token = tok, ra_port = port\<rparr>,
      \<lparr>ae_parse = pe_parse pe, ae_marshal = pe_marshal pe, ae_send = pe_deliver pe (sink_target (src_status src))\<rparr>)"
proof -
  note c = adapter_container [OF hosted config token(1)]
  have "lk ''GITLAB_SECRET_TOKEN'' = Some tok" using c(1) token(2) by simp
  from adapter_values [OF this c(2) [OF plain(1)]] obtain bc cfg
    where env: "construct_env_or_die lk = Ok (bc, cfg)" "cfg_secret cfg = tok" "cfg_event_source cfg = as_event_source src"
      and bc: "bc_sink bc = url_string (st_sink_uri (src_status src))" "bc_ce_overrides bc = []" "bc_audience bc = None"
    using c(3) [OF plain(2)] c(4,5) by auto
  have "(if length (bc_sink bc) > 0 then Some (bc_sink bc) else None) = sink_target (src_status src)"
    by (simp add: sink_target_def bc Let_def)
  then have "new_ce_client pe bc = Inr \<lparr>cl_target = sink_target (src_status src), cl_overrides = [], cl_audience = None,
      cl_oidc_account = map_option (\<lambda>n. (bc_namespace bc, n)) (bc_oidc_account bc)\<rparr>"
    using http bc by (simp add: new_ce_client_def cloud_event_overrides_def Let_def)
  moreover have "client_send pe \<lparr>cl_target = t, cl_overrides = [], cl_audience = None, cl_oidc_account = acc\<rparr> =
      pe_deliver pe t" for t acc
    by (auto simp: client_send_def apply_overrides_def Let_def)
  ultimately show ?thesis using env by (simp add: adapter_main_def new_adapter_def)
qed

text \<open>The token of the client is the one of the Secret the adapter's container reads.\<close>

lemma get_webhook_client_built:
  assumes "get_webhook_client en src h = (Ok c, h')"
  obtains base project secrets h1 where
    "get_secrets en (om_namespace (src_meta src)) [spec_access_token (src_spec src), spec_secret_token (src_spec src)] h
      = (Inr secrets, h1)" "client_for en base project secrets = Ok c"
proof -
  let ?s = "get_secrets en (om_namespace (src_meta src))
    [spec_access_token (src_spec src), spec_secret_token (src_spec src)] h"
  obtain base project where "split_project_url (e_auth en) (spec_project_url (src_spec src)) = Ok (base, project)"
    using assms by (cases "split_project_url (e_auth en) (spec_project_url (src_spec src))")
      (auto simp: get_webhook_client_def)
  moreover obtain r h1 where "?s = (r, h1)" by (metis surj_pair)
  ultimately show ?thesis using assms that [of _ h1 base project]
    by (cases r) (simp_all add: get_webhook_client_def)
qed

lemma client_token:
  assumes "client_of en src c" and token: "spec_secret_token (src_spec src) = Some sel"
    and steady: "\<And>h. e_get_secret en h (om_namespace (src_meta src)) (sks_name sel) = Inr d"
  shows "wc_secret_token c = (if data_value d (sks_key sel) = [] then None else Some (data_value d (sks_key sel)))"
proof -
  obtain h h' base project secrets h1 where
    s: "get_secrets en (om_namespace (src_meta src)) [spec_access_token (src_spec src), Some sel] h = (Inr secrets, h1)"
    and cl: "client_for en base project secrets = Ok c"
    using assms(1) unfolding client_of_def token [symmetric] by (metis get_webhook_client_built)
  have "\<exists>x. secrets = [x, data_value d (sks_key sel)]"
    using s steady by (cases "spec_access_token (src_spec src)")
      (auto simp: get_secrets_def split: sum.splits if_splits)
  with cl show ?thesis by (auto simp: client_for_def index_slice_def split: sum.splits)
qed

text \<open>The process panics exactly when one of the two required variables is not set at all; an empty one will do.\<close>

theorem adapter_main_panics:
  "(\<exists>m. adapter_main pe lk = Panic m) \<longleftrightarrow> lk ''GITLAB_SECRET_TOKEN'' = None \<or> lk ''GITLAB_EVENT_SOURCE'' = None"
proof (cases "\<exists>f \<in> set adapter_fields. missing_field lk f")
  case True
  from process_fields_missing [OF this] adapter_fields_missing [of lk] True show ?thesis
    by (auto simp: adapter_main_def construct_env_or_die_def)
next
  case False
  with process_fields_ok [OF _ adapter_fields_distinct, of lk] obtain vs
    where "process_fields lk adapter_fields = Inr vs" by auto
  with False adapter_fields_missing [of lk] show ?thesis
    by (auto simp: adapter_main_def construct_env_or_die_def split: sum.split)
qed

subsection \<open>A simulated container\<close>

definition sim_tokens :: secret_data where
  "sim_tokens = [(''access'', ''glpat''), (''secret'', ''s3cret'')]"

definition sim_kubelet :: "secret_key_selector \<Rightarrow> string option" where
  "sim_kubelet sel = (case sim_secret (sks_name sel) of Inl _ \<Rightarrow> None | Inr d \<Rightarrow> map_of d (sks_key sel))"

definition sim_served_status :: source_status where
  "sim_served_status = sim_status\<lparr>st_sink_uri := Some ''http://sink''\<rparr>"

definition sim_lookup :: "string \<Rightarrow> string option" where
  "sim_lookup = map_of [(''GITLAB_SECRET_TOKEN'', ''s3cret''), (''GITLAB_EVENT_SOURCE'', ''https://gitlab.com/g/p''),
     (''K_SINK'', ''http://sink''), (''NAMESPACE'', ''ns''), (''METRICS_DOMAIN'', ''knative.dev/eventing''),
     (''METRICS_PROMETHEUS_PORT'', ''9092''), (''PORT'', ''8080''), (''K_REVISION'', ''src-00001'')]"

definition sim_process :: "string process_env" where
  "sim_process =
     \<lparr>pe_parse = ae_parse (sim_adapter_env ResNil), pe_marshal = Inr, pe_decode = (\<lambda>_. Inr []),
      pe_new_http = (\<lambda>_. None), pe_auth = (\<lambda>_ _. None), pe_deliver = (\<lambda>_ _. ResNil)\<rparr>"

lemma sim_container:
  "container_env sim_kubelet (adapter_env_vars sim_env (sim_source\<lparr>src_status := sim_served_status\<rparr>)) sim_lookup"
  by code_simp

subsection \<open>From the hook to the sink\<close>

text \<open>
  What GitLab documents of a call of a hook: it goes to the hook's URL, a POST with the token of the hook, if it has
  one, the event of the call in a header and a body.
\<close>

definition hook_call :: "hook_config \<Rightarrow> string \<times> http_request \<Rightarrow> bool" where
  "hook_call hook call \<longleftrightarrow>
     (case call of (to, rq) \<Rightarrow>
        to = hc_url hook \<and> rq_method rq = ''POST'' \<and>
        (\<forall>t. hc_token hook = Some t \<longrightarrow> header_get (rq_header rq) ''X-Gitlab-Token'' = t) \<and>
        \<not> blank (header_get (rq_header rq) ''X-Gitlab-Event'') \<and> snd (rq_body rq) = None \<and> fst (rq_body rq) \<noteq> [])"

text \<open>
  What Knative Serving documents of a ready service: a request to the URL of its status is handed to its container, where
  the adapter's handler listens. A request to another URL is none of its business.
\<close>

definition service_receives ::
  "kservice \<Rightarrow> adapter \<Rightarrow> 'p adapter_env \<Rightarrow> string \<times> http_request \<Rightarrow> action list" where
  "service_receives ks ra ae call =
     (case call of (to, rq) \<Rightarrow> if ks_url ks = Some to then adapter_handler ae ra rq else [])"

lemma hook_call_admitted:
  assumes "hook_call (added_config dflt (if tok = [] then None else Some tok) ts (Some u) tls) (to, rq)"
  shows "to = u \<and> admitted tok rq"
  using assms by (auto simp: hook_call_def added_config_def admitted_def url_string_def split: if_splits)

lemma handler_sends:
  assumes "admitted (ra_secret_token ra) rq"
    and "ae_parse ae (header_get (rq_header rq) ''X-Gitlab-Event'') (fst (rq_body rq)) = Inr p"
    and "ae_marshal ae p = Inr data"
    and "gitlab_event_header_to_event_type (header_get (rq_header rq) ''X-Gitlab-Event'') \<noteq> []"
  shows "SendEvent (event_of ra (header_get (rq_header rq) ''X-Gitlab-Event'') data) \<in> set (adapter_handler ae ra rq)"
proof -
  have "fst (parse_body (ae_parse ae) (ra_secret_token ra) rq) = Inr p" using assms(1,2) by (simp add: parse_body_Inr)
  then show ?thesis using assms(3,4)
    by (cases rule: handle_event_cases [of "rq_header rq" ae ra p])
      (auto simp: handler_accepts glHeaderEvent_def)
qed

lemma handler_sends_admitted:
  "SendEvent ev \<in> set (adapter_handler ae ra rq) \<Longrightarrow> admitted (ra_secret_token ra) rq"
proof (cases "fst (parse_body (ae_parse ae) (ra_secret_token ra) rq)")
  case (Inr p)
  then show ?thesis by (simp add: parse_body_Inr)
qed (simp add: handler_rejects handler_frame)


text \<open>
  C26: The two processes agree. When a first \<^verbatim>\<open>ReconcileKind\<close> added a hook, on a GitLab that behaves as documented, and the
  one service of the source's adapter that the cluster named in that run describes the container of a source with this
  metadata and specification, whatever the sink address in the status was when it was created, then the adapter that starts
  in this container answers the hook: every call of the hook reaches the service, and if its payload can be read and encoded
  and its event has a type, it makes the adapter send the event of the call with the project's URL as its source. The client
  delivers each event as it is to the sink: the overrides of the source's specification are applied to none, because no
  variable carries them. If the secret token is not empty, the adapter sends nothing for a request without it.
\<close>

theorem hook_calls_become_events:
  assumes doc: "gitlab_documented en view dflt"
    and run: "reconcile_kind en (gitlab_iface en) img src h = (Ok (), src', h')"
    and talked: "gitlab_calls h' \<noteq> gitlab_calls h" and new: "st_webhook_id (src_status src) = None"
    and service: "adapter_services en src h h' = [ks]" "ks_env ks = adapter_env_vars en (src\<lparr>src_status := st\<rparr>)"
    and hosted: "container_env secret (ks_env ks) lk"
    and token: "spec_secret_token (src_spec src) = Some sel" "secret sel = Some (data_value d (sks_key sel))"
    and steady: "\<And>h. e_get_secret en h (om_namespace (src_meta src)) (sks_name sel) = Inr d"
    and config: "e_config_env en = to_env_vars l v ob"
    and plain: "CHR ''$'' \<notin> set (as_event_source src)" "CHR ''$'' \<notin> set (url_string (st_sink_uri st))"
    and http: "pe_new_http pe (sink_target st) = None"
  shows "\<exists>c i hook ra ae. client_of en src c \<and> st_webhook_id (src_status src') = Some i \<and>
    project_hooks view c h' i = Some hook \<and> adapter_main pe lk = Ok (ra, ae) \<and>
    (\<forall>to rq p data. hook_call hook (to, rq) \<and>
       pe_parse pe (header_get (rq_header rq) ''X-Gitlab-Event'') (fst (rq_body rq)) = Inr p \<and> pe_marshal pe p = Inr data \<and>
       gitlab_event_header_to_event_type (header_get (rq_header rq) ''X-Gitlab-Event'') \<noteq> [] \<longrightarrow>
       SendEvent \<lparr>ce_type = gitlab_event_type (gitlab_event_header_to_event_type (header_get (rq_header rq) ''X-Gitlab-Event'')),
         ce_source = as_event_source src,
         ce_extensions = [(glHeaderEventCEAttr, header_get (rq_header rq) ''X-Gitlab-Event'')], ce_data = data\<rparr>
         \<in> set (service_receives ks ra ae (to, rq))) \<and>
    (\<forall>ev. ae_send ae ev = pe_deliver pe (sink_target st) ev) \<and>
    (data_value d (sks_key sel) \<noteq> [] \<longrightarrow> (\<forall>rq ev. SendEvent ev \<in> set (adapter_handler ae ra rq) \<longrightarrow>
       header_get (rq_header rq) ''X-Gitlab-Token'' = data_value d (sks_key sel)))"
proof -
  let ?tok = "data_value d (sks_key sel)"
  obtain c i ks' u where c: "client_of en src c" "st_webhook_id (src_status src') = Some i" and
    ks': "adapter_services en src h h' = [ks']" "ks_url ks' = Some u" and
    hook: "project_hooks view c h' i = Some (added_config dflt (wc_secret_token c) (spec_event_types (src_spec src)) (Some u)
        (spec_ssl_verify (src_spec src)))"
    using reconcile_kind_created [OF doc run talked new] by auto
  have url: "ks_url ks = Some u" using ks' service(1) by simp
  obtain port where main: "adapter_main pe lk =
      Ok (\<lparr>ra_event_source = as_event_source src, ra_secret_token = ?tok, ra_port = port\<rparr>,
        \<lparr>ae_parse = pe_parse pe, ae_marshal = pe_marshal pe, ae_send = pe_deliver pe (sink_target st)\<rparr>)"
    (is "_ = Ok (?ra, ?ae)")
    using adapter_process [OF hosted [unfolded service(2)] config _ token(2), of pe] token(1) plain http
    by (auto simp: as_event_source_def)
  have admits: "to = u \<and> admitted ?tok rq"
    if "hook_call (added_config dflt (wc_secret_token c) (spec_event_types (src_spec src)) (Some u)
        (spec_ssl_verify (src_spec src))) (to, rq)" for to rq
    using that client_token [OF c(1) token(1) steady] by (intro hook_call_admitted) simp
  show ?thesis
  proof (intro exI conjI allI impI)
    fix to rq p data
    assume "hook_call (added_config dflt (wc_secret_token c) (spec_event_types (src_spec src)) (Some u)
        (spec_ssl_verify (src_spec src))) (to, rq) \<and>
      pe_parse pe (header_get (rq_header rq) ''X-Gitlab-Event'') (fst (rq_body rq)) = Inr p \<and> pe_marshal pe p = Inr data \<and>
      gitlab_event_header_to_event_type (header_get (rq_header rq) ''X-Gitlab-Event'') \<noteq> []"
    with admits [of to rq] handler_sends [of ?ra rq ?ae p data] show "SendEvent \<lparr>ce_type = gitlab_event_type
        (gitlab_event_header_to_event_type (header_get (rq_header rq) ''X-Gitlab-Event'')), ce_source = as_event_source src,
      ce_extensions = [(glHeaderEventCEAttr, header_get (rq_header rq) ''X-Gitlab-Event'')], ce_data = data\<rparr>
      \<in> set (service_receives ks ?ra ?ae (to, rq))" by (auto simp: event_of_def service_receives_def url)
  next
    fix rq ev assume "?tok \<noteq> []" "SendEvent ev \<in> set (adapter_handler ?ae ?ra rq)"
    then show "header_get (rq_header rq) ''X-Gitlab-Token'' = ?tok"
      using handler_sends_admitted [of ev ?ae ?ra rq] by (simp add: admitted_def)
  qed (use c hook main in simp_all)
qed


text \<open>The simulated source, whose adapter runs in a container of its own.\<close>

theorem hook_calls_become_events_witness:
  "\<exists>ra ae. adapter_main sim_process sim_lookup = Ok (ra, ae) \<and>
     (\<forall>rq ev. SendEvent ev \<in> set (adapter_handler ae ra rq) \<longrightarrow>
        header_get (rq_header rq) ''X-Gitlab-Token'' = ''s3cret'')"
proof -
  let ?rec = "reconcile_kind sim_env (gitlab_iface sim_env) ''img'' sim_source []"
  obtain r src' h' where run: "?rec = (r, src', h')" by (metis surj_pair)
  have "fst ?rec = Ok ()" and "gitlab_calls (snd (snd ?rec)) \<noteq> gitlab_calls []" by code_simp+
  with run have run': "?rec = (Ok (), src', h')" and talked: "gitlab_calls h' \<noteq> gitlab_calls []" by simp_all
  have new: "st_webhook_id (src_status sim_source) = None" by (simp add: sim_source_def sim_status_def)
  have token: "spec_secret_token (src_spec sim_source) = Some \<lparr>sks_name = ''tokens'', sks_key = ''secret''\<rparr>"
    by (simp add: sim_defs)
  have kubelet: "sim_kubelet \<lparr>sks_name = ''tokens'', sks_key = ''secret''\<rparr> =
      Some (data_value sim_tokens (sks_key \<lparr>sks_name = ''tokens'', sks_key = ''secret''\<rparr>))" by code_simp
  have steady: "e_get_secret sim_env h (om_namespace (src_meta sim_source)) (sks_name \<lparr>sks_name = ''tokens'', sks_key = ''secret''\<rparr>)
      = Inr sim_tokens" for h
    by (simp add: sim_env_def sim_secret_def sim_tokens_def)
  have config: "e_config_env sim_env = to_env_vars None [] None" by (simp add: sim_env_def to_env_vars_def)
  have plain: "CHR ''$'' \<notin> set (as_event_source sim_source)" "CHR ''$'' \<notin> set (url_string (st_sink_uri sim_served_status))"
    by code_simp+
  have http: "pe_new_http sim_process (sink_target sim_served_status) = None" by (simp add: sim_process_def)
  let ?ks = "sim_stored_service (generate_kservice sim_env (sim_source\<lparr>src_status := sim_served_status\<rparr>) ''img'')"
  have "adapter_services sim_env sim_source [] (snd (snd ?rec)) = [?ks]" by code_simp
  then have service: "adapter_services sim_env sim_source [] h' = [?ks]" using run by simp
  have vars: "ks_env ?ks = adapter_env_vars sim_env (sim_source\<lparr>src_status := sim_served_status\<rparr>)"
    by (simp add: sim_stored_service_def generate_kservice_def)
  have tok: "data_value sim_tokens (sks_key \<lparr>sks_name = ''tokens'', sks_key = ''secret''\<rparr>) = ''s3cret''" by code_simp
  from hook_calls_become_events [OF sim_documented run' talked new service vars sim_container [folded vars] token kubelet steady config plain http]
  show ?thesis unfolding tok by blast
qed

end
