(* ===== verification/AdapterServer.thy ===== *)
theory AdapterServer
  imports Adapter Transitions
begin

section \<open>Starting and stopping the adapter's server\<close>

text \<open>
  \<^verbatim>\<open>start\<close> and \<^verbatim>\<open>gracefulShutdown\<close> of \<^verbatim>\<open>pkg/adapter/receive_adapter.go\<close>: the main goroutine
  serves requests until the server is closed and then waits for the second goroutine, which waits for
  the stop channel and shuts the server down. Their interleavings, with those of the connections, are
  the steps below; the server itself is \<^verbatim>\<open>net/http\<close>'s, as documented: \<^verbatim>\<open>Shutdown\<close> closes the
  listener, makes \<^verbatim>\<open>ListenAndServe\<close> return \<^verbatim>\<open>ErrServerClosed\<close> (at once, if it is called later) and
  returns nil when no request is in flight, or an error when its context expires first.
\<close>

datatype main_pc = Starting | Serving | Waiting | Returned "goerr option"

datatype shutdown_pc = AwaitingStop | ShuttingDown | ShutDown

record server =
  sv_stop :: bool \<comment> \<open>the stop channel is closed\<close>
  sv_in_shutdown :: bool \<comment> \<open>\<^verbatim>\<open>Shutdown\<close> has been called\<close>
  sv_listening :: bool
  sv_in_flight :: nat
  sv_main :: main_pc
  sv_shutdown :: shutdown_pc
  sv_fatal :: bool \<comment> \<open>\<^verbatim>\<open>logger.Fatal\<close> has ended the process\<close>

definition server_init :: server where
  "server_init =
     \<lparr>sv_stop = False, sv_in_shutdown = False, sv_listening = False, sv_in_flight = 0,
      sv_main = Starting, sv_shutdown = AwaitingStop, sv_fatal = False\<rparr>"

datatype server_event =
    StopRequested
  | Listening
  | ListenFailed goerr
  | ServerClosed
  | RequestAccepted
  | RequestAnswered
  | ShutdownCalled
  | ShutdownDone
  | ShutdownExpired
  | WaitDone

definition listen_error :: "string \<Rightarrow> goerr \<Rightarrow> goerr" where
  "listen_error addr e = ErrText (''could not listen on '' @ addr @ '': '' @ err_text e)"

text \<open>\<open>addr\<close> is the address, a colon and the configured port.\<close>

definition server_addr :: "adapter \<Rightarrow> string" where
  "server_addr ra = '':'' @ ra_port ra"

inductive server_step :: "string \<Rightarrow> server \<Rightarrow> server_event \<Rightarrow> server \<Rightarrow> bool" for addr where
  stop: "\<not> sv_fatal s \<Longrightarrow> server_step addr s StopRequested (s\<lparr>sv_stop := True\<rparr>)"
| listen: "\<not> sv_fatal s \<Longrightarrow> sv_main s = Starting \<Longrightarrow> \<not> sv_in_shutdown s \<Longrightarrow>
    server_step addr s Listening (s\<lparr>sv_main := Serving, sv_listening := True\<rparr>)"
| fails: "\<not> sv_fatal s \<Longrightarrow> sv_main s \<in> {Starting, Serving} \<Longrightarrow> \<not> sv_in_shutdown s \<Longrightarrow>
    server_step addr s (ListenFailed e)
      (s\<lparr>sv_main := Returned (Some (listen_error addr e)), sv_listening := False\<rparr>)"
| closed: "\<not> sv_fatal s \<Longrightarrow> sv_main s \<in> {Starting, Serving} \<Longrightarrow> sv_in_shutdown s \<Longrightarrow>
    server_step addr s ServerClosed (s\<lparr>sv_main := Waiting\<rparr>)"
| accept: "\<not> sv_fatal s \<Longrightarrow> sv_listening s \<Longrightarrow>
    server_step addr s RequestAccepted (s\<lparr>sv_in_flight := sv_in_flight s + 1\<rparr>)"
| answer: "\<not> sv_fatal s \<Longrightarrow> sv_in_flight s > 0 \<Longrightarrow>
    server_step addr s RequestAnswered (s\<lparr>sv_in_flight := sv_in_flight s - 1\<rparr>)"
| shutdown: "\<not> sv_fatal s \<Longrightarrow> sv_shutdown s = AwaitingStop \<Longrightarrow> sv_stop s \<Longrightarrow>
    server_step addr s ShutdownCalled
      (s\<lparr>sv_shutdown := ShuttingDown, sv_in_shutdown := True, sv_listening := False\<rparr>)"
| finished: "\<not> sv_fatal s \<Longrightarrow> sv_shutdown s = ShuttingDown \<Longrightarrow> sv_in_flight s = 0 \<Longrightarrow>
    server_step addr s ShutdownDone (s\<lparr>sv_shutdown := ShutDown\<rparr>)"
| expired: "\<not> sv_fatal s \<Longrightarrow> sv_shutdown s = ShuttingDown \<Longrightarrow> sv_in_flight s > 0 \<Longrightarrow>
    server_step addr s ShutdownExpired (s\<lparr>sv_fatal := True\<rparr>)"
| waited: "\<not> sv_fatal s \<Longrightarrow> sv_main s = Waiting \<Longrightarrow> sv_shutdown s = ShutDown \<Longrightarrow>
    server_step addr s WaitDone (s\<lparr>sv_main := Returned None\<rparr>)"

code_pred server_step .

inductive_cases server_stepE [elim!]: "server_step addr s e s'"

subsection \<open>Invariants\<close>

definition server_inv :: "server \<Rightarrow> bool" where
  "server_inv s \<longleftrightarrow>
     (sv_in_shutdown s \<longleftrightarrow> sv_shutdown s \<noteq> AwaitingStop) \<and>
     (sv_in_shutdown s \<longrightarrow> sv_stop s \<and> \<not> sv_listening s) \<and>
     (sv_main s = Waiting \<longrightarrow> sv_in_shutdown s) \<and>
     (sv_main s = Returned None \<longrightarrow> sv_shutdown s = ShutDown) \<and>
     (sv_shutdown s = ShutDown \<longrightarrow> sv_in_flight s = 0)"

interpretation server: invariant_system "server_step addr" server_inv server_init for addr
  by unfold_locales (auto simp: server_inv_def server_init_def)

text \<open>
  Once the stop channel is closed and as long as no listen error has ended the main goroutine, the
  goal is that \<^verbatim>\<open>start\<close> returns nil; every step towards it lowers the rank.
\<close>

definition stopping :: "server \<Rightarrow> bool" where
  "stopping s \<longleftrightarrow> server_inv s \<and> sv_stop s \<and> \<not> sv_fatal s \<and> (\<forall>e. sv_main s \<noteq> Returned (Some e))"

fun main_rank :: "main_pc \<Rightarrow> nat" where
  "main_rank Starting = 2"
| "main_rank Serving = 2"
| "main_rank Waiting = 1"
| "main_rank (Returned _) = 0"

fun shutdown_rank :: "shutdown_pc \<Rightarrow> nat" where
  "shutdown_rank AwaitingStop = 2"
| "shutdown_rank ShuttingDown = 1"
| "shutdown_rank ShutDown = 0"

definition server_rank :: "server \<Rightarrow> nat" where
  "server_rank s = main_rank (sv_main s) + shutdown_rank (sv_shutdown s) + sv_in_flight s"

text \<open>The steps by which the server stops when no answer is late and listening does not fail.\<close>

definition orderly_step :: "string \<Rightarrow> server \<Rightarrow> server_event \<Rightarrow> server \<Rightarrow> bool" where
  "orderly_step addr s e s' \<longleftrightarrow>
     server_step addr s e s' \<and> e \<noteq> ShutdownExpired \<and> (\<forall>x. e \<noteq> ListenFailed x)"

lemma stopping_progress:
  assumes "stopping s" and "sv_main s \<noteq> Returned None"
  shows "\<exists>e s'. orderly_step addr s e s' \<and> server_rank s' < server_rank s"
proof (cases "sv_shutdown s = AwaitingStop")
  case True
  with assms show ?thesis
    by (intro exI conjI) (auto simp: stopping_def orderly_step_def server_rank_def
        intro: server_step.shutdown)
next
  case called: False
  show ?thesis
  proof (cases "sv_in_flight s")
    case (Suc n)
    with assms show ?thesis
      by (intro exI [of _ RequestAnswered] exI conjI)
        (auto simp: stopping_def orderly_step_def server_rank_def intro: server_step.answer)
  next
    case idle: 0
    show ?thesis
    proof (cases "sv_shutdown s")
      case ShuttingDown
      with assms idle show ?thesis
        by (intro exI [of _ ShutdownDone] exI conjI)
          (auto simp: stopping_def orderly_step_def server_rank_def intro: server_step.finished)
    next
      case ShutDown
      with assms show ?thesis
        by (cases "sv_main s")
          (auto simp: stopping_def server_inv_def orderly_step_def server_rank_def
            intro!: exI conjI intro: server_step.closed server_step.waited)
    qed (use called in simp)
  qed
qed

interpretation stop: progress_system "orderly_step addr" stopping "\<lambda>s. sv_main s = Returned None"
  server_rank for addr
proof
  show "stopping s \<Longrightarrow> orderly_step addr s e s' \<Longrightarrow> stopping s'" for s e s'
    using server.preserved [of s addr e s'] by (auto simp: stopping_def orderly_step_def)
qed (rule stopping_progress)

lemma orderly_reachable: "reachable (orderly_step addr) s s' \<Longrightarrow> reachable (server_step addr) s s'"
  by (rule reachable_mono [where step = "orderly_step addr"]) (simp_all add: orderly_step_def)

section \<open>Properties of the server\<close>

text \<open>
  C28: \<^verbatim>\<open>start\<close> returns nil only after a stop was requested, the shutdown has completed and every
  accepted request has been answered.
\<close>

theorem server_stops_gracefully:
  assumes "reachable (server_step addr) server_init s" and "sv_main s = Returned None"
  shows "sv_stop s \<and> sv_shutdown s = ShutDown \<and> sv_in_flight s = 0 \<and> \<not> sv_listening s"
  using server.reachable_inv [OF assms(1)] assms(2) by (auto simp: server_inv_def)

text \<open>
  Once a stop is requested, \<^verbatim>\<open>start\<close> can always return nil: from every reachable state in which
  listening has not failed and the process has not been ended, some sequence of steps in which no
  answer is late leads there. There is no deadlock between the two goroutines, in particular not when
  the stop precedes \<^verbatim>\<open>ListenAndServe\<close>.
\<close>

theorem server_can_stop:
  assumes "reachable (server_step addr) server_init s"
    and "sv_stop s" and "\<not> sv_fatal s" and "\<forall>e. sv_main s \<noteq> Returned (Some e)"
  shows "\<exists>s'. reachable (server_step addr) s s' \<and> sv_main s' = Returned None"
proof -
  have "stopping s" using assms server.reachable_inv [OF assms(1)] by (simp add: stopping_def)
  with stop.goal_reached orderly_reachable show ?thesis by blast
qed

text \<open>A run that stops before it listens.\<close>

lemma early_stop:
  "reachable (server_step addr) server_init (server_init\<lparr>sv_stop := True\<rparr>)"
  by (rule reachable_step [where step = "server_step addr", OF server_step.stop])
    (simp add: server_init_def)

theorem server_can_stop_witness:
  "\<exists>s'. reachable (server_step '':8080'') (server_init\<lparr>sv_stop := True\<rparr>) s' \<and> sv_main s' = Returned None"
  by (rule server_can_stop [OF early_stop]) (simp_all add: server_init_def)

definition stopped_server :: server where
  "stopped_server =
     \<lparr>sv_stop = True, sv_in_shutdown = True, sv_listening = False, sv_in_flight = 0,
      sv_main = Returned None, sv_shutdown = ShutDown, sv_fatal = False\<rparr>"

lemma stopped_reachable: "reachable (server_step addr) server_init stopped_server"
proof -
  let ?s1 = "server_init\<lparr>sv_stop := True\<rparr>"
  let ?s2 = "?s1\<lparr>sv_shutdown := ShuttingDown, sv_in_shutdown := True, sv_listening := False\<rparr>"
  let ?s3 = "?s2\<lparr>sv_main := Waiting\<rparr>"
  let ?s4 = "?s3\<lparr>sv_shutdown := ShutDown\<rparr>"
  note r = reachable.advance [where step = "server_step addr"]
  have "reachable (server_step addr) server_init ?s2"
    by (rule r [OF early_stop server_step.shutdown]) (simp_all add: server_init_def)
  then have "reachable (server_step addr) server_init ?s3"
    by (rule r [OF _ server_step.closed]) (simp_all add: server_init_def)
  then have "reachable (server_step addr) server_init ?s4"
    by (rule r [OF _ server_step.finished]) (simp_all add: server_init_def)
  then have "reachable (server_step addr) server_init (?s4\<lparr>sv_main := Returned None\<rparr>)"
    by (rule r [OF _ server_step.waited]) (simp_all add: server_init_def)
  then show ?thesis by (simp add: server_init_def stopped_server_def)
qed

theorem server_stops_gracefully_witness: "sv_in_flight stopped_server = 0"
  using server_stops_gracefully [OF stopped_reachable] by (simp add: stopped_server_def)

end
