(* ===== verification/RestClient.thy ===== *)
theory RestClient
  imports GoErrors "HOL-Library.Word"
begin

section \<open>Requests of the REST client\<close>

text \<open>
  The builder of requests of \<^verbatim>\<open>k8s.io/client-go/rest\<close>, as far as the generated clients use it: each
  step keeps the first error, and \<^verbatim>\<open>Do\<close> sends one call or, after an error, none. The encodings of
  options and bodies, the transport and the decoding of its answers are the fields of \<open>rest_client\<close>:
  \<open>rc_into q x\<close> is what decoding the answer to \<open>q\<close> makes of the object \<open>x\<close>, and the error.
  Rate limiting and the client's own retries of a call are in the transport. A \<^verbatim>\<open>time.Duration\<close>
  is a 64-bit word of nanoseconds. Paths are lists of segments behind \<^verbatim>\<open>path.Join\<close>.
\<close>

type_synonym duration = "64 word"

definition second :: duration where
  "second = 1000000000"

text \<open>Options of a call; the fields that no client and no tweak looks at are one opaque value.\<close>

record list_options =
  lo_timeout_seconds :: "64 word option"
  lo_watch :: bool
  lo_label_selector :: string
  lo_rest :: string

datatype rest_options =
    GetOptions string
  | ListOptions list_options
  | CreateOptions string
  | UpdateOptions string
  | PatchOptions string

text \<open>Bodies: a pointer to an API object, the options of a deletion, bytes.\<close>

datatype 'a rest_body = ObjectBody "'a option" | DeleteBody string | RawBody string

type_synonym params = "(string \<times> string) list"

record http_call =
  hq_verb :: string
  hq_content_type :: "string option"
  hq_path :: string
  hq_params :: params
  hq_timeout :: duration
  hq_body :: "string option"

record ('a, 'l, 'w) rest_client =
  rc_path_prefix :: string
  rc_timeout :: duration
  rc_content_type :: string
  rc_params :: "rest_options \<Rightarrow> goerr + params"
  rc_encode :: "'a \<Rightarrow> goerr + string"
  rc_encode_delete :: "string \<Rightarrow> goerr + string"
  rc_into :: "http_call \<Rightarrow> 'a \<Rightarrow> 'a \<times> goerr option"
  rc_into_list :: "http_call \<Rightarrow> 'l \<Rightarrow> 'l \<times> goerr option"
  rc_error :: "http_call \<Rightarrow> goerr option"
  rc_watch :: "http_call \<Rightarrow> goerr + 'w"

record rest_request =
  rr_verb :: string
  rr_content_type :: "string option"
  rr_path_prefix :: string
  rr_namespace :: "string option"
  rr_resource :: string
  rr_name :: string
  rr_subresource :: string
  rr_params :: params
  rr_timeout :: duration
  rr_body :: "string option"
  rr_err :: "goerr option"

subsection \<open>Paths\<close>

text \<open>\<^verbatim>\<open>path.Clean\<close> and \<^verbatim>\<open>path.Join\<close>.\<close>

definition clean_step :: "bool \<Rightarrow> string list \<Rightarrow> string \<Rightarrow> string list" where
  "clean_step rooted acc p =
     (if p = [] \<or> p = ''.'' then acc
      else if p = ''..''
      then (if acc \<noteq> [] \<and> last acc \<noteq> ''..'' then butlast acc
            else if rooted then acc else acc @ [p])
      else acc @ [p])"

definition path_clean :: "string \<Rightarrow> string" where
  "path_clean s =
     (let rooted = has_prefix s ''/'';
          ps = foldl (clean_step rooted) [] (split_on CHR ''/'' s)
      in if rooted then CHR ''/'' # join_with CHR ''/'' ps
         else if ps = [] then ''.'' else join_with CHR ''/'' ps)"

definition path_join :: "string list \<Rightarrow> string" where
  "path_join ps =
     (let qs = filter (\<lambda>p. p \<noteq> []) ps in if qs = [] then [] else path_clean (join_with CHR ''/'' qs))"

text \<open>\<^verbatim>\<open>rest.IsValidPathSegmentName\<close>.\<close>

definition apostrophes :: "string \<Rightarrow> string" where
  "apostrophes s = CHR 0x27 # s @ [CHR 0x27]"

definition path_segment_errors :: "string \<Rightarrow> string list" where
  "path_segment_errors name =
     (if name = ''.'' then [''may not be '' @ apostrophes ''.'']
      else if name = ''..'' then [''may not be '' @ apostrophes ''..'']
      else (if CHR ''/'' \<in> set name then [''may not contain '' @ apostrophes ''/''] else []) @
           (if CHR ''%'' \<in> set name then [''may not contain '' @ apostrophes ''%''] else []))"

text \<open>The text of a slice of strings under the verb \<^verbatim>\<open>%v\<close>.\<close>

definition show_strings :: "string list \<Rightarrow> string" where
  "show_strings ss = ''['' @ join_with CHR '' '' ss @ '']''"

subsection \<open>The builder\<close>

definition new_request :: "('a, 'l, 'w) rest_client \<Rightarrow> string \<Rightarrow> rest_request" where
  "new_request C verb =
     \<lparr>rr_verb = verb, rr_content_type = None, rr_path_prefix = rc_path_prefix C, rr_namespace = None,
      rr_resource = [], rr_name = [], rr_subresource = [], rr_params = [], rr_timeout = rc_timeout C,
      rr_body = None, rr_err = None\<rparr>"

definition patch_request :: "('a, 'l, 'w) rest_client \<Rightarrow> string \<Rightarrow> rest_request" where
  "patch_request C pt = (new_request C ''PATCH'')\<lparr>rr_content_type := Some pt\<rparr>"

definition fail :: "string \<Rightarrow> rest_request \<Rightarrow> rest_request" where
  "fail m r = r\<lparr>rr_err := Some (ErrText m)\<rparr>"

definition with_namespace :: "string \<Rightarrow> rest_request \<Rightarrow> rest_request" where
  "with_namespace ns r =
     (if rr_err r \<noteq> None then r
      else case rr_namespace r of
        Some old \<Rightarrow> fail (''namespace already set to '' @ quote old @ '', cannot change to '' @ quote ns) r
      | None \<Rightarrow>
          (let msgs = path_segment_errors ns
           in if msgs \<noteq> [] then fail (''invalid namespace '' @ quote ns @ '': '' @ show_strings msgs) r
              else r\<lparr>rr_namespace := Some ns\<rparr>))"

definition with_resource :: "string \<Rightarrow> rest_request \<Rightarrow> rest_request" where
  "with_resource res r =
     (if rr_err r \<noteq> None then r
      else if rr_resource r \<noteq> []
      then fail (''resource already set to '' @ quote (rr_resource r) @ '', cannot change to '' @ quote res) r
      else let msgs = path_segment_errors res
           in if msgs \<noteq> [] then fail (''invalid resource '' @ quote res @ '': '' @ show_strings msgs) r
              else r\<lparr>rr_resource := res\<rparr>)"

definition with_name :: "string \<Rightarrow> rest_request \<Rightarrow> rest_request" where
  "with_name n r =
     (if rr_err r \<noteq> None then r
      else if n = [] then fail ''resource name may not be empty'' r
      else if rr_name r \<noteq> []
      then fail (''resource name already set to '' @ quote (rr_name r) @ '', cannot change to '' @ quote n) r
      else let msgs = path_segment_errors n
           in if msgs \<noteq> [] then fail (''invalid resource name '' @ quote n @ '': '' @ show_strings msgs) r
              else r\<lparr>rr_name := n\<rparr>)"

definition with_subresource :: "string list \<Rightarrow> rest_request \<Rightarrow> rest_request" where
  "with_subresource subs r =
     (if rr_err r \<noteq> None then r
      else let sub = path_join subs
      in if rr_subresource r \<noteq> []
         then fail (''subresource already set to '' @ quote (rr_subresource r) @ '', cannot change to '' @ quote sub) r
         else case find (\<lambda>s. path_segment_errors s \<noteq> []) subs of
           Some s \<Rightarrow> fail (''invalid subresource '' @ quote s @ '': '' @ show_strings (path_segment_errors s)) r
         | None \<Rightarrow> r\<lparr>rr_subresource := sub\<rparr>)"

definition with_params :: "('a, 'l, 'w) rest_client \<Rightarrow> rest_options \<Rightarrow> rest_request \<Rightarrow> rest_request" where
  "with_params C opts r =
     (if rr_err r \<noteq> None then r
      else case rc_params C opts of
        Inl e \<Rightarrow> r\<lparr>rr_err := Some e\<rparr>
      | Inr ps \<Rightarrow> r\<lparr>rr_params := rr_params r @ ps\<rparr>)"

definition with_timeout :: "duration \<Rightarrow> rest_request \<Rightarrow> rest_request" where
  "with_timeout d r = (if rr_err r \<noteq> None then r else r\<lparr>rr_timeout := d\<rparr>)"

definition encoded_body :: "('a, 'l, 'w) rest_client \<Rightarrow> goerr + string \<Rightarrow> rest_request \<Rightarrow> rest_request" where
  "encoded_body C enc r =
     (case enc of
        Inl e \<Rightarrow> r\<lparr>rr_err := Some e\<rparr>
      | Inr bytes \<Rightarrow> r\<lparr>rr_body := Some bytes, rr_content_type := Some (rc_content_type C)\<rparr>)"

definition with_body :: "('a, 'l, 'w) rest_client \<Rightarrow> 'a rest_body \<Rightarrow> rest_request \<Rightarrow> rest_request" where
  "with_body C b r =
     (if rr_err r \<noteq> None then r
      else case b of
        RawBody bytes \<Rightarrow> r\<lparr>rr_body := Some bytes\<rparr>
      | ObjectBody None \<Rightarrow> r
      | ObjectBody (Some x) \<Rightarrow> encoded_body C (rc_encode C x) r
      | DeleteBody opts \<Rightarrow> encoded_body C (rc_encode_delete C opts) r)"

subsection \<open>Sending\<close>

definition request_path :: "rest_request \<Rightarrow> string" where
  "request_path r =
     (let p = rr_path_prefix r;
          p = (case rr_namespace r of
                 Some ns \<Rightarrow> if ns \<noteq> [] then path_join [p, ''namespaces'', ns] else p
               | None \<Rightarrow> p);
          p = (if rr_resource r \<noteq> [] then path_join [p, to_lower (rr_resource r)] else p)
      in if rr_name r \<noteq> [] \<or> rr_subresource r \<noteq> []
         then path_join [p, rr_name r, rr_subresource r] else p)"

definition preflight :: "rest_request \<Rightarrow> goerr option" where
  "preflight r =
     (if rr_namespace r \<noteq> Some [] then None
      else if rr_verb r = ''POST''
      then Some (ErrText ''an empty namespace may not be set during creation'')
      else if rr_verb r \<in> {''GET'', ''PUT'', ''DELETE''} \<and> rr_name r \<noteq> []
      then Some (ErrText ''an empty namespace may not be set when a resource name is provided'')
      else None)"

definition call_of :: "rest_request \<Rightarrow> http_call" where
  "call_of r =
     \<lparr>hq_verb = rr_verb r, hq_content_type = rr_content_type r, hq_path = request_path r,
      hq_params = rr_params r, hq_timeout = rr_timeout r, hq_body = rr_body r\<rparr>"

text \<open>\<^verbatim>\<open>Do\<close>: the error before a call is sent, or the call.\<close>

definition do_request :: "rest_request \<Rightarrow> goerr + http_call" where
  "do_request r =
     (case rr_err r of
        Some e \<Rightarrow> Inl e
      | None \<Rightarrow> (case preflight r of Some e \<Rightarrow> Inl e | None \<Rightarrow> Inr (call_of r)))"

text \<open>\<^verbatim>\<open>Do(ctx).Into(x)\<close> and \<^verbatim>\<open>Do(ctx).Error()\<close>, with the calls sent.\<close>

definition do_into ::
  "(http_call \<Rightarrow> 'x \<Rightarrow> 'x \<times> goerr option) \<Rightarrow> 'x \<Rightarrow> rest_request \<Rightarrow> ('x \<times> goerr option) \<times> http_call list" where
  "do_into into x r = (case do_request r of Inl e \<Rightarrow> ((x, Some e), []) | Inr q \<Rightarrow> (into q x, [q]))"

definition do_error :: "(http_call \<Rightarrow> goerr option) \<Rightarrow> rest_request \<Rightarrow> goerr option \<times> http_call list" where
  "do_error err r = (case do_request r of Inl e \<Rightarrow> (Some e, []) | Inr q \<Rightarrow> (err q, [q]))"

text \<open>\<^verbatim>\<open>Watch(ctx)\<close>, which has no preflight check.\<close>

definition do_watch :: "(http_call \<Rightarrow> goerr + 'w) \<Rightarrow> rest_request \<Rightarrow> (goerr + 'w) \<times> http_call list" where
  "do_watch watch r =
     (case rr_err r of Some e \<Rightarrow> (Inl e, []) | None \<Rightarrow> (watch (call_of r), [call_of r]))"

subsection \<open>Paths: facts\<close>

definition plain_segment :: "string \<Rightarrow> bool" where
  "plain_segment s \<longleftrightarrow> s \<noteq> [] \<and> s \<noteq> ''.'' \<and> s \<noteq> ''..'' \<and> CHR ''/'' \<notin> set s"

definition abs_path :: "string list \<Rightarrow> string" where
  "abs_path ss = CHR ''/'' # join_with CHR ''/'' ss"

lemma valid_segment: "path_segment_errors s = [] \<Longrightarrow> s \<noteq> [] \<Longrightarrow> plain_segment s"
  by (auto simp: path_segment_errors_def plain_segment_def split: if_splits)

lemma clean_plain:
  "\<forall>p \<in> set ps. p = [] \<or> plain_segment p \<Longrightarrow>
     foldl (clean_step b) acc ps = acc @ filter (\<lambda>p. p \<noteq> []) ps"
  by (induction ps arbitrary: acc) (auto simp: clean_step_def plain_segment_def)

lemma split_on_join: "ps \<noteq> [] \<Longrightarrow> split_on c (join_with c ps) = concat (map (split_on c) ps)"
proof (induction c ps rule: join_with.induct)
  case (3 c p q ps)
  then show ?case by (simp add: split_on_sep)
qed simp_all

lemma split_abs_path: "ss \<noteq> [] \<Longrightarrow> \<forall>p \<in> set ss. plain_segment p \<Longrightarrow> split_on CHR ''/'' (abs_path ss) = [] # ss"
  by (simp add: abs_path_def split_join plain_segment_def)

text \<open>Joining paths of which the first is rooted: the segments of all of them, empty ones apart.\<close>

definition path_segments :: "string \<Rightarrow> string list" where
  "path_segments s = filter (\<lambda>p. p \<noteq> []) (split_on CHR ''/'' s)"

lemma path_join_rooted:
  assumes "p = CHR ''/'' # t" and "\<forall>s \<in> set (concat (map path_segments (p # ps))). plain_segment s"
  shows "path_join (p # ps) = abs_path (concat (map path_segments (p # ps)))"
proof -
  let ?qs = "filter (\<lambda>p. p \<noteq> []) (p # ps)"
  let ?q = "join_with CHR ''/'' ?qs"
  have "concat (map path_segments (filter (\<lambda>p. p \<noteq> []) rs)) = concat (map path_segments rs)" for rs
    by (induction rs) (auto simp: path_segments_def)
  moreover have "?qs \<noteq> []" using assms(1) by simp
  then have "split_on CHR ''/'' ?q = concat (map (split_on CHR ''/'') ?qs)" by (rule split_on_join)
  then have "filter (\<lambda>p. p \<noteq> []) (split_on CHR ''/'' ?q) = concat (map path_segments ?qs)"
    by (simp only: filter_concat map_map o_def path_segments_def [abs_def])
  ultimately have segs: "filter (\<lambda>p. p \<noteq> []) (split_on CHR ''/'' ?q) = concat (map path_segments (p # ps))"
    by (simp only:)
  have "r = [] \<or> plain_segment r" if "r \<in> set (split_on CHR ''/'' ?q)" for r
  proof (cases "r = []")
    case False
    with that have "r \<in> set (filter (\<lambda>p. p \<noteq> []) (split_on CHR ''/'' ?q))" by simp
    then show ?thesis unfolding segs using assms(2) by blast
  qed simp
  then have "foldl (clean_step True) [] (split_on CHR ''/'' ?q) = concat (map path_segments (p # ps))"
    using clean_plain [of "split_on CHR ''/'' ?q" True "[]"] segs by simp
  moreover have "has_prefix ?q ''/''"
    using assms(1) by (cases "filter (\<lambda>p. p \<noteq> []) ps") (simp_all add: has_prefix_def)
  ultimately have "path_clean ?q = CHR ''/'' # join_with CHR ''/'' (concat (map path_segments (p # ps)))"
    by (simp only: path_clean_def Let_def if_True)
  moreover have "path_join (p # ps) = path_clean ?q"
    using assms(1) by (simp add: path_join_def Let_def)
  ultimately show ?thesis by (simp only: abs_path_def)
qed

lemma path_segments_plain [simp]: "plain_segment s \<Longrightarrow> path_segments s = [s]"
  by (simp add: path_segments_def plain_segment_def)

lemma path_segments_abs:
  assumes "\<forall>p \<in> set ss. plain_segment p"
  shows "path_segments (abs_path ss) = ss"
proof (cases "ss = []")
  case False
  then show ?thesis
    using split_abs_path [of ss] assms by (auto simp: path_segments_def plain_segment_def filter_id_conv)
qed (simp add: abs_path_def path_segments_def)

text \<open>Joining relative segments: the empty ones fall away.\<close>

lemma path_segments_join:
  assumes "\<forall>s \<in> set subs. s = [] \<or> plain_segment s"
  shows "path_segments (path_join subs) = filter (\<lambda>s. s \<noteq> []) subs"
proof -
  let ?qs = "filter (\<lambda>s. s \<noteq> []) subs"
  have plain: "\<forall>s \<in> set ?qs. plain_segment s" using assms by auto
  show ?thesis
  proof (cases "?qs = []")
    case True
    then have "path_join subs = []" unfolding path_join_def Let_def by (simp only: refl if_True)
    with True show ?thesis by (simp add: path_segments_def)
  next
    case False
    have split: "split_on CHR ''/'' (join_with CHR ''/'' ?qs) = ?qs"
      using False plain by (intro split_join) (auto simp: plain_segment_def)
    have "foldl (clean_step b) [] ?qs = ?qs" for b using clean_plain [of ?qs b "[]"] plain by simp
    moreover have "\<not> has_prefix (join_with CHR ''/'' ?qs) ''/''"
    proof
      assume "has_prefix (join_with CHR ''/'' ?qs) ''/''"
      then obtain t where "join_with CHR ''/'' ?qs = CHR ''/'' # t"
        by (cases "join_with CHR ''/'' ?qs") (auto simp: has_prefix_def)
      then have "[] \<in> set (split_on CHR ''/'' (join_with CHR ''/'' ?qs))" by simp
      then show False unfolding split by simp
    qed
    ultimately have "path_join subs = join_with CHR ''/'' ?qs"
      using False by (simp add: path_join_def path_clean_def split Let_def)
    then show ?thesis by (simp add: path_segments_def split)
  qed
qed

lemma path_join_plain:
  assumes "\<forall>p \<in> set ss \<union> set ns. plain_segment p"
  shows "path_join (abs_path ss # ns) = abs_path (ss @ ns)"
proof -
  have "concat (map path_segments ns) = ns"
    using assms by (induction ns) auto
  then have "concat (map path_segments (abs_path ss # ns)) = ss @ ns"
    using assms path_segments_abs [of ss] by simp
  then show ?thesis
    using path_join_rooted [of "abs_path ss" "join_with CHR ''/'' ss" ns] assms by (simp add: abs_path_def)
qed

lemma abs_path_inj:
  "ss \<noteq> [] \<Longrightarrow> ts \<noteq> [] \<Longrightarrow> \<forall>p \<in> set ss \<union> set ts. plain_segment p \<Longrightarrow> abs_path ss = abs_path ts \<Longrightarrow> ss = ts"
  by (metis UnCI list.inject split_abs_path)

subsection \<open>The builder: facts\<close>

text \<open>A request that is in error stays as it is.\<close>

named_theorems builder_steps \<open>the steps of a builder, evaluated\<close>

lemma step_error [builder_steps]:
  assumes "rr_err r = Some e"
  shows "with_namespace ns r = r" "with_resource res r = r" "with_name n r = r"
    "with_subresource subs r = r" "with_params C opts r = r" "with_timeout d r = r" "with_body C b r = r"
  using assms
  by (simp_all add: with_namespace_def with_resource_def with_name_def with_subresource_def with_params_def
      with_timeout_def with_body_def)

lemma do_error_first [builder_steps]:
  "rr_err r = Some e \<Longrightarrow> do_request r = Inl e"
  by (simp add: do_request_def)

end
