(* ===== verification/Clientset.thy ===== *)
theory Clientset
  imports RestClient
begin

section \<open>The typed clients\<close>

text \<open>
  The generated clients of the two resources,
  \<^verbatim>\<open>pkg/client/clientset/versioned/typed/*/v1alpha1/gitlab*.go\<close>. The two files are the same up to
  the type and the name of the resource, so every method is written once, with the resource as
  an argument, and instantiated twice. A method gives the object it leaves in its result, its error
  and the calls it sent; \<open>None\<close> is a nil pointer that is dereferenced.
\<close>

record ('a, 'l, 'w) typed_client =
  tc_client :: "('a, 'l, 'w) rest_client"
  tc_ns :: string

definition new_typed :: "('a, 'l, 'w) rest_client \<Rightarrow> string \<Rightarrow> ('a, 'l, 'w) typed_client" where
  "new_typed C ns = \<lparr>tc_client = C, tc_ns = ns\<rparr>"

text \<open>The timeout of the calls on a collection: the seconds of the options, as a duration.\<close>

definition list_timeout :: "list_options \<Rightarrow> duration" where
  "list_timeout opts =
     (case lo_timeout_seconds opts of Some s \<Rightarrow> s * second | None \<Rightarrow> 0)"

definition collection_request :: "string \<Rightarrow> ('a, 'l, 'w) typed_client \<Rightarrow> string \<Rightarrow> rest_request" where
  "collection_request res c verb = with_resource res (with_namespace (tc_ns c) (new_request (tc_client c) verb))"

definition typed_get ::
  "string \<Rightarrow> 'a \<Rightarrow> ('a, 'l, 'w) typed_client \<Rightarrow> string \<Rightarrow> string \<Rightarrow> ('a \<times> goerr option) \<times> http_call list" where
  "typed_get res zero c name opts =
     do_into (rc_into (tc_client c)) zero
       (with_params (tc_client c) (GetOptions opts) (with_name name (collection_request res c ''GET'')))"

definition typed_list ::
  "string \<Rightarrow> 'l \<Rightarrow> ('a, 'l, 'w) typed_client \<Rightarrow> list_options \<Rightarrow> ('l \<times> goerr option) \<times> http_call list" where
  "typed_list res zero c opts =
     do_into (rc_into_list (tc_client c)) zero
       (with_timeout (list_timeout opts)
         (with_params (tc_client c) (ListOptions opts) (collection_request res c ''GET'')))"

definition typed_watch ::
  "string \<Rightarrow> ('a, 'l, 'w) typed_client \<Rightarrow> list_options \<Rightarrow> (goerr + 'w) \<times> http_call list" where
  "typed_watch res c opts =
     do_watch (rc_watch (tc_client c))
       (with_timeout (list_timeout opts)
         (with_params (tc_client c) (ListOptions (opts\<lparr>lo_watch := True\<rparr>)) (collection_request res c ''GET'')))"

definition typed_create ::
  "string \<Rightarrow> 'a \<Rightarrow> ('a, 'l, 'w) typed_client \<Rightarrow> 'a option \<Rightarrow> string \<Rightarrow> ('a \<times> goerr option) \<times> http_call list" where
  "typed_create res zero c x opts =
     do_into (rc_into (tc_client c)) zero
       (with_body (tc_client c) (ObjectBody x)
         (with_params (tc_client c) (CreateOptions opts) (collection_request res c ''POST'')))"

definition typed_update ::
  "string \<Rightarrow> 'a \<Rightarrow> ('a \<Rightarrow> string) \<Rightarrow> ('a, 'l, 'w) typed_client \<Rightarrow> 'a option \<Rightarrow> string \<Rightarrow>
     (('a \<times> goerr option) \<times> http_call list) option" where
  "typed_update res zero name_of c ptr opts =
     (case ptr of
        None \<Rightarrow> None
      | Some x \<Rightarrow> Some (do_into (rc_into (tc_client c)) zero
          (with_body (tc_client c) (ObjectBody (Some x))
            (with_params (tc_client c) (UpdateOptions opts)
              (with_name (name_of x) (collection_request res c ''PUT''))))))"

definition typed_update_status ::
  "string \<Rightarrow> 'a \<Rightarrow> ('a \<Rightarrow> string) \<Rightarrow> ('a, 'l, 'w) typed_client \<Rightarrow> 'a option \<Rightarrow> string \<Rightarrow>
     (('a \<times> goerr option) \<times> http_call list) option" where
  "typed_update_status res zero name_of c ptr opts =
     (case ptr of
        None \<Rightarrow> None
      | Some x \<Rightarrow> Some (do_into (rc_into (tc_client c)) zero
          (with_body (tc_client c) (ObjectBody (Some x))
            (with_params (tc_client c) (UpdateOptions opts)
              (with_subresource [''status''] (with_name (name_of x) (collection_request res c ''PUT'')))))))"

definition typed_delete ::
  "string \<Rightarrow> ('a, 'l, 'w) typed_client \<Rightarrow> string \<Rightarrow> string \<Rightarrow> goerr option \<times> http_call list" where
  "typed_delete res c name opts =
     do_error (rc_error (tc_client c))
       (with_body (tc_client c) (DeleteBody opts) (with_name name (collection_request res c ''DELETE'')))"

definition typed_delete_collection ::
  "string \<Rightarrow> ('a, 'l, 'w) typed_client \<Rightarrow> string \<Rightarrow> list_options \<Rightarrow> goerr option \<times> http_call list" where
  "typed_delete_collection res c opts list_opts =
     do_error (rc_error (tc_client c))
       (with_body (tc_client c) (DeleteBody opts)
         (with_timeout (list_timeout list_opts)
           (with_params (tc_client c) (ListOptions list_opts) (collection_request res c ''DELETE''))))"

definition typed_patch ::
  "string \<Rightarrow> 'a \<Rightarrow> ('a, 'l, 'w) typed_client \<Rightarrow> string \<Rightarrow> string \<Rightarrow> string \<Rightarrow> string \<Rightarrow> string list \<Rightarrow>
     ('a \<times> goerr option) \<times> http_call list" where
  "typed_patch res zero c name pt data opts subs =
     do_into (rc_into (tc_client c)) zero
       (with_body (tc_client c) (RawBody data)
         (with_params (tc_client c) (PatchOptions opts)
           (with_subresource subs
             (with_name name
               (with_resource res (with_namespace (tc_ns c) (patch_request (tc_client c) pt)))))))"

subsection \<open>The two resources\<close>

definition sources_resource :: string where "sources_resource = ''gitlabsources''"
definition bindings_resource :: string where "bindings_resource = ''gitlabbindings''"

definition sources_get where "sources_get = typed_get sources_resource"
definition sources_list where "sources_list = typed_list sources_resource"
definition sources_watch where "sources_watch = typed_watch sources_resource"
definition sources_create where "sources_create = typed_create sources_resource"
definition sources_update where "sources_update = typed_update sources_resource"
definition sources_update_status where "sources_update_status = typed_update_status sources_resource"
definition sources_delete where "sources_delete = typed_delete sources_resource"
definition sources_delete_collection where
  "sources_delete_collection = typed_delete_collection sources_resource"
definition sources_patch where "sources_patch = typed_patch sources_resource"

definition bindings_get where "bindings_get = typed_get bindings_resource"
definition bindings_list where "bindings_list = typed_list bindings_resource"
definition bindings_watch where "bindings_watch = typed_watch bindings_resource"
definition bindings_create where "bindings_create = typed_create bindings_resource"
definition bindings_update where "bindings_update = typed_update bindings_resource"
definition bindings_update_status where "bindings_update_status = typed_update_status bindings_resource"
definition bindings_delete where "bindings_delete = typed_delete bindings_resource"
definition bindings_delete_collection where
  "bindings_delete_collection = typed_delete_collection bindings_resource"
definition bindings_patch where "bindings_patch = typed_patch bindings_resource"

lemmas sources_methods = sources_get_def sources_list_def sources_watch_def sources_create_def
  sources_update_def sources_update_status_def sources_delete_def sources_delete_collection_def
  sources_patch_def

lemmas bindings_methods = bindings_get_def bindings_list_def bindings_watch_def bindings_create_def
  bindings_update_def bindings_update_status_def bindings_delete_def bindings_delete_collection_def
  bindings_patch_def

subsection \<open>Facts on the requests\<close>

lemmas builder_defs = new_request_def patch_request_def with_namespace_def with_resource_def
  with_name_def with_params_def with_timeout_def with_body_def encoded_body_def collection_request_def
  fail_def Let_def

definition valid_name :: "string \<Rightarrow> bool" where
  "valid_name n \<longleftrightarrow> n \<noteq> [] \<and> path_segment_errors n = []"

lemma valid_name_plain: "valid_name n \<Longrightarrow> plain_segment n"
  by (simp add: valid_name_def valid_segment)

definition collection_segments :: "string list \<Rightarrow> string \<Rightarrow> string \<Rightarrow> string list" where
  "collection_segments base ns res = base @ [''namespaces'', ns, res]"

definition object_segments :: "string list \<Rightarrow> string \<Rightarrow> string \<Rightarrow> string \<Rightarrow> string list" where
  "object_segments base ns res n = collection_segments base ns res @ [n]"

lemma plain_namespaces: "plain_segment ''namespaces''"
  by code_simp

lemma plain_status: "plain_segment ''status''" "path_segment_errors ''status'' = []" "path_join [''status''] = ''status''"
  by code_simp+

definition http_request ::
  "string \<Rightarrow> string option \<Rightarrow> string list \<Rightarrow> params \<Rightarrow> duration \<Rightarrow> string option \<Rightarrow> http_call" where
  "http_request verb ct segments ps t body =
     \<lparr>hq_verb = verb, hq_content_type = ct, hq_path = abs_path segments, hq_params = ps,
      hq_timeout = t, hq_body = body\<rparr>"

text \<open>What is refused before it is sent.\<close>

lemma with_name_invalid:
  "\<not> valid_name n \<Longrightarrow> rr_name r = [] \<Longrightarrow> \<exists>e. rr_err (with_name n r) = Some e"
  by (auto simp: with_name_def valid_name_def fail_def Let_def)

lemma refused_name:
  assumes "\<not> valid_name n" and "rr_name r = []"
  shows "\<exists>e. do_request (with_params C' o' (with_name n r)) = Inl e"
    "\<exists>e. do_request (with_body C bd (with_name n r)) = Inl e"
    "\<exists>e. do_request (with_body C bd (with_params C' o' (with_name n r))) = Inl e"
    "\<exists>e. do_request (with_body C bd (with_params C' o' (with_subresource subs (with_name n r)))) = Inl e"
  using with_name_invalid [OF assms] by (auto simp: builder_steps)

lemma collection_blank: "rr_name (collection_request res c verb) = []"
  "rr_name (with_resource res (with_namespace ns (patch_request C pt))) = []"
  by (simp_all add: builder_defs split: option.split)

lemma do_into_refused: "\<exists>e. do_request r = Inl e \<Longrightarrow> \<exists>e. do_into into z r = ((z, Some e), [])"
  by (auto simp: do_into_def)

lemma do_error_refused: "\<exists>e. do_request r = Inl e \<Longrightarrow> \<exists>e. do_error err r = (Some e, [])"
  by (auto simp: do_error_def)

lemma preflight_kept:
  assumes "rr_namespace r = Some []" and "rr_verb r \<in> {''POST'', ''GET'', ''PUT'', ''DELETE''}"
    and "rr_verb r = ''POST'' \<or> rr_name r \<noteq> [] \<or> rr_err r \<noteq> None"
  shows "\<exists>e. do_request r = Inl e"
  using assms by (cases "rr_err r") (auto simp: do_request_def preflight_def)

lemma builder_frame [simp]:
  "rr_namespace (with_params C o' r) = rr_namespace r" "rr_verb (with_params C o' r) = rr_verb r"
  "rr_name (with_params C o' r) = rr_name r"
  "rr_namespace (with_body C' b r) = rr_namespace r" "rr_verb (with_body C' b r) = rr_verb r"
  "rr_name (with_body C' b r) = rr_name r"
  "rr_namespace (with_subresource subs r) = rr_namespace r" "rr_verb (with_subresource subs r) = rr_verb r"
  "rr_name (with_subresource subs r) = rr_name r"
  "rr_namespace (with_name n r) = rr_namespace r" "rr_verb (with_name n r) = rr_verb r"
  by (simp_all add: with_params_def with_body_def encoded_body_def with_subresource_def with_name_def fail_def Let_def
      split: sum.split rest_body.split option.split)

text \<open>A resource: a lower-case name that is one segment of a path.\<close>

locale typed_resource =
  fixes res :: string
  assumes valid_res: "valid_name res" and lower_res: "to_lower res = res"
begin

lemma collection_path:
  assumes "rr_path_prefix r = abs_path base" and "base \<noteq> []" and "\<forall>p \<in> set base. plain_segment p"
    and "rr_namespace r = Some ns" and "valid_name ns" and "rr_resource r = res"
    and "rr_name r = []" and "rr_subresource r = []"
  shows "request_path r = abs_path (collection_segments base ns res)"
  using assms valid_res lower_res path_join_plain [of base "[''namespaces'', ns]"]
    path_join_plain [of "base @ [''namespaces'', ns]" "[res]"] valid_name_plain plain_namespaces
  by (simp add: request_path_def Let_def valid_name_def collection_segments_def)

lemma object_path:
  assumes "rr_path_prefix r = abs_path base" and "base \<noteq> []" and "\<forall>p \<in> set base. plain_segment p"
    and "rr_namespace r = Some ns" and "valid_name ns" and "rr_resource r = res"
    and "rr_name r = n" and "valid_name n" and "rr_subresource r = path_join subs"
    and "\<forall>s \<in> set subs. s = [] \<or> plain_segment s"
  shows "request_path r = abs_path (object_segments base ns res n @ filter (\<lambda>s. s \<noteq> []) subs)"
proof -
  let ?p = "abs_path (collection_segments base ns res)"
  have plain: "\<forall>p \<in> set (collection_segments base ns res). plain_segment p"
    using assms(3,5) valid_res valid_name_plain plain_namespaces by (auto simp: collection_segments_def)
  have "request_path r = path_join [?p, n, path_join subs]"
    using assms valid_res lower_res path_join_plain [of base "[''namespaces'', ns]"]
      path_join_plain [of "base @ [''namespaces'', ns]" "[res]"] valid_name_plain plain_namespaces
    by (simp add: request_path_def Let_def valid_name_def collection_segments_def)
  also have "\<dots> = abs_path (object_segments base ns res n @ filter (\<lambda>s. s \<noteq> []) subs)"
  proof -
    have segs: "concat (map path_segments [?p, n, path_join subs]) = object_segments base ns res n @ filter (\<lambda>s. s \<noteq> []) subs"
      using assms(8,10) plain by (simp add: path_segments_abs path_segments_join valid_name_plain object_segments_def)
    have "\<forall>s \<in> set (object_segments base ns res n @ filter (\<lambda>s. s \<noteq> []) subs). plain_segment s"
      using assms(8,10) plain valid_name_plain by (auto simp: object_segments_def)
    from this [folded segs] have "path_join [?p, n, path_join subs] = abs_path (concat (map path_segments [?p, n, path_join subs]))"
      by (rule path_join_rooted [OF abs_path_def])
    then show ?thesis unfolding segs .
  qed
  finally show ?thesis .
qed

text \<open>The requests of the methods, for a well-formed namespace and name.\<close>

lemma collection_calls:
  assumes c: "rc_path_prefix (tc_client c) = abs_path base" "base \<noteq> []" "\<forall>p \<in> set base. plain_segment p"
    and ns: "valid_name (tc_ns c)"
    and params: "\<And>opts. rc_params (tc_client c) opts = Inr (ps opts)"
  shows
    "snd (typed_list res zl c lo) =
       [http_request ''GET'' None (collection_segments base (tc_ns c) res) (ps (ListOptions lo)) (list_timeout lo) None]"
    "snd (typed_watch res c lo) =
       [http_request ''GET'' None (collection_segments base (tc_ns c) res)
          (ps (ListOptions (lo\<lparr>lo_watch := True\<rparr>))) (list_timeout lo) None]"
    "rc_encode (tc_client c) x = Inr b \<Longrightarrow> snd (typed_create res z c (Some x) opts) =
       [http_request ''POST'' (Some (rc_content_type (tc_client c))) (collection_segments base (tc_ns c) res)
          (ps (CreateOptions opts)) (rc_timeout (tc_client c)) (Some b)]"
    "rc_encode_delete (tc_client c) opts = Inr b \<Longrightarrow> snd (typed_delete_collection res c opts lo) =
       [http_request ''DELETE'' (Some (rc_content_type (tc_client c))) (collection_segments base (tc_ns c) res)
          (ps (ListOptions lo)) (list_timeout lo) (Some b)]"
  using assms valid_res
  by (simp_all add: typed_list_def typed_watch_def typed_create_def typed_delete_collection_def do_into_def
      do_error_def do_watch_def do_request_def preflight_def call_of_def builder_defs valid_name_def
      http_request_def collection_path [OF _ c(2,3) _ ns, unfolded valid_name_def])

lemma object_calls:
  assumes c: "rc_path_prefix (tc_client c) = abs_path base" "base \<noteq> []" "\<forall>p \<in> set base. plain_segment p"
    and ns: "valid_name (tc_ns c)" and n: "valid_name n"
    and params: "\<And>opts. rc_params (tc_client c) opts = Inr (ps opts)"
  shows
    "snd (typed_get res z c n opts) =
       [http_request ''GET'' None (object_segments base (tc_ns c) res n) (ps (GetOptions opts))
          (rc_timeout (tc_client c)) None]"
    "rc_encode_delete (tc_client c) opts = Inr b \<Longrightarrow> snd (typed_delete res c n opts) =
       [http_request ''DELETE'' (Some (rc_content_type (tc_client c))) (object_segments base (tc_ns c) res n)
          [] (rc_timeout (tc_client c)) (Some b)]"
    "rc_encode (tc_client c) x = Inr b \<Longrightarrow> name_of x = n \<Longrightarrow>
     map_option snd (typed_update res z name_of c (Some x) opts) =
       Some [http_request ''PUT'' (Some (rc_content_type (tc_client c))) (object_segments base (tc_ns c) res n)
          (ps (UpdateOptions opts)) (rc_timeout (tc_client c)) (Some b)]"
    "rc_encode (tc_client c) x = Inr b \<Longrightarrow> name_of x = n \<Longrightarrow>
     map_option snd (typed_update_status res z name_of c (Some x) opts) =
       Some [http_request ''PUT'' (Some (rc_content_type (tc_client c)))
          (object_segments base (tc_ns c) res n @ [''status''])
          (ps (UpdateOptions opts)) (rc_timeout (tc_client c)) (Some b)]"
    "\<forall>s \<in> set subs. path_segment_errors s = [] \<Longrightarrow> snd (typed_patch res z c n pt data opts subs) =
       [http_request ''PATCH'' (Some pt) (object_segments base (tc_ns c) res n @ filter (\<lambda>s. s \<noteq> []) subs)
          (ps (PatchOptions opts)) (rc_timeout (tc_client c)) (Some data)]"
proof -
  note path = object_path [OF _ c(2,3) _ ns _ _ n]
  have none: "path_join [] = []" by (simp add: path_join_def)
  note defs = typed_get_def typed_delete_def typed_update_def typed_update_status_def typed_patch_def do_into_def
    do_error_def do_request_def preflight_def call_of_def builder_defs valid_name_def with_subresource_def http_request_def
  show "snd (typed_get res z c n opts) =
      [http_request ''GET'' None (object_segments base (tc_ns c) res n) (ps (GetOptions opts)) (rc_timeout (tc_client c)) None]"
    using assms valid_res path [where subs = "[]"] none by (simp add: defs)
  show "rc_encode_delete (tc_client c) opts = Inr b \<Longrightarrow> snd (typed_delete res c n opts) =
      [http_request ''DELETE'' (Some (rc_content_type (tc_client c))) (object_segments base (tc_ns c) res n)
         [] (rc_timeout (tc_client c)) (Some b)]"
    using assms valid_res path [where subs = "[]"] none by (simp add: defs)
  show "rc_encode (tc_client c) x = Inr b \<Longrightarrow> name_of x = n \<Longrightarrow>
      map_option snd (typed_update res z name_of c (Some x) opts) =
      Some [http_request ''PUT'' (Some (rc_content_type (tc_client c))) (object_segments base (tc_ns c) res n)
         (ps (UpdateOptions opts)) (rc_timeout (tc_client c)) (Some b)]"
    using assms valid_res path [where subs = "[]"] none by (simp add: defs)
  show "rc_encode (tc_client c) x = Inr b \<Longrightarrow> name_of x = n \<Longrightarrow>
      map_option snd (typed_update_status res z name_of c (Some x) opts) =
      Some [http_request ''PUT'' (Some (rc_content_type (tc_client c))) (object_segments base (tc_ns c) res n @ [''status''])
         (ps (UpdateOptions opts)) (rc_timeout (tc_client c)) (Some b)]"
    using assms valid_res path [where subs = "[''status'']"] plain_status by (simp add: defs)
  show "snd (typed_patch res z c n pt data opts subs) =
      [http_request ''PATCH'' (Some pt) (object_segments base (tc_ns c) res n @ filter (\<lambda>s. s \<noteq> []) subs)
         (ps (PatchOptions opts)) (rc_timeout (tc_client c)) (Some data)]"
    if "\<forall>s \<in> set subs. path_segment_errors s = []"
  proof -
    have "find (\<lambda>s. path_segment_errors s \<noteq> []) subs = None" using that by (simp add: find_None_iff)
    moreover have "\<forall>s \<in> set subs. s = [] \<or> plain_segment s" using that valid_segment by blast
    ultimately show ?thesis using assms valid_res path [where subs = subs] by (simp add: defs)
  qed
qed

lemma refused:
  assumes "path_segment_errors (tc_ns c) = []"
  shows "\<not> valid_name n \<or> tc_ns c = [] \<Longrightarrow> \<exists>e. typed_get res z c n opts = ((z, Some e), [])"
    "\<not> valid_name n \<or> tc_ns c = [] \<Longrightarrow> \<exists>e. typed_delete res c n opts = (Some e, [])"
    "\<not> valid_name n \<or> tc_ns c = [] \<Longrightarrow> name_of x = n \<Longrightarrow>
       \<exists>e. typed_update res z name_of c (Some x) opts = Some ((z, Some e), [])"
    "\<not> valid_name n \<or> tc_ns c = [] \<Longrightarrow> name_of x = n \<Longrightarrow>
       \<exists>e. typed_update_status res z name_of c (Some x) opts = Some ((z, Some e), [])"
    "tc_ns c = [] \<Longrightarrow> \<exists>e. typed_create res z c p opts = ((z, Some e), [])"
    "\<not> valid_name n \<Longrightarrow> \<exists>e. typed_patch res z c n pt data opts subs = ((z, Some e), [])"
proof -
  let ?r = "\<lambda>verb. collection_request res c verb"
  have r: "rr_namespace (?r verb) = Some (tc_ns c)" "rr_verb (?r verb) = verb" "rr_err (?r verb) = None" for verb
    using assms valid_res by (simp_all add: builder_defs valid_name_def)
  have name: "valid_name n \<Longrightarrow> rr_name (with_name n (?r verb)) \<noteq> []" for verb
    using r(3) collection_blank(1) [of res c verb] by (simp add: with_name_def valid_name_def Let_def)
  have named: "\<not> valid_name n \<or> tc_ns c = [] \<Longrightarrow> verb \<in> {''GET'', ''PUT'', ''DELETE''} \<Longrightarrow>
      (\<exists>e. do_request (with_params C' o' (with_name n (?r verb))) = Inl e) \<and>
      (\<exists>e. do_request (with_body C bd (with_name n (?r verb))) = Inl e) \<and>
      (\<exists>e. do_request (with_body C bd (with_params C' o' (with_name n (?r verb)))) = Inl e) \<and>
      (\<exists>e. do_request (with_body C bd (with_params C' o' (with_subresource subs (with_name n (?r verb))))) = Inl e)"
    for C C' :: "('a, 'l, 'w) rest_client" and o' bd verb subs
    using refused_name(1) [where n = n and r = "?r verb" and C' = C' and o' = o']
      refused_name(2) [where n = n and r = "?r verb" and C = C and bd = bd]
      refused_name(3) [where n = n and r = "?r verb" and C = C and C' = C' and o' = o' and bd = bd]
      refused_name(4) [where n = n and r = "?r verb" and C = C and C' = C' and o' = o' and bd = bd and subs = subs]
      collection_blank(1) [of res c verb] r name
    by (cases "valid_name n") (auto intro!: preflight_kept)
  note reads = named [THEN conjunct1]
    and deletes = named [THEN conjunct2, THEN conjunct1]
    and updates = named [THEN conjunct2, THEN conjunct2, THEN conjunct1]
    and status = named [THEN conjunct2, THEN conjunct2, THEN conjunct2]
  show "\<exists>e. typed_get res z c n opts = ((z, Some e), [])" if "\<not> valid_name n \<or> tc_ns c = []"
    unfolding typed_get_def by (intro do_into_refused reads that) simp
  show "\<exists>e. typed_delete res c n opts = (Some e, [])" if "\<not> valid_name n \<or> tc_ns c = []"
    unfolding typed_delete_def by (intro do_error_refused deletes that) simp
  show "\<exists>e. typed_update res z name_of c (Some x) opts = Some ((z, Some e), [])"
    if "\<not> valid_name n \<or> tc_ns c = []" "name_of x = n"
    unfolding typed_update_def by (simp add: that(2)) (intro do_into_refused updates that, simp)
  show "\<exists>e. typed_update_status res z name_of c (Some x) opts = Some ((z, Some e), [])"
    if "\<not> valid_name n \<or> tc_ns c = []" "name_of x = n"
    unfolding typed_update_status_def by (simp add: that(2)) (intro do_into_refused status that, simp)
  show "\<exists>e. typed_create res z c p opts = ((z, Some e), [])" if "tc_ns c = []"
    unfolding typed_create_def by (intro do_into_refused preflight_kept) (simp_all add: r that)
  show "\<exists>e. typed_patch res z c n pt data opts subs = ((z, Some e), [])" if "\<not> valid_name n"
    unfolding typed_patch_def by (intro do_into_refused refused_name(4) that collection_blank)
qed

lemma all_namespaces:
  assumes "tc_ns c = []" and "rc_path_prefix (tc_client c) = abs_path base" "base \<noteq> []"
    "\<forall>p \<in> set base. plain_segment p" and "rc_params (tc_client c) (ListOptions lo) = Inr ps"
    and "rc_encode_delete (tc_client c) opts = Inr b"
  shows "map hq_path (snd (typed_delete_collection res c opts lo)) = [abs_path (base @ [res])]"
  using assms valid_res lower_res path_join_plain [of base "[res]"] valid_name_plain [OF valid_res]
  by (simp add: typed_delete_collection_def do_error_def do_request_def preflight_def call_of_def builder_defs
      valid_name_def request_path_def path_segment_errors_def [of "[]"])

end

interpretation sources: typed_resource sources_resource
  by unfold_locales (code_simp)+

interpretation bindings: typed_resource bindings_resource
  by unfold_locales (code_simp)+

subsection \<open>Properties of the typed clients\<close>

definition rooted_at :: "('a, 'l, 'w) rest_client \<Rightarrow> string list \<Rightarrow> bool" where
  "rooted_at C base \<longleftrightarrow> rc_path_prefix C = abs_path base \<and> base \<noteq> [] \<and> (\<forall>p \<in> set base. plain_segment p)"

text \<open>
  C35: every method of the two typed clients sends exactly one call with the verb, the path, the
  parameters, the timeout and the body of the Kubernetes API: a collection lives under
  namespaces/(ns)/(resource), an object under its name, a status under status, and a patch goes to whatever
  sub-resource of the object its last arguments name (empty ones fall away). A list, a watch and a
  deletion of a collection replace the client's own timeout, with none when the options name none.
\<close>

theorem typed_requests:
  assumes res: "res \<in> {sources_resource, bindings_resource}"
    and C: "rooted_at (tc_client c) base" and ns: "valid_name (tc_ns c)" and n: "valid_name n"
    and params: "\<And>opts. rc_params (tc_client c) opts = Inr (ps opts)"
    and x: "rc_encode (tc_client c) x = Inr b" "name_of x = n"
    and d: "rc_encode_delete (tc_client c) opts = Inr b'"
    and subs: "\<forall>s \<in> set subs. path_segment_errors s = []"
  shows
    "snd (typed_get res z c n opts) =
       [http_request ''GET'' None (object_segments base (tc_ns c) res n) (ps (GetOptions opts))
          (rc_timeout (tc_client c)) None] \<and>
     snd (typed_list res zl c lo) =
       [http_request ''GET'' None (collection_segments base (tc_ns c) res) (ps (ListOptions lo))
          (list_timeout lo) None] \<and>
     snd (typed_watch res c lo) =
       [http_request ''GET'' None (collection_segments base (tc_ns c) res)
          (ps (ListOptions (lo\<lparr>lo_watch := True\<rparr>))) (list_timeout lo) None] \<and>
     snd (typed_create res z c (Some x) opts) =
       [http_request ''POST'' (Some (rc_content_type (tc_client c))) (collection_segments base (tc_ns c) res)
          (ps (CreateOptions opts)) (rc_timeout (tc_client c)) (Some b)] \<and>
     map_option snd (typed_update res z name_of c (Some x) opts) =
       Some [http_request ''PUT'' (Some (rc_content_type (tc_client c))) (object_segments base (tc_ns c) res n)
          (ps (UpdateOptions opts)) (rc_timeout (tc_client c)) (Some b)] \<and>
     map_option snd (typed_update_status res z name_of c (Some x) opts) =
       Some [http_request ''PUT'' (Some (rc_content_type (tc_client c)))
          (object_segments base (tc_ns c) res n @ [''status''])
          (ps (UpdateOptions opts)) (rc_timeout (tc_client c)) (Some b)] \<and>
     snd (typed_delete res c n opts) =
       [http_request ''DELETE'' (Some (rc_content_type (tc_client c))) (object_segments base (tc_ns c) res n)
          [] (rc_timeout (tc_client c)) (Some b')] \<and>
     snd (typed_delete_collection res c opts lo) =
       [http_request ''DELETE'' (Some (rc_content_type (tc_client c))) (collection_segments base (tc_ns c) res)
          (ps (ListOptions lo)) (list_timeout lo) (Some b')] \<and>
     snd (typed_patch res z c n pt data opts subs) =
       [http_request ''PATCH'' (Some pt) (object_segments base (tc_ns c) res n @ filter (\<lambda>s. s \<noteq> []) subs)
          (ps (PatchOptions opts)) (rc_timeout (tc_client c)) (Some data)]"
proof -
  from C have base: "rc_path_prefix (tc_client c) = abs_path base" "base \<noteq> []" "\<forall>p \<in> set base. plain_segment p"
    by (simp_all add: rooted_at_def)
  from res show ?thesis
    using sources.collection_calls [OF base ns params] sources.object_calls [OF base ns n params]
      bindings.collection_calls [OF base ns params] bindings.object_calls [OF base ns n params] x d subs
    by (elim insertE) simp_all
qed

definition sample_client :: "(string, string, string) rest_client" where
  "sample_client =
     \<lparr>rc_path_prefix = ''/apis/sources.knative.dev/v1alpha1'', rc_timeout = 0,
      rc_content_type = ''application/json'', rc_params = (\<lambda>_. Inr []), rc_encode = Inr,
      rc_encode_delete = Inr, rc_into = (\<lambda>_ x. (''answer'', None)), rc_into_list = (\<lambda>_ x. (x, None)),
      rc_error = (\<lambda>_. None), rc_watch = (\<lambda>_. Inr ''stream'')\<rparr>"

definition sample_base :: "string list" where
  "sample_base = [''apis'', ''sources.knative.dev'', ''v1alpha1'']"

lemma sample_rooted: "rooted_at sample_client sample_base"
  by code_simp

theorem typed_requests_witness:
  "map hq_path (snd (typed_get sources_resource ''z'' (new_typed sample_client ''ns'') ''src'' ''o'')) =
     [''/apis/sources.knative.dev/v1alpha1/namespaces/ns/gitlabsources/src'']"
proof -
  have "valid_name ''ns'' \<and> valid_name ''src''" by code_simp
  moreover have "abs_path (object_segments sample_base ''ns'' sources_resource ''src'') =
      ''/apis/sources.knative.dev/v1alpha1/namespaces/ns/gitlabsources/src''" by code_simp
  ultimately show ?thesis
    using typed_requests [of sources_resource "new_typed sample_client ''ns''" sample_base "''src''" "\<lambda>_. []"
        "''x''" "''x''" "\<lambda>_. ''src''" "''o''" "''o''" "[]" "''z''"] sample_rooted
    by (simp add: new_typed_def sample_client_def http_request_def)
qed

text \<open>
  A name that is empty or not one segment of a path, or an empty namespace in a call about one
  named object or a creation, is refused before anything is sent, with an error and the zero object
  as result; a nil object crashes an update.
  Patches and calls on the collection are not covered by the check of the namespace: a deletion of the
  collection with an empty namespace is sent, for all the namespaces.
\<close>

theorem typed_refused:
  assumes res: "res \<in> {sources_resource, bindings_resource}" and ns: "path_segment_errors (tc_ns c) = []"
  shows
    "(\<not> valid_name n \<or> tc_ns c = [] \<longrightarrow>
       (\<exists>e. typed_get res z c n opts = ((z, Some e), [])) \<and>
       (\<exists>e. typed_delete res c n opts = (Some e, [])) \<and>
       (\<forall>x. name_of x = n \<longrightarrow>
          (\<exists>e. typed_update res z name_of c (Some x) opts = Some ((z, Some e), [])) \<and>
          (\<exists>e. typed_update_status res z name_of c (Some x) opts = Some ((z, Some e), [])))) \<and>
     (tc_ns c = [] \<longrightarrow> (\<exists>e. typed_create res z c p opts = ((z, Some e), []))) \<and>
     (\<not> valid_name n \<longrightarrow> (\<exists>e. typed_patch res z c n pt data opts subs = ((z, Some e), []))) \<and>
     typed_update res z name_of c None opts = None \<and>
     typed_update_status res z name_of c None opts = None \<and>
     (tc_ns c = [] \<and> rooted_at (tc_client c) base \<and> rc_params (tc_client c) (ListOptions lo) = Inr ps \<and>
        rc_encode_delete (tc_client c) opts = Inr b \<longrightarrow>
        map hq_path (snd (typed_delete_collection res c opts lo)) = [abs_path (base @ [res])])"
proof -
  from res have "typed_resource res"
    using sources.typed_resource_axioms bindings.typed_resource_axioms by blast
  note refused = typed_resource.refused [OF this ns]
    and all = typed_resource.all_namespaces [OF this, of c base lo ps opts b]
  have nil: "typed_update res z name_of c None opts = None" "typed_update_status res z name_of c None opts = None"
    by (simp_all add: typed_update_def typed_update_status_def)
  show ?thesis
    using refused all nil by (intro conjI impI allI) (simp_all add: rooted_at_def)
qed

theorem typed_refused_witness:
  "\<exists>e. typed_delete bindings_resource (new_typed sample_client ''ns'') ''a/b'' ''o'' = (Some e, [])"
proof -
  have "path_segment_errors ''ns'' = []" "\<not> valid_name ''a/b''" by code_simp+
  then show ?thesis
    using typed_refused [of bindings_resource "new_typed sample_client ''ns''" "''a/b''"] by (simp add: new_typed_def)
qed

text \<open>
  Two objects never share a path: calls about different resources, namespaces or names go to
  different URLs of the server.
\<close>

theorem typed_paths_distinct:
  assumes "res \<in> {sources_resource, bindings_resource}" "res' \<in> {sources_resource, bindings_resource}"
    and C: "rooted_at (tc_client c) base" "rooted_at (tc_client c') base'" "length base = length base'"
    and names: "valid_name (tc_ns c)" "valid_name n" "valid_name (tc_ns c')" "valid_name n'"
    and ps: "\<And>opts. rc_params (tc_client c) opts = Inr (ps opts)" "\<And>opts. rc_params (tc_client c') opts = Inr (ps' opts)"
    and same: "map hq_path (snd (typed_get res z c n opts)) = map hq_path (snd (typed_get res' z' c' n' opts'))"
  shows "res = res' \<and> tc_ns c = tc_ns c' \<and> n = n'"
proof -
  have calls: "snd (typed_get r z c n opts) =
      [http_request ''GET'' None (object_segments base (tc_ns c) r n) (ps (GetOptions opts)) (rc_timeout (tc_client c)) None]"
    if "r \<in> {sources_resource, bindings_resource}" "rooted_at (tc_client c) base" "valid_name (tc_ns c)"
      "valid_name n" "\<And>opts. rc_params (tc_client c) opts = Inr (ps opts)"
    for r and z :: 'x and c :: "('x, 'y, 'z) typed_client" and base n opts ps
    using that sources.object_calls(1) [of c base n ps] bindings.object_calls(1) [of c base n ps]
    by (auto simp: rooted_at_def)
  have plain: "\<forall>p \<in> set (object_segments base (tc_ns c) r n). plain_segment p"
    if "r \<in> {sources_resource, bindings_resource}" "rooted_at (tc_client c) base" "valid_name (tc_ns c)"
      "valid_name n" for r and c :: "('x, 'y, 'z) typed_client" and base n
    using that valid_name_plain sources.valid_res bindings.valid_res plain_namespaces
    by (auto simp: object_segments_def collection_segments_def rooted_at_def)
  have "abs_path (object_segments base (tc_ns c) res n) = abs_path (object_segments base' (tc_ns c') res' n')"
    using same calls [OF assms(1) C(1) names(1,2) ps(1), of z opts] calls [OF assms(2) C(2) names(3,4) ps(2), of z' opts']
    by (simp add: http_request_def)
  then have "object_segments base (tc_ns c) res n = object_segments base' (tc_ns c') res' n'"
    using plain [of res c base n] plain [of res' c' base' n'] assms
    by (intro abs_path_inj) (auto simp: object_segments_def)
  then show ?thesis using C(3) by (simp add: object_segments_def collection_segments_def)
qed

theorem typed_paths_distinct_witness:
  "map hq_path (snd (typed_get sources_resource ''z'' (new_typed sample_client ''ns'') ''a'' ''o'')) \<noteq>
   map hq_path (snd (typed_get sources_resource ''z'' (new_typed sample_client ''ns'') ''b'' ''o''))"
proof
  let ?c = "new_typed sample_client ''ns''"
  assume same: "map hq_path (snd (typed_get sources_resource ''z'' ?c ''a'' ''o'')) =
    map hq_path (snd (typed_get sources_resource ''z'' ?c ''b'' ''o''))"
  have "valid_name ''ns'' \<and> valid_name ''a'' \<and> valid_name ''b''" by code_simp
  then show False
    using typed_paths_distinct [of sources_resource sources_resource ?c sample_base ?c sample_base "''a''" "''b''"
        "\<lambda>_. []" "\<lambda>_. []", OF _ _ _ _ _ _ _ _ _ _ _ same] sample_rooted
    by (simp add: new_typed_def) (simp add: sample_client_def)
qed

text \<open>
  C36: the timeout of a call on a collection, for every value of the seconds of the options: it is their
  nanoseconds wrapped into the 64 bits of a duration. So it is exact up to 9223372036 seconds in either direction and
  for no other value; one second more is a negative duration, which sets no deadline; and further out it may be
  anything, such as the 0.29 seconds that 18446744074 seconds become. Absent seconds are no timeout.
\<close>

theorem list_timeout_bounds:
  "(lo_timeout_seconds opts = None \<longrightarrow> list_timeout opts = 0) \<and>
   (lo_timeout_seconds opts = Some s \<longrightarrow>
     sint (list_timeout opts) = (sint s * 1000000000 + 2 ^ 63) mod 2 ^ 64 - 2 ^ 63 \<and>
     (sint (list_timeout opts) = sint s * 1000000000 \<longleftrightarrow> \<bar>sint s\<bar> \<le> 9223372036) \<and>
     (sint s = 9223372037 \<longrightarrow> sint (list_timeout opts) < 0) \<and>
     (sint s = 18446744074 \<longrightarrow> sint (list_timeout opts) = 290448384))"
proof -
  have prod: "sint (s * second) = signed_take_bit 63 (sint s * 1000000000)"
    by (simp add: second_def sint_word_ariths)
  have wrap: "signed_take_bit 63 k = (k + 2 ^ 63) mod 2 ^ 64 - 2 ^ 63" for k :: int
    by (simp add: signed_take_bit_eq_take_bit_shift take_bit_eq_mod)
  have fits: "signed_take_bit 63 k = k \<longleftrightarrow> - (2 ^ 63) \<le> k \<and> k < 2 ^ 63" for k :: int
    using signed_take_bit_int_eq_self_iff [of 63 k] by simp
  have "sint (s * second) = sint s * 1000000000 \<longleftrightarrow> \<bar>sint s\<bar> \<le> 9223372036"
    unfolding prod fits by (simp add: abs_le_iff) linarith
  moreover have "sint (s * second) < 0" if "sint s = 9223372037"
    unfolding prod that by code_simp
  moreover have "sint (s * second) = 290448384" if "sint s = 18446744074"
    unfolding prod that by code_simp
  ultimately show ?thesis using prod wrap by (simp add: list_timeout_def)
qed

theorem list_timeout_bounds_witness:
  "sint (list_timeout \<lparr>lo_timeout_seconds = Some 9223372037, lo_watch = False, lo_label_selector = [], lo_rest = []\<rparr>) < 0"
  using list_timeout_bounds [of "\<lparr>lo_timeout_seconds = Some 9223372037, lo_watch = False, lo_label_selector = [], lo_rest = []\<rparr>" 9223372037]
  by simp

end
