(* ===== verification/Binding.thy ===== *)
theory Binding
  imports SourceApi
begin

section \<open>The GitLabBinding API type\<close>

text \<open>
  \<^verbatim>\<open>pkg/apis/bindings/v1alpha1\<close>: a binding projects the access token of a Secret into the pods of
  its subject, as a volume and a mount of it in every container. \<open>do_binding\<close> and \<open>undo_binding\<close> are
  the two operations knative's \<^verbatim>\<open>psbinding\<close> reconciler and webhook call on a pod template.
\<close>

subsection \<open>Pods\<close>

text \<open>
  The source of a volume is a Secret with some of its items, or another one, of which nothing is
  known. \<open>vol_other\<close> and \<open>ct_other\<close> stand for the other fields, which the operations do not touch.
\<close>

datatype volume_source = SecretSource string "(string \<times> string) list" | OtherSource string

record volume =
  vol_name :: string
  vol_source :: volume_source

record volume_mount =
  vm_name :: string
  vm_read_only :: bool
  vm_mount_path :: string
  vm_sub_path :: string

record container =
  ct_name :: string
  ct_mounts :: "volume_mount list"
  ct_other :: string

record pod_spec =
  ps_volumes :: "volume list"
  ps_init_containers :: "container list"
  ps_containers :: "container list"

subsection \<open>The binding\<close>

record subject_reference =
  sr_api_version :: string
  sr_kind :: string
  sr_namespace :: string
  sr_name :: string
  sr_selector :: "string option"

record binding_spec =
  bs_subject :: subject_reference
  bs_access_token :: "secret_key_selector option"

record binding_status =
  bst_observed_generation :: int
  bst_conditions :: "condition list"
  bst_sink_uri :: "url option"

record gitlab_binding =
  gb_meta :: object_meta
  gb_spec :: binding_spec
  gb_status :: binding_status

definition AccessTokenKey :: string where "AccessTokenKey = ''accessToken''"
definition VolumeName :: string where "VolumeName = ''gitlab-binding''"
definition MountPath :: string where "MountPath = ''/var/bindings/gitlab''"

definition binding_group_version :: "string \<times> string" where
  "binding_group_version = (''bindings.knative.dev'', ''v1alpha1'')"

definition binding_gvk :: "gitlab_binding \<Rightarrow> string \<times> string \<times> string" where
  "binding_gvk b = (fst binding_group_version, snd binding_group_version, ''GitLabBinding'')"

definition get_untyped_spec :: "gitlab_binding \<Rightarrow> binding_spec" where
  "get_untyped_spec b = gb_spec b"

definition get_subject :: "gitlab_binding \<Rightarrow> subject_reference" where
  "get_subject b = bs_subject (gb_spec b)"

definition get_binding_status :: "gitlab_binding \<Rightarrow> binding_status" where
  "get_binding_status b = gb_status b"

subsection \<open>Status\<close>

definition binding_cond_set :: condition_set where
  "binding_cond_set = new_living_condition_set []"

type_synonym bstate = "binding_status \<times> history"

definition manage_binding :: "(mstate \<Rightarrow> mstate) \<Rightarrow> bstate \<Rightarrow> bstate" where
  "manage_binding f s =
     (let (cs, h) = f (bst_conditions (fst s), snd s) in ((fst s)\<lparr>bst_conditions := cs\<rparr>, h))"

definition set_observed_generation :: "int \<Rightarrow> binding_status \<Rightarrow> binding_status" where
  "set_observed_generation gen st = st\<lparr>bst_observed_generation := gen\<rparr>"

definition initialize_binding_conditions :: "env \<Rightarrow> bstate \<Rightarrow> bstate" where
  "initialize_binding_conditions en = manage_binding (initialize_conditions en binding_cond_set)"

text \<open>
  \<^verbatim>\<open>fmt.Sprintf(format)\<close> without arguments: a doubled percent sign is one percent sign, a verb has no
  argument. Exact for formats without the characters \<^verbatim>\<open>*\<close> and \<^verbatim>\<open>[\<close> in a verb and with one-byte verbs.
\<close>

definition is_digit :: "char \<Rightarrow> bool" where
  "is_digit c \<longleftrightarrow> 48 \<le> byte c \<and> byte c \<le> 57"

definition after_flags :: "string \<Rightarrow> string" where
  "after_flags s =
     (let s1 = dropWhile is_digit (dropWhile (\<lambda>c. c \<in> set ''#0+- '') s)
      in case s1 of
           [] \<Rightarrow> []
         | c # s2 \<Rightarrow> (if c = CHR ''.'' then dropWhile is_digit s2 else s1))"

lemma after_flags_length: "length (after_flags s) \<le> length s"
proof -
  have d: "length (dropWhile P xs) \<le> length xs" for P and xs :: string
    by (rule length_dropWhile_le)
  show ?thesis
    using d [of is_digit "dropWhile (\<lambda>c. c \<in> set ''#0+- '') s"] d [of "\<lambda>c. c \<in> set ''#0+- ''" s]
      d [of is_digit "tl (dropWhile is_digit (dropWhile (\<lambda>c. c \<in> set ''#0+- '') s))"]
    by (auto simp: after_flags_def Let_def split: list.split)
qed

function sprintf0 :: "string \<Rightarrow> string" where
  "sprintf0 [] = []"
| "sprintf0 (c # s) =
     (if c \<noteq> CHR ''%'' then c # sprintf0 s
      else case after_flags s of
             [] \<Rightarrow> ''%!(NOVERB)''
           | v # r \<Rightarrow> (if v = CHR ''%'' then CHR ''%'' # sprintf0 r
                      else ''%!'' @ [v] @ ''(MISSING)'' @ sprintf0 r))"
  by pat_completeness auto
termination
proof (relation "measure length")
  fix c :: char and s v r
  assume "after_flags s = v # r"
  with after_flags_length [of s] show "(r, c # s) \<in> measure length" by simp
  then show "(r, c # s) \<in> measure length" .
qed simp_all

definition mark_binding_unavailable :: "env \<Rightarrow> string \<Rightarrow> string \<Rightarrow> bstate \<Rightarrow> bstate" where
  "mark_binding_unavailable en reason msg =
     manage_binding (mark_false en binding_cond_set condition_ready reason (sprintf0 msg))"

definition mark_binding_available :: "env \<Rightarrow> bstate \<Rightarrow> bstate" where
  "mark_binding_available en = manage_binding (mark_true en binding_cond_set condition_ready)"

subsection \<open>Do and Undo\<close>

text \<open>The loops of \<^verbatim>\<open>Undo\<close>: each removes the first element with the volume's name, and stops.\<close>

fun remove_first :: "('a \<Rightarrow> bool) \<Rightarrow> 'a list \<Rightarrow> 'a list" where
  "remove_first P [] = []"
| "remove_first P (x # xs) = (if P x then xs else x # remove_first P xs)"

definition remove_mount :: "container \<Rightarrow> container" where
  "remove_mount c = c\<lparr>ct_mounts := remove_first (\<lambda>m. vm_name m = VolumeName) (ct_mounts c)\<rparr>"

definition undo_binding :: "pod_spec \<Rightarrow> pod_spec" where
  "undo_binding ps =
     ps\<lparr>ps_volumes := remove_first (\<lambda>v. vol_name v = VolumeName) (ps_volumes ps),
        ps_init_containers := map remove_mount (ps_init_containers ps),
        ps_containers := map remove_mount (ps_containers ps)\<rparr>"

definition token_volume :: "secret_key_selector \<Rightarrow> volume" where
  "token_volume ref =
     \<lparr>vol_name = VolumeName,
      vol_source = SecretSource (sks_name ref) [(sks_key ref, AccessTokenKey)]\<rparr>"

definition token_mount :: volume_mount where
  "token_mount =
     \<lparr>vm_name = VolumeName, vm_read_only = True, vm_mount_path = MountPath, vm_sub_path = []\<rparr>"

definition add_mount :: "container \<Rightarrow> container" where
  "add_mount c = c\<lparr>ct_mounts := ct_mounts c @ [token_mount]\<rparr>"

text \<open>
  \<^verbatim>\<open>Do\<close> undoes first, then dereferences the selector, which panics if it is nil, and appends.
\<close>

definition do_binding :: "gitlab_binding \<Rightarrow> pod_spec \<Rightarrow> unit result \<times> pod_spec" where
  "do_binding b ps =
     (let ps1 = undo_binding ps
      in case bs_access_token (gb_spec b) of
           None \<Rightarrow> (Panic ''runtime error: invalid memory address or nil pointer dereference'', ps1)
         | Some ref \<Rightarrow>
             (Ok (),
              ps1\<lparr>ps_volumes := ps_volumes ps1 @ [token_volume ref],
                  ps_init_containers := map add_mount (ps_init_containers ps1),
                  ps_containers := map add_mount (ps_containers ps1)\<rparr>))"

subsection \<open>Defaults and validation\<close>

definition binding_set_defaults :: "gitlab_binding \<Rightarrow> gitlab_binding" where
  "binding_set_defaults b =
     (if sr_namespace (bs_subject (gb_spec b)) = []
      then b\<lparr>gb_spec := (gb_spec b)\<lparr>bs_subject := (bs_subject (gb_spec b))
             \<lparr>sr_namespace := om_namespace (gb_meta b)\<rparr>\<rparr>\<rparr>
      else b)"

text \<open>\<open>validate_subject\<close> stands for knative's \<^verbatim>\<open>(*tracker.Reference).Validate\<close>.\<close>

definition validate_binding_spec ::
  "(subject_reference \<Rightarrow> field_error option) \<Rightarrow> binding_spec \<Rightarrow> field_error option" where
  "validate_binding_spec validate_subject spec =
     (let err = via_field_opt ''subject'' (validate_subject (bs_subject spec))
      in case bs_access_token spec of
           None \<Rightarrow> also_error err (Some (err_missing_field ''accessToken.secretKeyRef''))
         | Some ref \<Rightarrow>
             (let err1 = (if sks_name ref = []
                          then also_error err (Some (err_missing_field ''accessToken.secretKeyRef.name''))
                          else err)
              in if sks_key ref = []
                 then also_error err1 (Some (err_missing_field ''accessToken.secretKeyRef.key''))
                 else err1))"

definition validate_binding ::
  "(subject_reference \<Rightarrow> field_error option) \<Rightarrow> gitlab_binding \<Rightarrow> field_error option" where
  "validate_binding validate_subject b =
     (let err = via_field_opt ''spec'' (validate_binding_spec validate_subject (gb_spec b));
          ns = sr_namespace (bs_subject (gb_spec b))
      in if ns \<noteq> [] \<and> om_namespace (gb_meta b) \<noteq> ns
         then also_error err (Some (err_invalid_value ns ''spec.subject.namespace''))
         else err)"

subsection \<open>The contract of a bindable\<close>

text \<open>
  What \<^verbatim>\<open>psbinding\<close> relies on: whatever bindings were done or undone before, the next operation
  determines the result. \<open>inv\<close> are the subjects the laws hold for.
\<close>

locale bindable =
  fixes inv :: "'p \<Rightarrow> bool"
    and bind :: "'b \<Rightarrow> 'p \<Rightarrow> 'p"
    and unbind :: "'p \<Rightarrow> 'p"
  assumes bind_inv: "inv p \<Longrightarrow> inv (bind b p)"
    and unbind_inv: "inv p \<Longrightarrow> inv (unbind p)"
    and bind_bind: "inv p \<Longrightarrow> bind b (bind b' p) = bind b p"
    and bind_unbind: "inv p \<Longrightarrow> bind b (unbind p) = bind b p"
    and unbind_bind: "inv p \<Longrightarrow> unbind (bind b p) = unbind p"
    and unbind_unbind: "inv p \<Longrightarrow> unbind (unbind p) = unbind p"
begin

text \<open>A sequence of operations: \<open>Some b\<close> binds with \<open>b\<close>, \<open>None\<close> unbinds.\<close>

lemma last_wins:
  "inv p \<Longrightarrow>
   fold (\<lambda>x q. case x of None \<Rightarrow> unbind q | Some b \<Rightarrow> bind b q) (xs @ [x]) p =
     (case x of None \<Rightarrow> unbind p | Some b \<Rightarrow> bind b p)"
proof (induction xs arbitrary: p)
  case Nil
  then show ?case by simp
next
  case (Cons y ys)
  show ?case
  proof (cases y)
    case None
    with Cons.IH [of "unbind p"] Cons.prems unbind_inv bind_unbind unbind_unbind show ?thesis
      by (auto split: option.split)
  next
    case (Some b)
    with Cons.IH [of "bind b p"] Cons.prems bind_inv bind_bind unbind_bind show ?thesis
      by (auto split: option.split)
  qed
qed

end

subsection \<open>Facts on pods\<close>

lemma remove_first_frame: "filter (\<lambda>x. \<not> P x) (remove_first P xs) = filter (\<lambda>x. \<not> P x) xs"
  by (induction xs) auto

lemma remove_first_absent: "filter P xs = [] \<Longrightarrow> remove_first P xs = xs"
  by (induction xs) (auto split: if_splits)

lemma remove_first_single:
  "length (filter P xs) \<le> 1 \<Longrightarrow> remove_first P xs = filter (\<lambda>x. \<not> P x) xs"
proof (induction xs)
  case (Cons x xs)
  show ?case
  proof (cases "P x")
    case True
    with Cons.prems have "filter P xs = []" by simp
    then have "filter (\<lambda>x. \<not> P x) xs = xs" by (simp add: filter_id_conv filter_empty_conv)
    with True show ?thesis by simp
  qed (use Cons in simp)
qed simp

text \<open>
  A pod in which the name of the volume occurs at most once, among the volumes and among the mounts
  of each container: what the API server enforces for volumes.
\<close>

definition single_mount :: "container \<Rightarrow> bool" where
  "single_mount c \<longleftrightarrow> length (filter (\<lambda>m. vm_name m = VolumeName) (ct_mounts c)) \<le> 1"

definition single_use :: "pod_spec \<Rightarrow> bool" where
  "single_use ps \<longleftrightarrow>
     length (filter (\<lambda>v. vol_name v = VolumeName) (ps_volumes ps)) \<le> 1 \<and>
     list_all single_mount (ps_init_containers ps) \<and> list_all single_mount (ps_containers ps)"

definition clean_mounts :: "container \<Rightarrow> container" where
  "clean_mounts c = c\<lparr>ct_mounts := filter (\<lambda>m. vm_name m \<noteq> VolumeName) (ct_mounts c)\<rparr>"

definition clean_pod :: "pod_spec \<Rightarrow> pod_spec" where
  "clean_pod ps =
     ps\<lparr>ps_volumes := filter (\<lambda>v. vol_name v \<noteq> VolumeName) (ps_volumes ps),
        ps_init_containers := map clean_mounts (ps_init_containers ps),
        ps_containers := map clean_mounts (ps_containers ps)\<rparr>"

lemma remove_mount_single: "single_mount c \<Longrightarrow> remove_mount c = clean_mounts c"
  by (simp add: remove_mount_def clean_mounts_def single_mount_def remove_first_single)

lemma undo_single: "single_use ps \<Longrightarrow> undo_binding ps = clean_pod ps"
  by (auto simp: undo_binding_def clean_pod_def single_use_def list_all_iff remove_first_single
      remove_mount_single)

lemma clean_mounts_simps [simp]:
  "clean_mounts (clean_mounts c) = clean_mounts c"
  "clean_mounts (add_mount c) = clean_mounts c"
  "single_mount (clean_mounts c)"
  "single_mount (add_mount (clean_mounts c))"
  by (simp_all add: clean_mounts_def add_mount_def single_mount_def token_mount_def filter_empty_conv)

lemma clean_pod_idem [simp]: "clean_pod (clean_pod ps) = clean_pod ps"
  by (simp add: clean_pod_def)

lemma clean_pod_single [simp]: "single_use (clean_pod ps)"
  by (simp add: clean_pod_def single_use_def list_all_iff)

definition bound_pod :: "secret_key_selector \<Rightarrow> pod_spec \<Rightarrow> pod_spec" where
  "bound_pod ref ps =
     (clean_pod ps)\<lparr>ps_volumes := ps_volumes (clean_pod ps) @ [token_volume ref],
        ps_init_containers := map add_mount (ps_init_containers (clean_pod ps)),
        ps_containers := map add_mount (ps_containers (clean_pod ps))\<rparr>"

lemma do_single:
  "single_use ps \<Longrightarrow> do_binding b ps =
     (case bs_access_token (gb_spec b) of
        None \<Rightarrow> (Panic ''runtime error: invalid memory address or nil pointer dereference'', clean_pod ps)
      | Some ref \<Rightarrow> (Ok (), bound_pod ref ps))"
  by (simp add: do_binding_def undo_single bound_pod_def Let_def split: option.split)

lemma bound_pod_simps [simp]:
  "clean_pod (bound_pod ref ps) = clean_pod ps" "single_use (bound_pod ref ps)"
  "bound_pod ref (clean_pod ps) = bound_pod ref ps"
  "bound_pod ref (bound_pod ref' ps) = bound_pod ref ps"
  by (simp_all add: bound_pod_def clean_pod_def token_volume_def single_use_def list_all_iff)

interpretation psb: bindable single_use "\<lambda>b ps. snd (do_binding b ps)" undo_binding
  by unfold_locales (auto simp: do_single undo_single split: option.split)

subsection \<open>Facts on the status\<close>

lemma sprintf0_plain: "CHR ''%'' \<notin> set s \<Longrightarrow> sprintf0 s = s"
  by (induction s) auto

lemma binding_set:
  "cs_happy binding_cond_set = condition_ready" "cs_dependents binding_cond_set = []"
  by (simp_all add: binding_cond_set_def new_living_condition_set_def new_condition_set_def)

lemma mark_unavailable_condition:
  assumes "cond_wf binding_cond_set (bst_conditions st)"
  shows "\<exists>c. get_condition condition_ready
      (bst_conditions (fst (mark_binding_unavailable en reason msg (st, h)))) = Some c \<and>
    cond_status c = CFalse \<and> cond_reason c = reason \<and> cond_message c = sprintf0 msg"
proof -
  let ?c = "mk_condition condition_ready CFalse (severity binding_cond_set condition_ready) reason
    (sprintf0 msg)"
  have "distinct (map cond_type (bst_conditions st))" using assms by (simp add: cond_wf_def)
  from set_condition_get [OF this, of condition_ready en ?c h] show ?thesis
    by (auto simp: mark_binding_unavailable_def manage_binding_def mark_false_def binding_set Let_def
        split: prod.split)
qed

lemma mark_available_condition:
  assumes "cond_wf binding_cond_set (bst_conditions st)"
  shows "status_of (bst_conditions (fst (mark_binding_available en (st, h)))) condition_ready = Some CTrue"
  using assms
  by (auto simp: mark_binding_available_def manage_binding_def mark_true_def binding_set Let_def
      recompute_happiness_def find_unhappy_dependent_def cond_simps split: prod.split)
    (metis fst_conv status_of_set_condition mk_condition_sel(1,2))

subsection \<open>A concrete binding\<close>

definition sim_container :: container where
  "sim_container =
     \<lparr>ct_name = ''user'',
      ct_mounts = [\<lparr>vm_name = ''data'', vm_read_only = False, vm_mount_path = ''/data'', vm_sub_path = []\<rparr>],
      ct_other = ''image''\<rparr>"

definition sim_pod :: pod_spec where
  "sim_pod =
     \<lparr>ps_volumes = [\<lparr>vol_name = ''data'', vol_source = OtherSource ''emptyDir''\<rparr>],
      ps_init_containers = [], ps_containers = [sim_container]\<rparr>"

definition sim_binding :: "secret_key_selector option \<Rightarrow> gitlab_binding" where
  "sim_binding tok =
     \<lparr>gb_meta =
        \<lparr>om_name = ''b'', om_generate_name = [], om_namespace = ''ns'', om_uid = ''u2'',
         om_resource_version = ''1'', om_generation = 1, om_deleted = False, om_finalizers = [],
         om_labels = [], om_owner_references = []\<rparr>,
      gb_spec =
        \<lparr>bs_subject = \<lparr>sr_api_version = ''apps/v1'', sr_kind = ''Deployment'', sr_namespace = [],
           sr_name = ''d'', sr_selector = None\<rparr>,
         bs_access_token = tok\<rparr>,
      gb_status = \<lparr>bst_observed_generation = 0, bst_conditions = [], bst_sink_uri = None\<rparr>\<rparr>"

definition sim_token :: secret_key_selector where
  "sim_token = \<lparr>sks_name = ''tokens'', sks_key = ''access''\<rparr>"

lemma sim_pod_single: "single_use sim_pod"
  by code_simp

section \<open>Properties of bindings\<close>

text \<open>
  C29: for a pod that uses the volume's name at most once, the result of any sequence of \<^verbatim>\<open>Do\<close> and \<^verbatim>\<open>Undo\<close>,
  of any bindings, is that of its last operation alone: \<^verbatim>\<open>Do\<close> is idempotent, \<^verbatim>\<open>Undo\<close> takes back exactly
  what \<^verbatim>\<open>Do\<close> did, and of two bindings with one subject the last one to be done wins.
\<close>

theorem binding_last_operation:
  assumes "single_use ps"
  shows "fold (\<lambda>x q. case x of None \<Rightarrow> undo_binding q | Some b \<Rightarrow> snd (do_binding b q)) (xs @ [x]) ps =
    (case x of None \<Rightarrow> undo_binding ps | Some b \<Rightarrow> snd (do_binding b ps))"
  by (rule psb.last_wins [OF assms])

theorem binding_last_operation_witness:
  "undo_binding (snd (do_binding (sim_binding (Some sim_token)) sim_pod)) = undo_binding sim_pod"
  using binding_last_operation [OF sim_pod_single, of "[Some (sim_binding (Some sim_token))]" None]
  by simp

text \<open>
  \<^verbatim>\<open>Do\<close> and \<^verbatim>\<open>Undo\<close> touch nothing but volumes and mounts with the binding's name: the other volumes,
  and in every container the other mounts and all other fields, stay as they are and in order, also
  when \<^verbatim>\<open>Do\<close> panics.
\<close>

theorem binding_frame:
  "clean_pod (undo_binding ps) = clean_pod ps \<and> clean_pod (snd (do_binding b ps)) = clean_pod ps"
proof -
  have c: "clean_mounts (remove_mount x) = clean_mounts x" for x
    by (simp add: clean_mounts_def remove_mount_def remove_first_frame)
  have u: "clean_pod (undo_binding ps) = clean_pod ps"
    by (simp add: clean_pod_def undo_binding_def remove_first_frame c)
  have "clean_pod (q\<lparr>ps_volumes := ps_volumes q @ [token_volume ref],
      ps_init_containers := map add_mount (ps_init_containers q),
      ps_containers := map add_mount (ps_containers q)\<rparr>) = clean_pod q" for q ref
    by (simp add: clean_pod_def token_volume_def)
  with u show ?thesis by (simp add: do_binding_def Let_def split: option.split)
qed

text \<open>
  After \<^verbatim>\<open>Do\<close>, every container and init container has the read-only mount of the token, and the pod
  has the volume it names, with the selected key of the selected Secret; if the pod used the name at
  most once, that volume is the only one of that name.
\<close>

theorem binding_provides_token:
  assumes "do_binding b ps = (Ok (), ps')"
  shows "\<exists>ref. bs_access_token (gb_spec b) = Some ref \<and> token_volume ref \<in> set (ps_volumes ps') \<and>
    (\<forall>c \<in> set (ps_init_containers ps') \<union> set (ps_containers ps'). token_mount \<in> set (ct_mounts c)) \<and>
    (single_use ps \<longrightarrow> filter (\<lambda>v. vol_name v = VolumeName) (ps_volumes ps') = [token_volume ref])"
proof -
  obtain ref where ref: "bs_access_token (gb_spec b) = Some ref"
    using assms by (auto simp: do_binding_def Let_def split: option.splits)
  have "filter (\<lambda>v. vol_name v = VolumeName) (ps_volumes (bound_pod ref ps)) = [token_volume ref]"
    by (simp add: bound_pod_def clean_pod_def token_volume_def)
  with assms ref show ?thesis
    by (auto simp: do_single) (auto simp: do_binding_def Let_def add_mount_def)
qed

theorem binding_provides_token_witness:
  "\<exists>ref. bs_access_token (gb_spec (sim_binding (Some sim_token))) = Some ref \<and>
     token_volume ref \<in> set (ps_volumes (snd (do_binding (sim_binding (Some sim_token)) sim_pod)))"
proof -
  have "do_binding (sim_binding (Some sim_token)) sim_pod =
      (Ok (), snd (do_binding (sim_binding (Some sim_token)) sim_pod))"
    by (simp add: do_binding_def sim_binding_def Let_def)
  from binding_provides_token [OF this] show ?thesis by blast
qed

text \<open>
  A binding is valid exactly if its subject is, its access token selects a non-empty name and key
  and its subject has no namespace or the binding's own.
\<close>

theorem binding_valid_iff:
  "validate_binding vs b = None \<longleftrightarrow>
     vs (bs_subject (gb_spec b)) = None \<and>
     (\<exists>ref. bs_access_token (gb_spec b) = Some ref \<and> sks_name ref \<noteq> [] \<and> sks_key ref \<noteq> []) \<and>
     sr_namespace (bs_subject (gb_spec b)) \<in> {[], om_namespace (gb_meta b)}"
  by (auto simp: validate_binding_def validate_binding_spec_def Let_def split: option.splits)

text \<open>
  \<^verbatim>\<open>Do\<close> panics, after having undone, exactly for a binding whose access token has no selector; for a
  binding that passes validation it never does.
\<close>

theorem binding_do_panics:
  "(is_panic (fst (do_binding b ps)) \<longleftrightarrow> bs_access_token (gb_spec b) = None) \<and>
   (validate_binding vs b = None \<longrightarrow> fst (do_binding b ps) = Ok ())"
  by (auto simp: do_binding_def is_panic_def Let_def validate_binding_def validate_binding_spec_def
      split: option.splits)

theorem binding_do_panics_witness:
  "fst (do_binding (sim_binding (Some sim_token)) sim_pod) = Ok ()"
proof -
  have "validate_binding (\<lambda>_. None) (sim_binding (Some sim_token)) = None" by code_simp
  with binding_do_panics [of "sim_binding (Some sim_token)" sim_pod "\<lambda>_. None"] show ?thesis by simp
qed

text \<open>
  Defaulting gives a subject without a namespace the binding's, so that the check of the namespace
  passes; it changes nothing else, and nothing the second time.
\<close>

theorem binding_defaults:
  "binding_set_defaults (binding_set_defaults b) = binding_set_defaults b \<and>
   gb_meta (binding_set_defaults b) = gb_meta b \<and> gb_status (binding_set_defaults b) = gb_status b \<and>
   bs_access_token (gb_spec (binding_set_defaults b)) = bs_access_token (gb_spec b) \<and>
   sr_namespace (get_subject (binding_set_defaults b)) =
     (if sr_namespace (get_subject b) = [] then om_namespace (gb_meta b) else sr_namespace (get_subject b))"
  by (cases b) (auto simp: binding_set_defaults_def get_subject_def)

text \<open>
  Marking a binding unavailable makes its Ready condition False with the given reason; the message is
  stored as given if it contains no percent sign. It is used as a format, so other messages are not.
\<close>

theorem binding_unavailable_message:
  assumes "cond_wf binding_cond_set (bst_conditions st)"
  shows "\<exists>c. get_condition condition_ready
      (bst_conditions (fst (mark_binding_unavailable en reason msg (st, h)))) = Some c \<and>
    cond_status c = CFalse \<and> cond_reason c = reason \<and>
    (CHR ''%'' \<notin> set msg \<longrightarrow> cond_message c = msg) \<and>
    (msg = ''GET /a%2Fb'' \<longrightarrow> cond_message c = ''GET /a%!F(MISSING)b'')"
  using mark_unavailable_condition [OF assms, of en reason msg h] sprintf0_plain [of msg]
  by (auto simp: after_flags_def is_digit_def byte_def)

theorem binding_unavailable_message_witness:
  "\<forall>en. \<exists>c. get_condition condition_ready (bst_conditions (fst (mark_binding_unavailable en ''SubjectMissing''
     ''gone'' (gb_status (sim_binding None), [])))) = Some c \<and> cond_message c = ''gone''"
  using binding_unavailable_message [of "gb_status (sim_binding None)" _ "''SubjectMissing''" "''gone''" "[]"]
  by (auto simp: sim_binding_def)

end
