(* ===== verification/ClientConfig.thy ===== *)
theory ClientConfig
  imports Clientset Binding Complex_Main
begin

section \<open>Building the clients\<close>

text \<open>
  The constructors of the clientset and of the two group clients
  (\<^verbatim>\<open>pkg/client/clientset/versioned/clientset.go\<close>, \<^verbatim>\<open>typed/*/v1alpha1/*_client.go\<close>), with the REST
  client they build. An \<open>environment\<close> holds what the rest of client-go makes of a configuration: its
  HTTP client, the path of its host's URL, a discovery client, the default user agent. A QPS is a rational,
  where the code has a \<^verbatim>\<open>float32\<close>. Rate limiters are objects: a state counts the ones created, so
  that two limiters with the same parameters are told apart.
\<close>

record rate_limiter =
  rl_id :: nat
  rl_qps :: rat
  rl_burst :: int

record rest_config =
  cf_host :: string
  cf_api_path :: string
  cf_group_version :: "(string \<times> string) option"
  cf_serializer :: bool
  cf_user_agent :: string
  cf_qps :: rat
  cf_burst :: int
  cf_rate_limiter :: "rate_limiter option"

record ('h, 'd) environment =
  en_user_agent :: string
  en_http_client :: "rest_config \<Rightarrow> goerr + 'h"
  en_base_path :: "rest_config \<Rightarrow> goerr + string"
  en_discovery :: "rest_config \<Rightarrow> 'h \<Rightarrow> goerr + 'd"

record 'h endpoint =
  ep_prefix :: string
  ep_group_version :: "string \<times> string"
  ep_rate_limiter :: "rate_limiter option"
  ep_user_agent :: string
  ep_http :: 'h

subsection \<open>The REST client\<close>

definition new_limiter :: "rat \<Rightarrow> int \<Rightarrow> nat \<Rightarrow> rate_limiter \<times> nat" where
  "new_limiter qps burst n = (\<lparr>rl_id = n, rl_qps = qps, rl_burst = burst\<rparr>, n + 1)"

definition versioned_api_path :: "string \<Rightarrow> string \<times> string \<Rightarrow> string" where
  "versioned_api_path api gv =
     (let p = path_join [''/'', api]
      in if fst gv \<noteq> [] then path_join [p, fst gv, snd gv] else path_join [p, snd gv])"

definition base_with_slash :: "string \<Rightarrow> string" where
  "base_with_slash p = (if has_suffix p ''/'' then p else p @ ''/'')"

definition rest_client_for ::
  "('h, 'd) environment \<Rightarrow> rest_config \<Rightarrow> 'h \<Rightarrow> nat \<Rightarrow> (goerr + 'h endpoint) \<times> nat" where
  "rest_client_for E conf http n =
     (case cf_group_version conf of
        None \<Rightarrow> (Inl (ErrText ''GroupVersion is required when initializing a RESTClient''), n)
      | Some gv \<Rightarrow>
          if \<not> cf_serializer conf
          then (Inl (ErrText ''NegotiatedSerializer is required when initializing a RESTClient''), n)
          else case en_base_path E conf of
            Inl e \<Rightarrow> (Inl e, n)
          | Inr base \<Rightarrow>
              (let (limiter, n') =
                 (case cf_rate_limiter conf of
                    Some l \<Rightarrow> (Some l, n)
                  | None \<Rightarrow>
                      (let qps = if cf_qps conf = 0 then 5 else cf_qps conf;
                           burst = if cf_burst conf = 0 then 10 else cf_burst conf
                       in if qps > 0 then (let (l, n') = new_limiter qps burst n in (Some l, n')) else (None, n)))
               in (Inr \<lparr>ep_prefix = path_join [''/'', base_with_slash base, versioned_api_path (cf_api_path conf) gv],
                        ep_group_version = gv, ep_rate_limiter = limiter, ep_user_agent = cf_user_agent conf,
                        ep_http = http\<rparr>, n')))"

subsection \<open>The group clients\<close>

definition set_config_defaults :: "('h, 'd) environment \<Rightarrow> string \<times> string \<Rightarrow> rest_config \<Rightarrow> rest_config" where
  "set_config_defaults E gv conf =
     conf\<lparr>cf_group_version := Some gv, cf_api_path := ''/apis'', cf_serializer := True,
          cf_user_agent := (if cf_user_agent conf = [] then en_user_agent E else cf_user_agent conf)\<rparr>"

definition group_for_config_and_client ::
  "string \<times> string \<Rightarrow> ('h, 'd) environment \<Rightarrow> rest_config \<Rightarrow> 'h \<Rightarrow> nat \<Rightarrow> (goerr + 'h endpoint) \<times> nat" where
  "group_for_config_and_client gv E conf http n = rest_client_for E (set_config_defaults E gv conf) http n"

definition group_for_config ::
  "string \<times> string \<Rightarrow> ('h, 'd) environment \<Rightarrow> rest_config \<Rightarrow> nat \<Rightarrow> (goerr + 'h endpoint) \<times> nat" where
  "group_for_config gv E conf n =
     (let conf = set_config_defaults E gv conf
      in case en_http_client E conf of
           Inl e \<Rightarrow> (Inl e, n)
         | Inr http \<Rightarrow> group_for_config_and_client gv E conf http n)"

text \<open>\<^verbatim>\<open>NewForConfigOrDie\<close>.\<close>

definition or_die :: "(goerr + 'x) \<times> nat \<Rightarrow> 'x result \<times> nat" where
  "or_die r = (case r of (Inl e, n) \<Rightarrow> (Panic (err_text e), n) | (Inr x, n) \<Rightarrow> (Ok x, n))"

text \<open>\<^verbatim>\<open>RESTClient()\<close>, on a pointer to a group client.\<close>

definition group_rest_client :: "'h endpoint option \<Rightarrow> 'h endpoint option" where
  "group_rest_client c = (case c of None \<Rightarrow> None | Some e \<Rightarrow> Some e)"

text \<open>\<^verbatim>\<open>New(c)\<close>, and the typed client of a group client for a namespace, on the REST client it wraps.\<close>

definition group_new :: "'h endpoint \<Rightarrow> 'h endpoint option" where
  "group_new c = Some c"

definition group_typed ::
  "('h endpoint \<Rightarrow> ('a, 'l, 'w) rest_client) \<Rightarrow> 'h endpoint \<Rightarrow> string \<Rightarrow> ('a, 'l, 'w) typed_client" where
  "group_typed rest c ns = new_typed ((rest c)\<lparr>rc_path_prefix := ep_prefix c\<rparr>) ns"

definition sources_for_config where "sources_for_config = group_for_config source_group_version"
definition sources_for_config_and_client where
  "sources_for_config_and_client = group_for_config_and_client source_group_version"
definition bindings_for_config where "bindings_for_config = group_for_config binding_group_version"
definition bindings_for_config_and_client where
  "bindings_for_config_and_client = group_for_config_and_client binding_group_version"

definition sources_or_die where "sources_or_die E conf n = or_die (sources_for_config E conf n)"
definition bindings_or_die where "bindings_or_die E conf n = or_die (bindings_for_config E conf n)"
definition bindings_new where "bindings_new = group_new"
definition bindings_rest_client where "bindings_rest_client = group_rest_client"
definition bindings_typed where "bindings_typed = group_typed"
definition bindings_config_defaults where "bindings_config_defaults E = set_config_defaults E binding_group_version"

subsection \<open>The clientset\<close>

record ('h, 'd) clientset =
  cs_bindings :: "'h endpoint"
  cs_sources :: "'h endpoint"
  cs_discovery :: 'd

definition clientset_for_config_and_client ::
  "('h, 'd) environment \<Rightarrow> rest_config \<Rightarrow> 'h \<Rightarrow> nat \<Rightarrow> (goerr + ('h, 'd) clientset) \<times> nat" where
  "clientset_for_config_and_client E conf http n =
     (if cf_rate_limiter conf = None \<and> cf_qps conf > 0 \<and> cf_burst conf \<le> 0
      then (Inl (ErrText ''burst is required to be greater than 0 when RateLimiter is not set and QPS is set to greater than 0''), n)
      else let (conf, n) =
             (if cf_rate_limiter conf = None \<and> cf_qps conf > 0
              then (let (l, n') = new_limiter (cf_qps conf) (cf_burst conf) n
                    in (conf\<lparr>cf_rate_limiter := Some l\<rparr>, n'))
              else (conf, n))
      in case bindings_for_config_and_client E conf http n of
           (Inl e, n) \<Rightarrow> (Inl e, n)
         | (Inr b, n) \<Rightarrow>
             (case sources_for_config_and_client E conf http n of
                (Inl e, n) \<Rightarrow> (Inl e, n)
              | (Inr s, n) \<Rightarrow>
                  (case en_discovery E conf http of
                     Inl e \<Rightarrow> (Inl e, n)
                   | Inr d \<Rightarrow> (Inr \<lparr>cs_bindings = b, cs_sources = s, cs_discovery = d\<rparr>, n))))"

definition clientset_for_config ::
  "('h, 'd) environment \<Rightarrow> rest_config \<Rightarrow> nat \<Rightarrow> (goerr + ('h, 'd) clientset) \<times> nat" where
  "clientset_for_config E conf n =
     (let conf = (if cf_user_agent conf = [] then conf\<lparr>cf_user_agent := en_user_agent E\<rparr> else conf)
      in case en_http_client E conf of
           Inl e \<Rightarrow> (Inl e, n)
         | Inr http \<Rightarrow> clientset_for_config_and_client E conf http n)"

definition clientset_or_die ::
  "('h, 'd) environment \<Rightarrow> rest_config \<Rightarrow> nat \<Rightarrow> ('h, 'd) clientset result \<times> nat" where
  "clientset_or_die E conf n = or_die (clientset_for_config E conf n)"

text \<open>\<^verbatim>\<open>New(c)\<close>, and \<^verbatim>\<open>Discovery()\<close> on a pointer to a clientset.\<close>

definition new_clientset :: "('h endpoint \<Rightarrow> 'd) \<Rightarrow> 'h endpoint \<Rightarrow> ('h, 'd) clientset" where
  "new_clientset discovery c = \<lparr>cs_bindings = c, cs_sources = c, cs_discovery = discovery c\<rparr>"

definition clientset_discovery :: "('h, 'd) clientset option \<Rightarrow> 'd option" where
  "clientset_discovery c = (case c of None \<Rightarrow> None | Some cs \<Rightarrow> Some (cs_discovery cs))"

subsection \<open>Facts\<close>

lemma rest_client_for_defaults:
  "rest_client_for E (set_config_defaults E gv conf) http n = (Inr e, n') \<Longrightarrow>
    ep_group_version e = gv \<and> ep_http e = http \<and>
    (\<exists>base. en_base_path E (set_config_defaults E gv conf) = Inr base \<and>
       ep_prefix e = path_join [''/'', base_with_slash base, versioned_api_path ''/apis'' gv]) \<and>
    (\<forall>l. cf_rate_limiter conf = Some l \<longrightarrow> ep_rate_limiter e = Some l \<and> n' = n) \<and>
    (cf_rate_limiter conf = None \<and> cf_qps conf = 0 \<longrightarrow>
       (\<exists>l. ep_rate_limiter e = Some l \<and> rl_id l = n \<and> rl_qps l = 5) \<and> n' = n + 1)"
  by (auto simp: rest_client_for_def set_config_defaults_def new_limiter_def Let_def
      split: option.splits sum.splits if_splits)

lemma slash_plain: "path_segments ''/'' = []"
  by code_simp

lemma path_segments_append_slash: "path_segments (p @ ''/'') = path_segments p"
  using split_on_sep [of "CHR ''/''" p "[]"] by (simp add: path_segments_def)

lemma versioned_path:
  assumes "plain_segment g" and "plain_segment v"
  shows "versioned_api_path ''/apis'' (g, v) = abs_path [''apis'', g, v]"
proof -
  have "path_join [''/'', ''/apis''] = abs_path [''apis'']" "plain_segment ''apis''" by code_simp+
  then show ?thesis
    using assms path_join_plain [of "[''apis'']" "[g, v]"]
    by (simp add: versioned_api_path_def plain_segment_def [of g])
qed

lemma endpoint_prefix:
  assumes "\<forall>p \<in> set (path_segments base). plain_segment p" and "plain_segment g" and "plain_segment v"
  shows "path_join [''/'', base_with_slash base, versioned_api_path ''/apis'' (g, v)] =
    abs_path (path_segments base @ [''apis'', g, v])"
proof -
  have apis: "plain_segment ''apis''" by code_simp
  have "path_segments (base_with_slash base) = path_segments base"
    by (simp add: base_with_slash_def path_segments_append_slash)
  then have "concat (map path_segments [''/'', base_with_slash base, versioned_api_path ''/apis'' (g, v)]) =
      path_segments base @ [''apis'', g, v]"
    using assms(2,3) apis versioned_path [OF assms(2,3)] path_segments_abs [of "[''apis'', g, v]"]
    by (simp add: slash_plain)
  then show ?thesis
    using path_join_rooted [of "''/''" "[]" "[base_with_slash base, versioned_api_path ''/apis'' (g, v)]"]
      assms apis by simp
qed

lemma group_plain: "plain_segment ''sources.knative.dev''" "plain_segment ''bindings.knative.dev''"
  "plain_segment ''v1alpha1''"
  by code_simp+

subsection \<open>Properties\<close>

text \<open>
  A clientset that is built has its two group clients below the host's path at
  apis/(group)/v1alpha1, on one HTTP client. With a rate limiter, or a positive QPS, they share one
  limiter; without (QPS 0) each group gets a limiter of its own, of 5 requests per second. A positive
  QPS without a positive burst is refused.
\<close>

theorem clientset_clients:
  assumes "clientset_for_config_and_client E conf http n = (r, n')"
    and base: "\<forall>c b. en_base_path E c = Inr b \<longrightarrow> (\<forall>p \<in> set (path_segments b). plain_segment p)"
  shows "(cf_rate_limiter conf = None \<and> cf_qps conf > 0 \<and> cf_burst conf \<le> 0 \<longrightarrow> (\<exists>e. r = Inl e) \<and> n' = n) \<and>
    (\<forall>cs. r = Inr cs \<longrightarrow>
      (\<exists>bb bs. ep_prefix (cs_bindings cs) = abs_path (bb @ [''apis'', ''bindings.knative.dev'', ''v1alpha1'']) \<and>
         ep_prefix (cs_sources cs) = abs_path (bs @ [''apis'', ''sources.knative.dev'', ''v1alpha1''])) \<and>
      ep_http (cs_bindings cs) = http \<and> ep_http (cs_sources cs) = http \<and>
      (cf_rate_limiter conf \<noteq> None \<or> cf_qps conf > 0 \<longrightarrow>
         (\<exists>l. ep_rate_limiter (cs_bindings cs) = Some l \<and> ep_rate_limiter (cs_sources cs) = Some l)) \<and>
      (cf_rate_limiter conf = None \<and> cf_qps conf = 0 \<longrightarrow>
         (\<exists>l l'. ep_rate_limiter (cs_bindings cs) = Some l \<and> ep_rate_limiter (cs_sources cs) = Some l' \<and>
            rl_id l \<noteq> rl_id l' \<and> rl_qps l = 5 \<and> rl_qps l' = 5)))"
proof (cases "cf_rate_limiter conf = None \<and> cf_qps conf > 0 \<and> cf_burst conf \<le> 0")
  case True
  then show ?thesis using assms(1) by (auto simp: clientset_for_config_and_client_def)
next
  case False
  define conf' where "conf' = (if cf_rate_limiter conf = None \<and> cf_qps conf > 0
      then conf\<lparr>cf_rate_limiter := Some \<lparr>rl_id = n, rl_qps = cf_qps conf, rl_burst = cf_burst conf\<rparr>\<rparr> else conf)"
  define m where "m = (if cf_rate_limiter conf = None \<and> cf_qps conf > 0 then n + 1 else n)"
  show ?thesis
  proof (cases r)
    case (Inr cs)
    have "clientset_for_config_and_client E conf http n =
      (case rest_client_for E (set_config_defaults E binding_group_version conf') http m of
         (Inl e, n) \<Rightarrow> (Inl e, n)
       | (Inr b, n) \<Rightarrow>
           (case rest_client_for E (set_config_defaults E source_group_version conf') http n of
              (Inl e, n) \<Rightarrow> (Inl e, n)
            | (Inr s, n) \<Rightarrow>
                (case en_discovery E conf' http of
                   Inl e \<Rightarrow> (Inl e, n)
                 | Inr d \<Rightarrow> (Inr \<lparr>cs_bindings = b, cs_sources = s, cs_discovery = d\<rparr>, n))))"
      unfolding clientset_for_config_and_client_def bindings_for_config_and_client_def
        sources_for_config_and_client_def group_for_config_and_client_def new_limiter_def Let_def if_not_P [OF False]
      by (cases "cf_rate_limiter conf = None \<and> cf_qps conf > 0")
        (simp_all only: conf'_def m_def if_True if_False prod.case simp_thms)
    with assms(1) Inr obtain b n1 s n2 d where
      b: "rest_client_for E (set_config_defaults E binding_group_version conf') http m = (Inr b, n1)" and
      s: "rest_client_for E (set_config_defaults E source_group_version conf') http n1 = (Inr s, n2)" and
      cs: "cs = \<lparr>cs_bindings = b, cs_sources = s, cs_discovery = d\<rparr>"
      by (auto split: prod.splits sum.splits)
    note facts = rest_client_for_defaults [OF b] rest_client_for_defaults [OF s]
    have prefix: "\<exists>bs. ep_prefix e = abs_path (bs @ [''apis'', g, ''v1alpha1''])"
      if "en_base_path E c = Inr bp" "ep_prefix e = path_join [''/'', base_with_slash bp, versioned_api_path ''/apis'' (g, ''v1alpha1'')]"
        "plain_segment g" for c bp g and e :: "'a endpoint"
      using endpoint_prefix [OF base [rule_format, OF that(1), THEN ballI] that(3) group_plain(3)] that(2) by auto
    have "\<exists>bs. ep_prefix b = abs_path (bs @ [''apis'', ''bindings.knative.dev'', ''v1alpha1''])"
      using facts(1) prefix [OF _ _ group_plain(2)] unfolding binding_group_version_def by blast
    moreover have "\<exists>bs. ep_prefix s = abs_path (bs @ [''apis'', ''sources.knative.dev'', ''v1alpha1''])"
      using facts(2) prefix [OF _ _ group_plain(1)] unfolding source_group_version_def by blast
    moreover have "ep_http b = http" "ep_http s = http" using facts by simp_all
    moreover have "\<exists>l. ep_rate_limiter b = Some l \<and> ep_rate_limiter s = Some l"
      if "cf_rate_limiter conf \<noteq> None \<or> cf_qps conf > 0"
    proof -
      from that have "cf_rate_limiter conf' \<noteq> None" by (auto simp: conf'_def)
      with facts show ?thesis by blast
    qed
    moreover have "\<exists>l l'. ep_rate_limiter b = Some l \<and> ep_rate_limiter s = Some l' \<and>
        rl_id l \<noteq> rl_id l' \<and> rl_qps l = 5 \<and> rl_qps l' = 5"
      if "cf_rate_limiter conf = None \<and> cf_qps conf = 0"
    proof -
      from that have "cf_rate_limiter conf' = None \<and> cf_qps conf' = 0" by (simp add: conf'_def)
      with facts obtain l l' where "ep_rate_limiter b = Some l" "rl_id l = m" "rl_qps l = 5" "n1 = m + 1"
          "ep_rate_limiter s = Some l'" "rl_id l' = n1" "rl_qps l' = 5" by blast
      then show ?thesis by simp
    qed
    ultimately show ?thesis using False Inr cs by simp
  qed (use False in auto)
qed

definition sample_environment :: "(string, string) environment" where
  "sample_environment =
     \<lparr>en_user_agent = ''agent'', en_http_client = (\<lambda>_. Inr ''http''), en_base_path = (\<lambda>_. Inr ''/proxy''),
      en_discovery = (\<lambda>_ _. Inr ''discovery'')\<rparr>"

definition sample_config :: rest_config where
  "sample_config =
     \<lparr>cf_host = ''https://server/proxy'', cf_api_path = [], cf_group_version = None, cf_serializer = False,
      cf_user_agent = [], cf_qps = 0, cf_burst = 0, cf_rate_limiter = None\<rparr>"

theorem clientset_clients_witness:
  "\<exists>cs l l'. fst (clientset_for_config_and_client sample_environment sample_config ''http'' 0) = Inr cs \<and>
     ep_rate_limiter (cs_bindings cs) = Some l \<and> ep_rate_limiter (cs_sources cs) = Some l' \<and> rl_id l \<noteq> rl_id l'"
proof -
  define q where "q = clientset_for_config_and_client sample_environment sample_config ''http'' 0"
  have "\<exists>cs. fst q = Inr cs"
    by (simp add: q_def clientset_for_config_and_client_def sample_config_def bindings_for_config_and_client_def
        sources_for_config_and_client_def group_for_config_and_client_def rest_client_for_def
        set_config_defaults_def sample_environment_def new_limiter_def)
  then obtain cs where cs: "fst q = Inr cs" ..
  have "\<forall>p \<in> set (path_segments ''/proxy''). plain_segment p" by code_simp
  then have base: "\<forall>c b. en_base_path sample_environment c = Inr b \<longrightarrow> (\<forall>p \<in> set (path_segments b). plain_segment p)"
    by (simp add: sample_environment_def)
  have q: "clientset_for_config_and_client sample_environment sample_config ''http'' 0 = (fst q, snd q)"
    by (simp add: q_def)
  have "cf_rate_limiter sample_config = None \<and> cf_qps sample_config = 0" by (simp add: sample_config_def)
  then show ?thesis
    unfolding q_def [symmetric]
    using clientset_clients [OF q base, THEN conjunct2, rule_format, OF cs] cs by auto
qed

end
