(* ===== verification/Heap.thy ===== *)
theory Heap
  imports Binding
begin

section \<open>Objects in memory\<close>

text \<open>
  The program's objects are trees of structs behind pointers: slices and maps are references, optional
  fields are pointers. This theory lays the two custom resources out in a store: an address is an index
  of a list of cells, an allocation appends a cell. \<open>None\<close> is nil, of a pointer, a slice or
  a map. The structs have all the fields of \<^verbatim>\<open>pkg/apis/*/v1alpha1/*_types.go\<close> and of the structs of libraries they
  embed or point to.

  A copier of a type is a function on values and stores; the locale \<open>deep_copier\<close> states what a
  deep copy promises, against a reading of the value (\<open>view\<close>) and its addresses. Pointers, slices, pairs
  and structs of deep copiers are deep copiers.
\<close>

type_synonym addr = nat

subsection \<open>Structs of the libraries\<close>

text \<open>
  \<^verbatim>\<open>metav1.ObjectMeta\<close> with its owner references and managed fields, \<^verbatim>\<open>ListMeta\<close> and \<^verbatim>\<open>LabelSelector\<close>. A time is an
  instant: the pointer to its location, which no code writes through, is left out, as the copies leave it shared.
\<close>

record heap_owner =
  how_api_version :: string
  how_kind :: string
  how_name :: string
  how_uid :: string
  how_controller :: "addr option"
  how_block_owner_deletion :: "addr option"

record heap_managed =
  hma_manager :: string
  hma_operation :: string
  hma_api_version :: string
  hma_time :: "addr option"
  hma_fields_type :: string
  hma_fields :: "addr option"
  hma_subresource :: string

record heap_meta =
  hm_name :: string
  hm_generate_name :: string
  hm_namespace :: string
  hm_self_link :: string
  hm_uid :: string
  hm_resource_version :: string
  hm_generation :: int
  hm_creation_timestamp :: int
  hm_deletion_timestamp :: "addr option"
  hm_grace_period :: "addr option"
  hm_labels :: "addr option"
  hm_annotations :: "addr option"
  hm_owner_references :: "addr option"
  hm_finalizers :: "addr option"
  hm_managed_fields :: "addr option"

record heap_list_meta =
  hl_self_link :: string
  hl_resource_version :: string
  hl_continue :: string
  hl_remaining :: "addr option"

record heap_requirement =
  hr_key :: string
  hr_operator :: string
  hr_values :: "addr option"

record heap_label_selector =
  hls_labels :: "addr option"
  hls_expressions :: "addr option"

text \<open>
  \<^verbatim>\<open>corev1.SecretKeySelector\<close>, \<^verbatim>\<open>apis.URL\<close> (its texts and flags in one list, and the pointer to the user) and the duck types.
\<close>

record heap_selector =
  hse_name :: string
  hse_key :: string
  hse_optional :: "addr option"

record heap_url =
  hu_texts :: "string list"
  hu_user :: "addr option"

record heap_kref =
  hk_kind :: string
  hk_namespace :: string
  hk_name :: string
  hk_api_version :: string
  hk_group :: string
  hk_address :: "addr option"

record heap_destination =
  hd_ref :: "addr option"
  hd_uri :: "addr option"
  hd_ca_certs :: "addr option"
  hd_audience :: "addr option"

record heap_duck_spec =
  hd_sink :: heap_destination
  hd_ce_overrides :: "addr option"

record heap_status =
  hst_observed_generation :: int
  hst_conditions :: "addr option"
  hst_annotations :: "addr option"

record heap_auth =
  ha_account_name :: "addr option"
  ha_account_names :: "addr option"

record heap_duck_status =
  hd_status :: heap_status
  hd_sink_uri :: "addr option"
  hd_ce_attributes :: "addr option"
  hd_sink_ca_certs :: "addr option"
  hd_sink_audience :: "addr option"
  hd_auth :: "addr option"

text \<open>\<^verbatim>\<open>tracker.Reference\<close>.\<close>

record heap_subject =
  hsu_api_version :: string
  hsu_kind :: string
  hsu_namespace :: string
  hsu_name :: string
  hsu_selector :: "addr option"

subsection \<open>The custom resources\<close>

text \<open>\<^verbatim>\<open>SecretValueFromSource\<close>.\<close>

record heap_secret_value =
  hsv_secret_key_ref :: "addr option"

record heap_source_spec =
  hs_duck_spec :: heap_duck_spec
  hs_service_account :: string
  hs_project_url :: string
  hs_event_types :: "addr option"
  hs_access_token :: heap_secret_value
  hs_secret_token :: heap_secret_value
  hs_ssl_verify :: bool

record heap_source_status =
  hs_duck_status :: heap_duck_status
  hs_webhook_id :: "addr option"

text \<open>The two texts of \<^verbatim>\<open>TypeMeta\<close> come first.\<close>

record heap_source =
  hs_kind :: string
  hs_api_version :: string
  hs_meta :: heap_meta
  hs_spec :: heap_source_spec
  hs_status :: heap_source_status

record heap_binding_spec =
  hb_subject :: heap_subject
  hb_access_token :: heap_secret_value

record heap_binding_status =
  hb_duck_status :: heap_duck_status

record heap_binding =
  hb_kind :: string
  hb_api_version :: string
  hb_meta :: heap_meta
  hb_spec :: heap_binding_spec
  hb_status :: heap_binding_status

record heap_list =
  hl_kind :: string
  hl_api_version :: string
  hl_meta :: heap_list_meta
  hl_items :: "addr option"

datatype cell =
    TimeCell int | IntCell int | BoolCell bool | StringCell string
  | StringsCell "string list" | MapCell "(string \<times> string) list"
  | OwnersCell "heap_owner list" | ManagedCell "heap_managed list" | FieldsCell "addr option"
  | RequirementsCell "heap_requirement list" | LabelSelectorCell heap_label_selector
  | UserCell "string \<times> string \<times> bool" | UrlCell heap_url | KRefCell heap_kref | AuthCell heap_auth
  | OverridesCell "addr option" | ConditionsCell "condition list" | AttributesCell "ce_attribute list"
  | SelectorCell heap_selector | SecretValueCell heap_secret_value
  | SourceCell heap_source | SourcesCell "heap_source list"
  | SourceSpecCell heap_source_spec | SourceStatusCell heap_source_status
  | BindingCell heap_binding | BindingsCell "heap_binding list"
  | BindingSpecCell heap_binding_spec | BindingStatusCell heap_binding_status
  | ListCell heap_list

type_synonym heap = "cell list"

subsection \<open>Deep copiers\<close>

locale deep_copier =
  fixes copy :: "'x \<Rightarrow> heap \<Rightarrow> 'x \<times> heap"
    and view :: "heap \<Rightarrow> 'x \<Rightarrow> 'v option"
    and addrs :: "heap \<Rightarrow> 'x \<Rightarrow> addr set"
  assumes copies: "view h x = Some v \<Longrightarrow> copy x (h @ t) = (x', h') \<Longrightarrow>
      (\<exists>u. h' = (h @ t) @ u) \<and>
      (\<forall>w. view (h' @ w) x' = Some v \<and> addrs (h' @ w) x' \<subseteq> {length (h @ t)..<length h'})"
    and bounded: "view h x = Some v \<Longrightarrow> addrs h x \<subseteq> {..<length h}"
    and framed: "view h x = Some v \<Longrightarrow> \<forall>a \<in> addrs h x. a < length h' \<and> h' ! a = h ! a \<Longrightarrow> view h' x = Some v"
begin

lemma stable: "view h x = Some v \<Longrightarrow> view (h @ t) x = Some v"
  by (rule framed) (use bounded [of h x v] in \<open>auto simp: nth_append\<close>)

lemma copied:
  assumes "view h x = Some v" and "copy x h = (x', h')"
  shows "view h' x' = Some v" and "addrs h' x' \<subseteq> {length h..<length h'}" and "\<exists>u. h' = h @ u"
proof -
  have c: "copy x (h @ []) = (x', h')" using assms(2) by simp
  from copies [OF assms(1) c] have "\<exists>u. h' = h @ u"
      and "\<forall>w. view (h' @ w) x' = Some v \<and> addrs (h' @ w) x' \<subseteq> {length h..<length h'}" by simp_all
  then show "view h' x' = Some v" "addrs h' x' \<subseteq> {length h..<length h'}" "\<exists>u. h' = h @ u"
    by (metis append_Nil2)+
qed

text \<open>
  Whatever is written through the copy, the original reads as before; and the other way round.
\<close>

lemma independent:
  assumes x: "view h x = Some v" and c: "copy x h = (x', h')"
    and w: "length h' \<le> length h''" "\<forall>a < length h'. a \<notin> addrs h' x' \<longrightarrow> h'' ! a = h' ! a"
  shows "view h'' x = Some v"
proof (rule framed [OF x])
  from copied(2,3) [OF x c] obtain u where u: "h' = h @ u" "addrs h' x' \<subseteq> {length h..<length h'}" by blast
  show "\<forall>a \<in> addrs h x. a < length h'' \<and> h'' ! a = h ! a"
  proof
    fix a assume "a \<in> addrs h x"
    then have "a < length h" using bounded [OF x] by auto
    moreover from this have "a \<notin> addrs h' x'" using u(2) by auto
    ultimately show "a < length h'' \<and> h'' ! a = h ! a" using w u(1) by (auto simp: nth_append)
  qed
qed

lemma independent_copy:
  assumes x: "view h x = Some v" and c: "copy x h = (x', h')"
    and w: "length h' \<le> length h''" "\<forall>a < length h'. length h \<le> a \<longrightarrow> h'' ! a = h' ! a"
  shows "view h'' x' = Some v"
  using framed [OF copied(1) [OF x c], of h''] copied(2) [OF x c] w by fastforce

end

text \<open>
  What a deep copy promises: it reads as the original, consists of new cells, and leaves the old cells as
  they were; and neither can be changed through the other.
\<close>

definition isolated_copy ::
  "(heap \<Rightarrow> 'x \<Rightarrow> 'v option) \<Rightarrow> (heap \<Rightarrow> 'x \<Rightarrow> addr set) \<Rightarrow> heap \<Rightarrow> 'x \<Rightarrow> heap \<Rightarrow> 'x \<Rightarrow> 'v \<Rightarrow> bool" where
  "isolated_copy view addrs h x h' x' v \<longleftrightarrow>
     view h' x' = Some v \<and> addrs h' x' \<subseteq> {length h..<length h'} \<and> (\<exists>u. h' = h @ u) \<and>
     (\<forall>h''. length h' \<le> length h'' \<longrightarrow>
        ((\<forall>a < length h'. a \<notin> addrs h' x' \<longrightarrow> h'' ! a = h' ! a) \<longrightarrow> view h'' x = Some v) \<and>
        ((\<forall>a < length h'. length h \<le> a \<longrightarrow> h'' ! a = h' ! a) \<longrightarrow> view h'' x' = Some v))"

context deep_copier
begin

lemma isolated:
  "view h x = Some v \<Longrightarrow> copy x h = (x', h') \<Longrightarrow> isolated_copy view addrs h x h' x' v"
  using copied [of h x v x' h'] independent [of h x v x' h'] independent_copy [of h x v x' h']
  by (simp add: isolated_copy_def)

end

subsection \<open>Values without pointers\<close>

definition copy_flat :: "'x \<Rightarrow> heap \<Rightarrow> 'x \<times> heap" where "copy_flat x h = (x, h)"
definition view_flat :: "heap \<Rightarrow> 'x \<Rightarrow> 'x option" where "view_flat h x = Some x"
definition addrs_flat :: "heap \<Rightarrow> 'x \<Rightarrow> addr set" where "addrs_flat h x = {}"

interpretation flat: deep_copier copy_flat view_flat addrs_flat
  by unfold_locales (auto simp: copy_flat_def view_flat_def addrs_flat_def)

subsection \<open>Pointers\<close>

definition load :: "heap \<Rightarrow> (cell \<Rightarrow> 'x option) \<Rightarrow> addr \<Rightarrow> 'x option" where
  "load h dest a = (if a < length h then dest (h ! a) else None)"

text \<open>
  \<^verbatim>\<open>if in != nil { out = new(T); in.DeepCopyInto(out) }\<close>. Addresses have no meaning, so the cells below
  the new one may come first. A pointer to a cell of another type does not occur in Go.
\<close>

definition copy_ptr ::
  "('x \<Rightarrow> cell) \<Rightarrow> (cell \<Rightarrow> 'x option) \<Rightarrow> ('x \<Rightarrow> heap \<Rightarrow> 'x \<times> heap) \<Rightarrow> addr option \<Rightarrow> heap \<Rightarrow> addr option \<times> heap" where
  "copy_ptr mk dest copy p h =
     (case p of
        None \<Rightarrow> (None, h)
      | Some a \<Rightarrow>
          (case load h dest a of
             None \<Rightarrow> (None, h)
           | Some x \<Rightarrow> (let (x', h') = copy x h in (Some (length h'), h' @ [mk x']))))"

definition view_ptr ::
  "(cell \<Rightarrow> 'x option) \<Rightarrow> (heap \<Rightarrow> 'x \<Rightarrow> 'v option) \<Rightarrow> heap \<Rightarrow> addr option \<Rightarrow> 'v option option" where
  "view_ptr dest view h p =
     (case p of
        None \<Rightarrow> Some None
      | Some a \<Rightarrow> (case load h dest a of None \<Rightarrow> None | Some x \<Rightarrow> map_option Some (view h x)))"

definition addrs_ptr ::
  "(cell \<Rightarrow> 'x option) \<Rightarrow> (heap \<Rightarrow> 'x \<Rightarrow> addr set) \<Rightarrow> heap \<Rightarrow> addr option \<Rightarrow> addr set" where
  "addrs_ptr dest addrs h p =
     (case p of
        None \<Rightarrow> {}
      | Some a \<Rightarrow> insert a (case load h dest a of None \<Rightarrow> {} | Some x \<Rightarrow> addrs h x))"

lemma load_append: "load h dest a = Some x \<Longrightarrow> load (h @ t) dest a = Some x"
  by (auto simp: load_def nth_append split: if_splits)

lemma view_ptr_cases:
  assumes "view_ptr dest view h p = Some v"
  obtains (null) "p = None" "v = None"
    | (cell) a x u where "p = Some a" "load h dest a = Some x" "view h x = Some u" "v = Some u"
  using assms by (auto simp: view_ptr_def split: option.splits)

lemma deep_copier_ptr:
  assumes c: "deep_copier copy view addrs" and dest: "\<And>x. dest (mk x) = Some x"
  shows "deep_copier (copy_ptr mk dest copy) (view_ptr dest view) (addrs_ptr dest addrs)"
proof
  fix h t h' :: heap and p p' v
  assume v: "view_ptr dest view h p = Some v" and cp: "copy_ptr mk dest copy p (h @ t) = (p', h')"
  show "(\<exists>u. h' = (h @ t) @ u) \<and> (\<forall>w. view_ptr dest view (h' @ w) p' = Some v \<and>
      addrs_ptr dest addrs (h' @ w) p' \<subseteq> {length (h @ t)..<length h'})"
  proof (cases p)
    case None
    with v cp show ?thesis by (auto simp: view_ptr_def copy_ptr_def addrs_ptr_def)
  next
    case (Some a)
    with v obtain x u where x: "load h dest a = Some x" "view h x = Some u" "v = Some u"
      by (auto elim: view_ptr_cases)
    obtain x' h1 where x': "copy x (h @ t) = (x', h1)" by (metis surj_pair)
    have p': "p' = Some (length h1)" "h' = h1 @ [mk x']"
      using cp Some load_append [OF x(1)] x' by (simp_all add: copy_ptr_def)
    have new: "load (h' @ w) dest (length h1) = Some x'" for w
      by (simp add: p'(2) load_def nth_append dest)
    from deep_copier.copies [OF c x(2) x'] obtain s where s: "h1 = (h @ t) @ s"
        and sub: "\<forall>w. view (h1 @ w) x' = Some u \<and> addrs (h1 @ w) x' \<subseteq> {length (h @ t)..<length h1}"
      by blast
    have "view (h' @ w) x' = Some u \<and> addrs (h' @ w) x' \<subseteq> {length (h @ t)..<length h1}" for w
      using sub [rule_format, of "[mk x'] @ w"] by (simp add: p'(2))
    moreover have "length (h @ t) \<le> length h1" using s by simp
    ultimately show ?thesis
      using s new x(3) by (fastforce simp: view_ptr_def addrs_ptr_def p')
  qed
next
  fix h :: heap and p v
  assume "view_ptr dest view h p = Some v"
  then show "addrs_ptr dest addrs h p \<subseteq> {..<length h}"
  proof (cases rule: view_ptr_cases)
    case (cell a x u)
    with deep_copier.bounded [OF c cell(3)] show ?thesis by (auto simp: addrs_ptr_def load_def split: if_splits)
  qed (simp add: addrs_ptr_def)
next
  fix h h' :: heap and p v
  assume v: "view_ptr dest view h p = Some v" and same: "\<forall>a \<in> addrs_ptr dest addrs h p. a < length h' \<and> h' ! a = h ! a"
  from v show "view_ptr dest view h' p = Some v"
  proof (cases rule: view_ptr_cases)
    case (cell a x u)
    with same have "load h' dest a = Some x" "\<forall>a \<in> addrs h x. a < length h' \<and> h' ! a = h ! a"
      by (auto simp: addrs_ptr_def load_def split: if_splits)
    with deep_copier.framed [OF c cell(3)] cell show ?thesis by (simp add: view_ptr_def)
  qed (simp add: view_ptr_def)
qed

subsection \<open>Slices of structs\<close>

fun copy_list :: "('x \<Rightarrow> heap \<Rightarrow> 'x \<times> heap) \<Rightarrow> 'x list \<Rightarrow> heap \<Rightarrow> 'x list \<times> heap" where
  "copy_list copy [] h = ([], h)"
| "copy_list copy (x # xs) h =
     (let (x', h1) = copy x h; (xs', h2) = copy_list copy xs h1 in (x' # xs', h2))"

fun view_list :: "(heap \<Rightarrow> 'x \<Rightarrow> 'v option) \<Rightarrow> heap \<Rightarrow> 'x list \<Rightarrow> 'v list option" where
  "view_list view h [] = Some []"
| "view_list view h (x # xs) =
     Option.bind (view h x) (\<lambda>v. Option.bind (view_list view h xs) (\<lambda>vs. Some (v # vs)))"

definition addrs_list :: "(heap \<Rightarrow> 'x \<Rightarrow> addr set) \<Rightarrow> heap \<Rightarrow> 'x list \<Rightarrow> addr set" where
  "addrs_list addrs h xs = (\<Union>x \<in> set xs. addrs h x)"

lemma addrs_list_simps [simp]:
  "addrs_list addrs h [] = {}" "addrs_list addrs h (x # xs) = addrs h x \<union> addrs_list addrs h xs"
  by (simp_all add: addrs_list_def)

lemma copies_list:
  assumes c: "deep_copier copy view addrs"
  shows "view_list view h xs = Some vs \<Longrightarrow> copy_list copy xs (h @ t) = (xs', h') \<Longrightarrow>
    (\<exists>u. h' = (h @ t) @ u) \<and> (\<forall>w. view_list view (h' @ w) xs' = Some vs \<and>
      addrs_list addrs (h' @ w) xs' \<subseteq> {length (h @ t)..<length h'})"
proof (induction xs arbitrary: vs t xs' h')
  case (Cons x xs)
  from Cons.prems(1) obtain v vs' where v: "view h x = Some v" "view_list view h xs = Some vs'" "vs = v # vs'"
    by (auto split: bind_splits)
  obtain x' h1 where x': "copy x (h @ t) = (x', h1)" by (metis surj_pair)
  obtain ys h2 where ys: "copy_list copy xs h1 = (ys, h2)" by (metis surj_pair)
  have res: "xs' = x' # ys" "h' = h2" using Cons.prems(2) x' ys by simp_all
  from deep_copier.copies [OF c v(1) x'] obtain u where u: "h1 = (h @ t) @ u"
      and one: "\<And>w. view (h1 @ w) x' = Some v \<and> addrs (h1 @ w) x' \<subseteq> {length (h @ t)..<length h1}"
    by blast
  have ys': "copy_list copy xs (h @ (t @ u)) = (ys, h2)" using ys u by simp
  from Cons.IH [OF v(2) ys'] obtain u' where u': "h2 = h1 @ u'"
      and rest: "\<And>w. view_list view (h2 @ w) ys = Some vs' \<and> addrs_list addrs (h2 @ w) ys \<subseteq> {length h1..<length h2}"
    using u by auto
  have "view (h2 @ w) x' = Some v \<and> addrs (h2 @ w) x' \<subseteq> {length (h @ t)..<length h1}" for w
    using one [of "u' @ w"] u' by simp
  with rest u u' show ?case by (fastforce simp: res v(3))
qed simp

lemma deep_copier_list:
  assumes c: "deep_copier copy view addrs"
  shows "deep_copier (copy_list copy) (view_list view) (addrs_list addrs)"
proof
  show "(\<exists>u. h' = (h @ t) @ u) \<and> (\<forall>w. view_list view (h' @ w) xs' = Some vs \<and>
      addrs_list addrs (h' @ w) xs' \<subseteq> {length (h @ t)..<length h'})"
    if "view_list view h xs = Some vs" "copy_list copy xs (h @ t) = (xs', h')" for h t h' xs xs' vs
    using copies_list [OF c that] .
  show "addrs_list addrs h xs \<subseteq> {..<length h}" if "view_list view h xs = Some vs" for h xs vs
    using that
  proof (induction xs arbitrary: vs)
    case (Cons x xs)
    then show ?case using deep_copier.bounded [OF c, of h x] by (auto simp: bind_eq_Some_conv)
  qed simp
  show "view_list view h' xs = Some vs"
    if "view_list view h xs = Some vs" "\<forall>a \<in> addrs_list addrs h xs. a < length h' \<and> h' ! a = h ! a" for h h' xs vs
    using that deep_copier.framed [OF c, of h _ _ h']
    by (induction xs arbitrary: vs) (auto simp: bind_eq_Some_conv split: bind_splits)
qed

subsection \<open>Structs\<close>

text \<open>Two fields, copied one after the other; more fields are nested pairs.\<close>

definition copy_pair ::
  "('x \<Rightarrow> heap \<Rightarrow> 'x \<times> heap) \<Rightarrow> ('y \<Rightarrow> heap \<Rightarrow> 'y \<times> heap) \<Rightarrow> 'x \<times> 'y \<Rightarrow> heap \<Rightarrow> ('x \<times> 'y) \<times> heap" where
  "copy_pair cx cy p h = (let (x', h1) = cx (fst p) h; (y', h2) = cy (snd p) h1 in ((x', y'), h2))"

definition view_pair ::
  "(heap \<Rightarrow> 'x \<Rightarrow> 'v option) \<Rightarrow> (heap \<Rightarrow> 'y \<Rightarrow> 'w option) \<Rightarrow> heap \<Rightarrow> 'x \<times> 'y \<Rightarrow> ('v \<times> 'w) option" where
  "view_pair vx vy h p =
     Option.bind (vx h (fst p)) (\<lambda>v. Option.bind (vy h (snd p)) (\<lambda>w. Some (v, w)))"

definition addrs_pair ::
  "(heap \<Rightarrow> 'x \<Rightarrow> addr set) \<Rightarrow> (heap \<Rightarrow> 'y \<Rightarrow> addr set) \<Rightarrow> heap \<Rightarrow> 'x \<times> 'y \<Rightarrow> addr set" where
  "addrs_pair ax ay h p = ax h (fst p) \<union> ay h (snd p)"

lemma deep_copier_pair:
  assumes x: "deep_copier cx vx ax" and y: "deep_copier cy vy ay"
  shows "deep_copier (copy_pair cx cy) (view_pair vx vy) (addrs_pair ax ay)"
proof
  fix h t h' :: heap and p p' vw
  assume v: "view_pair vx vy h p = Some vw" and cp: "copy_pair cx cy p (h @ t) = (p', h')"
  from v obtain v w where v: "vx h (fst p) = Some v" "vy h (snd p) = Some w" "vw = (v, w)"
    by (auto simp: view_pair_def bind_eq_Some_conv)
  obtain x' h1 where x': "cx (fst p) (h @ t) = (x', h1)" by (metis surj_pair)
  obtain y' h2 where y': "cy (snd p) h1 = (y', h2)" by (metis surj_pair)
  have res: "p' = (x', y')" "h' = h2" using cp x' y' by (simp_all add: copy_pair_def)
  from deep_copier.copies [OF x v(1) x'] obtain u where u: "h1 = (h @ t) @ u"
      and one: "\<And>w. vx (h1 @ w) x' = Some v \<and> ax (h1 @ w) x' \<subseteq> {length (h @ t)..<length h1}"
    by blast
  have y'': "cy (snd p) (h @ (t @ u)) = (y', h2)" using y' u by simp
  from deep_copier.copies [OF y v(2) y''] obtain u' where u': "h2 = h1 @ u'"
      and two: "\<And>s. vy (h2 @ s) y' = Some w \<and> ay (h2 @ s) y' \<subseteq> {length h1..<length h2}"
    using u by auto
  have "vx (h2 @ s) x' = Some v \<and> ax (h2 @ s) x' \<subseteq> {length (h @ t)..<length h1}" for s
    using one [of "u' @ s"] u' by simp
  with two u u' show "(\<exists>u. h' = (h @ t) @ u) \<and> (\<forall>s. view_pair vx vy (h' @ s) p' = Some vw \<and>
      addrs_pair ax ay (h' @ s) p' \<subseteq> {length (h @ t)..<length h'})"
    by (fastforce simp: res v(3) view_pair_def addrs_pair_def)
next
  show "addrs_pair ax ay h p \<subseteq> {..<length h}" if "view_pair vx vy h p = Some vw" for h p vw
    using that deep_copier.bounded [OF x, of h] deep_copier.bounded [OF y, of h]
    by (fastforce simp: view_pair_def addrs_pair_def bind_eq_Some_conv)
next
  show "view_pair vx vy h' p = Some vw"
    if "view_pair vx vy h p = Some vw" "\<forall>a \<in> addrs_pair ax ay h p. a < length h' \<and> h' ! a = h ! a" for h h' p vw
    using that deep_copier.framed [OF x, of h _ _ h'] deep_copier.framed [OF y, of h _ _ h']
    by (auto simp: view_pair_def addrs_pair_def bind_eq_Some_conv)
qed

text \<open>
  \<^verbatim>\<open>*out = *in\<close>, then the fields \<open>get\<close> of \<open>out\<close> are replaced by their copies. The reading of the struct is
  the rest, which the copy keeps, and the reading of those fields.
\<close>

definition view_struct ::
  "('x \<Rightarrow> 'r) \<Rightarrow> ('x \<Rightarrow> 'f) \<Rightarrow> (heap \<Rightarrow> 'f \<Rightarrow> 'v option) \<Rightarrow> heap \<Rightarrow> 'x \<Rightarrow> ('r \<times> 'v) option" where
  "view_struct rest get vf h x = map_option (Pair (rest x)) (vf h (get x))"

definition addrs_struct :: "('x \<Rightarrow> 'f) \<Rightarrow> (heap \<Rightarrow> 'f \<Rightarrow> addr set) \<Rightarrow> heap \<Rightarrow> 'x \<Rightarrow> addr set" where
  "addrs_struct get af h x = af h (get x)"

lemma deep_copier_struct:
  assumes c: "deep_copier cf vf af"
    and copy: "\<And>x h. copy x h = (let (f', h') = cf (get x) h in (put f' x, h'))"
    and put: "\<And>f x. get (put f x) = f" "\<And>f x. rest (put f x) = rest x"
  shows "deep_copier copy (view_struct rest get vf) (addrs_struct get af)"
proof
  fix h t h' x x' v
  assume v: "view_struct rest get vf h x = Some v" and cp: "copy x (h @ t) = (x', h')"
  from v obtain u where u: "vf h (get x) = Some u" "v = (rest x, u)" by (auto simp: view_struct_def)
  obtain f' h1 where f': "cf (get x) (h @ t) = (f', h1)" by (metis surj_pair)
  have res: "x' = put f' x" "h' = h1" using cp f' by (simp_all add: copy)
  show "(\<exists>u. h' = (h @ t) @ u) \<and> (\<forall>w. view_struct rest get vf (h' @ w) x' = Some v \<and>
      addrs_struct get af (h' @ w) x' \<subseteq> {length (h @ t)..<length h'})"
    using deep_copier.copies [OF c u(1) f'] by (simp add: res u(2) view_struct_def addrs_struct_def put)
next
  show "addrs_struct get af h x \<subseteq> {..<length h}" if "view_struct rest get vf h x = Some v" for h x v
    using that deep_copier.bounded [OF c, of h "get x"] by (auto simp: view_struct_def addrs_struct_def)
next
  show "view_struct rest get vf h' x = Some v"
    if "view_struct rest get vf h x = Some v" "\<forall>a \<in> addrs_struct get af h x. a < length h' \<and> h' ! a = h ! a" for h h' x v
    using that deep_copier.framed [OF c, of h "get x" _ h'] by (auto simp: view_struct_def addrs_struct_def)
qed

named_theorems deep_copiers \<open>the deep copiers of the types\<close>

declare flat.deep_copier_axioms [deep_copiers] deep_copier_list [deep_copiers] deep_copier_pair [deep_copiers]

end
