(* ===== verification/DeepCopy.thy ===== *)
theory DeepCopy
  imports Heap
begin

section \<open>Deep copies\<close>

text \<open>
  The generated \<^verbatim>\<open>DeepCopyInto\<close>, \<^verbatim>\<open>DeepCopy\<close> and \<^verbatim>\<open>DeepCopyObject\<close> of the two custom resources
  (\<^verbatim>\<open>pkg/apis/*/v1alpha1/zz_generated.deepcopy.go\<close>) on the store of \<open>Heap\<close>, with those of the library types
  they call. A struct is copied as a value (\<^verbatim>\<open>*out = *in\<close>), then its reference fields are replaced, in the order of the code.
  Each is proved a deep copier for its complete reading: every field, behind every pointer, with nil told from empty.
\<close>

subsection \<open>Cells\<close>

definition dest_time :: "cell \<Rightarrow> int option" where
  "dest_time c = (case c of TimeCell x \<Rightarrow> Some x | _ \<Rightarrow> None)"

definition dest_int :: "cell \<Rightarrow> int option" where
  "dest_int c = (case c of IntCell x \<Rightarrow> Some x | _ \<Rightarrow> None)"

definition dest_bool :: "cell \<Rightarrow> bool option" where
  "dest_bool c = (case c of BoolCell x \<Rightarrow> Some x | _ \<Rightarrow> None)"

definition dest_string :: "cell \<Rightarrow> string option" where
  "dest_string c = (case c of StringCell x \<Rightarrow> Some x | _ \<Rightarrow> None)"

definition dest_strings :: "cell \<Rightarrow> (string list) option" where
  "dest_strings c = (case c of StringsCell x \<Rightarrow> Some x | _ \<Rightarrow> None)"

definition dest_map :: "cell \<Rightarrow> ((string \<times> string) list) option" where
  "dest_map c = (case c of MapCell x \<Rightarrow> Some x | _ \<Rightarrow> None)"

definition dest_owners :: "cell \<Rightarrow> (heap_owner list) option" where
  "dest_owners c = (case c of OwnersCell x \<Rightarrow> Some x | _ \<Rightarrow> None)"

definition dest_managed :: "cell \<Rightarrow> (heap_managed list) option" where
  "dest_managed c = (case c of ManagedCell x \<Rightarrow> Some x | _ \<Rightarrow> None)"

definition dest_fields :: "cell \<Rightarrow> (addr option) option" where
  "dest_fields c = (case c of FieldsCell x \<Rightarrow> Some x | _ \<Rightarrow> None)"

definition dest_requirements :: "cell \<Rightarrow> (heap_requirement list) option" where
  "dest_requirements c = (case c of RequirementsCell x \<Rightarrow> Some x | _ \<Rightarrow> None)"

definition dest_label_selector :: "cell \<Rightarrow> heap_label_selector option" where
  "dest_label_selector c = (case c of LabelSelectorCell x \<Rightarrow> Some x | _ \<Rightarrow> None)"

definition dest_user :: "cell \<Rightarrow> (string \<times> string \<times> bool) option" where
  "dest_user c = (case c of UserCell x \<Rightarrow> Some x | _ \<Rightarrow> None)"

definition dest_url :: "cell \<Rightarrow> heap_url option" where
  "dest_url c = (case c of UrlCell x \<Rightarrow> Some x | _ \<Rightarrow> None)"

definition dest_kref :: "cell \<Rightarrow> heap_kref option" where
  "dest_kref c = (case c of KRefCell x \<Rightarrow> Some x | _ \<Rightarrow> None)"

definition dest_auth :: "cell \<Rightarrow> heap_auth option" where
  "dest_auth c = (case c of AuthCell x \<Rightarrow> Some x | _ \<Rightarrow> None)"

definition dest_overrides :: "cell \<Rightarrow> (addr option) option" where
  "dest_overrides c = (case c of OverridesCell x \<Rightarrow> Some x | _ \<Rightarrow> None)"

definition dest_conditions :: "cell \<Rightarrow> (condition list) option" where
  "dest_conditions c = (case c of ConditionsCell x \<Rightarrow> Some x | _ \<Rightarrow> None)"

definition dest_attributes :: "cell \<Rightarrow> (ce_attribute list) option" where
  "dest_attributes c = (case c of AttributesCell x \<Rightarrow> Some x | _ \<Rightarrow> None)"

definition dest_selector :: "cell \<Rightarrow> heap_selector option" where
  "dest_selector c = (case c of SelectorCell x \<Rightarrow> Some x | _ \<Rightarrow> None)"

definition dest_secret_value :: "cell \<Rightarrow> heap_secret_value option" where
  "dest_secret_value c = (case c of SecretValueCell x \<Rightarrow> Some x | _ \<Rightarrow> None)"

definition dest_source :: "cell \<Rightarrow> heap_source option" where
  "dest_source c = (case c of SourceCell x \<Rightarrow> Some x | _ \<Rightarrow> None)"

definition dest_sources :: "cell \<Rightarrow> (heap_source list) option" where
  "dest_sources c = (case c of SourcesCell x \<Rightarrow> Some x | _ \<Rightarrow> None)"

definition dest_source_spec :: "cell \<Rightarrow> heap_source_spec option" where
  "dest_source_spec c = (case c of SourceSpecCell x \<Rightarrow> Some x | _ \<Rightarrow> None)"

definition dest_source_status :: "cell \<Rightarrow> heap_source_status option" where
  "dest_source_status c = (case c of SourceStatusCell x \<Rightarrow> Some x | _ \<Rightarrow> None)"

definition dest_binding :: "cell \<Rightarrow> heap_binding option" where
  "dest_binding c = (case c of BindingCell x \<Rightarrow> Some x | _ \<Rightarrow> None)"

definition dest_bindings :: "cell \<Rightarrow> (heap_binding list) option" where
  "dest_bindings c = (case c of BindingsCell x \<Rightarrow> Some x | _ \<Rightarrow> None)"

definition dest_binding_spec :: "cell \<Rightarrow> heap_binding_spec option" where
  "dest_binding_spec c = (case c of BindingSpecCell x \<Rightarrow> Some x | _ \<Rightarrow> None)"

definition dest_binding_status :: "cell \<Rightarrow> heap_binding_status option" where
  "dest_binding_status c = (case c of BindingStatusCell x \<Rightarrow> Some x | _ \<Rightarrow> None)"

definition dest_list :: "cell \<Rightarrow> heap_list option" where
  "dest_list c = (case c of ListCell x \<Rightarrow> Some x | _ \<Rightarrow> None)"

lemma dest_simps [simp]:
  "dest_time (TimeCell x0) = Some x0" "dest_int (IntCell x1) = Some x1" "dest_bool (BoolCell x2) = Some x2"
  "dest_string (StringCell x3) = Some x3" "dest_strings (StringsCell x4) = Some x4" "dest_map (MapCell x5) = Some x5"
  "dest_owners (OwnersCell x6) = Some x6" "dest_managed (ManagedCell x7) = Some x7" "dest_fields (FieldsCell x8) = Some x8"
  "dest_requirements (RequirementsCell x9) = Some x9" "dest_label_selector (LabelSelectorCell x10) = Some x10" "dest_user (UserCell x11) = Some x11"
  "dest_url (UrlCell x12) = Some x12" "dest_kref (KRefCell x13) = Some x13" "dest_auth (AuthCell x14) = Some x14"
  "dest_overrides (OverridesCell x15) = Some x15" "dest_conditions (ConditionsCell x16) = Some x16" "dest_attributes (AttributesCell x17) = Some x17"
  "dest_selector (SelectorCell x18) = Some x18" "dest_secret_value (SecretValueCell x19) = Some x19" "dest_source (SourceCell x20) = Some x20"
  "dest_sources (SourcesCell x21) = Some x21" "dest_source_spec (SourceSpecCell x22) = Some x22" "dest_source_status (SourceStatusCell x23) = Some x23"
  "dest_binding (BindingCell x24) = Some x24" "dest_bindings (BindingsCell x25) = Some x25" "dest_binding_spec (BindingSpecCell x26) = Some x26"
  "dest_binding_status (BindingStatusCell x27) = Some x27" "dest_list (ListCell x28) = Some x28"
  by (simp_all add: dest_time_def dest_int_def dest_bool_def dest_string_def dest_strings_def dest_map_def dest_owners_def dest_managed_def dest_fields_def dest_requirements_def dest_label_selector_def dest_user_def dest_url_def dest_kref_def dest_auth_def dest_overrides_def dest_conditions_def dest_attributes_def dest_selector_def dest_secret_value_def dest_source_def dest_sources_def dest_source_spec_def dest_source_status_def dest_binding_def dest_bindings_def dest_binding_spec_def dest_binding_status_def dest_list_def)

subsection \<open>Pointers, slices and maps of values\<close>

definition copy_time_ptr where "copy_time_ptr = copy_ptr TimeCell dest_time copy_flat"
definition view_time_ptr where "view_time_ptr = view_ptr dest_time view_flat"
definition addrs_time_ptr where "addrs_time_ptr = addrs_ptr dest_time addrs_flat"

interpretation time_ptr: deep_copier copy_time_ptr view_time_ptr addrs_time_ptr
  unfolding copy_time_ptr_def view_time_ptr_def addrs_time_ptr_def by (intro deep_copier_ptr deep_copiers) simp

declare time_ptr.deep_copier_axioms [deep_copiers]

definition copy_int_ptr where "copy_int_ptr = copy_ptr IntCell dest_int copy_flat"
definition view_int_ptr where "view_int_ptr = view_ptr dest_int view_flat"
definition addrs_int_ptr where "addrs_int_ptr = addrs_ptr dest_int addrs_flat"

interpretation int_ptr: deep_copier copy_int_ptr view_int_ptr addrs_int_ptr
  unfolding copy_int_ptr_def view_int_ptr_def addrs_int_ptr_def by (intro deep_copier_ptr deep_copiers) simp

declare int_ptr.deep_copier_axioms [deep_copiers]

definition copy_bool_ptr where "copy_bool_ptr = copy_ptr BoolCell dest_bool copy_flat"
definition view_bool_ptr where "view_bool_ptr = view_ptr dest_bool view_flat"
definition addrs_bool_ptr where "addrs_bool_ptr = addrs_ptr dest_bool addrs_flat"

interpretation bool_ptr: deep_copier copy_bool_ptr view_bool_ptr addrs_bool_ptr
  unfolding copy_bool_ptr_def view_bool_ptr_def addrs_bool_ptr_def by (intro deep_copier_ptr deep_copiers) simp

declare bool_ptr.deep_copier_axioms [deep_copiers]

definition copy_string_ptr where "copy_string_ptr = copy_ptr StringCell dest_string copy_flat"
definition view_string_ptr where "view_string_ptr = view_ptr dest_string view_flat"
definition addrs_string_ptr where "addrs_string_ptr = addrs_ptr dest_string addrs_flat"

interpretation string_ptr: deep_copier copy_string_ptr view_string_ptr addrs_string_ptr
  unfolding copy_string_ptr_def view_string_ptr_def addrs_string_ptr_def by (intro deep_copier_ptr deep_copiers) simp

declare string_ptr.deep_copier_axioms [deep_copiers]

definition copy_strings where "copy_strings = copy_ptr StringsCell dest_strings copy_flat"
definition view_strings where "view_strings = view_ptr dest_strings view_flat"
definition addrs_strings where "addrs_strings = addrs_ptr dest_strings addrs_flat"

interpretation strings: deep_copier copy_strings view_strings addrs_strings
  unfolding copy_strings_def view_strings_def addrs_strings_def by (intro deep_copier_ptr deep_copiers) simp

declare strings.deep_copier_axioms [deep_copiers]

definition copy_map where "copy_map = copy_ptr MapCell dest_map copy_flat"
definition view_map where "view_map = view_ptr dest_map view_flat"
definition addrs_map where "addrs_map = addrs_ptr dest_map addrs_flat"

interpretation map_ptr: deep_copier copy_map view_map addrs_map
  unfolding copy_map_def view_map_def addrs_map_def by (intro deep_copier_ptr deep_copiers) simp

declare map_ptr.deep_copier_axioms [deep_copiers]

definition copy_user_ptr where "copy_user_ptr = copy_ptr UserCell dest_user copy_flat"
definition view_user_ptr where "view_user_ptr = view_ptr dest_user view_flat"
definition addrs_user_ptr where "addrs_user_ptr = addrs_ptr dest_user addrs_flat"

interpretation user_ptr: deep_copier copy_user_ptr view_user_ptr addrs_user_ptr
  unfolding copy_user_ptr_def view_user_ptr_def addrs_user_ptr_def by (intro deep_copier_ptr deep_copiers) simp

declare user_ptr.deep_copier_axioms [deep_copiers]

definition copy_conditions where "copy_conditions = copy_ptr ConditionsCell dest_conditions copy_flat"
definition view_conditions where "view_conditions = view_ptr dest_conditions view_flat"
definition addrs_conditions where "addrs_conditions = addrs_ptr dest_conditions addrs_flat"

interpretation conditions: deep_copier copy_conditions view_conditions addrs_conditions
  unfolding copy_conditions_def view_conditions_def addrs_conditions_def by (intro deep_copier_ptr deep_copiers) simp

declare conditions.deep_copier_axioms [deep_copiers]

definition copy_attributes where "copy_attributes = copy_ptr AttributesCell dest_attributes copy_flat"
definition view_attributes where "view_attributes = view_ptr dest_attributes view_flat"
definition addrs_attributes where "addrs_attributes = addrs_ptr dest_attributes addrs_flat"

interpretation attributes: deep_copier copy_attributes view_attributes addrs_attributes
  unfolding copy_attributes_def view_attributes_def addrs_attributes_def by (intro deep_copier_ptr deep_copiers) simp

declare attributes.deep_copier_axioms [deep_copiers]

subsection \<open>Structs of the libraries\<close>

definition copy_owner :: "heap_owner \<Rightarrow> heap \<Rightarrow> heap_owner \<times> heap" where
  "copy_owner x h =
     (let (c, h) = copy_bool_ptr (how_controller x) h;
          (b, h) = copy_bool_ptr (how_block_owner_deletion x) h
      in (x\<lparr>how_controller := c, how_block_owner_deletion := b\<rparr>, h))"

definition view_owner where
  "view_owner = view_struct (\<lambda>x. (how_api_version x, how_kind x, how_name x, how_uid x)) (\<lambda>x. (how_controller x, how_block_owner_deletion x))
     (view_pair view_bool_ptr view_bool_ptr)"

definition addrs_owner where
  "addrs_owner = addrs_struct (\<lambda>x. (how_controller x, how_block_owner_deletion x))
     (addrs_pair addrs_bool_ptr addrs_bool_ptr)"

interpretation owner: deep_copier copy_owner view_owner addrs_owner
  unfolding view_owner_def addrs_owner_def
  by (rule deep_copier_struct [where put = "\<lambda>f x. case f of (c, b) \<Rightarrow> x\<lparr>how_controller := c, how_block_owner_deletion := b\<rparr>"], (rule deep_copiers)+)
    (simp_all add: copy_owner_def copy_pair_def Let_def split: prod.split)

declare owner.deep_copier_axioms [deep_copiers]

definition copy_owners where "copy_owners = copy_ptr OwnersCell dest_owners (copy_list copy_owner)"
definition view_owners where "view_owners = view_ptr dest_owners (view_list view_owner)"
definition addrs_owners where "addrs_owners = addrs_ptr dest_owners (addrs_list addrs_owner)"

interpretation owners: deep_copier copy_owners view_owners addrs_owners
  unfolding copy_owners_def view_owners_def addrs_owners_def by (intro deep_copier_ptr deep_copiers) simp

declare owners.deep_copier_axioms [deep_copiers]

text \<open>\<^verbatim>\<open>FieldsV1\<close>: the slice of its bytes.\<close>

definition copy_fields_ptr where "copy_fields_ptr = copy_ptr FieldsCell dest_fields copy_string_ptr"
definition view_fields_ptr where "view_fields_ptr = view_ptr dest_fields view_string_ptr"
definition addrs_fields_ptr where "addrs_fields_ptr = addrs_ptr dest_fields addrs_string_ptr"

interpretation fields_ptr: deep_copier copy_fields_ptr view_fields_ptr addrs_fields_ptr
  unfolding copy_fields_ptr_def view_fields_ptr_def addrs_fields_ptr_def by (intro deep_copier_ptr deep_copiers) simp

declare fields_ptr.deep_copier_axioms [deep_copiers]

definition copy_managed_entry :: "heap_managed \<Rightarrow> heap \<Rightarrow> heap_managed \<times> heap" where
  "copy_managed_entry x h =
     (let (t, h) = copy_time_ptr (hma_time x) h;
          (fi, h) = copy_fields_ptr (hma_fields x) h
      in (x\<lparr>hma_time := t, hma_fields := fi\<rparr>, h))"

definition view_managed_entry where
  "view_managed_entry = view_struct (\<lambda>x. (hma_manager x, hma_operation x, hma_api_version x, hma_fields_type x, hma_subresource x)) (\<lambda>x. (hma_time x, hma_fields x))
     (view_pair view_time_ptr view_fields_ptr)"

definition addrs_managed_entry where
  "addrs_managed_entry = addrs_struct (\<lambda>x. (hma_time x, hma_fields x))
     (addrs_pair addrs_time_ptr addrs_fields_ptr)"

interpretation managed_entry: deep_copier copy_managed_entry view_managed_entry addrs_managed_entry
  unfolding view_managed_entry_def addrs_managed_entry_def
  by (rule deep_copier_struct [where put = "\<lambda>f x. case f of (t, fi) \<Rightarrow> x\<lparr>hma_time := t, hma_fields := fi\<rparr>"], (rule deep_copiers)+)
    (simp_all add: copy_managed_entry_def copy_pair_def Let_def split: prod.split)

declare managed_entry.deep_copier_axioms [deep_copiers]

definition copy_managed where "copy_managed = copy_ptr ManagedCell dest_managed (copy_list copy_managed_entry)"
definition view_managed where "view_managed = view_ptr dest_managed (view_list view_managed_entry)"
definition addrs_managed where "addrs_managed = addrs_ptr dest_managed (addrs_list addrs_managed_entry)"

interpretation managed: deep_copier copy_managed view_managed addrs_managed
  unfolding copy_managed_def view_managed_def addrs_managed_def by (intro deep_copier_ptr deep_copiers) simp

declare managed.deep_copier_axioms [deep_copiers]

definition copy_meta :: "heap_meta \<Rightarrow> heap \<Rightarrow> heap_meta \<times> heap" where
  "copy_meta x h =
     (let (d, h) = copy_time_ptr (hm_deletion_timestamp x) h;
          (g, h) = copy_int_ptr (hm_grace_period x) h;
          (l, h) = copy_map (hm_labels x) h;
          (an, h) = copy_map (hm_annotations x) h;
          (ow, h) = copy_owners (hm_owner_references x) h;
          (fi, h) = copy_strings (hm_finalizers x) h;
          (mf, h) = copy_managed (hm_managed_fields x) h
      in (x\<lparr>hm_deletion_timestamp := d, hm_grace_period := g, hm_labels := l, hm_annotations := an, hm_owner_references := ow, hm_finalizers := fi, hm_managed_fields := mf\<rparr>, h))"

definition view_meta where
  "view_meta = view_struct (\<lambda>x. (hm_name x, hm_generate_name x, hm_namespace x, hm_self_link x, hm_uid x, hm_resource_version x, hm_generation x, hm_creation_timestamp x)) (\<lambda>x. (hm_deletion_timestamp x, hm_grace_period x, hm_labels x, hm_annotations x, hm_owner_references x, hm_finalizers x, hm_managed_fields x))
     (view_pair view_time_ptr (view_pair view_int_ptr (view_pair view_map (view_pair view_map (view_pair view_owners (view_pair view_strings view_managed))))))"

definition addrs_meta where
  "addrs_meta = addrs_struct (\<lambda>x. (hm_deletion_timestamp x, hm_grace_period x, hm_labels x, hm_annotations x, hm_owner_references x, hm_finalizers x, hm_managed_fields x))
     (addrs_pair addrs_time_ptr (addrs_pair addrs_int_ptr (addrs_pair addrs_map (addrs_pair addrs_map (addrs_pair addrs_owners (addrs_pair addrs_strings addrs_managed))))))"

interpretation meta: deep_copier copy_meta view_meta addrs_meta
  unfolding view_meta_def addrs_meta_def
  by (rule deep_copier_struct [where put = "\<lambda>f x. case f of (d, g, l, an, ow, fi, mf) \<Rightarrow> x\<lparr>hm_deletion_timestamp := d, hm_grace_period := g, hm_labels := l, hm_annotations := an, hm_owner_references := ow, hm_finalizers := fi, hm_managed_fields := mf\<rparr>"], (rule deep_copiers)+)
    (simp_all add: copy_meta_def copy_pair_def Let_def split: prod.split)

declare meta.deep_copier_axioms [deep_copiers]

definition copy_list_meta :: "heap_list_meta \<Rightarrow> heap \<Rightarrow> heap_list_meta \<times> heap" where
  "copy_list_meta x h =
     (let (r, h) = copy_int_ptr (hl_remaining x) h
      in (x\<lparr>hl_remaining := r\<rparr>, h))"

definition view_list_meta where
  "view_list_meta = view_struct (\<lambda>x. (hl_self_link x, hl_resource_version x, hl_continue x)) (\<lambda>x. hl_remaining x)
     view_int_ptr"

definition addrs_list_meta where
  "addrs_list_meta = addrs_struct (\<lambda>x. hl_remaining x)
     addrs_int_ptr"

interpretation list_meta: deep_copier copy_list_meta view_list_meta addrs_list_meta
  unfolding view_list_meta_def addrs_list_meta_def
  by (rule deep_copier_struct [where put = "\<lambda>r x. x\<lparr>hl_remaining := r\<rparr>"], (rule deep_copiers)+)
    (simp_all add: copy_list_meta_def copy_pair_def Let_def split: prod.split)

declare list_meta.deep_copier_axioms [deep_copiers]

definition copy_selector :: "heap_selector \<Rightarrow> heap \<Rightarrow> heap_selector \<times> heap" where
  "copy_selector x h =
     (let (b, h) = copy_bool_ptr (hse_optional x) h
      in (x\<lparr>hse_optional := b\<rparr>, h))"

definition view_selector where
  "view_selector = view_struct (\<lambda>x. (hse_name x, hse_key x)) (\<lambda>x. hse_optional x)
     view_bool_ptr"

definition addrs_selector where
  "addrs_selector = addrs_struct (\<lambda>x. hse_optional x)
     addrs_bool_ptr"

interpretation selector: deep_copier copy_selector view_selector addrs_selector
  unfolding view_selector_def addrs_selector_def
  by (rule deep_copier_struct [where put = "\<lambda>b x. x\<lparr>hse_optional := b\<rparr>"], (rule deep_copiers)+)
    (simp_all add: copy_selector_def copy_pair_def Let_def split: prod.split)

declare selector.deep_copier_axioms [deep_copiers]

definition copy_selector_ptr where "copy_selector_ptr = copy_ptr SelectorCell dest_selector copy_selector"
definition view_selector_ptr where "view_selector_ptr = view_ptr dest_selector view_selector"
definition addrs_selector_ptr where "addrs_selector_ptr = addrs_ptr dest_selector addrs_selector"

interpretation selector_ptr: deep_copier copy_selector_ptr view_selector_ptr addrs_selector_ptr
  unfolding copy_selector_ptr_def view_selector_ptr_def addrs_selector_ptr_def by (intro deep_copier_ptr deep_copiers) simp

declare selector_ptr.deep_copier_axioms [deep_copiers]

definition copy_url :: "heap_url \<Rightarrow> heap \<Rightarrow> heap_url \<times> heap" where
  "copy_url x h =
     (let (u, h) = copy_user_ptr (hu_user x) h
      in (x\<lparr>hu_user := u\<rparr>, h))"

definition view_url where
  "view_url = view_struct (\<lambda>x. hu_texts x) (\<lambda>x. hu_user x)
     view_user_ptr"

definition addrs_url where
  "addrs_url = addrs_struct (\<lambda>x. hu_user x)
     addrs_user_ptr"

interpretation url: deep_copier copy_url view_url addrs_url
  unfolding view_url_def addrs_url_def
  by (rule deep_copier_struct [where put = "\<lambda>u x. x\<lparr>hu_user := u\<rparr>"], (rule deep_copiers)+)
    (simp_all add: copy_url_def copy_pair_def Let_def split: prod.split)

declare url.deep_copier_axioms [deep_copiers]

definition copy_url_ptr where "copy_url_ptr = copy_ptr UrlCell dest_url copy_url"
definition view_url_ptr where "view_url_ptr = view_ptr dest_url view_url"
definition addrs_url_ptr where "addrs_url_ptr = addrs_ptr dest_url addrs_url"

interpretation url_ptr: deep_copier copy_url_ptr view_url_ptr addrs_url_ptr
  unfolding copy_url_ptr_def view_url_ptr_def addrs_url_ptr_def by (intro deep_copier_ptr deep_copiers) simp

declare url_ptr.deep_copier_axioms [deep_copiers]

definition copy_kref :: "heap_kref \<Rightarrow> heap \<Rightarrow> heap_kref \<times> heap" where
  "copy_kref x h =
     (let (a, h) = copy_string_ptr (hk_address x) h
      in (x\<lparr>hk_address := a\<rparr>, h))"

definition view_kref where
  "view_kref = view_struct (\<lambda>x. (hk_kind x, hk_namespace x, hk_name x, hk_api_version x, hk_group x)) (\<lambda>x. hk_address x)
     view_string_ptr"

definition addrs_kref where
  "addrs_kref = addrs_struct (\<lambda>x. hk_address x)
     addrs_string_ptr"

interpretation kref: deep_copier copy_kref view_kref addrs_kref
  unfolding view_kref_def addrs_kref_def
  by (rule deep_copier_struct [where put = "\<lambda>a x. x\<lparr>hk_address := a\<rparr>"], (rule deep_copiers)+)
    (simp_all add: copy_kref_def copy_pair_def Let_def split: prod.split)

declare kref.deep_copier_axioms [deep_copiers]

definition copy_kref_ptr where "copy_kref_ptr = copy_ptr KRefCell dest_kref copy_kref"
definition view_kref_ptr where "view_kref_ptr = view_ptr dest_kref view_kref"
definition addrs_kref_ptr where "addrs_kref_ptr = addrs_ptr dest_kref addrs_kref"

interpretation kref_ptr: deep_copier copy_kref_ptr view_kref_ptr addrs_kref_ptr
  unfolding copy_kref_ptr_def view_kref_ptr_def addrs_kref_ptr_def by (intro deep_copier_ptr deep_copiers) simp

declare kref_ptr.deep_copier_axioms [deep_copiers]

definition copy_destination :: "heap_destination \<Rightarrow> heap \<Rightarrow> heap_destination \<times> heap" where
  "copy_destination x h =
     (let (r, h) = copy_kref_ptr (hd_ref x) h;
          (u, h) = copy_url_ptr (hd_uri x) h;
          (ca, h) = copy_string_ptr (hd_ca_certs x) h;
          (au, h) = copy_string_ptr (hd_audience x) h
      in (x\<lparr>hd_ref := r, hd_uri := u, hd_ca_certs := ca, hd_audience := au\<rparr>, h))"

definition view_destination where
  "view_destination = view_struct (\<lambda>x. ()) (\<lambda>x. (hd_ref x, hd_uri x, hd_ca_certs x, hd_audience x))
     (view_pair view_kref_ptr (view_pair view_url_ptr (view_pair view_string_ptr view_string_ptr)))"

definition addrs_destination where
  "addrs_destination = addrs_struct (\<lambda>x. (hd_ref x, hd_uri x, hd_ca_certs x, hd_audience x))
     (addrs_pair addrs_kref_ptr (addrs_pair addrs_url_ptr (addrs_pair addrs_string_ptr addrs_string_ptr)))"

interpretation destination: deep_copier copy_destination view_destination addrs_destination
  unfolding view_destination_def addrs_destination_def
  by (rule deep_copier_struct [where put = "\<lambda>f x. case f of (r, u, ca, au) \<Rightarrow> x\<lparr>hd_ref := r, hd_uri := u, hd_ca_certs := ca, hd_audience := au\<rparr>"], (rule deep_copiers)+)
    (simp_all add: copy_destination_def copy_pair_def Let_def split: prod.split)

declare destination.deep_copier_axioms [deep_copiers]

text \<open>\<^verbatim>\<open>CloudEventOverrides\<close>: the map of the extensions.\<close>

definition copy_overrides_ptr where "copy_overrides_ptr = copy_ptr OverridesCell dest_overrides copy_map"
definition view_overrides_ptr where "view_overrides_ptr = view_ptr dest_overrides view_map"
definition addrs_overrides_ptr where "addrs_overrides_ptr = addrs_ptr dest_overrides addrs_map"

interpretation overrides_ptr: deep_copier copy_overrides_ptr view_overrides_ptr addrs_overrides_ptr
  unfolding copy_overrides_ptr_def view_overrides_ptr_def addrs_overrides_ptr_def by (intro deep_copier_ptr deep_copiers) simp

declare overrides_ptr.deep_copier_axioms [deep_copiers]

definition copy_duck_spec :: "heap_duck_spec \<Rightarrow> heap \<Rightarrow> heap_duck_spec \<times> heap" where
  "copy_duck_spec x h =
     (let (s, h) = copy_destination (hd_sink x) h;
          (c, h) = copy_overrides_ptr (hd_ce_overrides x) h
      in (x\<lparr>hd_sink := s, hd_ce_overrides := c\<rparr>, h))"

definition view_duck_spec where
  "view_duck_spec = view_struct (\<lambda>x. ()) (\<lambda>x. (hd_sink x, hd_ce_overrides x))
     (view_pair view_destination view_overrides_ptr)"

definition addrs_duck_spec where
  "addrs_duck_spec = addrs_struct (\<lambda>x. (hd_sink x, hd_ce_overrides x))
     (addrs_pair addrs_destination addrs_overrides_ptr)"

interpretation duck_spec: deep_copier copy_duck_spec view_duck_spec addrs_duck_spec
  unfolding view_duck_spec_def addrs_duck_spec_def
  by (rule deep_copier_struct [where put = "\<lambda>f x. case f of (s, c) \<Rightarrow> x\<lparr>hd_sink := s, hd_ce_overrides := c\<rparr>"], (rule deep_copiers)+)
    (simp_all add: copy_duck_spec_def copy_pair_def Let_def split: prod.split)

declare duck_spec.deep_copier_axioms [deep_copiers]

definition copy_status :: "heap_status \<Rightarrow> heap \<Rightarrow> heap_status \<times> heap" where
  "copy_status x h =
     (let (c, h) = copy_conditions (hst_conditions x) h;
          (an, h) = copy_map (hst_annotations x) h
      in (x\<lparr>hst_conditions := c, hst_annotations := an\<rparr>, h))"

definition view_status where
  "view_status = view_struct (\<lambda>x. hst_observed_generation x) (\<lambda>x. (hst_conditions x, hst_annotations x))
     (view_pair view_conditions view_map)"

definition addrs_status where
  "addrs_status = addrs_struct (\<lambda>x. (hst_conditions x, hst_annotations x))
     (addrs_pair addrs_conditions addrs_map)"

interpretation status: deep_copier copy_status view_status addrs_status
  unfolding view_status_def addrs_status_def
  by (rule deep_copier_struct [where put = "\<lambda>f x. case f of (c, an) \<Rightarrow> x\<lparr>hst_conditions := c, hst_annotations := an\<rparr>"], (rule deep_copiers)+)
    (simp_all add: copy_status_def copy_pair_def Let_def split: prod.split)

declare status.deep_copier_axioms [deep_copiers]

definition copy_auth :: "heap_auth \<Rightarrow> heap \<Rightarrow> heap_auth \<times> heap" where
  "copy_auth x h =
     (let (n, h) = copy_string_ptr (ha_account_name x) h;
          (ns, h) = copy_strings (ha_account_names x) h
      in (x\<lparr>ha_account_name := n, ha_account_names := ns\<rparr>, h))"

definition view_auth where
  "view_auth = view_struct (\<lambda>x. ()) (\<lambda>x. (ha_account_name x, ha_account_names x))
     (view_pair view_string_ptr view_strings)"

definition addrs_auth where
  "addrs_auth = addrs_struct (\<lambda>x. (ha_account_name x, ha_account_names x))
     (addrs_pair addrs_string_ptr addrs_strings)"

interpretation auth: deep_copier copy_auth view_auth addrs_auth
  unfolding view_auth_def addrs_auth_def
  by (rule deep_copier_struct [where put = "\<lambda>f x. case f of (n, ns) \<Rightarrow> x\<lparr>ha_account_name := n, ha_account_names := ns\<rparr>"], (rule deep_copiers)+)
    (simp_all add: copy_auth_def copy_pair_def Let_def split: prod.split)

declare auth.deep_copier_axioms [deep_copiers]

definition copy_auth_ptr where "copy_auth_ptr = copy_ptr AuthCell dest_auth copy_auth"
definition view_auth_ptr where "view_auth_ptr = view_ptr dest_auth view_auth"
definition addrs_auth_ptr where "addrs_auth_ptr = addrs_ptr dest_auth addrs_auth"

interpretation auth_ptr: deep_copier copy_auth_ptr view_auth_ptr addrs_auth_ptr
  unfolding copy_auth_ptr_def view_auth_ptr_def addrs_auth_ptr_def by (intro deep_copier_ptr deep_copiers) simp

declare auth_ptr.deep_copier_axioms [deep_copiers]

definition copy_duck_status :: "heap_duck_status \<Rightarrow> heap \<Rightarrow> heap_duck_status \<times> heap" where
  "copy_duck_status x h =
     (let (st, h) = copy_status (hd_status x) h;
          (u, h) = copy_url_ptr (hd_sink_uri x) h;
          (a, h) = copy_attributes (hd_ce_attributes x) h;
          (ca, h) = copy_string_ptr (hd_sink_ca_certs x) h;
          (au, h) = copy_string_ptr (hd_sink_audience x) h;
          (ath, h) = copy_auth_ptr (hd_auth x) h
      in (x\<lparr>hd_status := st, hd_sink_uri := u, hd_ce_attributes := a, hd_sink_ca_certs := ca, hd_sink_audience := au, hd_auth := ath\<rparr>, h))"

definition view_duck_status where
  "view_duck_status = view_struct (\<lambda>x. ()) (\<lambda>x. (hd_status x, hd_sink_uri x, hd_ce_attributes x, hd_sink_ca_certs x, hd_sink_audience x, hd_auth x))
     (view_pair view_status (view_pair view_url_ptr (view_pair view_attributes (view_pair view_string_ptr (view_pair view_string_ptr view_auth_ptr)))))"

definition addrs_duck_status where
  "addrs_duck_status = addrs_struct (\<lambda>x. (hd_status x, hd_sink_uri x, hd_ce_attributes x, hd_sink_ca_certs x, hd_sink_audience x, hd_auth x))
     (addrs_pair addrs_status (addrs_pair addrs_url_ptr (addrs_pair addrs_attributes (addrs_pair addrs_string_ptr (addrs_pair addrs_string_ptr addrs_auth_ptr)))))"

interpretation duck_status: deep_copier copy_duck_status view_duck_status addrs_duck_status
  unfolding view_duck_status_def addrs_duck_status_def
  by (rule deep_copier_struct [where put = "\<lambda>f x. case f of (st, u, a, ca, au, ath) \<Rightarrow> x\<lparr>hd_status := st, hd_sink_uri := u, hd_ce_attributes := a, hd_sink_ca_certs := ca, hd_sink_audience := au, hd_auth := ath\<rparr>"], (rule deep_copiers)+)
    (simp_all add: copy_duck_status_def copy_pair_def Let_def split: prod.split)

declare duck_status.deep_copier_axioms [deep_copiers]

definition copy_requirement :: "heap_requirement \<Rightarrow> heap \<Rightarrow> heap_requirement \<times> heap" where
  "copy_requirement x h =
     (let (vs, h) = copy_strings (hr_values x) h
      in (x\<lparr>hr_values := vs\<rparr>, h))"

definition view_requirement where
  "view_requirement = view_struct (\<lambda>x. (hr_key x, hr_operator x)) (\<lambda>x. hr_values x)
     view_strings"

definition addrs_requirement where
  "addrs_requirement = addrs_struct (\<lambda>x. hr_values x)
     addrs_strings"

interpretation requirement: deep_copier copy_requirement view_requirement addrs_requirement
  unfolding view_requirement_def addrs_requirement_def
  by (rule deep_copier_struct [where put = "\<lambda>vs x. x\<lparr>hr_values := vs\<rparr>"], (rule deep_copiers)+)
    (simp_all add: copy_requirement_def copy_pair_def Let_def split: prod.split)

declare requirement.deep_copier_axioms [deep_copiers]

definition copy_requirements where "copy_requirements = copy_ptr RequirementsCell dest_requirements (copy_list copy_requirement)"
definition view_requirements where "view_requirements = view_ptr dest_requirements (view_list view_requirement)"
definition addrs_requirements where "addrs_requirements = addrs_ptr dest_requirements (addrs_list addrs_requirement)"

interpretation requirements: deep_copier copy_requirements view_requirements addrs_requirements
  unfolding copy_requirements_def view_requirements_def addrs_requirements_def by (intro deep_copier_ptr deep_copiers) simp

declare requirements.deep_copier_axioms [deep_copiers]

definition copy_label_selector :: "heap_label_selector \<Rightarrow> heap \<Rightarrow> heap_label_selector \<times> heap" where
  "copy_label_selector x h =
     (let (l, h) = copy_map (hls_labels x) h;
          (e, h) = copy_requirements (hls_expressions x) h
      in (x\<lparr>hls_labels := l, hls_expressions := e\<rparr>, h))"

definition view_label_selector where
  "view_label_selector = view_struct (\<lambda>x. ()) (\<lambda>x. (hls_labels x, hls_expressions x))
     (view_pair view_map view_requirements)"

definition addrs_label_selector where
  "addrs_label_selector = addrs_struct (\<lambda>x. (hls_labels x, hls_expressions x))
     (addrs_pair addrs_map addrs_requirements)"

interpretation label_selector: deep_copier copy_label_selector view_label_selector addrs_label_selector
  unfolding view_label_selector_def addrs_label_selector_def
  by (rule deep_copier_struct [where put = "\<lambda>f x. case f of (l, e) \<Rightarrow> x\<lparr>hls_labels := l, hls_expressions := e\<rparr>"], (rule deep_copiers)+)
    (simp_all add: copy_label_selector_def copy_pair_def Let_def split: prod.split)

declare label_selector.deep_copier_axioms [deep_copiers]

definition copy_label_selector_ptr where "copy_label_selector_ptr = copy_ptr LabelSelectorCell dest_label_selector copy_label_selector"
definition view_label_selector_ptr where "view_label_selector_ptr = view_ptr dest_label_selector view_label_selector"
definition addrs_label_selector_ptr where "addrs_label_selector_ptr = addrs_ptr dest_label_selector addrs_label_selector"

interpretation label_selector_ptr: deep_copier copy_label_selector_ptr view_label_selector_ptr addrs_label_selector_ptr
  unfolding copy_label_selector_ptr_def view_label_selector_ptr_def addrs_label_selector_ptr_def by (intro deep_copier_ptr deep_copiers) simp

declare label_selector_ptr.deep_copier_axioms [deep_copiers]

definition copy_subject :: "heap_subject \<Rightarrow> heap \<Rightarrow> heap_subject \<times> heap" where
  "copy_subject x h =
     (let (s, h) = copy_label_selector_ptr (hsu_selector x) h
      in (x\<lparr>hsu_selector := s\<rparr>, h))"

definition view_subject where
  "view_subject = view_struct (\<lambda>x. (hsu_api_version x, hsu_kind x, hsu_namespace x, hsu_name x)) (\<lambda>x. hsu_selector x)
     view_label_selector_ptr"

definition addrs_subject where
  "addrs_subject = addrs_struct (\<lambda>x. hsu_selector x)
     addrs_label_selector_ptr"

interpretation subject: deep_copier copy_subject view_subject addrs_subject
  unfolding view_subject_def addrs_subject_def
  by (rule deep_copier_struct [where put = "\<lambda>s x. x\<lparr>hsu_selector := s\<rparr>"], (rule deep_copiers)+)
    (simp_all add: copy_subject_def copy_pair_def Let_def split: prod.split)

declare subject.deep_copier_axioms [deep_copiers]

subsection \<open>GitLabSource\<close>

definition copy_secret_value :: "heap_secret_value \<Rightarrow> heap \<Rightarrow> heap_secret_value \<times> heap" where
  "copy_secret_value x h =
     (let (p, h) = copy_selector_ptr (hsv_secret_key_ref x) h
      in (x\<lparr>hsv_secret_key_ref := p\<rparr>, h))"

definition view_secret_value where
  "view_secret_value = view_struct (\<lambda>x. ()) (\<lambda>x. hsv_secret_key_ref x)
     view_selector_ptr"

definition addrs_secret_value where
  "addrs_secret_value = addrs_struct (\<lambda>x. hsv_secret_key_ref x)
     addrs_selector_ptr"

interpretation secret_value: deep_copier copy_secret_value view_secret_value addrs_secret_value
  unfolding view_secret_value_def addrs_secret_value_def
  by (rule deep_copier_struct [where put = "\<lambda>p x. x\<lparr>hsv_secret_key_ref := p\<rparr>"], (rule deep_copiers)+)
    (simp_all add: copy_secret_value_def copy_pair_def Let_def split: prod.split)

declare secret_value.deep_copier_axioms [deep_copiers]

definition copy_source_spec :: "heap_source_spec \<Rightarrow> heap \<Rightarrow> heap_source_spec \<times> heap" where
  "copy_source_spec x h =
     (let (d, h) = copy_duck_spec (hs_duck_spec x) h;
          (ev, h) = copy_strings (hs_event_types x) h;
          (a, h) = copy_secret_value (hs_access_token x) h;
          (t, h) = copy_secret_value (hs_secret_token x) h
      in (x\<lparr>hs_duck_spec := d, hs_event_types := ev, hs_access_token := a, hs_secret_token := t\<rparr>, h))"

definition view_source_spec where
  "view_source_spec = view_struct (\<lambda>x. (hs_service_account x, hs_project_url x, hs_ssl_verify x)) (\<lambda>x. (hs_duck_spec x, hs_event_types x, hs_access_token x, hs_secret_token x))
     (view_pair view_duck_spec (view_pair view_strings (view_pair view_secret_value view_secret_value)))"

definition addrs_source_spec where
  "addrs_source_spec = addrs_struct (\<lambda>x. (hs_duck_spec x, hs_event_types x, hs_access_token x, hs_secret_token x))
     (addrs_pair addrs_duck_spec (addrs_pair addrs_strings (addrs_pair addrs_secret_value addrs_secret_value)))"

interpretation source_spec: deep_copier copy_source_spec view_source_spec addrs_source_spec
  unfolding view_source_spec_def addrs_source_spec_def
  by (rule deep_copier_struct [where put = "\<lambda>f x. case f of (d, ev, a, t) \<Rightarrow> x\<lparr>hs_duck_spec := d, hs_event_types := ev, hs_access_token := a, hs_secret_token := t\<rparr>"], (rule deep_copiers)+)
    (simp_all add: copy_source_spec_def copy_pair_def Let_def split: prod.split)

declare source_spec.deep_copier_axioms [deep_copiers]

definition copy_source_status :: "heap_source_status \<Rightarrow> heap \<Rightarrow> heap_source_status \<times> heap" where
  "copy_source_status x h =
     (let (d, h) = copy_duck_status (hs_duck_status x) h;
          (i, h) = copy_int_ptr (hs_webhook_id x) h
      in (x\<lparr>hs_duck_status := d, hs_webhook_id := i\<rparr>, h))"

definition view_source_status where
  "view_source_status = view_struct (\<lambda>x. ()) (\<lambda>x. (hs_duck_status x, hs_webhook_id x))
     (view_pair view_duck_status view_int_ptr)"

definition addrs_source_status where
  "addrs_source_status = addrs_struct (\<lambda>x. (hs_duck_status x, hs_webhook_id x))
     (addrs_pair addrs_duck_status addrs_int_ptr)"

interpretation source_status: deep_copier copy_source_status view_source_status addrs_source_status
  unfolding view_source_status_def addrs_source_status_def
  by (rule deep_copier_struct [where put = "\<lambda>f x. case f of (d, i) \<Rightarrow> x\<lparr>hs_duck_status := d, hs_webhook_id := i\<rparr>"], (rule deep_copiers)+)
    (simp_all add: copy_source_status_def copy_pair_def Let_def split: prod.split)

declare source_status.deep_copier_axioms [deep_copiers]

definition copy_source :: "heap_source \<Rightarrow> heap \<Rightarrow> heap_source \<times> heap" where
  "copy_source x h =
     (let (m, h) = copy_meta (hs_meta x) h;
          (sp, h) = copy_source_spec (hs_spec x) h;
          (st, h) = copy_source_status (hs_status x) h
      in (x\<lparr>hs_meta := m, hs_spec := sp, hs_status := st\<rparr>, h))"

definition view_source where
  "view_source = view_struct (\<lambda>x. (hs_kind x, hs_api_version x)) (\<lambda>x. (hs_meta x, hs_spec x, hs_status x))
     (view_pair view_meta (view_pair view_source_spec view_source_status))"

definition addrs_source where
  "addrs_source = addrs_struct (\<lambda>x. (hs_meta x, hs_spec x, hs_status x))
     (addrs_pair addrs_meta (addrs_pair addrs_source_spec addrs_source_status))"

interpretation source: deep_copier copy_source view_source addrs_source
  unfolding view_source_def addrs_source_def
  by (rule deep_copier_struct [where put = "\<lambda>f x. case f of (m, sp, st) \<Rightarrow> x\<lparr>hs_meta := m, hs_spec := sp, hs_status := st\<rparr>"], (rule deep_copiers)+)
    (simp_all add: copy_source_def copy_pair_def Let_def split: prod.split)

declare source.deep_copier_axioms [deep_copiers]

text \<open>\<^verbatim>\<open>DeepCopy\<close>: nil for nil, otherwise a new struct and \<^verbatim>\<open>DeepCopyInto\<close>. \<^verbatim>\<open>DeepCopyObject\<close> is the same pointer.\<close>

definition deep_copy_secret_value where "deep_copy_secret_value = copy_ptr SecretValueCell dest_secret_value copy_secret_value"

definition deep_copy_source_spec where "deep_copy_source_spec = copy_ptr SourceSpecCell dest_source_spec copy_source_spec"

definition deep_copy_source_status where "deep_copy_source_status = copy_ptr SourceStatusCell dest_source_status copy_source_status"

definition deep_copy_source where "deep_copy_source = copy_ptr SourceCell dest_source copy_source"
definition view_source_ptr where "view_source_ptr = view_ptr dest_source view_source"
definition addrs_source_ptr where "addrs_source_ptr = addrs_ptr dest_source addrs_source"

definition deep_copy_source_object :: "addr option \<Rightarrow> heap \<Rightarrow> addr option \<times> heap" where
  "deep_copy_source_object p h =
     (let (c, h) = deep_copy_source p h in (case c of Some a \<Rightarrow> (Some a, h) | None \<Rightarrow> (None, h)))"

interpretation source_ptr: deep_copier deep_copy_source view_source_ptr addrs_source_ptr
  unfolding deep_copy_source_def view_source_ptr_def addrs_source_ptr_def by (intro deep_copier_ptr deep_copiers) simp

lemma deep_copy_source_object_eq [simp]: "deep_copy_source_object = deep_copy_source"
  by (simp add: deep_copy_source_object_def fun_eq_iff split: prod.split option.split)

text \<open>The list of sources.\<close>

definition copy_source_items where "copy_source_items = copy_ptr SourcesCell dest_sources (copy_list copy_source)"
definition view_source_items where "view_source_items = view_ptr dest_sources (view_list view_source)"
definition addrs_source_items where "addrs_source_items = addrs_ptr dest_sources (addrs_list addrs_source)"

interpretation source_items: deep_copier copy_source_items view_source_items addrs_source_items
  unfolding copy_source_items_def view_source_items_def addrs_source_items_def by (intro deep_copier_ptr deep_copiers) simp

declare source_items.deep_copier_axioms [deep_copiers]

definition copy_source_list :: "heap_list \<Rightarrow> heap \<Rightarrow> heap_list \<times> heap" where
  "copy_source_list x h =
     (let (m, h) = copy_list_meta (hl_meta x) h;
          (i, h) = copy_source_items (hl_items x) h
      in (x\<lparr>hl_meta := m, hl_items := i\<rparr>, h))"

definition view_source_list where
  "view_source_list = view_struct (\<lambda>x. (hl_kind x, hl_api_version x)) (\<lambda>x. (hl_meta x, hl_items x))
     (view_pair view_list_meta view_source_items)"

definition addrs_source_list where
  "addrs_source_list = addrs_struct (\<lambda>x. (hl_meta x, hl_items x))
     (addrs_pair addrs_list_meta addrs_source_items)"

interpretation source_list: deep_copier copy_source_list view_source_list addrs_source_list
  unfolding view_source_list_def addrs_source_list_def
  by (rule deep_copier_struct [where put = "\<lambda>f x. case f of (m, i) \<Rightarrow> x\<lparr>hl_meta := m, hl_items := i\<rparr>"], (rule deep_copiers)+)
    (simp_all add: copy_source_list_def copy_pair_def Let_def split: prod.split)

declare source_list.deep_copier_axioms [deep_copiers]

definition deep_copy_source_list where "deep_copy_source_list = copy_ptr ListCell dest_list copy_source_list"
definition view_source_list_ptr where "view_source_list_ptr = view_ptr dest_list view_source_list"
definition addrs_source_list_ptr where "addrs_source_list_ptr = addrs_ptr dest_list addrs_source_list"

definition deep_copy_source_list_object :: "addr option \<Rightarrow> heap \<Rightarrow> addr option \<times> heap" where
  "deep_copy_source_list_object p h =
     (let (c, h) = deep_copy_source_list p h in (case c of Some a \<Rightarrow> (Some a, h) | None \<Rightarrow> (None, h)))"

interpretation source_list_ptr: deep_copier deep_copy_source_list view_source_list_ptr addrs_source_list_ptr
  unfolding deep_copy_source_list_def view_source_list_ptr_def addrs_source_list_ptr_def by (intro deep_copier_ptr deep_copiers) simp

lemma deep_copy_source_list_object_eq [simp]: "deep_copy_source_list_object = deep_copy_source_list"
  by (simp add: deep_copy_source_list_object_def fun_eq_iff split: prod.split option.split)

subsection \<open>GitLabBinding\<close>

definition copy_binding_spec :: "heap_binding_spec \<Rightarrow> heap \<Rightarrow> heap_binding_spec \<times> heap" where
  "copy_binding_spec x h =
     (let (s, h) = copy_subject (hb_subject x) h;
          (a, h) = copy_secret_value (hb_access_token x) h
      in (x\<lparr>hb_subject := s, hb_access_token := a\<rparr>, h))"

definition view_binding_spec where
  "view_binding_spec = view_struct (\<lambda>x. ()) (\<lambda>x. (hb_subject x, hb_access_token x))
     (view_pair view_subject view_secret_value)"

definition addrs_binding_spec where
  "addrs_binding_spec = addrs_struct (\<lambda>x. (hb_subject x, hb_access_token x))
     (addrs_pair addrs_subject addrs_secret_value)"

interpretation binding_spec: deep_copier copy_binding_spec view_binding_spec addrs_binding_spec
  unfolding view_binding_spec_def addrs_binding_spec_def
  by (rule deep_copier_struct [where put = "\<lambda>f x. case f of (s, a) \<Rightarrow> x\<lparr>hb_subject := s, hb_access_token := a\<rparr>"], (rule deep_copiers)+)
    (simp_all add: copy_binding_spec_def copy_pair_def Let_def split: prod.split)

declare binding_spec.deep_copier_axioms [deep_copiers]

definition copy_binding_status :: "heap_binding_status \<Rightarrow> heap \<Rightarrow> heap_binding_status \<times> heap" where
  "copy_binding_status x h =
     (let (d, h) = copy_duck_status (hb_duck_status x) h
      in (x\<lparr>hb_duck_status := d\<rparr>, h))"

definition view_binding_status where
  "view_binding_status = view_struct (\<lambda>x. ()) (\<lambda>x. hb_duck_status x)
     view_duck_status"

definition addrs_binding_status where
  "addrs_binding_status = addrs_struct (\<lambda>x. hb_duck_status x)
     addrs_duck_status"

interpretation binding_status: deep_copier copy_binding_status view_binding_status addrs_binding_status
  unfolding view_binding_status_def addrs_binding_status_def
  by (rule deep_copier_struct [where put = "\<lambda>d x. x\<lparr>hb_duck_status := d\<rparr>"], (rule deep_copiers)+)
    (simp_all add: copy_binding_status_def copy_pair_def Let_def split: prod.split)

declare binding_status.deep_copier_axioms [deep_copiers]

definition copy_binding :: "heap_binding \<Rightarrow> heap \<Rightarrow> heap_binding \<times> heap" where
  "copy_binding x h =
     (let (m, h) = copy_meta (hb_meta x) h;
          (sp, h) = copy_binding_spec (hb_spec x) h;
          (st, h) = copy_binding_status (hb_status x) h
      in (x\<lparr>hb_meta := m, hb_spec := sp, hb_status := st\<rparr>, h))"

definition view_binding where
  "view_binding = view_struct (\<lambda>x. (hb_kind x, hb_api_version x)) (\<lambda>x. (hb_meta x, hb_spec x, hb_status x))
     (view_pair view_meta (view_pair view_binding_spec view_binding_status))"

definition addrs_binding where
  "addrs_binding = addrs_struct (\<lambda>x. (hb_meta x, hb_spec x, hb_status x))
     (addrs_pair addrs_meta (addrs_pair addrs_binding_spec addrs_binding_status))"

interpretation binding: deep_copier copy_binding view_binding addrs_binding
  unfolding view_binding_def addrs_binding_def
  by (rule deep_copier_struct [where put = "\<lambda>f x. case f of (m, sp, st) \<Rightarrow> x\<lparr>hb_meta := m, hb_spec := sp, hb_status := st\<rparr>"], (rule deep_copiers)+)
    (simp_all add: copy_binding_def copy_pair_def Let_def split: prod.split)

declare binding.deep_copier_axioms [deep_copiers]

definition deep_copy_binding_spec where "deep_copy_binding_spec = copy_ptr BindingSpecCell dest_binding_spec copy_binding_spec"

definition deep_copy_binding_status where "deep_copy_binding_status = copy_ptr BindingStatusCell dest_binding_status copy_binding_status"

definition deep_copy_binding where "deep_copy_binding = copy_ptr BindingCell dest_binding copy_binding"
definition view_binding_ptr where "view_binding_ptr = view_ptr dest_binding view_binding"
definition addrs_binding_ptr where "addrs_binding_ptr = addrs_ptr dest_binding addrs_binding"

definition deep_copy_binding_object :: "addr option \<Rightarrow> heap \<Rightarrow> addr option \<times> heap" where
  "deep_copy_binding_object p h =
     (let (c, h) = deep_copy_binding p h in (case c of Some a \<Rightarrow> (Some a, h) | None \<Rightarrow> (None, h)))"

interpretation binding_ptr: deep_copier deep_copy_binding view_binding_ptr addrs_binding_ptr
  unfolding deep_copy_binding_def view_binding_ptr_def addrs_binding_ptr_def by (intro deep_copier_ptr deep_copiers) simp

lemma deep_copy_binding_object_eq [simp]: "deep_copy_binding_object = deep_copy_binding"
  by (simp add: deep_copy_binding_object_def fun_eq_iff split: prod.split option.split)

text \<open>The list of bindings.\<close>

definition copy_binding_items where "copy_binding_items = copy_ptr BindingsCell dest_bindings (copy_list copy_binding)"
definition view_binding_items where "view_binding_items = view_ptr dest_bindings (view_list view_binding)"
definition addrs_binding_items where "addrs_binding_items = addrs_ptr dest_bindings (addrs_list addrs_binding)"

interpretation binding_items: deep_copier copy_binding_items view_binding_items addrs_binding_items
  unfolding copy_binding_items_def view_binding_items_def addrs_binding_items_def by (intro deep_copier_ptr deep_copiers) simp

declare binding_items.deep_copier_axioms [deep_copiers]

definition copy_binding_list :: "heap_list \<Rightarrow> heap \<Rightarrow> heap_list \<times> heap" where
  "copy_binding_list x h =
     (let (m, h) = copy_list_meta (hl_meta x) h;
          (i, h) = copy_binding_items (hl_items x) h
      in (x\<lparr>hl_meta := m, hl_items := i\<rparr>, h))"

definition view_binding_list where
  "view_binding_list = view_struct (\<lambda>x. (hl_kind x, hl_api_version x)) (\<lambda>x. (hl_meta x, hl_items x))
     (view_pair view_list_meta view_binding_items)"

definition addrs_binding_list where
  "addrs_binding_list = addrs_struct (\<lambda>x. (hl_meta x, hl_items x))
     (addrs_pair addrs_list_meta addrs_binding_items)"

interpretation binding_list: deep_copier copy_binding_list view_binding_list addrs_binding_list
  unfolding view_binding_list_def addrs_binding_list_def
  by (rule deep_copier_struct [where put = "\<lambda>f x. case f of (m, i) \<Rightarrow> x\<lparr>hl_meta := m, hl_items := i\<rparr>"], (rule deep_copiers)+)
    (simp_all add: copy_binding_list_def copy_pair_def Let_def split: prod.split)

declare binding_list.deep_copier_axioms [deep_copiers]

definition deep_copy_binding_list where "deep_copy_binding_list = copy_ptr ListCell dest_list copy_binding_list"
definition view_binding_list_ptr where "view_binding_list_ptr = view_ptr dest_list view_binding_list"
definition addrs_binding_list_ptr where "addrs_binding_list_ptr = addrs_ptr dest_list addrs_binding_list"

definition deep_copy_binding_list_object :: "addr option \<Rightarrow> heap \<Rightarrow> addr option \<times> heap" where
  "deep_copy_binding_list_object p h =
     (let (c, h) = deep_copy_binding_list p h in (case c of Some a \<Rightarrow> (Some a, h) | None \<Rightarrow> (None, h)))"

interpretation binding_list_ptr: deep_copier deep_copy_binding_list view_binding_list_ptr addrs_binding_list_ptr
  unfolding deep_copy_binding_list_def view_binding_list_ptr_def addrs_binding_list_ptr_def by (intro deep_copier_ptr deep_copiers) simp

lemma deep_copy_binding_list_object_eq [simp]: "deep_copy_binding_list_object = deep_copy_binding_list"
  by (simp add: deep_copy_binding_list_object_def fun_eq_iff split: prod.split option.split)

subsection \<open>Properties\<close>

text \<open>
  C37: the deep copy of a GitLabSource, or of a list of them, reads as the original in every field of it and of everything it
  points to (the optional flag of a secret's selector, the address, certificates and audience of the sink, the user of a URL,
  annotations, managed fields and the account names among them), is made of new cells only and leaves the old ones
  alone. So whatever is stored later through the copy (to any cell the original does not reach) leaves the reading of the
  original, the object of the informer's cache, unchanged, and the other way round.
\<close>

theorem source_deep_copy:
  "(view_source_ptr h p = Some v \<and> deep_copy_source_object p h = (p', h') \<longrightarrow>
      isolated_copy view_source_ptr addrs_source_ptr h p h' p' v) \<and>
   (view_source_list_ptr h p = Some vs \<and> deep_copy_source_list_object p h = (p', h') \<longrightarrow>
      isolated_copy view_source_list_ptr addrs_source_list_ptr h p h' p' vs)"
  by (simp add: source_ptr.isolated source_list_ptr.isolated)

text \<open>A source in memory, with a pointer in every struct.\<close>

definition sample_meta :: "addr option \<Rightarrow> addr option \<Rightarrow> addr option \<Rightarrow> heap_meta" where
  "sample_meta annotations owners managed =
     \<lparr>hm_name = ''src'', hm_generate_name = [], hm_namespace = ''ns'', hm_self_link = [], hm_uid = ''u'',
      hm_resource_version = ''1'', hm_generation = 1, hm_creation_timestamp = 5, hm_deletion_timestamp = None,
      hm_grace_period = None, hm_labels = None, hm_annotations = annotations, hm_owner_references = owners,
      hm_finalizers = None, hm_managed_fields = managed\<rparr>"

definition sample_heap :: heap where
  "sample_heap =
     [StringsCell [''push_events''], BoolCell True,
      SelectorCell \<lparr>hse_name = ''secret'', hse_key = ''token'', hse_optional = Some 1\<rparr>, IntCell 7,
      MapCell [(''a'', ''b'')], StringCell ''addr'',
      KRefCell \<lparr>hk_kind = ''Broker'', hk_namespace = ''ns'', hk_name = ''b'', hk_api_version = ''v1'', hk_group = [], hk_address = Some 5\<rparr>,
      UserCell (''me'', ''pw'', True), UrlCell \<lparr>hu_texts = [''http'', ''sink''], hu_user = Some 7\<rparr>,
      OwnersCell [\<lparr>how_api_version = ''v1'', how_kind = ''K'', how_name = ''o'', how_uid = ''x'', how_controller = Some 1,
        how_block_owner_deletion = None\<rparr>],
      FieldsCell (Some 5),
      ManagedCell [\<lparr>hma_manager = ''m'', hma_operation = ''Apply'', hma_api_version = ''v1'', hma_time = None,
        hma_fields_type = ''FieldsV1'', hma_fields = Some 10, hma_subresource = []\<rparr>],
      AuthCell \<lparr>ha_account_name = Some 5, ha_account_names = Some 0\<rparr>,
      SourceCell
        \<lparr>hs_kind = ''GitLabSource'', hs_api_version = ''v1alpha1'', hs_meta = sample_meta (Some 4) (Some 9) (Some 11),
         hs_spec = \<lparr>hs_duck_spec = \<lparr>hd_sink = \<lparr>hd_ref = Some 6, hd_uri = Some 8, hd_ca_certs = Some 5, hd_audience = Some 5\<rparr>,
              hd_ce_overrides = None\<rparr>,
            hs_service_account = [], hs_project_url = ''https://gitlab.com/a/b'', hs_event_types = Some 0,
            hs_access_token = \<lparr>hsv_secret_key_ref = Some 2\<rparr>, hs_secret_token = \<lparr>hsv_secret_key_ref = Some 2\<rparr>,
            hs_ssl_verify = True\<rparr>,
         hs_status = \<lparr>hs_duck_status = \<lparr>hd_status = \<lparr>hst_observed_generation = 1, hst_conditions = None, hst_annotations = Some 4\<rparr>,
               hd_sink_uri = Some 8, hd_ce_attributes = None, hd_sink_ca_certs = Some 5, hd_sink_audience = None, hd_auth = Some 12\<rparr>,
            hs_webhook_id = Some 3\<rparr>\<rparr>]"

text \<open>The first cell of its copy is the map of the annotations: writing it does not reach the original.\<close>

theorem source_deep_copy_witness:
  "\<exists>v. view_source_ptr sample_heap (Some 13) = Some v \<and>
     view_source_ptr ((snd (deep_copy_source_object (Some 13) sample_heap))[14 := MapCell []]) (Some 13) = Some v"
proof -
  obtain p' h' where c: "deep_copy_source_object (Some 13) sample_heap = (p', h')" by (metis surj_pair)
  have "\<not> Option.is_none (view_source_ptr sample_heap (Some 13))" by code_simp
  then obtain v where v: "view_source_ptr sample_heap (Some 13) = Some v"
    by (cases "view_source_ptr sample_heap (Some 13)") simp_all
  have "case deep_copy_source_object (Some 13) sample_heap of (p, h) \<Rightarrow> 14 \<in> addrs_source_ptr h p"
    by code_simp
  then have "14 \<in> addrs_source_ptr h' p'" by (simp only: c prod.case)
  then have other: "\<forall>a < length h'. a \<notin> addrs_source_ptr h' p' \<longrightarrow> h'[14 := MapCell []] ! a = h' ! a"
    by (metis nth_list_update_neq)
  have "isolated_copy view_source_ptr addrs_source_ptr sample_heap (Some 13) h' p' v"
    using source_deep_copy [of sample_heap "Some 13" v p' h'] v c by simp
  then have "view_source_ptr (h'[14 := MapCell []]) (Some 13) = Some v"
    unfolding isolated_copy_def using other length_list_update [of h' 14 "MapCell []"] by (metis order_refl)
  with v show ?thesis by (simp only: c snd_conv) blast
qed

text \<open>
  The same for a GitLabBinding and a list of them.
\<close>

theorem binding_deep_copy:
  "(view_binding_ptr h p = Some v \<and> deep_copy_binding_object p h = (p', h') \<longrightarrow>
      isolated_copy view_binding_ptr addrs_binding_ptr h p h' p' v) \<and>
   (view_binding_list_ptr h p = Some vs \<and> deep_copy_binding_list_object p h = (p', h') \<longrightarrow>
      isolated_copy view_binding_list_ptr addrs_binding_list_ptr h p h' p' vs)"
  by (simp add: binding_ptr.isolated binding_list_ptr.isolated)

definition sample_bindings :: heap where
  "sample_bindings =
     [SelectorCell \<lparr>hse_name = ''secret'', hse_key = ''token'', hse_optional = None\<rparr>, StringsCell [''x''],
      RequirementsCell [\<lparr>hr_key = ''app'', hr_operator = ''In'', hr_values = Some 1\<rparr>],
      LabelSelectorCell \<lparr>hls_labels = None, hls_expressions = Some 2\<rparr>,
      BindingsCell [\<lparr>hb_kind = [], hb_api_version = [], hb_meta = sample_meta None None None,
         hb_spec = \<lparr>hb_subject = \<lparr>hsu_api_version = ''v1'', hsu_kind = ''Pod'', hsu_namespace = ''ns'',
               hsu_name = [], hsu_selector = Some 3\<rparr>, hb_access_token = \<lparr>hsv_secret_key_ref = Some 0\<rparr>\<rparr>,
         hb_status = \<lparr>hb_duck_status = \<lparr>hd_status = \<lparr>hst_observed_generation = 1, hst_conditions = None, hst_annotations = None\<rparr>,
               hd_sink_uri = None, hd_ce_attributes = None, hd_sink_ca_certs = None, hd_sink_audience = None, hd_auth = None\<rparr>\<rparr>\<rparr>],
      ListCell \<lparr>hl_kind = [], hl_api_version = [],
         hl_meta = \<lparr>hl_self_link = [], hl_resource_version = ''5'', hl_continue = [], hl_remaining = None\<rparr>, hl_items = Some 4\<rparr>]"

theorem binding_deep_copy_witness:
  "\<exists>p' h' vs. view_binding_list_ptr sample_bindings (Some 5) = Some vs \<and>
     deep_copy_binding_list_object (Some 5) sample_bindings = (p', h') \<and> view_binding_list_ptr h' p' = Some vs"
proof -
  obtain p' h' where c: "deep_copy_binding_list_object (Some 5) sample_bindings = (p', h')" by (metis surj_pair)
  have "\<not> Option.is_none (view_binding_list_ptr sample_bindings (Some 5))" by code_simp
  then obtain vs where v: "view_binding_list_ptr sample_bindings (Some 5) = Some vs"
    by (cases "view_binding_list_ptr sample_bindings (Some 5)") simp_all
  then show ?thesis
    using binding_deep_copy [of sample_bindings "Some 5" _ p' h' vs] c by (auto simp: isolated_copy_def)
qed

end
