(* ===== verification/Listers.thy ===== *)
theory Listers
  imports Binding "HOL-Library.AList"
begin

section \<open>The listers\<close>

text \<open>
  The generated listers of the two resources (\<^verbatim>\<open>pkg/client/listers/*/v1alpha1/gitlab*.go\<close>, the same up
  to the type) on the indexer of an informer (\<^verbatim>\<open>client-go/tools/cache\<close>): a map from keys to objects with
  an index by namespace. \<open>ix_items\<close> is in the order of an iteration of the Go map, \<open>ix_index\<close> lists the keys
  of a namespace in the order of the iteration of its set; neither order means anything.
  \<open>ix_indexed\<close> says that the namespace index is installed, which the generated informers do. An object
  of type \<open>'a\<close> has the metadata \<open>meta x\<close>.
\<close>

record 'a indexer =
  ix_items :: "(string \<times> 'a) list"
  ix_indexed :: bool
  ix_index :: "string \<Rightarrow> string list"

definition empty_indexer :: "bool \<Rightarrow> 'a indexer" where
  "empty_indexer indexed = \<lparr>ix_items = [], ix_indexed = indexed, ix_index = (\<lambda>_. [])\<rparr>"

datatype selector = Everything | Nothing | Matching "(string \<times> string) list \<Rightarrow> bool"

fun selector_matches :: "selector \<Rightarrow> (string \<times> string) list \<Rightarrow> bool" where
  "selector_matches Everything _ = True"
| "selector_matches Nothing _ = False"
| "selector_matches (Matching f) labels = f labels"

subsection \<open>The indexer\<close>

text \<open>\<^verbatim>\<open>MetaNamespaceKeyFunc\<close>.\<close>

definition meta_key :: "object_meta \<Rightarrow> string" where
  "meta_key m = (if om_namespace m \<noteq> [] then om_namespace m @ ''/'' @ om_name m else om_name m)"

definition update_index ::
  "('a \<Rightarrow> object_meta) \<Rightarrow> 'a option \<Rightarrow> 'a option \<Rightarrow> string \<Rightarrow> (string \<Rightarrow> string list) \<Rightarrow> string \<Rightarrow> string list" where
  "update_index meta old new key ix =
     (let ns = map_option (om_namespace \<circ> meta)
      in if old \<noteq> None \<and> new \<noteq> None \<and> ns old = ns new then ix
         else let ix = (case ns old of None \<Rightarrow> ix | Some v \<Rightarrow> ix(v := removeAll key (ix v)))
              in case ns new of None \<Rightarrow> ix | Some v \<Rightarrow> ix(v := List.insert key (ix v)))"

definition store_update :: "('a \<Rightarrow> object_meta) \<Rightarrow> string \<Rightarrow> 'a \<Rightarrow> 'a indexer \<Rightarrow> 'a indexer" where
  "store_update meta key x s =
     s\<lparr>ix_items := AList.update key x (ix_items s),
       ix_index := (if ix_indexed s then update_index meta (map_of (ix_items s) key) (Some x) key (ix_index s)
                    else ix_index s)\<rparr>"

definition store_delete :: "('a \<Rightarrow> object_meta) \<Rightarrow> string \<Rightarrow> 'a indexer \<Rightarrow> 'a indexer" where
  "store_delete meta key s =
     (case map_of (ix_items s) key of
        None \<Rightarrow> s
      | Some x \<Rightarrow>
          s\<lparr>ix_items := AList.delete key (ix_items s),
            ix_index := (if ix_indexed s then update_index meta (Some x) None key (ix_index s) else ix_index s)\<rparr>)"

definition indexer_add :: "('a \<Rightarrow> object_meta) \<Rightarrow> 'a \<Rightarrow> 'a indexer \<Rightarrow> 'a indexer" where
  "indexer_add meta x = store_update meta (meta_key (meta x)) x"

definition indexer_delete :: "('a \<Rightarrow> object_meta) \<Rightarrow> 'a \<Rightarrow> 'a indexer \<Rightarrow> 'a indexer" where
  "indexer_delete meta x = store_delete meta (meta_key (meta x))"

definition store_list :: "'a indexer \<Rightarrow> 'a list" where
  "store_list s = map snd (ix_items s)"

text \<open>\<^verbatim>\<open>Index(NamespaceIndex, ...)\<close>: the objects of the keys, \<open>None\<close> a nil object under a dangling key.\<close>

definition store_by_namespace :: "'a indexer \<Rightarrow> string \<Rightarrow> 'a option list option" where
  "store_by_namespace s ns =
     (if ix_indexed s then Some (map (map_of (ix_items s)) (ix_index s ns)) else None)"

subsection \<open>Listing\<close>

definition list_all :: "('a \<Rightarrow> object_meta) \<Rightarrow> 'a indexer \<Rightarrow> selector \<Rightarrow> 'a list" where
  "list_all meta s sel =
     (case sel of
        Nothing \<Rightarrow> []
      | Everything \<Rightarrow> store_list s
      | Matching f \<Rightarrow> filter (\<lambda>x. f (om_labels (meta x))) (store_list s))"

definition list_all_by_namespace ::
  "('a \<Rightarrow> object_meta) \<Rightarrow> 'a indexer \<Rightarrow> string \<Rightarrow> selector \<Rightarrow> 'a option list" where
  "list_all_by_namespace meta s ns sel =
     (case sel of
        Nothing \<Rightarrow> []
      | _ \<Rightarrow>
          if ns = [] then map Some (list_all meta s sel)
          else case store_by_namespace s ns of
            None \<Rightarrow>
              map Some (filter (\<lambda>x. om_namespace (meta x) = ns \<and> selector_matches sel (om_labels (meta x))) (store_list s))
          | Some xs \<Rightarrow>
              (case sel of
                 Everything \<Rightarrow> xs
               | _ \<Rightarrow> filter (\<lambda>p. case p of None \<Rightarrow> False | Some x \<Rightarrow> selector_matches sel (om_labels (meta x))) xs))"

subsection \<open>The generated listers\<close>

record 'a namespace_lister =
  nl_indexer :: "'a indexer"
  nl_namespace :: string

definition lister_list :: "('a \<Rightarrow> object_meta) \<Rightarrow> 'a indexer \<Rightarrow> selector \<Rightarrow> 'a list" where
  "lister_list meta s sel = list_all meta s sel"

definition lister_namespace :: "'a indexer \<Rightarrow> string \<Rightarrow> 'a namespace_lister" where
  "lister_namespace s ns = \<lparr>nl_indexer = s, nl_namespace = ns\<rparr>"

definition namespace_list :: "('a \<Rightarrow> object_meta) \<Rightarrow> 'a namespace_lister \<Rightarrow> selector \<Rightarrow> 'a option list" where
  "namespace_list meta l sel = list_all_by_namespace meta (nl_indexer l) (nl_namespace l) sel"

definition namespace_get :: "string \<Rightarrow> 'a namespace_lister \<Rightarrow> string \<Rightarrow> goerr + 'a" where
  "namespace_get resource l name =
     (case map_of (ix_items (nl_indexer l)) (nl_namespace l @ ''/'' @ name) of
        None \<Rightarrow> Inl (not_found_error resource name)
      | Some x \<Rightarrow> Inr x)"

text \<open>\<^verbatim>\<open>Resource(r)\<close> of the two API packages, printed.\<close>

definition source_group_resource :: "string \<Rightarrow> string" where
  "source_group_resource r = r @ ''.'' @ fst source_group_version"

definition binding_group_resource :: "string \<Rightarrow> string" where
  "binding_group_resource r = r @ ''.'' @ fst binding_group_version"

definition source_lister_list :: "gitlab_source indexer \<Rightarrow> selector \<Rightarrow> gitlab_source list" where
  "source_lister_list = lister_list src_meta"
definition source_lister_namespace :: "gitlab_source indexer \<Rightarrow> string \<Rightarrow> gitlab_source namespace_lister" where
  "source_lister_namespace = lister_namespace"
definition source_namespace_list :: "gitlab_source namespace_lister \<Rightarrow> selector \<Rightarrow> gitlab_source option list" where
  "source_namespace_list = namespace_list src_meta"
definition source_namespace_get :: "gitlab_source namespace_lister \<Rightarrow> string \<Rightarrow> goerr + gitlab_source" where
  "source_namespace_get = namespace_get (source_group_resource ''gitlabsource'')"

definition binding_lister_list :: "gitlab_binding indexer \<Rightarrow> selector \<Rightarrow> gitlab_binding list" where
  "binding_lister_list = lister_list gb_meta"
definition binding_lister_namespace :: "gitlab_binding indexer \<Rightarrow> string \<Rightarrow> gitlab_binding namespace_lister" where
  "binding_lister_namespace = lister_namespace"
definition binding_namespace_list :: "gitlab_binding namespace_lister \<Rightarrow> selector \<Rightarrow> gitlab_binding option list" where
  "binding_namespace_list = namespace_list gb_meta"
definition binding_namespace_get :: "gitlab_binding namespace_lister \<Rightarrow> string \<Rightarrow> goerr + gitlab_binding" where
  "binding_namespace_get = namespace_get (binding_group_resource ''gitlabbinding'')"

subsection \<open>What an indexer holds\<close>

text \<open>
  The events an informer applies, and what they promise: a map from namespaces and names to objects.
\<close>

datatype 'a cache_event = Put 'a | Drop 'a

fun apply_event :: "('a \<Rightarrow> object_meta) \<Rightarrow> 'a indexer \<Rightarrow> 'a cache_event \<Rightarrow> 'a indexer" where
  "apply_event meta s (Put x) = indexer_add meta x s"
| "apply_event meta s (Drop x) = indexer_delete meta x s"

definition full_name :: "object_meta \<Rightarrow> string \<times> string" where
  "full_name m = (om_namespace m, om_name m)"

fun spec_event ::
  "('a \<Rightarrow> object_meta) \<Rightarrow> (string \<times> string \<Rightarrow> 'a option) \<Rightarrow> 'a cache_event \<Rightarrow> string \<times> string \<Rightarrow> 'a option" where
  "spec_event meta m (Put x) = m(full_name (meta x) := Some x)"
| "spec_event meta m (Drop x) = m(full_name (meta x) := None)"

fun event_object :: "'a cache_event \<Rightarrow> 'a" where
  "event_object (Put x) = x"
| "event_object (Drop x) = x"

text \<open>An object of a namespaced resource: a namespace, and neither name has a slash.\<close>

definition namespaced :: "object_meta \<Rightarrow> bool" where
  "namespaced m \<longleftrightarrow> om_namespace m \<noteq> [] \<and> CHR ''/'' \<notin> set (om_namespace m) \<and> CHR ''/'' \<notin> set (om_name m)"

lemma key_inj:
  assumes "CHR ''/'' \<notin> set ns'" "CHR ''/'' \<notin> set n'" and "ns @ ''/'' @ n = ns' @ ''/'' @ n'"
  shows "ns = ns' \<and> n = n'"
proof -
  have "split_on CHR ''/'' ns @ split_on CHR ''/'' n = [ns', n']"
    using assms split_on_sep [of "CHR ''/''" ns n] by simp
  moreover have "as = [a] \<and> bs = [b]" if "as @ bs = [a, b]" "as \<noteq> []" "bs \<noteq> []" for a b and as bs :: "string list"
    using that by (auto simp: append_eq_Cons_conv)
  ultimately have "split_on CHR ''/'' ns = [ns'] \<and> split_on CHR ''/'' n = [n']"
    by (meson split_on_nonempty)
  then show ?thesis by (metis split_on_one)
qed

text \<open>
  The indexer is well formed when every object is under its key, once, and the index of a namespace
  lists the keys of its objects, once.
\<close>

definition indexer_wf :: "('a \<Rightarrow> object_meta) \<Rightarrow> 'a indexer \<Rightarrow> bool" where
  "indexer_wf meta s \<longleftrightarrow>
     distinct (map fst (ix_items s)) \<and>
     (\<forall>k x. map_of (ix_items s) k = Some x \<longrightarrow> namespaced (meta x) \<and> k = meta_key (meta x)) \<and>
     (ix_indexed s \<longrightarrow> (\<forall>ns. distinct (ix_index s ns) \<and>
        set (ix_index s ns) = {k. \<exists>x. map_of (ix_items s) k = Some x \<and> om_namespace (meta x) = ns}))"

text \<open>The indexer stores a map.\<close>

definition stores :: "('a \<Rightarrow> object_meta) \<Rightarrow> (string \<times> string \<Rightarrow> 'a option) \<Rightarrow> 'a indexer \<Rightarrow> bool" where
  "stores meta m s \<longleftrightarrow> indexer_wf meta s \<and>
     (\<forall>ns n. m (ns, n) = map_of (ix_items s) (ns @ ''/'' @ n))"

lemma namespaced_key: "namespaced m \<Longrightarrow> meta_key m = om_namespace m @ ''/'' @ om_name m"
  by (simp add: namespaced_def meta_key_def)

lemma namespaced_key_eq:
  "namespaced m \<Longrightarrow> meta_key m = ns @ ''/'' @ n \<longleftrightarrow> full_name m = (ns, n)"
  using key_inj [of "om_namespace m" "om_name m" ns n]
  by (auto simp: namespaced_key full_name_def namespaced_def)

lemma stores_empty: "stores meta (\<lambda>_. None) (empty_indexer b)"
  by (simp add: stores_def indexer_wf_def empty_indexer_def)

lemma stores_put:
  assumes s: "stores meta m s" and x: "namespaced (meta x)"
  shows "stores meta (m(full_name (meta x) := Some x)) (indexer_add meta x s)"
proof -
  let ?k = "meta_key (meta x)" and ?s = "indexer_add meta x s"
  have wf: "distinct (map fst (ix_items s))"
    "\<And>k y. map_of (ix_items s) k = Some y \<Longrightarrow> namespaced (meta y) \<and> k = meta_key (meta y)"
    "ix_indexed s \<Longrightarrow> distinct (ix_index s ns) \<and>
        set (ix_index s ns) = {k. \<exists>x. map_of (ix_items s) k = Some x \<and> om_namespace (meta x) = ns}" for ns
    using s by (auto simp: stores_def indexer_wf_def)
  have items: "map_of (ix_items ?s) = (map_of (ix_items s))(?k := Some x)"
    by (simp add: indexer_add_def store_update_def update_conv')
  have same: "om_namespace (meta y) = om_namespace (meta x)" if "map_of (ix_items s) ?k = Some y" for y
  proof -
    from wf(2) [OF that] have "namespaced (meta y)" "meta_key (meta x) = meta_key (meta y)" by simp_all
    then show ?thesis
      using namespaced_key_eq [of "meta y" "om_namespace (meta x)" "om_name (meta x)"] namespaced_key [OF x]
      by (simp add: full_name_def)
  qed
  have "distinct (ix_index ?s ns) \<and>
      set (ix_index ?s ns) = {k. \<exists>y. map_of (ix_items ?s) k = Some y \<and> om_namespace (meta y) = ns}"
    if "ix_indexed s" for ns
  proof (cases "map_of (ix_items s) ?k")
    case None
    then show ?thesis
      using wf(3) [OF that, of ns] that unfolding items
      by (auto simp: indexer_add_def store_update_def update_index_def Let_def)
  next
    case (Some y)
    then show ?thesis
      using wf(3) [OF that, of ns] that same [OF Some] unfolding items
      by (auto simp: indexer_add_def store_update_def update_index_def Let_def)
  qed
  moreover have "distinct (map fst (ix_items ?s))"
    using wf(1) by (simp add: indexer_add_def store_update_def distinct_update)
  ultimately have "indexer_wf meta ?s"
    using wf(2) x unfolding indexer_wf_def items
    by (auto simp: indexer_add_def store_update_def)
  moreover have "(m(full_name (meta x) := Some x)) (ns, n) = map_of (ix_items ?s) (ns @ ''/'' @ n)" for ns n
    using s namespaced_key_eq [OF x, of ns n] by (auto simp: stores_def items)
  ultimately show ?thesis by (simp add: stores_def)
qed

lemma stores_drop:
  assumes s: "stores meta m s" and x: "namespaced (meta x)"
  shows "stores meta (m(full_name (meta x) := None)) (indexer_delete meta x s)"
proof -
  let ?k = "meta_key (meta x)" and ?s = "indexer_delete meta x s"
  have wf: "distinct (map fst (ix_items s))"
    "\<And>k y. map_of (ix_items s) k = Some y \<Longrightarrow> namespaced (meta y) \<and> k = meta_key (meta y)"
    "ix_indexed s \<Longrightarrow> distinct (ix_index s ns) \<and>
        set (ix_index s ns) = {k. \<exists>x. map_of (ix_items s) k = Some x \<and> om_namespace (meta x) = ns}" for ns
    using s by (auto simp: stores_def indexer_wf_def)
  have items: "map_of (ix_items ?s) = (map_of (ix_items s))(?k := None)"
    by (auto simp: indexer_delete_def store_delete_def delete_conv' split: option.split)
  have "distinct (ix_index ?s ns) \<and>
      set (ix_index ?s ns) = {k. \<exists>y. map_of (ix_items ?s) k = Some y \<and> om_namespace (meta y) = ns}"
    if "ix_indexed s" for ns
  proof (cases "map_of (ix_items s) ?k")
    case None
    then show ?thesis
      using wf(3) [OF that, of ns] by (auto simp: indexer_delete_def store_delete_def)
  next
    case (Some y)
    then show ?thesis
      using wf(3) [OF that, of ns] that unfolding items
      by (auto simp: indexer_delete_def store_delete_def update_index_def Let_def distinct_removeAll)
  qed
  moreover have "distinct (map fst (ix_items ?s))"
    using wf(1) by (simp add: indexer_delete_def store_delete_def distinct_delete split: option.split)
  moreover have "ix_indexed ?s = ix_indexed s"
    by (simp add: indexer_delete_def store_delete_def split: option.split)
  ultimately have "indexer_wf meta ?s"
    using wf(2) unfolding indexer_wf_def items by auto
  moreover have "(m(full_name (meta x) := None)) (ns, n) = map_of (ix_items ?s) (ns @ ''/'' @ n)" for ns n
    using s namespaced_key_eq [OF x, of ns n] by (auto simp: stores_def items)
  ultimately show ?thesis by (simp add: stores_def)
qed

lemma stores_events:
  assumes "\<forall>e \<in> set evs. namespaced (meta (event_object e))" and "stores meta m s"
  shows "stores meta (foldl (spec_event meta) m evs) (foldl (apply_event meta) s evs)"
  using assms
proof (induction evs arbitrary: m s)
  case (Cons e evs)
  then show ?case using stores_put [of meta m s] stores_drop [of meta m s] by (cases e) auto
qed simp

subsection \<open>What the listers find\<close>

lemma stores_listed:
  assumes "stores meta m s"
  shows "set (store_list s) = ran m" and "distinct (map (meta_key \<circ> meta) (store_list s))"
    and "m (full_name (meta x)) = Some x \<longleftrightarrow> x \<in> ran m"
proof -
  have wf: "distinct (map fst (ix_items s))"
    "\<And>k y. map_of (ix_items s) k = Some y \<Longrightarrow> namespaced (meta y) \<and> k = meta_key (meta y)"
    "\<And>ns n. m (ns, n) = map_of (ix_items s) (ns @ ''/'' @ n)"
    using assms by (auto simp: stores_def indexer_wf_def)
  have found: "map_of (ix_items s) k = Some y \<longleftrightarrow> m (full_name (meta y)) = Some y \<and> k = meta_key (meta y)" for k y
    using wf(2) [of k y] wf(3) by (auto simp: full_name_def namespaced_key)
      (metis meta_key_def append_Nil list.distinct(1) namespaced_def namespaced_key wf(2))
  have ran: "y \<in> ran m \<longleftrightarrow> m (full_name (meta y)) = Some y" for y
  proof
    assume "y \<in> ran m"
    then obtain ns n where "map_of (ix_items s) (ns @ ''/'' @ n) = Some y" using wf(3) by (auto simp: ran_def)
    with found show "m (full_name (meta y)) = Some y" by blast
  qed (rule ranI)
  have items: "(k, y) \<in> set (ix_items s) \<longleftrightarrow> map_of (ix_items s) k = Some y" for k y
    using wf(1) by simp
  show "set (store_list s) = ran m"
  proof (rule set_eqI)
    fix y
    have "y \<in> set (store_list s) \<longleftrightarrow> (\<exists>k. (k, y) \<in> set (ix_items s))"
      by (force simp: store_list_def)
    also have "\<dots> \<longleftrightarrow> m (full_name (meta y)) = Some y"
      unfolding items found by blast
    finally show "y \<in> set (store_list s) \<longleftrightarrow> y \<in> ran m" unfolding ran .
  qed
  have "map (meta_key \<circ> meta) (store_list s) = map fst (ix_items s)"
    using items wf(2) by (auto simp: store_list_def)
  then show "distinct (map (meta_key \<circ> meta) (store_list s))" using wf(1) by simp
  show "m (full_name (meta x)) = Some x \<longleftrightarrow> x \<in> ran m" using ran by simp
qed

lemma stores_key:
  assumes "stores meta m s" and "m p = Some x"
  shows "full_name (meta x) = p"
proof -
  obtain ns n where p: "p = (ns, n)" by (cases p)
  with assms have k: "map_of (ix_items s) (ns @ ''/'' @ n) = Some x" by (simp add: stores_def)
  then have "namespaced (meta x) \<and> meta_key (meta x) = ns @ ''/'' @ n"
    using assms(1) by (simp add: stores_def indexer_wf_def)
  then show ?thesis using namespaced_key_eq p by blast
qed

lemma stores_get:
  assumes "stores meta m s"
  shows "namespace_get res (lister_namespace s ns) n =
    (case m (ns, n) of None \<Rightarrow> Inl (not_found_error res n) | Some x \<Rightarrow> Inr x)"
  using assms by (simp add: stores_def namespace_get_def lister_namespace_def)

lemma stores_list_all:
  assumes "stores meta m s"
  shows "set (lister_list meta s sel) = {x \<in> ran m. selector_matches sel (om_labels (meta x))}"
    and "distinct (map (meta_key \<circ> meta) (lister_list meta s sel))"
  using stores_listed(1,2) [OF assms]
  by (cases sel; simp add: lister_list_def list_all_def distinct_map inj_on_def)+

lemma image_defined: "f ` {k. \<exists>x. f k = Some x \<and> P x} = Some ` {x. (\<exists>k. f k = Some x) \<and> P x}"
  by (auto simp: image_iff) metis+

lemma stores_namespace_list:
  assumes "stores meta m s" and "ns \<noteq> []"
  shows "set (namespace_list meta (lister_namespace s ns) sel) =
      Some ` {x \<in> ran m. om_namespace (meta x) = ns \<and> selector_matches sel (om_labels (meta x))}"
    and "distinct (namespace_list meta (lister_namespace s ns) sel)"
proof -
  have wf: "distinct (map fst (ix_items s))"
    "\<And>k y. map_of (ix_items s) k = Some y \<Longrightarrow> namespaced (meta y) \<and> k = meta_key (meta y)"
    "ix_indexed s \<Longrightarrow> distinct (ix_index s ns) \<and>
        set (ix_index s ns) = {k. \<exists>x. map_of (ix_items s) k = Some x \<and> om_namespace (meta x) = ns}"
    using assms(1) by (auto simp: stores_def indexer_wf_def)
  let ?here = "{x \<in> ran m. om_namespace (meta x) = ns}"
  have list: "set (store_list s) = ran m" "distinct (store_list s)"
    using stores_listed(1,2) [OF assms(1)] by (simp_all add: distinct_map)
  have found: "x \<in> ran m \<longleftrightarrow> (\<exists>k. map_of (ix_items s) k = Some x)" for x
    using list(1) wf(1) by (force simp: store_list_def)
  define xs where "xs = (case store_by_namespace s ns of
      None \<Rightarrow> map Some (filter (\<lambda>x. om_namespace (meta x) = ns) (store_list s)) | Some xs \<Rightarrow> xs)"
  have xs: "set xs = Some ` ?here \<and> distinct xs"
  proof (cases "ix_indexed s")
    case True
    have keys: "set (ix_index s ns) = {k. \<exists>x. map_of (ix_items s) k = Some x \<and> om_namespace (meta x) = ns}"
      using wf(3) [OF True] by simp
    have "inj_on (map_of (ix_items s)) (set (ix_index s ns))"
    proof (rule inj_onI)
      fix k k' assume "k \<in> set (ix_index s ns)" "k' \<in> set (ix_index s ns)"
        and same: "map_of (ix_items s) k = map_of (ix_items s) k'"
      then obtain x where "map_of (ix_items s) k = Some x" unfolding keys by blast
      then show "k = k'" using wf(2) [of k x] wf(2) [of k' x] same by simp
    qed
    moreover have "set xs = map_of (ix_items s) ` {k. \<exists>x. map_of (ix_items s) k = Some x \<and> om_namespace (meta x) = ns}"
      using wf(3) [OF True] True by (simp add: xs_def store_by_namespace_def)
    then have "set xs = Some ` ?here"
      unfolding found image_defined .
    ultimately show ?thesis
      using wf(3) [OF True] True by (simp add: xs_def store_by_namespace_def distinct_map)
  next
    case False
    then show ?thesis using list by (auto simp: xs_def store_by_namespace_def distinct_map inj_on_def)
  qed
  have "namespace_list meta (lister_namespace s ns) sel =
      filter (\<lambda>p. case p of None \<Rightarrow> False | Some x \<Rightarrow> selector_matches sel (om_labels (meta x))) xs"
  proof -
    have all: "filter (\<lambda>p. case p of None \<Rightarrow> False | Some x \<Rightarrow> True) xs = xs"
      using xs by (auto simp: filter_id_conv)
    show ?thesis
      using assms(2) all
      by (cases sel; cases "store_by_namespace s ns")
        (simp_all add: namespace_list_def list_all_by_namespace_def lister_namespace_def xs_def filter_map o_def
          conj_commute split: option.split)
  qed
  then show "set (namespace_list meta (lister_namespace s ns) sel) =
      Some ` {x \<in> ran m. om_namespace (meta x) = ns \<and> selector_matches sel (om_labels (meta x))}"
    and "distinct (namespace_list meta (lister_namespace s ns) sel)"
    using xs by auto
qed

subsection \<open>Property\<close>

text \<open>
  C38: after any sequence of events about objects of a namespace, with or without the namespace index, the
  listers answer from the map of the objects by namespace and name that the events describe: Get finds
  the object of that name or fails with not found, List has every matching object exactly once,
  in all namespaces or in one.
\<close>

theorem lister_refines:
  assumes "\<forall>e \<in> set evs. namespaced (meta (event_object e))"
    and "s = foldl (apply_event meta) (empty_indexer indexed) evs"
    and "m = foldl (spec_event meta) (\<lambda>_. None) evs"
  shows "namespace_get res (lister_namespace s ns) n =
      (case m (ns, n) of None \<Rightarrow> Inl (not_found_error res n) | Some x \<Rightarrow> Inr x) \<and>
    set (lister_list meta s sel) = {x \<in> ran m. selector_matches sel (om_labels (meta x))} \<and>
    distinct (map (full_name \<circ> meta) (lister_list meta s sel)) \<and>
    (ns \<noteq> [] \<longrightarrow>
      set (namespace_list meta (lister_namespace s ns) sel) =
        Some ` {x \<in> ran m. om_namespace (meta x) = ns \<and> selector_matches sel (om_labels (meta x))} \<and>
      distinct (namespace_list meta (lister_namespace s ns) sel))"
proof -
  have st: "stores meta m s"
    unfolding assms(2,3) by (rule stores_events [OF assms(1) stores_empty])
  have "distinct (map (full_name \<circ> meta) xs)" if "distinct (map (meta_key \<circ> meta) xs)" for xs
    using that by (auto simp: distinct_map inj_on_def full_name_def meta_key_def)
  then show ?thesis
    using stores_get [OF st] stores_list_all [OF st] stores_namespace_list [OF st, of ns sel] by simp
qed

definition sample_object :: "string \<Rightarrow> string \<Rightarrow> object_meta" where
  "sample_object ns n =
     \<lparr>om_name = n, om_generate_name = [], om_namespace = ns, om_uid = [], om_resource_version = [],
      om_generation = 1, om_deleted = False, om_finalizers = [], om_labels = [], om_owner_references = []\<rparr>"

theorem lister_refines_witness:
  "namespace_get ''r'' (lister_namespace (foldl (apply_event (\<lambda>m. m)) (empty_indexer True)
      [Put (sample_object ''a'' ''x''), Put (sample_object ''b'' ''x''), Drop (sample_object ''b'' ''x'')]) ''b'') ''x'' =
     Inl (not_found_error ''r'' ''x'')"
proof -
  have "\<forall>e \<in> set [Put (sample_object ''a'' ''x''), Put (sample_object ''b'' ''x''), Drop (sample_object ''b'' ''x'')].
      namespaced (event_object e)"
    by (simp add: sample_object_def namespaced_def)
  from lister_refines [where meta = "\<lambda>m. m", OF this refl refl, where res = "''r''" and ns = "''b''" and n = "''x''", THEN conjunct1]
  show ?thesis by (simp add: full_name_def sample_object_def del: apply_event.simps)
qed

end
