(* ===== verification/Informers.thy ===== *)
theory Informers
  imports Clientset Listers Transitions
begin

section \<open>The informer factory\<close>

text \<open>
  The shared informers of \<^verbatim>\<open>pkg/client/informers/externalversions\<close>: the factory with its options, the
  accessors by group, version and resource, and the start and stop of its informers. A factory's methods
  hold its lock, so each is one step; the informers run in goroutines of their own until their stop
  channel is closed, which is modelled as a transition system. An informer is an object with an
  identity (\<open>in_id\<close>); what it watches and how is recorded in it. A client is not modelled here: the
  informer's list and watch functions take one.
\<close>

text \<open>\<^verbatim>\<open>reflect.Type\<close>: the two resources, or another type handed to \<^verbatim>\<open>InformerFor\<close>.\<close>

datatype object_type = SourceType | BindingType | OtherType string

type_synonym tweak = "list_options \<Rightarrow> list_options"

record informer =
  in_id :: nat
  in_type :: object_type
  in_namespace :: string
  in_tweak :: "tweak option"
  in_resync :: duration
  in_indexed :: bool
  in_transform :: "string option"

record factory =
  fa_namespace :: string
  fa_tweak :: "tweak option"
  fa_default_resync :: duration
  fa_custom_resync :: "object_type \<Rightarrow> duration option"
  fa_transform :: "string option"
  fa_informers :: "(object_type \<times> informer) list"
  fa_started :: "object_type \<Rightarrow> bool"
  fa_shutting_down :: bool
  fa_next :: nat

subsection \<open>Options and construction\<close>

datatype factory_option =
    WithCustomResync "(object_type \<times> duration) list"
  | WithTweakListOptions tweak
  | WithNamespace string
  | WithTransform string

fun apply_option :: "factory \<Rightarrow> factory_option \<Rightarrow> factory" where
  "apply_option f (WithCustomResync cs) =
     f\<lparr>fa_custom_resync := foldl (\<lambda>m (t, d). m(t := Some d)) (fa_custom_resync f) cs\<rparr>"
| "apply_option f (WithTweakListOptions t) = f\<lparr>fa_tweak := Some t\<rparr>"
| "apply_option f (WithNamespace ns) = f\<lparr>fa_namespace := ns\<rparr>"
| "apply_option f (WithTransform t) = f\<lparr>fa_transform := Some t\<rparr>"

definition new_factory_with_options :: "duration \<Rightarrow> factory_option list \<Rightarrow> factory" where
  "new_factory_with_options resync opts =
     foldl apply_option
       \<lparr>fa_namespace = [], fa_tweak = None, fa_default_resync = resync, fa_custom_resync = (\<lambda>_. None),
        fa_transform = None, fa_informers = [], fa_started = (\<lambda>_. False), fa_shutting_down = False, fa_next = 0\<rparr> opts"

definition new_factory :: "duration \<Rightarrow> factory" where
  "new_factory resync = new_factory_with_options resync []"

definition new_filtered_factory :: "duration \<Rightarrow> string \<Rightarrow> tweak \<Rightarrow> factory" where
  "new_filtered_factory resync ns tweak =
     new_factory_with_options resync [WithNamespace ns, WithTweakListOptions tweak]"

subsection \<open>Informers\<close>

text \<open>
  \<^verbatim>\<open>NewFilteredGitLab*Informer\<close>, with the identity the new object gets. The list and the watch apply the
  tweak to their options first.
\<close>

definition new_filtered_informer ::
  "object_type \<Rightarrow> string \<Rightarrow> duration \<Rightarrow> bool \<Rightarrow> tweak option \<Rightarrow> nat \<Rightarrow> informer" where
  "new_filtered_informer t ns resync indexed tweak i =
     \<lparr>in_id = i, in_type = t, in_namespace = ns, in_tweak = tweak, in_resync = resync, in_indexed = indexed,
      in_transform = None\<rparr>"

definition new_informer :: "object_type \<Rightarrow> string \<Rightarrow> duration \<Rightarrow> bool \<Rightarrow> nat \<Rightarrow> informer" where
  "new_informer t ns resync indexed i = new_filtered_informer t ns resync indexed None i"

definition tweaked :: "informer \<Rightarrow> list_options \<Rightarrow> list_options" where
  "tweaked ifm opts = (case in_tweak ifm of Some t \<Rightarrow> t opts | None \<Rightarrow> opts)"

definition informer_list ::
  "string \<Rightarrow> 'l \<Rightarrow> ('a, 'l, 'w) rest_client \<Rightarrow> informer \<Rightarrow> list_options \<Rightarrow> ('l \<times> goerr option) \<times> http_call list" where
  "informer_list res zero C ifm opts = typed_list res zero (new_typed C (in_namespace ifm)) (tweaked ifm opts)"

definition informer_watch ::
  "string \<Rightarrow> ('a, 'l, 'w) rest_client \<Rightarrow> informer \<Rightarrow> list_options \<Rightarrow> (goerr + 'w) \<times> http_call list" where
  "informer_watch res C ifm opts = typed_watch res (new_typed C (in_namespace ifm)) (tweaked ifm opts)"

text \<open>\<^verbatim>\<open>InformerFor\<close>: the informer of a type, made on the first call.\<close>

definition informer_for ::
  "object_type \<Rightarrow> (duration \<Rightarrow> nat \<Rightarrow> informer) \<Rightarrow> factory \<Rightarrow> informer \<times> factory" where
  "informer_for t new f =
     (case map_of (fa_informers f) t of
        Some ifm \<Rightarrow> (ifm, f)
      | None \<Rightarrow>
          (let resync = (case fa_custom_resync f t of Some d \<Rightarrow> d | None \<Rightarrow> fa_default_resync f);
               ifm = (new resync (fa_next f))\<lparr>in_transform := fa_transform f\<rparr>
           in (ifm, f\<lparr>fa_informers := fa_informers f @ [(t, ifm)], fa_next := fa_next f + 1\<rparr>)))"

subsection \<open>Access by group, version and resource\<close>

text \<open>
  \<^verbatim>\<open>Sources()\<close>, \<^verbatim>\<open>V1alpha1()\<close>, \<^verbatim>\<open>GitLabSources()\<close> hand the namespace and the tweak of the factory down to
  the informer of the resource, whose \<^verbatim>\<open>Informer()\<close> asks the factory.
\<close>

record accessor =
  ac_namespace :: string
  ac_tweak :: "tweak option"

definition group_accessor :: "factory \<Rightarrow> accessor" where
  "group_accessor f = \<lparr>ac_namespace = fa_namespace f, ac_tweak = fa_tweak f\<rparr>"

definition version_accessor :: "accessor \<Rightarrow> accessor" where
  "version_accessor g = \<lparr>ac_namespace = ac_namespace g, ac_tweak = ac_tweak g\<rparr>"

definition resource_accessor :: "accessor \<Rightarrow> accessor" where
  "resource_accessor v = \<lparr>ac_namespace = ac_namespace v, ac_tweak = ac_tweak v\<rparr>"

definition default_informer :: "object_type \<Rightarrow> accessor \<Rightarrow> duration \<Rightarrow> nat \<Rightarrow> informer" where
  "default_informer t a resync i = new_filtered_informer t (ac_namespace a) resync True (ac_tweak a) i"

definition resource_informer :: "object_type \<Rightarrow> accessor \<Rightarrow> factory \<Rightarrow> informer \<times> factory" where
  "resource_informer t a f = informer_for t (default_informer t a) f"

definition sources_informer :: "factory \<Rightarrow> informer \<times> factory" where
  "sources_informer f = resource_informer SourceType (resource_accessor (version_accessor (group_accessor f))) f"

definition bindings_informer :: "factory \<Rightarrow> informer \<times> factory" where
  "bindings_informer f = resource_informer BindingType (resource_accessor (version_accessor (group_accessor f))) f"

text \<open>\<^verbatim>\<open>Lister()\<close>: the lister on the indexer of the shared informer; \<open>indexers\<close> maps informers to their stores.\<close>

definition sources_lister :: "(nat \<Rightarrow> gitlab_source indexer) \<Rightarrow> factory \<Rightarrow> gitlab_source indexer \<times> factory" where
  "sources_lister indexers f = (let (ifm, f) = sources_informer f in (indexers (in_id ifm), f))"

definition bindings_lister :: "(nat \<Rightarrow> gitlab_binding indexer) \<Rightarrow> factory \<Rightarrow> gitlab_binding indexer \<times> factory" where
  "bindings_lister indexers f = (let (ifm, f) = bindings_informer f in (indexers (in_id ifm), f))"

text \<open>The two packages, \<^verbatim>\<open>externalversions/sources\<close> and \<^verbatim>\<open>externalversions/bindings\<close>, method by method.\<close>

definition sources_group :: "factory \<Rightarrow> accessor" where "sources_group f = group_accessor f"
definition sources_version :: "accessor \<Rightarrow> accessor" where "sources_version g = version_accessor g"
definition sources_resource_accessor :: "accessor \<Rightarrow> accessor" where "sources_resource_accessor v = resource_accessor v"
definition new_filtered_sources_informer :: "string \<Rightarrow> duration \<Rightarrow> bool \<Rightarrow> tweak option \<Rightarrow> nat \<Rightarrow> informer" where
  "new_filtered_sources_informer = new_filtered_informer SourceType"
definition new_sources_informer :: "string \<Rightarrow> duration \<Rightarrow> bool \<Rightarrow> nat \<Rightarrow> informer" where
  "new_sources_informer = new_informer SourceType"
definition sources_default_informer :: "accessor \<Rightarrow> duration \<Rightarrow> nat \<Rightarrow> informer" where
  "sources_default_informer = default_informer SourceType"
definition sources_informer_list where "sources_informer_list = informer_list sources_resource"
definition sources_informer_watch where "sources_informer_watch = informer_watch sources_resource"

definition bindings_group :: "factory \<Rightarrow> accessor" where "bindings_group f = group_accessor f"
definition bindings_version :: "accessor \<Rightarrow> accessor" where "bindings_version g = version_accessor g"
definition bindings_resource_accessor :: "accessor \<Rightarrow> accessor" where "bindings_resource_accessor v = resource_accessor v"
definition new_filtered_bindings_informer :: "string \<Rightarrow> duration \<Rightarrow> bool \<Rightarrow> tweak option \<Rightarrow> nat \<Rightarrow> informer" where
  "new_filtered_bindings_informer = new_filtered_informer BindingType"
definition new_bindings_informer :: "string \<Rightarrow> duration \<Rightarrow> bool \<Rightarrow> nat \<Rightarrow> informer" where
  "new_bindings_informer = new_informer BindingType"
definition bindings_default_informer :: "accessor \<Rightarrow> duration \<Rightarrow> nat \<Rightarrow> informer" where
  "bindings_default_informer = default_informer BindingType"
definition bindings_informer_list where "bindings_informer_list = informer_list bindings_resource"
definition bindings_informer_watch where "bindings_informer_watch = informer_watch bindings_resource"

record generic_informer =
  gi_informer :: informer
  gi_resource :: "string \<times> string"

definition for_resource :: "string \<times> string \<times> string \<Rightarrow> factory \<Rightarrow> (goerr + generic_informer) \<times> factory" where
  "for_resource gvr f =
     (case gvr of (g, v, r) \<Rightarrow>
       if (g, v) = binding_group_version \<and> r = bindings_resource
       then (let (ifm, f) = bindings_informer f in (Inr \<lparr>gi_informer = ifm, gi_resource = (g, r)\<rparr>, f))
       else if (g, v) = source_group_version \<and> r = sources_resource
       then (let (ifm, f) = sources_informer f in (Inr \<lparr>gi_informer = ifm, gi_resource = (g, r)\<rparr>, f))
       else (Inl (ErrText (''no informer found for '' @ g @ ''/'' @ v @ '', Resource='' @ r)), f))"

subsection \<open>Start, stop and the goroutines\<close>

text \<open>\<^verbatim>\<open>Start\<close>: the informers not yet started, which the step below runs, and the factory afterwards.\<close>

definition start_informers :: "factory \<Rightarrow> informer list \<times> factory" where
  "start_informers f =
     (if fa_shutting_down f then ([], f)
      else let new = filter (\<lambda>(t, _). \<not> fa_started f t) (fa_informers f)
           in (map snd new, f\<lparr>fa_started := (\<lambda>t. fa_started f t \<or> t \<in> fst ` set new)\<rparr>))"

definition shutdown :: "factory \<Rightarrow> factory" where
  "shutdown f = f\<lparr>fa_shutting_down := True\<rparr>"

text \<open>\<^verbatim>\<open>WaitForCacheSync\<close>: for each started informer, what waiting for its cache gives.\<close>

definition wait_for_cache_sync :: "factory \<Rightarrow> (informer \<Rightarrow> bool) \<Rightarrow> (object_type \<times> bool) list" where
  "wait_for_cache_sync f synced =
     map (\<lambda>(t, ifm). (t, synced ifm)) (filter (\<lambda>(t, _). fa_started f t) (fa_informers f))"

text \<open>
  The system: the factory, the goroutines (an informer and its stop channel), the channels closed so far,
  the calls of \<^verbatim>\<open>Shutdown\<close> that wait and whether one has returned. \<open>is_runs\<close> records every run of an
  informer, for the statements.
\<close>

record informer_system =
  is_factory :: factory
  is_running :: "(informer \<times> nat) list"
  is_closed :: "nat set"
  is_waiting :: nat
  is_returned :: bool
  is_runs :: "informer list"

datatype factory_event =
    GetInformer object_type "duration \<Rightarrow> nat \<Rightarrow> informer"
  | Start nat
  | CloseStop nat
  | RunEnds informer nat
  | CallShutdown
  | ShutdownReturns

inductive informer_step :: "informer_system \<Rightarrow> factory_event \<Rightarrow> informer_system \<Rightarrow> bool" where
  get: "informer_step s (GetInformer t new) (s\<lparr>is_factory := snd (informer_for t new (is_factory s))\<rparr>)"
| start: "start_informers (is_factory s) = (new, f') \<Longrightarrow>
    informer_step s (Start ch)
      (s\<lparr>is_factory := f', is_running := is_running s @ map (\<lambda>ifm. (ifm, ch)) new, is_runs := is_runs s @ new\<rparr>)"
| close: "informer_step s (CloseStop ch) (s\<lparr>is_closed := insert ch (is_closed s)\<rparr>)"
| ends: "(ifm, ch) \<in> set (is_running s) \<Longrightarrow> ch \<in> is_closed s \<Longrightarrow>
    informer_step s (RunEnds ifm ch) (s\<lparr>is_running := remove1 (ifm, ch) (is_running s)\<rparr>)"
| call: "informer_step s CallShutdown (s\<lparr>is_factory := shutdown (is_factory s), is_waiting := is_waiting s + 1\<rparr>)"
| returns: "is_waiting s > 0 \<Longrightarrow> is_running s = [] \<Longrightarrow>
    informer_step s ShutdownReturns (s\<lparr>is_waiting := is_waiting s - 1, is_returned := True\<rparr>)"

inductive_cases informer_stepE [elim!]: "informer_step s e s'"

definition informers_init :: "factory \<Rightarrow> informer_system" where
  "informers_init f =
     \<lparr>is_factory = f, is_running = [], is_closed = {}, is_waiting = 0, is_returned = False, is_runs = []\<rparr>"

text \<open>A constructor handed to \<^verbatim>\<open>InformerFor\<close> makes an informer of its type, with the identity it is given.\<close>

definition proper :: "factory_event \<Rightarrow> bool" where
  "proper e = (case e of GetInformer t new \<Rightarrow> \<forall>d i. in_type (new d i) = t \<and> in_id (new d i) = i | _ \<Rightarrow> True)"

definition proper_step :: "informer_system \<Rightarrow> factory_event \<Rightarrow> informer_system \<Rightarrow> bool" where
  "proper_step s e s' \<longleftrightarrow> proper e \<and> informer_step s e s'"

definition factory_wf :: "factory \<Rightarrow> bool" where
  "factory_wf f \<longleftrightarrow>
     distinct (map fst (fa_informers f)) \<and> distinct (map (in_id \<circ> snd) (fa_informers f)) \<and>
     (\<forall>(t, ifm) \<in> set (fa_informers f). in_type ifm = t \<and> in_id ifm < fa_next f) \<and>
     (\<forall>t. fa_started f t \<longrightarrow> t \<in> fst ` set (fa_informers f))"

definition started_set :: "factory \<Rightarrow> informer set" where
  "started_set f = {ifm. \<exists>t. map_of (fa_informers f) t = Some ifm \<and> fa_started f t}"

definition informers_inv :: "informer_system \<Rightarrow> bool" where
  "informers_inv s \<longleftrightarrow>
     factory_wf (is_factory s) \<and> distinct (is_runs s) \<and>
     set (is_runs s) = started_set (is_factory s) \<and>
     set (map fst (is_running s)) \<subseteq> set (is_runs s) \<and>
     (is_waiting s > 0 \<or> is_returned s \<longrightarrow> fa_shutting_down (is_factory s)) \<and>
     (is_returned s \<longrightarrow> is_running s = [])"

subsection \<open>Invariants\<close>

lemma started_informers:
  assumes "factory_wf f" and "start_informers f = (new, f')"
  shows "set new = {ifm. \<exists>t. map_of (fa_informers f) t = Some ifm \<and> \<not> fa_started f t \<and> fa_started f' t}"
    and "distinct new" and "factory_wf f'" and "fa_informers f' = fa_informers f"
    and "\<And>t. fa_started f t \<Longrightarrow> fa_started f' t"
    and "fa_shutting_down f' = fa_shutting_down f" and "fa_shutting_down f \<Longrightarrow> new = []"
proof -
  have d: "distinct (map fst (fa_informers f))" "distinct (map (in_id \<circ> snd) (fa_informers f))"
    using assms(1) by (simp_all add: factory_wf_def)
  have "inj_on snd (set (fa_informers f))"
    using d(2) by (auto simp: distinct_map inj_on_def)
  then show "distinct new"
    using assms(2) d by (auto simp: start_informers_def Let_def distinct_map inj_on_def split: if_splits)
  show "set new = {ifm. \<exists>t. map_of (fa_informers f) t = Some ifm \<and> \<not> fa_started f t \<and> fa_started f' t}"
    using assms(2) d(1) by (force simp: start_informers_def Let_def split: if_splits)
  show "factory_wf f'"
    using assms by (auto simp: start_informers_def Let_def factory_wf_def split: if_splits)
qed (use assms(2) in \<open>auto simp: start_informers_def Let_def split: if_splits\<close>)

lemma informer_for_found:
  "map_of (fa_informers f) t = Some ifm \<Longrightarrow> informer_for t new f = (ifm, f)"
  by (simp add: informer_for_def)

lemma informer_for_new:
  assumes "map_of (fa_informers f) t = None" and "informer_for t new f = (ifm, f')"
    and "\<forall>d i. in_type (new d i) = t \<and> in_id (new d i) = i"
  shows "in_type ifm = t" and "in_id ifm = fa_next f" and "fa_informers f' = fa_informers f @ [(t, ifm)]"
    and "fa_next f' = fa_next f + 1" and "fa_started f' = fa_started f" and "fa_shutting_down f' = fa_shutting_down f"
  using assms by (auto simp: informer_for_def Let_def)

lemma informer_for_wf:
  assumes wf: "factory_wf f" and new: "informer_for t new f = (ifm, f')" "\<forall>d i. in_type (new d i) = t \<and> in_id (new d i) = i"
  shows "factory_wf f'" and "fa_started f' = fa_started f" and "fa_shutting_down f' = fa_shutting_down f"
    and "map_of (fa_informers f') t = Some ifm"
    and "\<And>u i. map_of (fa_informers f) u = Some i \<Longrightarrow> map_of (fa_informers f') u = Some i"
    and "\<And>u i. fa_started f u \<Longrightarrow> map_of (fa_informers f') u = Some i \<longleftrightarrow> map_of (fa_informers f) u = Some i"
proof -
  have all: "factory_wf f' \<and> fa_started f' = fa_started f \<and> fa_shutting_down f' = fa_shutting_down f \<and>
      map_of (fa_informers f') t = Some ifm \<and>
      (\<forall>u. map_of (fa_informers f) u \<noteq> None \<longrightarrow> map_of (fa_informers f') u = map_of (fa_informers f) u)"
  proof (cases "map_of (fa_informers f) t")
    case None
    note n = informer_for_new [OF None new]
    have "t \<notin> fst ` set (fa_informers f)" using None by (simp add: map_of_eq_None_iff)
    moreover have "fa_next f \<notin> (in_id \<circ> snd) ` set (fa_informers f)"
      using wf by (force simp: factory_wf_def)
    ultimately have "factory_wf f'"
      using wf n by (auto simp: factory_wf_def)
    then show ?thesis using n None by (simp add: map_add_def split: option.split)
  qed (use wf new in \<open>simp add: informer_for_def\<close>)
  then show "factory_wf f'" "fa_started f' = fa_started f" "fa_shutting_down f' = fa_shutting_down f"
    "map_of (fa_informers f') t = Some ifm"
    "\<And>u i. map_of (fa_informers f) u = Some i \<Longrightarrow> map_of (fa_informers f') u = Some i" by simp_all
  show "map_of (fa_informers f') u = Some i \<longleftrightarrow> map_of (fa_informers f) u = Some i" if "fa_started f u" for u i
  proof -
    have "u \<in> fst ` set (fa_informers f)" using wf that by (simp add: factory_wf_def)
    then have "map_of (fa_informers f) u \<noteq> None" by (simp add: map_of_eq_None_iff)
    with all show ?thesis by simp
  qed
qed

lemma informers_step_inv:
  assumes inv: "informers_inv s" and step: "proper_step s e s'"
  shows "informers_inv s'"
proof -
  have step: "informer_step s e s'" and e: "proper e" using step by (simp_all add: proper_step_def)
  from step show ?thesis
  proof cases
    case (get t new)
    obtain ifm f' where r: "informer_for t new (is_factory s) = (ifm, f')" by (metis surj_pair)
    have "factory_wf (is_factory s)" and "\<forall>d i. in_type (new d i) = t \<and> in_id (new d i) = i"
      using inv e get(1) by (simp_all add: informers_inv_def proper_def)
    note w = informer_for_wf [OF this(1) r this(2)]
    have "started_set f' = started_set (is_factory s)" using w(2,6) by (auto simp: started_set_def)
    then show ?thesis using inv w(1,3) by (auto simp: get r informers_inv_def)
  next
    case (start new f' ch)
    have wf: "factory_wf (is_factory s)" using inv by (simp add: informers_inv_def)
    note w = started_informers [OF wf start(3)]
    have "\<forall>(t, ifm) \<in> set (fa_informers (is_factory s)). in_type ifm = t"
      using wf by (auto simp: factory_wf_def)
    then have "in_type i = t" if "map_of (fa_informers (is_factory s)) t = Some i" for t i
      using map_of_SomeD [OF that] by auto
    then have one: "t = u" if "map_of (fa_informers (is_factory s)) t = Some i" "map_of (fa_informers (is_factory s)) u = Some i" for t u i
      using that by metis
    have "started_set f' = started_set (is_factory s) \<union> set new"
      using w(1,4,5) by (auto simp: started_set_def)
    moreover have "started_set (is_factory s) \<inter> set new = {}"
    proof -
      have False if "i \<in> started_set (is_factory s)" "i \<in> set new" for i
        using that one unfolding started_set_def w(1) by blast
      then show ?thesis by blast
    qed
    ultimately show ?thesis
      using inv w(2,3,6,7) by (auto simp: start informers_inv_def o_def)
  next
    case (ends ifm ch)
    then show ?thesis
      using inv set_remove1_subset [of "(ifm, ch)" "is_running s"] by (auto simp: informers_inv_def)
  qed (use inv in \<open>auto simp: informers_inv_def shutdown_def factory_wf_def started_set_def\<close>)
qed

lemma new_factory_wf: "factory_wf (new_factory_with_options resync opts)"
proof -
  have "factory_wf f \<Longrightarrow> factory_wf (foldl apply_option f opts)" for f
  proof (induction opts arbitrary: f)
    case (Cons opt opts)
    then show ?case by (cases opt) (simp_all add: factory_wf_def)
  qed simp
  then show ?thesis by (simp add: new_factory_with_options_def factory_wf_def)
qed

lemma informers_init_inv: "informers_inv (informers_init (new_factory_with_options resync opts))"
proof -
  have "fa_started (foldl apply_option f opts) = fa_started f" for f
  proof (induction opts arbitrary: f)
    case (Cons opt opts)
    then show ?case by (cases opt) simp_all
  qed simp
  then show ?thesis
    using new_factory_wf [of resync opts]
    by (simp add: informers_inv_def informers_init_def started_set_def new_factory_with_options_def)
qed

interpretation factory: invariant_system proper_step informers_inv "informers_init (new_factory_with_options resync opts)"
  for resync opts
  by unfold_locales (auto intro: informers_step_inv informers_init_inv)

text \<open>An informer of the factory stays the informer of its type, and one that was started stays so.\<close>

definition has_informer :: "object_type \<Rightarrow> informer \<Rightarrow> informer_system \<Rightarrow> bool" where
  "has_informer t i s \<longleftrightarrow> informers_inv s \<and> map_of (fa_informers (is_factory s)) t = Some i"

lemma has_informer_step:
  assumes "has_informer t i s" and step: "proper_step s e s'"
  shows "has_informer t i s'"
proof -
  have inv: "informers_inv s" and t: "map_of (fa_informers (is_factory s)) t = Some i"
    using assms(1) by (simp_all add: has_informer_def)
  have "informer_step s e s'" and e: "proper e" using step by (simp_all add: proper_step_def)
  then have "map_of (fa_informers (is_factory s')) t = Some i"
  proof cases
    case (get u new)
    then have new: "\<forall>d j. in_type (new d j) = u \<and> in_id (new d j) = j" using e by (simp add: proper_def)
    obtain j f' where r: "informer_for u new (is_factory s) = (j, f')" by (metis surj_pair)
    have "factory_wf (is_factory s)" using inv by (simp add: informers_inv_def)
    from informer_for_wf(5) [OF this r new t] show ?thesis by (simp add: get r)
  next
    case (start new f' ch)
    have "factory_wf (is_factory s)" using inv by (simp add: informers_inv_def)
    from started_informers(4) [OF this start(3)] t show ?thesis by (simp add: start)
  qed (use t in \<open>simp_all add: shutdown_def\<close>)
  then show ?thesis using informers_step_inv [OF inv step] by (simp add: has_informer_def)
qed

interpretation keeps_informer: step_closed proper_step "has_informer t i" for t i
  by unfold_locales (rule has_informer_step)

text \<open>
  A waiting \<^verbatim>\<open>Shutdown\<close> returns once the stop channels are closed and the informers have ended: each
  of these steps brings it closer.
\<close>

definition stopping_step :: "informer_system \<Rightarrow> factory_event \<Rightarrow> informer_system \<Rightarrow> bool" where
  "stopping_step s e s' \<longleftrightarrow> informer_step s e s' \<and>
     (case e of CloseStop _ \<Rightarrow> True | RunEnds _ _ \<Rightarrow> True | ShutdownReturns \<Rightarrow> True | _ \<Rightarrow> False)"

definition shutdown_pending :: "informer_system \<Rightarrow> bool" where
  "shutdown_pending s \<longleftrightarrow> is_returned s \<or> is_waiting s > 0"

definition runs_left :: "informer_system \<Rightarrow> nat" where
  "runs_left s = (\<Sum>(i, ch) \<leftarrow> is_running s. if ch \<in> is_closed s then 1 else 2) + (if is_returned s then 0 else 1)"

lemma shutdown_progress:
  assumes "shutdown_pending s" and "\<not> is_returned s"
  shows "\<exists>e s'. stopping_step s e s' \<and> runs_left s' < runs_left s"
proof (cases "is_running s")
  case Nil
  let ?s = "s\<lparr>is_waiting := is_waiting s - 1, is_returned := True\<rparr>"
  have "informer_step s ShutdownReturns ?s"
    using assms Nil by (intro returns) (simp_all add: shutdown_pending_def)
  then have "stopping_step s ShutdownReturns ?s \<and> runs_left ?s < runs_left s"
    using assms(2) Nil by (simp add: stopping_step_def runs_left_def)
  then show ?thesis by blast
next
  case (Cons r rs)
  obtain i ch where r: "r = (i, ch)" by (cases r)
  show ?thesis
  proof (cases "ch \<in> is_closed s")
    case True
    have "informer_step s (RunEnds i ch) (s\<lparr>is_running := remove1 (i, ch) (is_running s)\<rparr>)"
      using True Cons r by (intro ends) simp_all
    then have "stopping_step s (RunEnds i ch) (s\<lparr>is_running := remove1 (i, ch) (is_running s)\<rparr>)"
      by (simp add: stopping_step_def)
    moreover have "runs_left (s\<lparr>is_running := remove1 (i, ch) (is_running s)\<rparr>) < runs_left s"
      using True Cons r by (simp add: runs_left_def)
    ultimately show ?thesis by blast
  next
    case False
    let ?s = "s\<lparr>is_closed := insert ch (is_closed s)\<rparr>"
    have "(\<Sum>(i, c) \<leftarrow> rs. if c \<in> insert ch (is_closed s) then 1 else (2::nat)) \<le>
        (\<Sum>(i, c) \<leftarrow> rs. if c \<in> is_closed s then 1 else 2)"
      by (induction rs) auto
    then have "runs_left ?s < runs_left s"
      using False Cons r by (simp add: runs_left_def)
    moreover have "stopping_step s (CloseStop ch) ?s"
      using close [of s ch] by (simp add: stopping_step_def)
    ultimately show ?thesis by blast
  qed
qed

interpretation shutting: progress_system stopping_step shutdown_pending is_returned runs_left
proof
  show "shutdown_pending s'" if "shutdown_pending s" "stopping_step s e s'" for s e s'
    using that by (auto simp: stopping_step_def shutdown_pending_def)
qed (rule shutdown_progress)

subsection \<open>Properties\<close>

text \<open>
  C39: in every state of a factory, however its calls interleave with its goroutines, there is one informer
  per type, for good; each started informer is run exactly once, however often Start is called; and
  when Shutdown has returned nothing runs, nor will.
\<close>

theorem informers_run_once:
  assumes "reachable proper_step (informers_init (new_factory_with_options resync opts)) s"
  shows "distinct (map fst (fa_informers (is_factory s))) \<and>
    (\<forall>t i s'. map_of (fa_informers (is_factory s)) t = Some i \<and> reachable proper_step s s' \<longrightarrow>
       map_of (fa_informers (is_factory s')) t = Some i) \<and>
    distinct (is_runs s) \<and> set (is_runs s) = started_set (is_factory s) \<and>
    (is_returned s \<longrightarrow> (\<forall>s'. reachable proper_step s s' \<longrightarrow> is_running s' = []))"
proof -
  have inv: "informers_inv s" by (rule factory.reachable_inv [OF assms])
  have "is_running s' = []" if "is_returned s" "reachable proper_step s s'" for s'
  proof -
    have "informers_inv s'" by (rule factory.stays_inv [OF that(2) inv])
    moreover have "is_returned s'"
      using that(2,1) by (induction rule: reachable.induct) (auto simp: proper_step_def)
    ultimately show ?thesis by (simp add: informers_inv_def)
  qed
  moreover have "map_of (fa_informers (is_factory s')) t = Some i"
    if "map_of (fa_informers (is_factory s)) t = Some i" "reachable proper_step s s'" for t i s'
    using keeps_informer.stays_inv [OF that(2), of t i] that(1) inv by (simp add: has_informer_def)
  ultimately show ?thesis using inv by (auto simp: informers_inv_def factory_wf_def)
qed

text \<open>A factory that runs the informer of sources and is being shut down.\<close>

lemma sample_run:
  "\<exists>s. reachable proper_step (informers_init (new_factory_with_options 0 [])) s \<and>
     length (is_running s) = 1 \<and> is_waiting s > 0"
proof -
  let ?s0 = "informers_init (new_factory_with_options 0 [])"
  let ?new = "default_informer SourceType (group_accessor (is_factory ?s0))"
  let ?s1 = "?s0\<lparr>is_factory := snd (informer_for SourceType ?new (is_factory ?s0))\<rparr>"
  let ?st = "start_informers (is_factory ?s1)"
  let ?s2 = "?s1\<lparr>is_factory := snd ?st, is_running := is_running ?s1 @ map (\<lambda>i. (i, 0)) (fst ?st),
      is_runs := is_runs ?s1 @ fst ?st\<rparr>"
  let ?s3 = "?s2\<lparr>is_factory := shutdown (is_factory ?s2), is_waiting := is_waiting ?s2 + 1\<rparr>"
  have "proper_step ?s0 (GetInformer SourceType ?new) ?s1"
    unfolding proper_step_def by (intro conjI get)
      (simp add: proper_def default_informer_def new_filtered_informer_def)
  moreover have "proper_step ?s1 (Start 0) ?s2"
    unfolding proper_step_def by (intro conjI start) (simp_all add: proper_def)
  moreover have "proper_step ?s2 CallShutdown ?s3"
    unfolding proper_step_def by (intro conjI call) (simp add: proper_def)
  ultimately have "reachable proper_step ?s0 ?s3"
    by (blast intro: reachable.intros)
  moreover have "length (is_running ?s3) = 1 \<and> is_waiting ?s3 > 0"
    by (simp add: informers_init_def new_factory_with_options_def informer_for_def start_informers_def Let_def)
  ultimately show ?thesis by blast
qed

theorem informers_run_once_witness:
  "\<exists>s. reachable proper_step (informers_init (new_factory_with_options 0 [])) s \<and>
     length (is_running s) = 1 \<and> distinct (is_runs s)"
proof -
  obtain s where s: "reachable proper_step (informers_init (new_factory_with_options 0 [])) s" "length (is_running s) = 1"
    using sample_run by blast
  with informers_run_once [OF s(1)] show ?thesis by blast
qed

text \<open>
  A Shutdown that waits can always return: closing the stop channels and the end of the informers that run
  are enough, as nothing is started any more.
\<close>

theorem shutdown_returns:
  assumes "reachable proper_step (informers_init (new_factory_with_options resync opts)) s" and "is_waiting s > 0"
  shows "\<exists>s'. reachable stopping_step s s' \<and> is_returned s' \<and> is_running s' = []"
proof -
  have inv: "informers_inv s" by (rule factory.reachable_inv [OF assms(1)])
  obtain s' where s': "reachable stopping_step s s'" "is_returned s'"
    using shutting.goal_reached [of s] assms(2) by (auto simp: shutdown_pending_def)
  have "proper_step a e b" if "stopping_step a e b" for a e b
    using that by (cases e) (simp_all add: stopping_step_def proper_step_def proper_def)
  from reachable_mono [OF this s'(1)] have "reachable proper_step s s'" .
  then have "informers_inv s'" by (rule factory.stays_inv [OF _ inv])
  then show ?thesis using s' by (auto simp: informers_inv_def)
qed

theorem shutdown_returns_witness:
  "\<exists>s s'. length (is_running s) = 1 \<and> reachable stopping_step s s' \<and> is_returned s'"
proof -
  obtain s where s: "reachable proper_step (informers_init (new_factory_with_options 0 [])) s" "length (is_running s) = 1"
      "is_waiting s > 0" using sample_run by blast
  with shutdown_returns [OF s(1,3)] show ?thesis by blast
qed

text \<open>
  The accessors by group and the generic one by resource name give the one shared informer of the
  factory, and it watches with the factory's options: its namespace, its tweak of the list options, the
  resync period of the type. Unknown resources are refused.
\<close>

theorem shared_informer:
  assumes wf: "factory_wf f" and first: "sources_informer f = (i, f')"
    and new: "map_of (fa_informers f) SourceType = None"
  shows "sources_informer f' = (i, f') \<and>
    for_resource (fst source_group_version, snd source_group_version, sources_resource) f' =
      (Inr \<lparr>gi_informer = i, gi_resource = (fst source_group_version, sources_resource)\<rparr>, f') \<and>
    in_namespace i = fa_namespace f \<and> in_tweak i = fa_tweak f \<and> in_transform i = fa_transform f \<and>
    in_resync i = (case fa_custom_resync f SourceType of Some d \<Rightarrow> d | None \<Rightarrow> fa_default_resync f) \<and>
    (\<forall>C opts. informer_watch sources_resource C i opts =
       typed_watch sources_resource (new_typed C (fa_namespace f)) (case fa_tweak f of Some t \<Rightarrow> t opts | None \<Rightarrow> opts)) \<and>
    (\<forall>g v r. (r \<noteq> sources_resource \<and> r \<noteq> bindings_resource) \<longrightarrow> (\<exists>e. for_resource (g, v, r) f' = (Inl e, f')))"
proof -
  have fields: "in_namespace i = fa_namespace f" "in_tweak i = fa_tweak f" "in_transform i = fa_transform f"
    "in_resync i = (case fa_custom_resync f SourceType of Some d \<Rightarrow> d | None \<Rightarrow> fa_default_resync f)"
    using first new
    by (auto simp: sources_informer_def resource_informer_def informer_for_def default_informer_def
        new_filtered_informer_def group_accessor_def version_accessor_def resource_accessor_def Let_def split: option.split)
  let ?acc = "\<lambda>f. resource_accessor (version_accessor (group_accessor f))"
  have proper: "\<forall>d j. in_type (default_informer SourceType (?acc f) d j) = SourceType \<and>
      in_id (default_informer SourceType (?acc f) d j) = j"
    by (simp add: default_informer_def new_filtered_informer_def)
  have found: "map_of (fa_informers f') SourceType = Some i"
    using informer_for_wf(4) [OF wf _ proper] first by (simp add: sources_informer_def resource_informer_def)
  then have again: "sources_informer f' = (i, f')"
    by (simp add: sources_informer_def resource_informer_def informer_for_found)
  moreover have "(fst source_group_version, snd source_group_version) \<noteq> binding_group_version"
    by (simp add: source_group_version_def binding_group_version_def)
  ultimately show ?thesis
    using fields by (auto simp: for_resource_def informer_watch_def tweaked_def)
qed

theorem shared_informer_witness:
  "in_namespace (fst (sources_informer (new_factory_with_options 0 [WithNamespace ''ns'']))) = ''ns''"
proof -
  let ?f = "new_factory_with_options 0 [WithNamespace ''ns'']"
  have "map_of (fa_informers ?f) SourceType = None" "fa_namespace ?f = ''ns''"
    by (simp_all add: new_factory_with_options_def)
  moreover have "sources_informer ?f = (fst (sources_informer ?f), snd (sources_informer ?f))" by simp
  ultimately show ?thesis
    using shared_informer [OF new_factory_wf, of 0 "[WithNamespace ''ns'']"] by metis
qed

end
