(* ===== verification/Leadership.thy ===== *)
theory Leadership
  imports WorkQueue Listers
begin

section \<open>Leadership and the generated controller\<close>

text \<open>
  A replica leads the buckets of keys it was promoted for
  (\<^verbatim>\<open>LeaderAwareFuncs\<close> of \<^verbatim>\<open>knative.dev/pkg/reconciler/leader.go\<close>). \<^verbatim>\<open>NewImpl\<close> and \<^verbatim>\<open>NewReconciler\<close> of the
  generated controller (\<^verbatim>\<open>injection/reconciler/sources/v1alpha1/gitlabsource/controller.go\<close>,
  \<^verbatim>\<open>reconciler.go\<close>) make a promotion enqueue the listed sources of the bucket. The hash that
  assigns a key to a bucket (\<^verbatim>\<open>BucketSet.Owner\<close>) is the parameter \<open>owner\<close>.
\<close>

datatype bucket = UniversalBucket | HashBucket string

fun bucket_name :: "bucket \<Rightarrow> string" where
  "bucket_name UniversalBucket = []"
| "bucket_name (HashBucket b) = b"

fun bucket_has :: "(queue_key \<Rightarrow> string) \<Rightarrow> bucket \<Rightarrow> queue_key \<Rightarrow> bool" where
  "bucket_has owner UniversalBucket k = True"
| "bucket_has owner (HashBucket b) k = (owner k = b)"

type_synonym leadership = "(string \<times> bucket) list"

definition is_leader_for :: "(queue_key \<Rightarrow> string) \<Rightarrow> leadership \<Rightarrow> queue_key \<Rightarrow> bool" where
  "is_leader_for owner l k = list_ex (\<lambda>(_, b). bucket_has owner b k) l"

definition promote :: "bucket \<Rightarrow> leadership \<Rightarrow> leadership" where
  "promote b l = AList.update (bucket_name b) b l"

definition demote :: "bucket \<Rightarrow> leadership \<Rightarrow> leadership" where
  "demote b l = AList.delete (bucket_name b) l"

text \<open>\<^verbatim>\<open>MaybeEnqueueBucketKey\<close>.\<close>

definition maybe_enqueue :: "(queue_key \<Rightarrow> string) \<Rightarrow> bucket \<Rightarrow> queue_key \<Rightarrow> queue_key list" where
  "maybe_enqueue owner b k = (if bucket_has owner b k then [k] else [])"

subsection \<open>The promote functions\<close>

definition key_of :: "object_meta \<Rightarrow> queue_key" where
  "key_of m = (om_namespace m, om_name m)"

text \<open>
  The keys a promotion enqueues: of \<^verbatim>\<open>NewReconciler\<close>, all the listed sources; of \<^verbatim>\<open>NewImpl\<close>, those that
  the filter of the options accepts.
\<close>

definition reconciler_promote_func ::
  "(queue_key \<Rightarrow> string) \<Rightarrow> gitlab_source indexer \<Rightarrow> bucket \<Rightarrow> queue_key list" where
  "reconciler_promote_func owner s b =
     concat (map (\<lambda>x. maybe_enqueue owner b (key_of (src_meta x))) (source_lister_list s Everything))"

definition promote_func ::
  "(queue_key \<Rightarrow> string) \<Rightarrow> (gitlab_source \<Rightarrow> bool) option \<Rightarrow> gitlab_source indexer \<Rightarrow> bucket \<Rightarrow> queue_key list" where
  "promote_func owner flt s b =
     concat (map (\<lambda>x.
         if (case flt of Some f \<Rightarrow> f x | None \<Rightarrow> True)
         then maybe_enqueue owner b (key_of (src_meta x)) else [])
       (source_lister_list s Everything))"

subsection \<open>NewImpl\<close>

text \<open>
  The options of a controller beyond those of \<open>controller_options\<close>. A configuration store, a demote function
  and a promote function are opaque values of type \<open>'f\<close>.
\<close>

record 'f impl_options = controller_options +
  io_config_store :: "'f option"
  io_agent_name :: string
  io_demote :: "'f option"
  io_promote_filter :: "(gitlab_source \<Rightarrow> bool) option"
  io_promote :: "'f option"

record 'f controller_impl =
  ci_reconciler :: reconciler_impl
  ci_config_store :: "'f option"
  ci_demote :: "'f option"
  ci_promote_filter :: "(gitlab_source \<Rightarrow> bool) option"
  ci_promote :: "'f option"
  ci_queue_name :: string
  ci_agent_name :: string

definition default_agent_name :: string where
  "default_agent_name = ''gitlabsource-controller''"

definition or_else :: "'f option \<Rightarrow> 'f option \<Rightarrow> 'f option" where
  "or_else new old = (case new of Some x \<Rightarrow> Some x | None \<Rightarrow> old)"

definition apply_impl_options :: "'f impl_options \<Rightarrow> 'f controller_impl \<Rightarrow> 'f controller_impl result" where
  "apply_impl_options opts c =
     (case apply_controller_options (controller_options.truncate opts) (ci_reconciler c) of
        Ok rec \<Rightarrow> Ok (c\<lparr>ci_reconciler := rec,
          ci_config_store := or_else (io_config_store opts) (ci_config_store c),
          ci_agent_name := (if io_agent_name opts \<noteq> [] then io_agent_name opts else ci_agent_name c),
          ci_demote := or_else (io_demote opts) (ci_demote c),
          ci_promote_filter := or_else (io_promote_filter opts) (ci_promote_filter c),
          ci_promote := or_else (io_promote opts) (ci_promote c)\<rparr>)
      | Err e \<Rightarrow> Err e
      | Panic m \<Rightarrow> Panic m)"

text \<open>
  \<open>pkg_path\<close> and \<open>type_name\<close> are those of the reconciler's type. A fatal log entry, which ends the
  process, is a \<open>Panic\<close>.
\<close>

definition controller_type_name :: "string \<Rightarrow> string \<Rightarrow> string" where
  "controller_type_name pkg_path type_name =
     replace_all_char CHR ''/'' CHR ''.'' (pkg_path @ ''.'' @ type_name)"

definition new_impl ::
  "(string \<Rightarrow> string \<Rightarrow> bool) \<Rightarrow> string \<Rightarrow> string \<Rightarrow> 'f impl_options list \<Rightarrow> 'f controller_impl result" where
  "new_impl leader pkg_path type_name options =
     (let c = \<lparr>ci_reconciler = default_impl leader, ci_config_store = None, ci_demote = None,
               ci_promote_filter = None, ci_promote = None,
               ci_queue_name = controller_type_name pkg_path type_name, ci_agent_name = default_agent_name\<rparr>
      in case options of
           [] \<Rightarrow> Ok c
         | [opts] \<Rightarrow> apply_impl_options opts c
         | _ \<Rightarrow> Panic ''Up to one options function is supported'')"

text \<open>The controller of the sources, which passes no options.\<close>

definition source_controller :: "(string \<Rightarrow> string \<Rightarrow> bool) \<Rightarrow> unit controller_impl result" where
  "source_controller leader = new_impl leader ''knative.dev/eventing-gitlab/pkg/reconciler/source'' ''Reconciler'' []"

lemma source_controller_ok:
  "\<exists>c. source_controller leader = Ok c \<and> ci_reconciler c = default_impl leader \<and> ci_promote_filter c = None \<and>
     ci_queue_name c = ''knative.dev.eventing-gitlab.pkg.reconciler.source.Reconciler''"
  by (simp add: source_controller_def new_impl_def controller_type_name_def) code_simp

subsection \<open>Facts\<close>

datatype leader_event = Promoted bucket | Demoted bucket

fun apply_leader_event :: "leadership \<Rightarrow> leader_event \<Rightarrow> leadership" where
  "apply_leader_event l (Promoted b) = promote b l"
| "apply_leader_event l (Demoted b) = demote b l"

fun event_bucket :: "leader_event \<Rightarrow> bucket" where
  "event_bucket (Promoted b) = b"
| "event_bucket (Demoted b) = b"

fun is_promotion :: "leader_event \<Rightarrow> bool" where
  "is_promotion (Promoted _) = True"
| "is_promotion (Demoted _) = False"

text \<open>The last event about a bucket is its promotion.\<close>

definition holds_bucket :: "leader_event list \<Rightarrow> string \<Rightarrow> bool" where
  "holds_bucket evs b =
     (let es = filter (\<lambda>e. event_bucket e = HashBucket b) evs in es \<noteq> [] \<and> is_promotion (last es))"

lemma leadership_buckets:
  assumes "\<forall>e \<in> set evs. event_bucket e \<noteq> UniversalBucket"
  shows "map_of (foldl apply_leader_event [] evs) b = (if holds_bucket evs b then Some (HashBucket b) else None) \<and>
    distinct (map fst (foldl apply_leader_event [] evs))"
  using assms
proof (induction evs rule: rev_induct)
  case Nil
  then show ?case by (simp add: holds_bucket_def)
next
  case (snoc e evs)
  obtain c where c: "event_bucket e = HashBucket c" using snoc.prems by (cases "event_bucket e") auto
  have "holds_bucket (evs @ [e]) b \<longleftrightarrow> (if b = c then is_promotion e else holds_bucket evs b)"
    using c by (simp add: holds_bucket_def Let_def)
  then show ?case
    using snoc c
    by (cases e) (auto simp: promote_def demote_def update_conv' delete_conv' distinct_update distinct_delete)
qed

lemma leader_iff:
  assumes "\<forall>e \<in> set evs. event_bucket e \<noteq> UniversalBucket"
  shows "is_leader_for owner (foldl apply_leader_event [] evs) k \<longleftrightarrow> holds_bucket evs (owner k)"
proof -
  let ?l = "foldl apply_leader_event [] evs"
  have mem: "(n, b) \<in> set ?l \<longleftrightarrow> holds_bucket evs n \<and> b = HashBucket n" for n b
    using leadership_buckets [OF assms, of n] map_of_eq_Some_iff [of ?l n b] by (auto split: if_splits)
  show ?thesis by (force simp: is_leader_for_def list_ex_iff mem)
qed

lemma promote_func_map:
  "promote_func owner flt s (HashBucket b) =
     map (key_of \<circ> src_meta) (filter (\<lambda>x. (case flt of Some f \<Rightarrow> f x | None \<Rightarrow> True) \<and> owner (key_of (src_meta x)) = b)
       (source_lister_list s Everything))"
proof -
  have "concat (map (\<lambda>x. if P x then maybe_enqueue owner (HashBucket b) (key_of (src_meta x)) else []) xs) =
      map (key_of \<circ> src_meta) (filter (\<lambda>x. P x \<and> owner (key_of (src_meta x)) = b) xs)" for P and xs :: "gitlab_source list"
    by (induction xs) (simp_all add: maybe_enqueue_def)
  then show ?thesis by (simp add: promote_func_def)
qed

lemma promote_func_set:
  "set (promote_func owner flt s b) =
     {key_of (src_meta x) | x. x \<in> set (source_lister_list s Everything) \<and> (\<forall>f. flt = Some f \<longrightarrow> f x) \<and>
        bucket_has owner b (key_of (src_meta x))}"
  by (auto simp: promote_func_def maybe_enqueue_def split: option.splits if_splits)

subsection \<open>Property\<close>

text \<open>
  C34: a replica leads exactly the keys whose bucket it was last promoted for. When it is promoted
  for a bucket, the keys it enqueues are those of the sources of the cache that belong to the bucket
  and pass the filter, each once, and it leads all of them; after a demotion it leads none of the bucket's keys,
  and the others as before.
\<close>

theorem promotion_resyncs:
  assumes evs: "\<forall>e \<in> set evs. event_bucket e \<noteq> UniversalBucket"
    and cache: "\<forall>e \<in> set cevs. namespaced (src_meta (event_object e))"
      "s = foldl (apply_event src_meta) (empty_indexer True) cevs" "m = foldl (spec_event src_meta) (\<lambda>_. None) cevs"
  shows "(is_leader_for owner (foldl apply_leader_event [] evs) k \<longleftrightarrow> holds_bucket evs (owner k)) \<and>
    set (promote_func owner flt s (HashBucket b)) =
      {k. \<exists>x. m k = Some x \<and> owner k = b \<and> (\<forall>f. flt = Some f \<longrightarrow> f x)} \<and>
    distinct (promote_func owner flt s (HashBucket b)) \<and>
    (\<forall>k \<in> set (promote_func owner flt s (HashBucket b)).
       is_leader_for owner (foldl apply_leader_event [] (evs @ [Promoted (HashBucket b)])) k) \<and>
    (is_leader_for owner (foldl apply_leader_event [] (evs @ [Demoted (HashBucket b)])) k \<longleftrightarrow>
       owner k \<noteq> b \<and> is_leader_for owner (foldl apply_leader_event [] evs) k)"
proof -
  have st: "stores src_meta m s"
    unfolding cache(2,3) by (rule stores_events [OF cache(1) stores_empty])
  have set: "set (promote_func owner flt s (HashBucket b)) =
      {k. \<exists>x. m k = Some x \<and> owner k = b \<and> (\<forall>f. flt = Some f \<longrightarrow> f x)}"
  proof (rule set_eqI)
    fix k
    have "k \<in> set (promote_func owner flt s (HashBucket b)) \<longleftrightarrow>
        (\<exists>x. k = full_name (src_meta x) \<and> x \<in> ran m \<and> (\<forall>f. flt = Some f \<longrightarrow> f x) \<and> owner k = b)"
      using stores_list_all(1) [OF st, of Everything]
      by (auto simp: promote_func_set source_lister_list_def key_of_def full_name_def)
    also have "\<dots> \<longleftrightarrow> (\<exists>x. m k = Some x \<and> owner k = b \<and> (\<forall>f. flt = Some f \<longrightarrow> f x))"
      using stores_listed(3) [OF st] stores_key [OF st] by (metis ranI)
    finally show "k \<in> set (promote_func owner flt s (HashBucket b)) \<longleftrightarrow>
        k \<in> {k. \<exists>x. m k = Some x \<and> owner k = b \<and> (\<forall>f. flt = Some f \<longrightarrow> f x)}" by simp
  qed
  have "distinct (map (key_of \<circ> src_meta) (source_lister_list s Everything))"
    using stores_list_all(2) [OF st, of Everything]
    by (auto simp: source_lister_list_def distinct_map inj_on_def key_of_def meta_key_def)
  moreover have "promote_func owner flt s (HashBucket b) =
      map (key_of \<circ> src_meta) (filter (\<lambda>x. (case flt of Some f \<Rightarrow> f x | None \<Rightarrow> True) \<and> owner (key_of (src_meta x)) = b)
        (source_lister_list s Everything))"
    by (rule promote_func_map)
  ultimately have dist: "distinct (promote_func owner flt s (HashBucket b))"
    by (simp add: distinct_map inj_on_def)
  have after: "\<forall>e \<in> set (evs @ [Promoted (HashBucket b)]). event_bucket e \<noteq> UniversalBucket"
      "\<forall>e \<in> set (evs @ [Demoted (HashBucket b)]). event_bucket e \<noteq> UniversalBucket"
    using evs by auto
  show ?thesis
    using set dist unfolding leader_iff [OF evs] leader_iff [OF after(1)] leader_iff [OF after(2)]
    by (auto simp: holds_bucket_def Let_def)
qed

definition demo_bucket :: "queue_key \<Rightarrow> string" where
  "demo_bucket k = fst k"

theorem promotion_resyncs_witness:
  "set (promote_func demo_bucket None (foldl (apply_event src_meta) (empty_indexer True) [Put sim_source]) (HashBucket ''ns'')) =
     {(''ns'', ''src'')}"
proof -
  have "namespaced (src_meta sim_source)" by (simp add: sim_source_def sim_meta_def namespaced_def)
  then have "set (promote_func demo_bucket None (foldl (apply_event src_meta) (empty_indexer True) [Put sim_source]) (HashBucket ''ns'')) =
        {k. \<exists>x. foldl (spec_event src_meta) (\<lambda>_. None) [Put sim_source] k = Some x \<and> demo_bucket k = ''ns''}"
    using promotion_resyncs [of "[]" "[Put sim_source]", OF _ _ refl refl, of demo_bucket _ None "''ns''"] by simp
  also have "\<dots> = {(''ns'', ''src'')}"
    by (auto simp: full_name_def sim_source_def sim_meta_def demo_bucket_def split: if_splits)
  finally show ?thesis .
qed

end
