(* ===== verification/OneAdapter.thy ===== *)
theory OneAdapter
  imports Traces Transitions Simulation
begin

section \<open>One receive adapter per source\<close>

text \<open>
  The services of the receive adapters over many reconciliations. The cluster is described by the services
  \<open>stored\<close> after each history: it answers a List with them, keeps what a Create stores,
  and nobody but the reconciler creates a service that a source controls. The names of the services are
  generated by the API server, so it is the List before the Create that keeps a source from
  having two adapters.
\<close>

definition controller_uid :: "kservice \<Rightarrow> string option" where
  "controller_uid ks = map_option or_uid (controller_ref (ks_meta ks))"

definition owned_count :: "(history \<Rightarrow> string \<Rightarrow> kservice list) \<Rightarrow> history \<Rightarrow> string \<Rightarrow> string \<Rightarrow> nat" where
  "owned_count stored h ns uid = length (filter (\<lambda>ks. controller_uid ks = Some uid) (stored h ns))"

text \<open>
  The documented behaviour of the API: a List answers with the stored services; a request that is not
  a Create adds no service (services may go at any time); a Create adds at most the service it was
  asked for, and does so when it succeeds, also if it reports an error after storing it.
\<close>

definition cluster_services :: "env \<Rightarrow> (history \<Rightarrow> string \<Rightarrow> kservice list) \<Rightarrow> bool" where
  "cluster_services en stored \<longleftrightarrow>
     (\<forall>h ns. case e_list_services en h ns of
        Inr items \<Rightarrow> items = stored h ns
      | Inl e \<Rightarrow> is_not_found (Some e) \<longrightarrow> stored h ns = []) \<and>
     (\<forall>h r ns uid. \<not> is_create_service r \<longrightarrow> owned_count stored (h @ [r]) ns uid \<le> owned_count stored h ns uid) \<and>
     (\<forall>h ns' ks ns uid. owned_count stored (h @ [CreateService ns' ks]) ns uid \<le>
        owned_count stored h ns uid + (if ns = ns' \<and> controller_uid ks = Some uid then 1 else 0)) \<and>
     (\<forall>h ns ks ks' uid. e_create_service en h ns ks = Inr ks' \<and> controller_uid ks = Some uid \<longrightarrow>
        0 < owned_count stored (h @ [CreateService ns ks]) ns uid)"

lemma cluster_servicesD:
  assumes "cluster_services en stored"
  shows "e_list_services en h ns = Inr items \<Longrightarrow> items = stored h ns"
    and "e_list_services en h ns = Inl e \<Longrightarrow> is_not_found (Some e) \<Longrightarrow> stored h ns = []"
    and "\<not> is_create_service r \<Longrightarrow> owned_count stored (h @ [r]) ns uid \<le> owned_count stored h ns uid"
    and "owned_count stored (h @ [CreateService ns' ks]) ns uid \<le>
      owned_count stored h ns uid + (if ns = ns' \<and> controller_uid ks = Some uid then 1 else 0)"
    and "e_create_service en h ns ks = Inr ks' \<Longrightarrow> controller_uid ks = Some uid \<Longrightarrow>
      0 < owned_count stored (h @ [CreateService ns ks]) ns uid"
  using assms unfolding cluster_services_def by (force split: sum.splits, force split: sum.splits, blast+)

lemma controlled_uid: "is_controlled_by ks src \<longleftrightarrow> controller_uid ks = Some (om_uid (src_meta src))"
  by (auto simp: is_controlled_by_def controller_uid_def split: option.split)

lemma generated_uid: "controller_uid (generate_kservice en src img) = Some (om_uid (src_meta src))"
  using generated_service_owned [OF refl] by (simp add: controlled_uid)

lemma owned_count_extends:
  assumes cl: "cluster_services en stored" and "extends (\<lambda>r. \<not> is_create_service r) h h'"
  shows "owned_count stored h' ns uid \<le> owned_count stored h ns uid"
proof -
  from assms(2) obtain e where "h' = h @ e" "list_all (\<lambda>r. \<not> is_create_service r) e"
    by (auto simp: extends_def)
  then show ?thesis
  proof (induction e arbitrary: h' rule: rev_induct)
    case (snoc r e)
    have "owned_count stored ((h @ e) @ [r]) ns uid \<le> owned_count stored (h @ e) ns uid"
      using snoc.prems by (intro cluster_servicesD(3) [OF cl]) simp
    moreover have "owned_count stored (h @ e) ns uid \<le> owned_count stored h ns uid"
      using snoc by simp
    ultimately show ?case using snoc.prems by simp
  qed simp
qed

text \<open>What \<open>reconcile_adapter\<close> does to the services, on each of its branches.\<close>

lemma reconcile_adapter_stored:
  assumes cl: "cluster_services en stored" and run: "reconcile_adapter en img src h = (q, h')"
  defines "ns \<equiv> om_namespace (src_meta src)" and "u \<equiv> om_uid (src_meta src)"
  obtains (no_create) "extends (\<lambda>r. \<not> is_create_service r) h h'" "\<And>ks. q = Inr ks \<Longrightarrow> is_controlled_by ks src"
  | (create) "owned_count stored h ns u = 0" "h' = h @ [ListServices ns, CreateService ns (generate_kservice en src img)]"
      "\<And>ks. q = Inr ks \<Longrightarrow> e_create_service en (h @ [ListServices ns]) ns (generate_kservice en src img) = Inr ks"
proof -
  obtain g h1 where g: "get_owned_service en src h = (g, h1)" by (metis surj_pair)
  have h1: "h1 = h @ [ListServices ns]" using get_owned_service_history [of en src h] g ns_def by simp
  show thesis
  proof (cases g)
    case (Inr ks)
    then have "is_controlled_by ks src"
      using g by (auto simp: get_owned_service_Inr find_Some_iff)
    with run g Inr show thesis by (intro no_create) (auto simp: reconcile_adapter_def h1)
  next
    case (Inl e)
    show thesis
    proof (cases "is_not_found (Some e)")
      case False
      with run g Inl show thesis by (intro no_create) (auto simp: reconcile_adapter_def h1 Let_def)
    next
      case True
      have "owned_count stored h ns u = 0"
      proof (cases "e_list_services en h ns")
        case (Inl e')
        with g \<open>g = Inl e\<close> have "e' = e" by (simp add: get_owned_service_def ask_def Let_def ns_def)
        with cluster_servicesD(2) [OF cl Inl] True show ?thesis by (simp add: owned_count_def)
      next
        case (Inr items)
        then have "find (\<lambda>ks. is_controlled_by ks src) items = None"
          using g \<open>g = Inl e\<close> by (auto simp: get_owned_service_def ask_def Let_def ns_def split: option.splits)
        with cluster_servicesD(1) [OF cl Inr] show ?thesis
          by (simp add: owned_count_def find_None_iff controlled_uid u_def)
      qed
      with run g Inl True show thesis
        by (intro create) (auto simp: reconcile_adapter_def h1 Let_def ask_def ns_def split: sum.splits)
    qed
  qed
qed

definition at_most_one :: "(history \<Rightarrow> string \<Rightarrow> kservice list) \<Rightarrow> history \<Rightarrow> bool" where
  "at_most_one stored h \<longleftrightarrow> (\<forall>ns uid. owned_count stored h ns uid \<le> 1)"

lemma at_most_one_extends:
  "cluster_services en stored \<Longrightarrow> extends (\<lambda>r. \<not> is_create_service r) h h' \<Longrightarrow> at_most_one stored h \<Longrightarrow>
   at_most_one stored h'"
  unfolding at_most_one_def using owned_count_extends order_trans by metis

lemma reconcile_adapter_one:
  assumes cl: "cluster_services en stored" and run: "reconcile_adapter en img src h = (q, h')"
    and one: "at_most_one stored h"
  shows "at_most_one stored h'"
  using cl run
proof (cases rule: reconcile_adapter_stored)
  case no_create
  then show ?thesis using at_most_one_extends [OF cl _ one] by blast
next
  case create
  let ?ns = "om_namespace (src_meta src)" and ?ks = "generate_kservice en src img"
  show ?thesis unfolding at_most_one_def
  proof (intro allI)
    fix ns uid
    have "owned_count stored ((h @ [ListServices ?ns]) @ [CreateService ?ns ?ks]) ns uid \<le>
        owned_count stored (h @ [ListServices ?ns]) ns uid +
        (if ns = ?ns \<and> controller_uid ?ks = Some uid then 1 else 0)"
      by (rule cluster_servicesD(4) [OF cl])
    moreover have "owned_count stored (h @ [ListServices ?ns]) ns uid \<le> owned_count stored h ns uid"
      by (rule cluster_servicesD(3) [OF cl]) simp
    moreover have "owned_count stored h ns uid \<le> 1" using one by (simp add: at_most_one_def)
    ultimately show "owned_count stored h' ns uid \<le> 1"
      using create(1,2) by (auto simp: generated_uid split: if_splits)
  qed
qed

subsection \<open>Many reconciliations\<close>

datatype service_event = Reconciled gitlab_source | OtherRequest request

text \<open>
  A step: a whole reconciliation of any source, or any other request that is not a Create (other
  controllers, the garbage collector, the rest of this one).
\<close>

inductive service_step :: "env \<Rightarrow> string \<Rightarrow> history \<Rightarrow> service_event \<Rightarrow> history \<Rightarrow> bool" for en img where
  reconciled: "reconcile_kind en (gitlab_iface en) img src h = (r, src', h') \<Longrightarrow>
    service_step en img h (Reconciled src) h'"
| other: "\<not> is_create_service r \<Longrightarrow> service_step en img h (OtherRequest r) (h @ [r])"

inductive_simps service_step_simps: "service_step en img h e h'"

lemma service_step_one:
  assumes cl: "cluster_services en stored" and "service_step en img h e h'" and one: "at_most_one stored h"
  shows "at_most_one stored h'"
  using assms(2)
proof cases
  case (reconciled src r src')
  from reconciled(2) show ?thesis
  proof (cases rule: reconcile_kind_shape)
    case sink
    then have "extends (\<lambda>r. \<not> is_create_service r) h h'"
      by (rule extends_mono) (simp add: quiet_request_def)
    then show ?thesis using at_most_one_extends [OF cl _ one] by blast
  next
    case (adapter src2 h2)
    from adapter(1) have "extends (\<lambda>r. \<not> is_create_service r) h h2"
      by (rule extends_mono) (simp add: quiet_request_def)
    then have "at_most_one stored h2" using at_most_one_extends [OF cl _ one] by blast
    then have "at_most_one stored (snd (reconcile_adapter en img src2 h2))"
      using reconcile_adapter_one [OF cl] by (metis prod.collapse)
    moreover from adapter(3) have "extends (\<lambda>r. \<not> is_create_service r) (snd (reconcile_adapter en img src2 h2)) h'"
      by (rule extends_mono) (rule webhook_no_create)
    ultimately show ?thesis using at_most_one_extends [OF cl] by blast
  qed
next
  case (other r)
  then have "extends (\<lambda>r. \<not> is_create_service r) h h'" by simp
  then show ?thesis using at_most_one_extends [OF cl _ one] by blast
qed

definition one_adapter_inv :: "env \<Rightarrow> (history \<Rightarrow> string \<Rightarrow> kservice list) \<Rightarrow> history \<Rightarrow> bool" where
  "one_adapter_inv en stored h \<longleftrightarrow> (cluster_services en stored \<longrightarrow> at_most_one stored h)"

interpretation services: step_closed "service_step en img" "one_adapter_inv en stored"
  by unfold_locales (auto simp: one_adapter_inv_def intro: service_step_one)

subsection \<open>Properties\<close>

text \<open>
  C9: however many reconciliations run one after the other, of whatever sources and with whatever other
  requests between them, no source ever controls two services. And when
  \<^verbatim>\<open>reconcileAdapter\<close> returns a service, it is one that the source controls and the List
  showed, or the one it just created, and then the source controls exactly one.
\<close>

theorem one_adapter_per_source:
  assumes cl: "cluster_services en stored" and init: "\<forall>ns uid. owned_count stored h0 ns uid \<le> 1"
    and reach: "reachable (service_step en img) h0 h"
  shows "owned_count stored h ns uid \<le> 1 \<and>
    (\<forall>src ks h'. reconcile_adapter en img src h = (Inr ks, h') \<longrightarrow>
       is_controlled_by ks src \<and> \<not> list_ex is_create_service (drop (length h) h') \<or>
       e_create_service en (h @ [ListServices (om_namespace (src_meta src))]) (om_namespace (src_meta src))
         (generate_kservice en src img) = Inr ks \<and>
       owned_count stored h' (om_namespace (src_meta src)) (om_uid (src_meta src)) = 1)"
proof -
  have one: "at_most_one stored h"
    using services.stays_inv [OF reach, of stored] cl init by (simp add: one_adapter_inv_def at_most_one_def)
  have "is_controlled_by ks src \<and> \<not> list_ex is_create_service (drop (length h) h') \<or>
      e_create_service en (h @ [ListServices (om_namespace (src_meta src))]) (om_namespace (src_meta src))
        (generate_kservice en src img) = Inr ks \<and>
      owned_count stored h' (om_namespace (src_meta src)) (om_uid (src_meta src)) = 1"
    if run: "reconcile_adapter en img src h = (Inr ks, h')" for src ks h'
    using cl run
  proof (cases rule: reconcile_adapter_stored)
    case no_create
    then show ?thesis by (auto simp: extends_def list_ex_iff list_all_iff)
  next
    case create
    let ?ns = "om_namespace (src_meta src)" and ?u = "om_uid (src_meta src)" and ?ks = "generate_kservice en src img"
    have "0 < owned_count stored ((h @ [ListServices ?ns]) @ [CreateService ?ns ?ks]) ?ns ?u"
      by (rule cluster_servicesD(5) [OF cl create(3) [OF refl] generated_uid])
    moreover have "owned_count stored h' ?ns ?u \<le> 1"
      using reconcile_adapter_one [OF cl run one] by (simp add: at_most_one_def)
    ultimately show ?thesis using create(2,3) by simp
  qed
  with one show ?thesis by (simp add: at_most_one_def)
qed

text \<open>The simulated cluster with a store of services per namespace.\<close>

fun services_in :: "history \<Rightarrow> string \<Rightarrow> kservice list" where
  "services_in [] ns = []"
| "services_in (CreateService ns' ks # h) ns = (if ns' = ns then [sim_stored_service ks] else []) @ services_in h ns"
| "services_in (_ # h) ns = services_in h ns"

definition cluster_env :: env where
  "cluster_env = sim_env\<lparr>e_list_services := \<lambda>h ns. Inr (services_in h ns)\<rparr>"

definition after_two :: history where
  "after_two =
     (let run = \<lambda>h. snd (snd (reconcile_kind cluster_env (gitlab_iface cluster_env) ''img'' sim_source h))
      in run (run [] @ [Now]))"

lemma services_in_append: "services_in (h @ h') ns = services_in h ns @ services_in h' ns"
  by (induction h ns rule: services_in.induct) simp_all

lemma stored_uid: "controller_uid (sim_stored_service ks) = controller_uid ks"
  by (simp add: controller_uid_def sim_stored_service_def controller_ref_def)

lemma cluster_env_services: "cluster_services cluster_env services_in"
proof -
  have "services_in [r] ns = []" if "\<not> is_create_service r" for r ns
    using that by (cases r) simp_all
  then show ?thesis
    by (auto simp: cluster_services_def cluster_env_def owned_count_def services_in_append stored_uid)
qed

lemma after_two_reachable: "reachable (service_step cluster_env ''img'') [] after_two"
proof -
  have run: "service_step cluster_env ''img'' h (Reconciled sim_source)
      (snd (snd (reconcile_kind cluster_env (gitlab_iface cluster_env) ''img'' sim_source h)))" for h
    by (rule service_step.reconciled) (simp add: prod_eq_iff)
  let ?run = "\<lambda>h. snd (snd (reconcile_kind cluster_env (gitlab_iface cluster_env) ''img'' sim_source h))"
  have "reachable (service_step cluster_env ''img'') [] (?run [])"
    by (rule reachable_step) (rule run)
  then have "reachable (service_step cluster_env ''img'') [] (?run [] @ [Now])"
    by (rule reachable.advance) (rule service_step.other, simp)
  then show ?thesis unfolding after_two_def Let_def
    by (rule reachable.advance) (rule run)
qed

theorem one_adapter_per_source_witness:
  "owned_count services_in after_two ''ns'' ''u1'' \<le> 1 \<and> owned_count services_in after_two ''ns'' ''u1'' = 1"
proof
  show "owned_count services_in after_two ''ns'' ''u1'' \<le> 1"
    using one_adapter_per_source [OF cluster_env_services _ after_two_reachable, of "''ns''" "''u1''"]
    by (simp add: owned_count_def)
  show "owned_count services_in after_two ''ns'' ''u1'' = 1"
    by code_simp
qed

text \<open>
  C10: the receive adapter is never updated. When the source already controls a service, \<^verbatim>\<open>reconcileAdapter\<close>
  returns it as it stands and creates nothing, whatever the specification, the status and the image have become:
  a new sink, secret token, service account or image does not reach the adapter, which still runs with the
  environment it was created with, and the sink is part of that environment.
\<close>

theorem adapter_not_updated:
  assumes owned: "e_list_services en h (om_namespace (src_meta src)) = Inr items"
      "find (\<lambda>ks. is_controlled_by ks src) items = Some ks"
    and same: "src_meta src' = src_meta src"
  shows "reconcile_adapter en img' src' h = (Inr ks, h @ [ListServices (om_namespace (src_meta src))]) \<and>
    (ks_env ks = adapter_env_vars en src \<and>
       url_string (st_sink_uri (src_status src')) \<noteq> url_string (st_sink_uri (src_status src)) \<longrightarrow>
     ks_env ks \<noteq> ks_env (generate_kservice en src' img'))"
proof -
  have "(\<lambda>ks. is_controlled_by ks src') = (\<lambda>ks. is_controlled_by ks src)"
    using same by (simp add: controlled_uid)
  with owned same have "reconcile_adapter en img' src' h = (Inr ks, h @ [ListServices (om_namespace (src_meta src))])"
    using reconcile_adapter_owned [of en h src' items ks img'] by simp
  moreover have "adapter_env_vars en src' \<noteq> adapter_env_vars en src"
    if "url_string (st_sink_uri (src_status src')) \<noteq> url_string (st_sink_uri (src_status src))"
    using that by (simp add: adapter_env_vars_def plain_env_def)
  ultimately show ?thesis by (auto simp: generate_kservice_def)
qed

text \<open>A source whose sink moved after its adapter was created.\<close>

definition moved_source :: gitlab_source where
  "moved_source = sim_source\<lparr>src_status := sim_status\<lparr>st_sink_uri := Some ''http://new''\<rparr>\<rparr>"

theorem adapter_not_updated_witness:
  "fst (reconcile_adapter cluster_env ''img'' moved_source
     [CreateService ''ns'' (generate_kservice cluster_env sim_source ''img'')]) =
     Inr (sim_stored_service (generate_kservice cluster_env sim_source ''img'')) \<and>
   ks_env (sim_stored_service (generate_kservice cluster_env sim_source ''img'')) \<noteq>
     ks_env (generate_kservice cluster_env moved_source ''img'')"
proof -
  let ?ks = "sim_stored_service (generate_kservice cluster_env sim_source ''img'')"
  let ?h = "[CreateService ''ns'' (generate_kservice cluster_env sim_source ''img'')]"
  have list: "e_list_services cluster_env ?h (om_namespace (src_meta sim_source)) = Inr [?ks]"
    by (simp add: cluster_env_def sim_source_def sim_meta_def)
  have "is_controlled_by ?ks sim_source"
    by (simp add: controlled_uid stored_uid generated_uid)
  then have find: "find (\<lambda>ks. is_controlled_by ks sim_source) [?ks] = Some ?ks" by simp
  have same: "src_meta moved_source = src_meta sim_source" by (simp add: moved_source_def)
  have env: "ks_env ?ks = adapter_env_vars cluster_env sim_source"
    by (simp add: sim_stored_service_def generate_kservice_def)
  have url: "url_string (st_sink_uri (src_status moved_source)) \<noteq> url_string (st_sink_uri (src_status sim_source))"
    by code_simp
  with adapter_not_updated [OF list find same, of "''img''"] env url show ?thesis by simp
qed

end
