(* ===== verification/Boundaries.thy ===== *)
theory Boundaries
  imports SourceController
begin

section \<open>Limits and failures of the source reconciler\<close>

text \<open>
  Three boundaries of the controller: which project URLs it survives, how often it writes a status before it
  gives up, and what reading the Secrets through a cache changes.
\<close>

subsection \<open>Project URLs\<close>

text \<open>\<^verbatim>\<open>splitGitLabProjectURL\<close> slices the path from index 1, which panics on an empty path only.\<close>

lemma split_project_url_panic:
  "is_panic (split_project_url auth s) \<longleftrightarrow> (\<exists>u. url_parse auth s = Inr u \<and> pu_path u = [])"
  by (auto simp: split_project_url_def is_panic_def Let_def split: sum.split)

lemma split_project_url_host:
  assumes "web_url scheme authority []" and "auth authority = None"
  shows "is_panic (split_project_url auth (scheme @ ''://'' @ authority))"
  using url_parse_web_url [where auth = auth, OF assms] by (simp add: split_project_url_panic)

lemma sync_webhook_panic:
  "is_panic (fst (sync_webhook en (gitlab_iface en) src u h)) \<longleftrightarrow>
     is_panic (split_project_url (e_auth en) (spec_project_url (src_spec src)))"
proof -
  have "is_panic (fst (sync_webhook en (gitlab_iface en) src u h)) \<longleftrightarrow> is_panic (fst (get_webhook_client en src h))"
  proof (cases "get_webhook_client en src h")
    case (Pair q h1)
    have "\<not> is_panic (fst (create_webhook en W c src u h'))" "\<not> is_panic (fst (update_webhook en W c src i u h'))"
      for W :: "webhook_client webhook_iface" and c i h'
      by (auto simp: create_webhook_def update_webhook_def Let_def is_panic_def split: prod.split sum.split option.split)
    then show ?thesis
      using Pair by (cases q) (auto simp: sync_webhook_def Let_def gitlab_iface_def is_panic_def
        split: option.split prod.split sum.split)
  qed
  then show ?thesis by (simp add: get_webhook_client_panic)
qed

lemma reconcile_deployment_panic:
  assumes "reconcile_adapter en img src h = (q, h1)"
  shows "is_panic (fst (reconcile_deployment en (gitlab_iface en) img src h)) \<longleftrightarrow>
    (\<exists>ks. q = Inr ks \<and> kservice_ready ks \<and> ks_url ks \<noteq> None) \<and>
    is_panic (split_project_url (e_auth en) (spec_project_url (src_spec src)))"
proof (cases "\<exists>ks. q = Inr ks \<and> kservice_ready ks \<and> ks_url ks \<noteq> None")
  case False
  with assms show ?thesis
    by (cases q) (auto simp: reconcile_deployment_def reconcile_webhook_def is_panic_def Let_def split: prod.split)
next
  case True
  then obtain ks where ks: "q = Inr ks" "kservice_ready ks" "ks_url ks \<noteq> None" by blast
  obtain st h2 where m: "mark_deployed en (src_status src, h1) = (st, h2)" by (metis surj_pair)
  have "is_panic (fst (reconcile_deployment en (gitlab_iface en) img src h)) \<longleftrightarrow>
      is_panic (fst (sync_webhook en (gitlab_iface en) (src\<lparr>src_status := st\<rparr>) (ks_url ks) h2))"
    using assms ks m by (auto simp: reconcile_deployment_def reconcile_webhook_def is_panic_def
      split: prod.split result.split)
  with ks show ?thesis by (simp add: sync_webhook_panic)
qed

text \<open>
  C16: \<^verbatim>\<open>ReconcileKind\<close> panics exactly when it gets as far as the webhook (the sink resolved, the adapter
  is ready and has a URL) with a project URL that parses and has no path, such as
  \<^verbatim>\<open>https://gitlab.com\<close>; \<^verbatim>\<open>FinalizeKind\<close> exactly when a hook is recorded and the project URL is such a one.
  The validation of the source does not look at the URL.
\<close>

theorem reconcile_panics_iff:
  assumes sink: "sink_answer en src h = a"
    and adapter: "\<forall>uri. a = Inr uri \<longrightarrow> sink_marked en uri src h = (src2, h2) \<and> reconcile_adapter en img src2 h2 = (q, h3)"
  shows "(is_panic (fst (reconcile_kind en (gitlab_iface en) img src h)) \<longleftrightarrow>
      (\<exists>uri ks. a = Inr uri \<and> q = Inr ks \<and> kservice_ready ks \<and> ks_url ks \<noteq> None) \<and>
      (\<exists>u. url_parse (e_auth en) (spec_project_url (src_spec src)) = Inr u \<and> pu_path u = [])) \<and>
    (is_panic (fst (finalize_kind en (gitlab_iface en) src h)) \<longleftrightarrow> st_webhook_id (src_status src) \<noteq> None \<and>
      (\<exists>u. url_parse (e_auth en) (spec_project_url (src_spec src)) = Inr u \<and> pu_path u = [])) \<and>
    (validate_source val (src\<lparr>src_spec := (src_spec src)\<lparr>spec_project_url := url\<rparr>\<rparr>) = None \<longleftrightarrow>
      validate_source val src = None)"
proof (intro conjI)
  show "is_panic (fst (reconcile_kind en (gitlab_iface en) img src h)) \<longleftrightarrow>
      (\<exists>uri ks. a = Inr uri \<and> q = Inr ks \<and> kservice_ready ks \<and> ks_url ks \<noteq> None) \<and>
      (\<exists>u. url_parse (e_auth en) (spec_project_url (src_spec src)) = Inr u \<and> pu_path u = [])"
  proof (cases a)
    case (Inl e)
    with sink show ?thesis by (simp add: is_panic_def reconcile_kind_sink_failed(1) [of en src h e])
  next
    case (Inr uri)
    with adapter have m: "sink_marked en uri src h = (src2, h2)" and r: "reconcile_adapter en img src2 h2 = (q, h3)"
      by simp_all
    have "spec_project_url (src_spec src2) = spec_project_url (src_spec src)"
      by (simp add: sink_marked_frame(4) [OF m] default_sink_namespace_def with_ce_attributes_def split: option.split)
    with reconcile_deployment_panic [OF r] Inr sink show ?thesis
      by (simp add: reconcile_kind_sink_ok [OF _ m] split_project_url_panic)
  qed
  show "is_panic (fst (finalize_kind en (gitlab_iface en) src h)) \<longleftrightarrow> st_webhook_id (src_status src) \<noteq> None \<and>
      (\<exists>u. url_parse (e_auth en) (spec_project_url (src_spec src)) = Inr u \<and> pu_path u = [])"
  proof -
    obtain g h1 where g: "get_webhook_client en src h = (g, h1)" by (metis surj_pair)
    have "is_panic (fst (finalize_kind en (gitlab_iface en) src h)) \<longleftrightarrow>
        st_webhook_id (src_status src) \<noteq> None \<and> is_panic g"
      using g by (cases g) (auto simp: finalize_kind_def gitlab_iface_def is_panic_def split: option.split prod.split)
    with g get_webhook_client_panic [of en src h] show ?thesis by (simp add: split_project_url_panic)
  qed
  show "validate_source val (src\<lparr>src_spec := (src_spec src)\<lparr>spec_project_url := url\<rparr>\<rparr>) = None \<longleftrightarrow>
      validate_source val src = None"
    by (simp add: validate_source_def validate_source_spec_def)
qed

text \<open>A source whose project URL is only the host.\<close>

definition host_source :: gitlab_source where
  "host_source = sim_source\<lparr>src_spec := sim_spec\<lparr>spec_project_url := ''https://gitlab.com''\<rparr>\<rparr>"

theorem reconcile_panics_iff_witness:
  "is_panic (fst (reconcile_kind sim_env (gitlab_iface sim_env) ''img'' host_source []))"
proof -
  let ?sink = "sink_answer sim_env host_source []" and ?uri = "Some ''http://sink''"
  have a: "?sink = Inr ?uri" by code_simp
  obtain src2 h2 where m: "sink_marked sim_env ?uri host_source [] = (src2, h2)" by (metis surj_pair)
  obtain q h3 where q: "reconcile_adapter sim_env ''img'' src2 h2 = (q, h3)" by (metis surj_pair)
  have "case fst (case sink_marked sim_env ?uri host_source [] of (src2, h2) \<Rightarrow> reconcile_adapter sim_env ''img'' src2 h2)
      of Inr ks \<Rightarrow> kservice_ready ks \<and> ks_url ks \<noteq> None | Inl _ \<Rightarrow> False"
    by code_simp
  then obtain ks where ks: "q = Inr ks" "kservice_ready ks" "ks_url ks \<noteq> None"
    using m q by (auto split: sum.splits)
  have "is_panic (split_project_url (e_auth sim_env) (spec_project_url (src_spec host_source)))"
    using split_project_url_host [of "''https''" "''gitlab.com''" "e_auth sim_env"]
    by (simp add: web_url_def is_letter_def is_ctl_def byte_def sim_env_def host_source_def)
  then have "\<exists>u. url_parse (e_auth sim_env) (spec_project_url (src_spec host_source)) = Inr u \<and> pu_path u = []"
    by (simp only: split_project_url_panic)
  with reconcile_panics_iff [OF a, of src2 h2 "''img''" q h3] m q ks show ?thesis by blast
qed

subsection \<open>The status is tried five times\<close>

lemma update_attempt_requests:
  "update_attempt en existing desired k h = (e, h') \<Longrightarrow> length h' \<le> length h + 1 + (if k > 0 then 1 else 0)"
  by (auto simp: update_attempt_def ask_def Let_def split: if_splits sum.splits)

lemma retry_update_requests:
  "retry_update en existing desired k n h = (e, h') \<Longrightarrow> length h' \<le> length h + 2 * n - (if k = 0 \<and> n > 0 then 1 else 0)"
proof (induction n arbitrary: k h)
  case (Suc n)
  obtain e1 h1 where a: "update_attempt en existing desired k h = (e1, h1)" by (metis surj_pair)
  note le = update_attempt_requests [OF a]
  show ?case
  proof (cases "\<exists>x. e1 = Some x \<and> is_conflict (Some x) \<and> n > 0")
    case True
    then have "retry_update en existing desired (k + 1) n h1 = (e, h')" using Suc.prems a by auto
    from Suc.IH [OF this] le show ?thesis by (simp split: if_splits)
  next
    case False
    then have "h' = h1" using Suc.prems a by (auto split: option.splits if_splits)
    with le show ?thesis by (simp split: if_splits)
  qed
qed simp

lemma retry_update_conflicts:
  assumes "\<And>k h. fst (update_attempt en existing desired k h) = Some x" and "is_conflict (Some x)"
  shows "fst (retry_update en existing desired k (Suc n) h) = Some x"
proof (induction n arbitrary: k h)
  case 0
  obtain h1 where "update_attempt en existing desired k h = (Some x, h1)" using assms(1) by (metis prod.collapse)
  then show ?case by simp
next
  case (Suc n)
  obtain h1 where "update_attempt en existing desired k h = (Some x, h1)" using assms(1) by (metis prod.collapse)
  then show ?case using Suc.IH [of "k + 1" h1] assms(2) by (simp del: retry_update.simps add: retry_update.simps(2) [of _ _ _ k])
qed

text \<open>
  C17: \<^verbatim>\<open>updateStatus\<close> always returns: whatever the API server answers, after at most five writes, each of
  the desired status, and nine requests in all. It returns no error only if the status was already
  the desired one or the server accepted it; it returns a conflict only after five attempts, the last four
  of which read the object again; any other error is returned at once.
\<close>

theorem update_status_bounded:
  assumes run: "update_status en existing desired h = (e, h')"
  shows "extends status_request h h' \<and> length h' \<le> length h + 9 \<and>
    (\<exists>ws. status_writes h' = status_writes h @ ws \<and> length ws \<le> 5 \<and>
       (\<forall>w \<in> set ws. src_status w = src_status desired)) \<and>
    (e = None \<longrightarrow> status_settled en existing desired h') \<and>
    (\<forall>x. e = Some x \<and> is_conflict e \<longrightarrow>
       length (filter is_get_source h') = length (filter is_get_source h) + 4) \<and>
    (\<forall>x w. e_update_status en h w = Some x \<and> src_status existing \<noteq> src_status desired \<and>
       w = existing\<lparr>src_status := src_status desired\<rparr> \<and> \<not> is_conflict (Some x) \<longrightarrow>
       e = Some x \<and> h' = h @ [UpdateStatus w])"
proof (intro conjI)
  note run' = run [unfolded update_status_def]
  show "extends status_request h h'" by (rule retry_update_extends [OF run'])
  show "length h' \<le> length h + 9" using retry_update_requests [OF run'] by simp
  show "\<exists>ws. status_writes h' = status_writes h @ ws \<and> length ws \<le> 5 \<and>
       (\<forall>w \<in> set ws. src_status w = src_status desired)"
    by (rule update_status_writes [OF run])
  show "e = None \<longrightarrow> status_settled en existing desired h'" using update_status_settled run by blast
  show "\<forall>x. e = Some x \<and> is_conflict e \<longrightarrow> length (filter is_get_source h') = length (filter is_get_source h) + 4"
    using retry_update_exhausted [of en existing desired 0 4 h _ h'] run' by (auto simp: numeral_eq_Suc)
  show "\<forall>x w. e_update_status en h w = Some x \<and> src_status existing \<noteq> src_status desired \<and>
       w = existing\<lparr>src_status := src_status desired\<rparr> \<and> \<not> is_conflict (Some x) \<longrightarrow>
       e = Some x \<and> h' = h @ [UpdateStatus w]"
    using run' by (auto simp: numeral_eq_Suc update_attempt_def ask_def Let_def)
qed

text \<open>An API server on which every status update is a conflict.\<close>

definition conflict_error :: goerr where
  "conflict_error = StatusErr ''Conflict'' 409 ''the object has been modified''"

definition conflict_env :: env where
  "conflict_env = sim_env\<lparr>e_update_status := \<lambda>h src. Some conflict_error, e_get_source := \<lambda>h ns n. Inr sim_source\<rparr>"

theorem update_status_bounded_witness:
  "length (filter is_get_source (snd (update_status conflict_env sim_source (sim_source_id (Some 7)) []))) = 4"
proof -
  obtain e h' where run: "update_status conflict_env sim_source (sim_source_id (Some 7)) [] = (e, h')" by (metis surj_pair)
  have conflict: "is_conflict (Some conflict_error)" by code_simp
  have diff: "src_status sim_source \<noteq> src_status (sim_source_id (Some 7))"
    by (simp add: sim_source_def sim_source_id_def sim_status_def)
  have answers: "e_update_status conflict_env = (\<lambda>h src. Some conflict_error)"
      "e_get_source conflict_env = (\<lambda>h ns n. Inr sim_source)"
    by (simp_all add: conflict_env_def)
  have five: "(5::nat) = Suc 4" by simp
  have attempt: "fst (update_attempt conflict_env sim_source (sim_source_id (Some 7)) k h) = Some conflict_error" for k h
    using diff by (simp add: update_attempt_def answers ask_def Let_def)
  have "e = Some conflict_error"
    using retry_update_conflicts [OF attempt conflict, of 0 4 "[]"] run [unfolded update_status_def five] by simp
  with conflict have "e = Some conflict_error \<and> is_conflict e" by simp
  with update_status_bounded [OF run] have "length (filter is_get_source h') = length (filter is_get_source []) + 4"
    by blast
  with run show ?thesis by (simp only: snd_conv) simp
qed

subsection \<open>Secrets through the cache\<close>

text \<open>
  \<^verbatim>\<open>GetterWithClientset.Get\<close> returns exactly what fetching the Secret of every selector anew would
  return, errors included, as long as the Secrets do not change during the call; it asks for
  each selected Secret at most once, for exactly the selected ones when it succeeds, and it
  returns one value per selector, empty for a missing selector.
\<close>

theorem secrets_cache_transparent:
  assumes run: "get_secrets en ns refs h = (r, h')"
  shows "(stable en ns h \<longrightarrow> r = fetch_all en ns h refs) \<and>
    (\<exists>names. h' = h @ map (GetSecret ns) names \<and> distinct names \<and> set names \<subseteq> set (selected_names refs) \<and>
       (\<forall>vals. r = Inr vals \<longrightarrow> set names = set (selected_names refs))) \<and>
    (\<forall>vals. r = Inr vals \<longrightarrow> length vals = length refs \<and> (\<forall>i < length refs. refs ! i = None \<longrightarrow> vals ! i = []))"
proof (intro conjI)
  show "stable en ns h \<longrightarrow> r = fetch_all en ns h refs" using get_secrets_fetch_all [of en ns h refs] run by simp
  show "\<exists>names. h' = h @ map (GetSecret ns) names \<and> distinct names \<and> set names \<subseteq> set (selected_names refs) \<and>
       (\<forall>vals. r = Inr vals \<longrightarrow> set names = set (selected_names refs))"
    by (rule get_secrets_requests [OF run])
  show "\<forall>vals. r = Inr vals \<longrightarrow> length vals = length refs \<and> (\<forall>i < length refs. refs ! i = None \<longrightarrow> vals ! i = [])"
    using k8s_secrets.one_per_input k8s_secrets.nil_is_empty run by blast
qed

theorem secrets_cache_transparent_witness:
  "fst (get_secrets sim_env ''ns'' [sim_selector ''access'', None, sim_selector ''secret''] []) =
     Inr [''glpat'', [], ''s3cret''] \<and>
   snd (get_secrets sim_env ''ns'' [sim_selector ''access'', None, sim_selector ''secret''] []) = [GetSecret ''ns'' ''tokens'']"
proof
  let ?refs = "[sim_selector ''access'', None, sim_selector ''secret'']"
  obtain r h' where run: "get_secrets sim_env ''ns'' ?refs [] = (r, h')" by (metis surj_pair)
  have "stable sim_env ''ns'' []" by (simp add: stable_def sim_env_def)
  with secrets_cache_transparent [OF run] have "r = fetch_all sim_env ''ns'' [] ?refs" by blast
  with run show "fst (get_secrets sim_env ''ns'' ?refs []) = Inr [''glpat'', [], ''s3cret'']"
    by (simp add: sim_selector_def sim_env_def sim_secret_def data_value_def)
  show "snd (get_secrets sim_env ''ns'' ?refs []) = [GetSecret ''ns'' ''tokens'']"
    by (simp add: get_secrets_def sim_selector_def sim_env_def sim_secret_def data_value_def)
qed

end
