(* ===== verification/BindingReconciler.thy ===== *)
theory BindingReconciler
  imports Leadership
begin

section \<open>The reconciler of bindings\<close>

text \<open>
  What \<^verbatim>\<open>NewController\<close> of \<^verbatim>\<open>pkg/reconciler/binding/controller.go\<close> builds: knative's
  \<^verbatim>\<open>psbinding.BaseReconciler\<close> (\<^verbatim>\<open>webhook/psbinding/reconciler.go\<close>) with the fields it sets, and the handlers
  that feed its queue. The reconciler has no \<^verbatim>\<open>WithContext\<close> and no \<^verbatim>\<open>SubResourcesReconciler\<close> here.

  The subjects (\<^verbatim>\<open>WithPod\<close> objects) are read from the caches of informers, and \<^verbatim>\<open>ReconcileSubject\<close> changes them
  where they are, in the cache: the cache is part of the state, and an operation returns it updated.
\<close>

record with_pod =
  wp_meta :: object_meta
  wp_spec :: pod_spec

type_synonym gvr = "string \<times> string \<times> string"
type_synonym cache_key = "gvr \<times> string \<times> string"

datatype binding_request =
    TrackReference subject_reference
  | GetLister gvr
  | GetBinding string string
  | GetNamespace string
  | LabelNamespace string
  | PatchBindingFinalizers string string "string list" string
  | PatchSubject gvr with_pod with_pod
  | UpdateBindingStatus gitlab_binding
  | BindingEvent string string

text \<open>The answers, from the requests made before. \<open>be_selector\<close> is \<^verbatim>\<open>LabelSelectorAsSelector\<close>.\<close>

record binding_env =
  be_track :: "binding_request list \<Rightarrow> subject_reference \<Rightarrow> goerr option"
  be_lister :: "binding_request list \<Rightarrow> gvr \<Rightarrow> goerr option"
  be_get :: "binding_request list \<Rightarrow> string \<Rightarrow> string \<Rightarrow> goerr + gitlab_binding"
  be_namespace :: "binding_request list \<Rightarrow> string \<Rightarrow> goerr + (string \<times> string) list"
  be_label :: "binding_request list \<Rightarrow> string \<Rightarrow> goerr option"
  be_finalizers :: "binding_request list \<Rightarrow> string \<Rightarrow> string \<Rightarrow> string list \<Rightarrow> string \<Rightarrow> goerr option"
  be_patch :: "binding_request list \<Rightarrow> gvr \<Rightarrow> with_pod \<Rightarrow> with_pod \<Rightarrow> goerr option"
  be_status :: "binding_request list \<Rightarrow> gitlab_binding \<Rightarrow> goerr option"
  be_selector :: "string option \<Rightarrow> goerr + selector"
  be_clock :: env

text \<open>
  The state: the caches of the subjects, per resource the objects in an arbitrary order, the one in which a listing gives
  them and in which the goroutines of the referents run; the requests made; and the readings of the clock.
\<close>

record bworld =
  bw_cache :: "gvr \<Rightarrow> with_pod list"
  bw_log :: "binding_request list"
  bw_ticks :: history

definition emit :: "binding_request \<Rightarrow> bworld \<Rightarrow> bworld" where
  "emit r w = w\<lparr>bw_log := bw_log w @ [r]\<rparr>"

text \<open>A request whose answer is nil or an error.\<close>

definition try_request :: "(binding_request list \<Rightarrow> goerr option) \<Rightarrow> binding_request \<Rightarrow> bworld \<Rightarrow> goerr option \<times> bworld" where
  "try_request answer r w = (answer (bw_log w), emit r w)"

definition on_binding_status :: "(bstate \<Rightarrow> bstate) \<Rightarrow> gitlab_binding \<Rightarrow> bworld \<Rightarrow> gitlab_binding \<times> bworld" where
  "on_binding_status f fb w =
     (let (st, h) = f (gb_status fb, bw_ticks w) in (fb\<lparr>gb_status := st\<rparr>, w\<lparr>bw_ticks := h\<rparr>))"

definition binding_unavailable :: "binding_env \<Rightarrow> string \<Rightarrow> goerr \<Rightarrow> gitlab_binding \<Rightarrow> bworld \<Rightarrow> gitlab_binding \<times> bworld" where
  "binding_unavailable en reason e = on_binding_status (mark_binding_unavailable (be_clock en) reason (err_text e))"

definition is_forbidden :: "goerr option \<Rightarrow> bool" where
  "is_forbidden = has_reason_or_code ''Forbidden'' 403"

subsection \<open>Subjects\<close>

text \<open>\<^verbatim>\<open>KindToResource\<close> with \<^verbatim>\<open>pluralizeKind\<close>.\<close>

definition pluralize_kind :: "string \<Rightarrow> string" where
  "pluralize_kind kind = (let ret = to_lower kind in if has_suffix ret ''s'' then ret @ ''es'' else ret @ ''s'')"

definition kind_to_resource :: "string \<times> string \<Rightarrow> string \<Rightarrow> gvr" where
  "kind_to_resource gv kind = (fst gv, snd gv, pluralize_kind kind)"

definition binding_include_label :: string where "binding_include_label = ''bindings.knative.dev/include''"
definition binding_exclude_label :: string where "binding_exclude_label = ''bindings.knative.dev/exclude''"

definition label_value :: "(string \<times> string) list \<Rightarrow> string \<Rightarrow> string" where
  "label_value ls k = (case map_of ls k of None \<Rightarrow> [] | Some v \<Rightarrow> v)"

definition label_namespace :: "binding_env \<Rightarrow> string \<Rightarrow> bworld \<Rightarrow> goerr option \<times> bworld" where
  "label_namespace en ns w =
     (let w1 = emit (GetNamespace ns) w
      in case be_namespace en (bw_log w) ns of
           Inl e \<Rightarrow> (Some e, w1)
         | Inr ls \<Rightarrow>
             (if label_value ls binding_include_label \<noteq> [] \<or> label_value ls binding_exclude_label \<noteq> []
              then (None, w1)
              else try_request (\<lambda>l. be_label en l ns) (LabelNamespace ns) w1))"

definition cached :: "gvr \<Rightarrow> string \<Rightarrow> string \<Rightarrow> bworld \<Rightarrow> with_pod option" where
  "cached g ns n w = find (\<lambda>p. meta_key (wp_meta p) = ns @ ''/'' @ n) (bw_cache w g)"

definition group_resource :: "gvr \<Rightarrow> string" where
  "group_resource g = (case g of (grp, _, r) \<Rightarrow> if grp = [] then r else r @ ''.'' @ grp)"

text \<open>
  The referents: the object with the subject's name, or those its selector selects, with the status that a missing one
  leaves behind.
\<close>

definition find_referents ::
  "binding_env \<Rightarrow> gvr \<Rightarrow> gitlab_binding \<Rightarrow> bworld \<Rightarrow> (goerr + with_pod list) \<times> gitlab_binding \<times> bworld" where
  "find_referents en g fb w =
     (let sub = get_subject fb; ns = sr_namespace sub
      in if sr_name sub \<noteq> []
         then (case cached g ns (sr_name sub) w of
                 None \<Rightarrow>
                   (let e = not_found_error (group_resource g) (sr_name sub)
                    in (Inl e, binding_unavailable en ''SubjectMissing'' e fb w))
               | Some p \<Rightarrow>
                   (case label_namespace en ns w of
                      (Some e, w1) \<Rightarrow> (Inl e, fb, w1)
                    | (None, w1) \<Rightarrow> (Inr [p], fb, w1)))
         else (case be_selector en (sr_selector sub) of
                 Inl e \<Rightarrow> (Inl e, fb, w)
               | Inr sel \<Rightarrow>
                   (let ps = filter (\<lambda>p. (ns = [] \<or> om_namespace (wp_meta p) = ns) \<and>
                                selector_matches sel (om_labels (wp_meta p))) (bw_cache w g)
                    in case label_namespace en ns w of
                         (Some e, w1) \<Rightarrow> (Inl e, fb, w1)
                       | (None, w1) \<Rightarrow> (Inr ps, fb, w1))))"

text \<open>A mutation is \<^verbatim>\<open>Do\<close> or \<^verbatim>\<open>Undo\<close> of the binding.\<close>

type_synonym mutation = "pod_spec \<Rightarrow> unit result \<times> pod_spec"

definition undo_mutation :: mutation where
  "undo_mutation ps = (Ok (), undo_binding ps)"

text \<open>The object of the cache itself changes, whether or not a patch follows and whatever becomes of it.\<close>

definition set_cached :: "gvr \<Rightarrow> with_pod \<Rightarrow> pod_spec \<Rightarrow> bworld \<Rightarrow> bworld" where
  "set_cached g p ps w =
     w\<lparr>bw_cache := (bw_cache w)(g := map (\<lambda>q. if meta_key (wp_meta q) = meta_key (wp_meta p)
         then q\<lparr>wp_spec := ps\<rparr> else q) (bw_cache w g))\<rparr>"

definition mutate_referent ::
  "binding_env \<Rightarrow> gvr \<Rightarrow> mutation \<Rightarrow> with_pod \<Rightarrow> bworld \<Rightarrow> unit result \<times> bworld" where
  "mutate_referent en g m p w =
     (let (r, ps) = m (wp_spec p); w1 = set_cached g p ps w
      in case r of
           Panic msg \<Rightarrow> (Panic msg, w1)
         | Err e \<Rightarrow> (Err e, w1)
         | Ok _ \<Rightarrow>
             (if ps = wp_spec p then (Ok (), w1)
              else case try_request (\<lambda>l. be_patch en l g p (p\<lparr>wp_spec := ps\<rparr>)) (PatchSubject g p (p\<lparr>wp_spec := ps\<rparr>)) w1 of
                     (Some e, w2) \<Rightarrow> (Err (ErrWrap (''failed binding subject '' @ om_name (wp_meta p) @ '': '') e), w2)
                   | (None, w2) \<Rightarrow> (Ok (), w2)))"

text \<open>
  The goroutines of the \<^verbatim>\<open>errgroup\<close>, which touch an object each, one after the other. All of them run, a panic apart, and the error is the first one.
\<close>

fun mutate_referents ::
  "binding_env \<Rightarrow> gvr \<Rightarrow> mutation \<Rightarrow> with_pod list \<Rightarrow> bworld \<Rightarrow> unit result \<times> bworld" where
  "mutate_referents en g m [] w = (Ok (), w)"
| "mutate_referents en g m (p # ps) w =
     (case mutate_referent en g m p w of
        (Panic msg, w1) \<Rightarrow> (Panic msg, w1)
      | (Err e, w1) \<Rightarrow>
          (case mutate_referents en g m ps w1 of
             (Panic msg, w2) \<Rightarrow> (Panic msg, w2) | (_, w2) \<Rightarrow> (Err e, w2))
      | (Ok _, w1) \<Rightarrow> mutate_referents en g m ps w1)"

definition reconcile_subject ::
  "binding_env \<Rightarrow> gitlab_binding \<Rightarrow> mutation \<Rightarrow> bworld \<Rightarrow> unit result \<times> gitlab_binding \<times> bworld" where
  "reconcile_subject en fb m w =
     (let sub = get_subject fb
      in case try_request (\<lambda>l. be_track en l sub) (TrackReference sub) w of
           (Some e, w1) \<Rightarrow> (Err e, fb, w1)
         | (None, w1) \<Rightarrow>
             (case parse_group_version (sr_api_version sub) of
                Inl e \<Rightarrow> (Err e, fb, w1)
              | Inr gv \<Rightarrow>
                  (let g = kind_to_resource gv (sr_kind sub)
                   in case try_request (\<lambda>l. be_lister en l g) (GetLister g) w1 of
                        (Some e, w2) \<Rightarrow> (Err e, binding_unavailable en ''SubjectUnavailable'' e fb w2)
                      | (None, w2) \<Rightarrow>
                          (case find_referents en g fb w2 of
                             (Inl e, s) \<Rightarrow> (Err e, s)
                           | (Inr ps, fb', w3) \<Rightarrow>
                               (case mutate_referents en g m ps w3 of
                                  (Panic msg, w4) \<Rightarrow> (Panic msg, fb', w4)
                                | (Err e, w4) \<Rightarrow> (Err e, binding_unavailable en ''BindingFailed'' e fb' w4)
                                | (Ok _, w4) \<Rightarrow> (Ok (), on_binding_status (mark_binding_available (be_clock en)) fb' w4))))))"

subsection \<open>Finalizers\<close>

definition binding_gvr :: gvr where
  "binding_gvr = (fst binding_group_version, snd binding_group_version, ''gitlabbindings'')"

definition binding_finalizer :: string where
  "binding_finalizer = group_resource binding_gvr"

definition is_finalizing :: "gitlab_binding \<Rightarrow> bool" where
  "is_finalizing fb \<longleftrightarrow> om_finalizers (gb_meta fb) \<noteq> [] \<and> hd (om_finalizers (gb_meta fb)) = binding_finalizer"

definition patch_binding_finalizers ::
  "binding_env \<Rightarrow> gitlab_binding \<Rightarrow> string list \<Rightarrow> bworld \<Rightarrow> goerr option \<times> bworld" where
  "patch_binding_finalizers en fb fins =
     (let m = gb_meta fb
      in try_request (\<lambda>l. be_finalizers en l (om_namespace m) (om_name m) fins (om_resource_version m))
           (PatchBindingFinalizers (om_namespace m) (om_name m) fins (om_resource_version m)))"

definition ensure_finalizer :: "binding_env \<Rightarrow> gitlab_binding \<Rightarrow> bworld \<Rightarrow> goerr option \<times> bworld" where
  "ensure_finalizer en fb w =
     (if binding_finalizer \<in> set (om_finalizers (gb_meta fb)) then (None, w)
      else patch_binding_finalizers en fb (om_finalizers (gb_meta fb) @ [binding_finalizer]) w)"

definition remove_finalizer :: "binding_env \<Rightarrow> gitlab_binding \<Rightarrow> bworld \<Rightarrow> goerr option \<times> bworld" where
  "remove_finalizer en fb w = patch_binding_finalizers en fb (tl (om_finalizers (gb_meta fb))) w"

subsection \<open>Reconcile\<close>

definition reconcile_deletion ::
  "binding_env \<Rightarrow> gitlab_binding \<Rightarrow> bworld \<Rightarrow> unit result \<times> gitlab_binding \<times> bworld" where
  "reconcile_deletion en fb w =
     (if \<not> is_finalizing fb then (Ok (), fb, w)
      else case reconcile_subject en fb undo_mutation w of
             (Panic msg, s) \<Rightarrow> (Panic msg, s)
           | (Err e, fb1, w1) \<Rightarrow>
               (if is_not_found (Some e) \<or> is_forbidden (Some e)
                then (case remove_finalizer en fb1 w1 of (err, w2) \<Rightarrow> (as_result err, fb1, w2))
                else (Err e, fb1, w1))
           | (Ok _, fb1, w1) \<Rightarrow> (case remove_finalizer en fb1 w1 of (err, w2) \<Rightarrow> (as_result err, fb1, w2)))"

definition reconcile_live ::
  "binding_env \<Rightarrow> gitlab_binding \<Rightarrow> bworld \<Rightarrow> unit result \<times> gitlab_binding \<times> bworld" where
  "reconcile_live en fb w =
     (case on_binding_status (initialize_binding_conditions (be_clock en)) fb w of
        (fb1, w1) \<Rightarrow>
          (case ensure_finalizer en fb1 w1 of
             (Some e, w2) \<Rightarrow> (Err e, fb1, w2)
           | (None, w2) \<Rightarrow>
               (case reconcile_subject en fb1 (do_binding fb1) w2 of
                  (Ok _, fb2, w3) \<Rightarrow>
                    (Ok (), fb2\<lparr>gb_status := set_observed_generation (om_generation (gb_meta fb2)) (gb_status fb2)\<rparr>, w3)
                | (r, s) \<Rightarrow> (r, s))))"

definition reconcile_binding ::
  "binding_env \<Rightarrow> gitlab_binding \<Rightarrow> bworld \<Rightarrow> unit result \<times> gitlab_binding \<times> bworld" where
  "reconcile_binding en fb w =
     (if om_deleted (gb_meta fb) then reconcile_deletion en fb w else reconcile_live en fb w)"

definition ask_binding :: "binding_env \<Rightarrow> string \<Rightarrow> string \<Rightarrow> bworld \<Rightarrow> (goerr + gitlab_binding) \<times> bworld" where
  "ask_binding en ns n w = (be_get en (bw_log w) ns n, emit (GetBinding ns n) w)"

definition update_binding_status :: "binding_env \<Rightarrow> gitlab_binding \<Rightarrow> bworld \<Rightarrow> goerr option \<times> bworld" where
  "update_binding_status en desired w =
     (case ask_binding en (om_namespace (gb_meta desired)) (om_name (gb_meta desired)) w of
        (Inl e, w1) \<Rightarrow> (Some e, w1)
      | (Inr actual, w1) \<Rightarrow>
          (if gb_status actual = gb_status desired then (None, w1)
           else (let fu = actual\<lparr>gb_status := gb_status desired\<rparr>
                 in try_request (\<lambda>l. be_status en l fu) (UpdateBindingStatus fu) w1)))"

definition finish_binding ::
  "binding_env \<Rightarrow> gitlab_binding \<Rightarrow> unit result \<times> gitlab_binding \<times> bworld \<Rightarrow> unit result \<times> bworld" where
  "finish_binding en original out =
     (case out of (r, fb, w) \<Rightarrow>
        (case (if gb_status original = gb_status fb then (None, w) else update_binding_status en fb w) of
           (Some e, w1) \<Rightarrow>
             (Err e, emit (BindingEvent ''UpdateFailed''
                (''Failed to update status for '' @ quote (om_name (gb_meta fb)) @ '': '' @ err_text e)) w1)
         | (None, w1) \<Rightarrow>
             (case r of Err e \<Rightarrow> (Err e, emit (BindingEvent ''InternalError'' (err_text e)) w1)
              | _ \<Rightarrow> (r, w1))))"

definition base_reconcile ::
  "binding_env \<Rightarrow> (queue_key \<Rightarrow> bool) \<Rightarrow> string \<Rightarrow> bworld \<Rightarrow> unit result \<times> bworld" where
  "base_reconcile en leader key w =
     (case split_key key of
        Inl _ \<Rightarrow> (Ok (), w)
      | Inr (ns, n) \<Rightarrow>
          (if \<not> leader (ns, n) then (Err (SkipKeyErr key), w)
           else case ask_binding en ns n w of
                  (Inl e, w1) \<Rightarrow> (if is_not_found (Some e) then Ok () else Err e, w1)
                | (Inr original, w1) \<Rightarrow>
                    (case reconcile_binding en original w1 of
                       (Panic msg, _, w2) \<Rightarrow> (Panic msg, w2)
                     | out \<Rightarrow> finish_binding en original out)))"

subsection \<open>The controller\<close>

text \<open>
  What \<^verbatim>\<open>NewController\<close> sets: the \<^verbatim>\<open>Get\<close> of the lister, the function of a promotion and the handlers of the two informers.
  A namespace has no namespace of its own.
\<close>

definition binding_controller_get :: "gitlab_binding indexer \<Rightarrow> string \<Rightarrow> string \<Rightarrow> goerr + gitlab_binding" where
  "binding_controller_get s ns n = binding_namespace_get (binding_lister_namespace s ns) n"

definition binding_promote_func :: "(queue_key \<Rightarrow> string) \<Rightarrow> gitlab_binding indexer \<Rightarrow> bucket \<Rightarrow> queue_key list" where
  "binding_promote_func owner s b =
     concat (map (\<lambda>x. maybe_enqueue owner b (key_of (gb_meta x))) (binding_lister_list s Everything))"

definition on_binding_event :: "gitlab_binding informer_event \<Rightarrow> queue_key list" where
  "on_binding_event ev = enqueue (gb_meta (handled_object ev))"

definition on_namespace_event :: "object_meta informer_event \<Rightarrow> queue_key list" where
  "on_namespace_event ev = enqueue (handled_object ev)"

text \<open>\<^verbatim>\<open>ListAll\<close>: the bindings the admission webhook works with.\<close>

definition list_all_bindings :: "gitlab_binding indexer \<Rightarrow> gitlab_binding list" where
  "list_all_bindings s = binding_lister_list s Everything"

subsection \<open>Facts: the referents\<close>

lemma emit_simps [simp]:
  "bw_log (emit r w) = bw_log w @ [r]" "bw_cache (emit r w) = bw_cache w" "bw_ticks (emit r w) = bw_ticks w"
  by (simp_all add: emit_def)

lemma on_status_frame:
  assumes "on_binding_status f fb w = (fb', w')"
  shows "bw_log w' = bw_log w" "bw_cache w' = bw_cache w" "gb_meta fb' = gb_meta fb" "gb_spec fb' = gb_spec fb"
    "gb_status fb' = fst (f (gb_status fb, bw_ticks w))"
  using assms by (auto simp: on_binding_status_def split: prod.splits)

definition mutated :: "mutation \<Rightarrow> with_pod \<Rightarrow> with_pod" where
  "mutated m p = p\<lparr>wp_spec := snd (m (wp_spec p))\<rparr>"

definition patches :: "gvr \<Rightarrow> mutation \<Rightarrow> with_pod list \<Rightarrow> binding_request list" where
  "patches g m ps = map (\<lambda>p. PatchSubject g p (mutated m p)) (filter (\<lambda>p. snd (m (wp_spec p)) \<noteq> wp_spec p) ps)"

text \<open>The patches are accepted one after the other, from the log \<open>l\<close> on.\<close>

fun accepted :: "binding_env \<Rightarrow> binding_request list \<Rightarrow> binding_request list \<Rightarrow> bool" where
  "accepted en l [] = True"
| "accepted en l (PatchSubject g p q # rs) = (be_patch en l g p q = None \<and> accepted en (l @ [PatchSubject g p q]) rs)"
| "accepted en l (r # rs) = accepted en (l @ [r]) rs"

definition mutate_cache :: "mutation \<Rightarrow> with_pod list \<Rightarrow> with_pod list \<Rightarrow> with_pod list" where
  "mutate_cache m ps c = fold (\<lambda>p. map (\<lambda>q. if meta_key (wp_meta q) = meta_key (wp_meta p)
     then q\<lparr>wp_spec := snd (m (wp_spec p))\<rparr> else q)) ps c"

lemma mutate_referent_cases:
  assumes "fst (m (wp_spec p)) = Ok ()" and "mutate_referent en g m p w = (r, w')"
  shows "bw_log w' = bw_log w @ patches g m [p] \<and> bw_ticks w' = bw_ticks w \<and>
    bw_cache w' = (bw_cache w)(g := mutate_cache m [p] (bw_cache w g)) \<and> \<not> is_panic r \<and>
    (r = Ok () \<longleftrightarrow> accepted en (bw_log w) (patches g m [p]))"
proof -
  obtain ps where ps: "m (wp_spec p) = (Ok (), ps)" using assms(1) by (metis prod.collapse)
  have log: "bw_log (set_cached g p ps w) = bw_log w" by (simp add: set_cached_def)
  show ?thesis
    using assms(2) by (auto simp: mutate_referent_def ps try_request_def set_cached_def mutate_cache_def patches_def
        mutated_def is_panic_def log Let_def split: if_splits option.splits)
qed

lemma mutate_cache_append: "mutate_cache m (ps @ qs) c = mutate_cache m qs (mutate_cache m ps c)"
  by (simp add: mutate_cache_def)

lemma patches_append: "patches g m (ps @ qs) = patches g m ps @ patches g m qs"
  by (simp add: patches_def)

lemma accepted_append: "accepted en l (rs @ rs') \<longleftrightarrow> accepted en l rs \<and> accepted en (l @ rs) rs'"
  by (induction en l rs rule: accepted.induct) auto

text \<open>Every referent is mutated in the cache and patched if it changed, whichever patches are refused.\<close>

lemma mutate_referents_all:
  assumes "\<forall>p \<in> set ps. fst (m (wp_spec p)) = Ok ()" and "mutate_referents en g m ps w = (r, w')"
  shows "bw_log w' = bw_log w @ patches g m ps \<and> bw_ticks w' = bw_ticks w \<and>
    bw_cache w' = (bw_cache w)(g := mutate_cache m ps (bw_cache w g)) \<and> \<not> is_panic r \<and>
    (r = Ok () \<longleftrightarrow> accepted en (bw_log w) (patches g m ps))"
  using assms
proof (induction ps arbitrary: w r w')
  case Nil
  then show ?case by (auto simp: patches_def mutate_cache_def is_panic_def)
next
  case (Cons p ps)
  obtain q w1 where q: "mutate_referent en g m p w = (q, w1)" by (metis surj_pair)
  obtain q' w2 where q': "mutate_referents en g m ps w1 = (q', w2)" by (metis surj_pair)
  have one: "fst (m (wp_spec p)) = Ok ()" using Cons.prems(1) by simp
  note f = mutate_referent_cases [OF one q]
  have rest: "\<forall>p \<in> set ps. fst (m (wp_spec p)) = Ok ()" using Cons.prems(1) by simp
  note g = Cons.IH [OF rest q']
  have p: "patches g m (p # ps) = patches g m [p] @ patches g m ps" and
    c: "mutate_cache m (p # ps) x = mutate_cache m ps (mutate_cache m [p] x)" for x
    using patches_append [of g m "[p]" ps] mutate_cache_append [of m "[p]" ps] by simp_all
  have "w' = w2 \<and> \<not> is_panic r \<and> (r = Ok () \<longleftrightarrow> q = Ok () \<and> q' = Ok ())"
    using Cons.prems(2) q q' f g by (cases q; cases q') (auto simp: is_panic_def)
  with f g show ?case by (simp add: p c accepted_append fun_upd_def cong: if_cong)
qed

text \<open>The cache after all referents: exactly they are mutated.\<close>

definition distinct_keys :: "with_pod list \<Rightarrow> bool" where
  "distinct_keys c \<longleftrightarrow> distinct (map (meta_key \<circ> wp_meta) c)"

lemma distinct_keysD:
  "distinct_keys c \<Longrightarrow> p \<in> set c \<Longrightarrow> q \<in> set c \<Longrightarrow> meta_key (wp_meta p) = meta_key (wp_meta q) \<Longrightarrow> p = q"
  by (auto simp: distinct_keys_def distinct_map inj_on_def)

lemma mutate_cache_eq:
  assumes "distinct_keys c" and "set ps \<subseteq> set c" and "distinct ps"
  shows "mutate_cache m ps c = map (\<lambda>q. if q \<in> set ps then mutated m q else q) c"
  using assms
proof (induction ps rule: rev_induct)
  case Nil
  then show ?case by (simp add: mutate_cache_def)
next
  case (snoc p ps)
  have p: "p \<in> set c" "p \<notin> set ps" using snoc.prems by auto
  have key: "meta_key (wp_meta (if q \<in> set ps then mutated m q else q)) = meta_key (wp_meta p) \<longleftrightarrow> q = p"
    if "q \<in> set c" for q
    using distinct_keysD [OF snoc.prems(1) that p(1)] by (auto simp: mutated_def)
  have "mutate_cache m ps c = map (\<lambda>q. if q \<in> set ps then mutated m q else q) c"
    using snoc by simp
  then have "mutate_cache m (ps @ [p]) c = map (\<lambda>q. if meta_key (wp_meta q) = meta_key (wp_meta p)
      then q\<lparr>wp_spec := snd (m (wp_spec p))\<rparr> else q) (map (\<lambda>q. if q \<in> set ps then mutated m q else q) c)"
    by (simp add: mutate_cache_def)
  also have "\<dots> = map (\<lambda>q. if q \<in> set (ps @ [p]) then mutated m q else q) c"
    using key p by (auto simp: mutated_def)
  finally show ?case .
qed

subsection \<open>Facts: a subject\<close>

definition subject_gvr :: "gitlab_binding \<Rightarrow> goerr + gvr" where
  "subject_gvr fb =
     (case parse_group_version (sr_api_version (get_subject fb)) of
        Inl e \<Rightarrow> Inl e | Inr gv \<Rightarrow> Inr (kind_to_resource gv (sr_kind (get_subject fb))))"

text \<open>The objects of the cache that a subject means.\<close>

definition means :: "binding_env \<Rightarrow> gitlab_binding \<Rightarrow> object_meta \<Rightarrow> bool" where
  "means en fb om =
     (let sub = get_subject fb
      in if sr_name sub \<noteq> [] then meta_key om = sr_namespace sub @ ''/'' @ sr_name sub
         else (sr_namespace sub = [] \<or> om_namespace om = sr_namespace sub) \<and>
           (case be_selector en (sr_selector sub) of Inl _ \<Rightarrow> False | Inr sel \<Rightarrow> selector_matches sel (om_labels om)))"

definition referents :: "binding_env \<Rightarrow> gitlab_binding \<Rightarrow> with_pod list \<Rightarrow> with_pod list" where
  "referents en fb c = filter (\<lambda>p. means en fb (wp_meta p)) c"

fun side_request :: "binding_request \<Rightarrow> bool" where
  "side_request (PatchSubject _ _ _) = False"
| "side_request (PatchBindingFinalizers _ _ _ _) = False"
| "side_request _ = True"

text \<open>The log grew by requests that change neither a subject nor the finalizers.\<close>

definition aside :: "bworld \<Rightarrow> bworld \<Rightarrow> bool" where
  "aside w w' \<longleftrightarrow> (\<exists>X. bw_log w' = bw_log w @ X \<and> List.list_all side_request X) \<and> bw_cache w' = bw_cache w"

lemma aside_refl [simp, intro]: "aside w w"
  by (simp add: aside_def)

lemma aside_trans [trans]: "aside a b \<Longrightarrow> aside b c \<Longrightarrow> aside a c"
  by (auto simp: aside_def)

lemma aside_emit [simp]: "aside w (emit r w') \<longleftrightarrow> (\<exists>X. bw_log w' @ [r] = bw_log w @ X \<and> List.list_all side_request X) \<and> bw_cache w' = bw_cache w"
  by (simp add: aside_def)

lemma aside_status: "on_binding_status f fb w = (fb', w') \<Longrightarrow> aside w w'"
  using on_status_frame(1,2) by (auto simp: aside_def)

lemma label_namespace_log: "label_namespace en ns w = (e, w') \<Longrightarrow> aside w w' \<and> bw_ticks w' = bw_ticks w"
  by (auto simp: label_namespace_def try_request_def Let_def split: sum.splits if_splits)

lemma find_first_unique:
  assumes "distinct_keys c"
  shows "filter (\<lambda>p. meta_key (wp_meta p) = k) c =
    (case find (\<lambda>p. meta_key (wp_meta p) = k) c of None \<Rightarrow> [] | Some p \<Rightarrow> [p])"
  using assms
proof (induction c)
  case (Cons x c)
  have fresh: "meta_key (wp_meta y) \<noteq> meta_key (wp_meta x)" if "y \<in> set c" for y
  proof -
    have "meta_key (wp_meta x) \<notin> (meta_key \<circ> wp_meta) ` set c" using Cons.prems by (simp add: distinct_keys_def)
    with that show ?thesis by (metis comp_apply image_eqI)
  qed
  then have "meta_key (wp_meta x) = k \<Longrightarrow> filter (\<lambda>p. meta_key (wp_meta p) = k) c = []"
    by (auto simp: filter_empty_conv)
  moreover have "distinct_keys c" using Cons.prems by (simp add: distinct_keys_def)
  ultimately show ?case using Cons.IH by simp
qed simp

lemma find_referents_outcome:
  assumes dist: "distinct_keys (bw_cache w g)" and run: "find_referents en g fb w = (q, fb', w')"
  obtains (found) "q = Inr (referents en fb (bw_cache w g))" "fb' = fb" "aside w w'" "bw_ticks w' = bw_ticks w"
  | (error) e where "q = Inl e" "aside w w'" "gb_meta fb' = gb_meta fb" "gb_spec fb' = gb_spec fb"
proof (cases "sr_name (get_subject fb) \<noteq> []")
  case True
  let ?n = "sr_name (get_subject fb)" and ?ns = "sr_namespace (get_subject fb)"
  have refs: "referents en fb (bw_cache w g) = (case cached g ?ns ?n w of None \<Rightarrow> [] | Some p \<Rightarrow> [p])"
    using True find_first_unique [OF dist, of "?ns @ ''/'' @ ?n"]
    by (simp add: referents_def means_def cached_def Let_def)
  show thesis
  proof (cases "cached g ?ns ?n w")
    case None
    then have "binding_unavailable en ''SubjectMissing'' (not_found_error (group_resource g) ?n) fb w = (fb', w') \<and>
        q = Inl (not_found_error (group_resource g) ?n)"
      using run True by (simp add: find_referents_def Let_def)
    then have m: "on_binding_status (mark_binding_unavailable (be_clock en) ''SubjectMissing''
        (err_text (not_found_error (group_resource g) ?n))) fb w = (fb', w')" "q = Inl (not_found_error (group_resource g) ?n)"
      by (simp_all add: binding_unavailable_def)
    show thesis by (rule error [OF m(2) aside_status [OF m(1)] on_status_frame(3,4) [OF m(1)]])
  next
    case (Some p)
    obtain e w1 where l: "label_namespace en ?ns w = (e, w1)" by (metis surj_pair)
    note f = label_namespace_log [OF l]
    have "(q, fb', w') = (case e of Some x \<Rightarrow> (Inl x, fb, w1) | None \<Rightarrow> (Inr [p], fb, w1))"
      using run True Some l by (cases e) (simp_all add: find_referents_def Let_def)
    moreover have "referents en fb (bw_cache w g) = [p]" using refs Some by simp
    ultimately show thesis using f found error [of "the e"] by (cases e) simp_all
  qed
next
  case False
  let ?ns = "sr_namespace (get_subject fb)"
  show thesis
  proof (cases "be_selector en (sr_selector (get_subject fb))")
    case (Inl e)
    then show thesis using run False by (intro error) (auto simp: find_referents_def Let_def)
  next
    case (Inr sel)
    obtain e w1 where l: "label_namespace en ?ns w = (e, w1)" by (metis surj_pair)
    note f = label_namespace_log [OF l]
    have "referents en fb (bw_cache w g) = filter (\<lambda>p. (?ns = [] \<or> om_namespace (wp_meta p) = ?ns) \<and>
        selector_matches sel (om_labels (wp_meta p))) (bw_cache w g)"
      using False Inr by (simp add: referents_def means_def Let_def)
    moreover have "fb' = fb \<and> w' = w1 \<and> q = (case e of Some x \<Rightarrow> Inl x | None \<Rightarrow>
        Inr (filter (\<lambda>p. (?ns = [] \<or> om_namespace (wp_meta p) = ?ns) \<and>
           selector_matches sel (om_labels (wp_meta p))) (bw_cache w g)))"
      using run False Inr l by (cases e) (auto simp: find_referents_def Let_def)
    ultimately show thesis using f found error [of "the e"] by (cases e) simp_all
  qed
qed

text \<open>The cache with every object that the subject means mutated.\<close>

definition mutate_meant :: "binding_env \<Rightarrow> gitlab_binding \<Rightarrow> mutation \<Rightarrow> with_pod list \<Rightarrow> with_pod list" where
  "mutate_meant en fb m c = map (\<lambda>q. if means en fb (wp_meta q) then mutated m q else q) c"

lemma mutated_meta [simp]: "wp_meta (mutated m q) = wp_meta q"
  by (simp add: mutated_def)

lemma mutate_meant_keys [simp]: "distinct_keys (mutate_meant en fb m c) = distinct_keys c"
  by (simp add: distinct_keys_def mutate_meant_def comp_def if_distrib [of wp_meta] cong: if_cong)

lemma referents_meant: "referents en fb (mutate_meant en fb m c) = map (mutated m) (referents en fb c)"
  by (induction c) (simp_all add: referents_def mutate_meant_def)

lemma mutate_cache_meant:
  assumes "distinct_keys c"
  shows "mutate_cache m (referents en fb c) c = mutate_meant en fb m c"
proof -
  have "distinct c" using assms by (simp add: distinct_keys_def distinct_map)
  then show ?thesis
    using mutate_cache_eq [OF assms, of "referents en fb c" m] by (auto simp: referents_def mutate_meant_def)
qed

text \<open>The stages of a reconciliation of the subject: the lookups before it is found, and the status after it was mutated.\<close>

lemma reconcile_subject_lookups:
  assumes run: "reconcile_subject en fb m w = (r, fb', w')"
  obtains (failed) e where "r = Err e" "aside w w'" "gb_meta fb' = gb_meta fb" "gb_spec fb' = gb_spec fb"
  | (found) g w2 where "subject_gvr fb = Inr g" "aside w w2"
      "(r, fb', w') = (case find_referents en g fb w2 of
         (Inl e, s) \<Rightarrow> (Err e, s)
       | (Inr ps, fb', w3) \<Rightarrow>
           (case mutate_referents en g m ps w3 of
              (Panic msg, w4) \<Rightarrow> (Panic msg, fb', w4)
            | (Err e, w4) \<Rightarrow> (Err e, binding_unavailable en ''BindingFailed'' e fb' w4)
            | (Ok _, w4) \<Rightarrow> (Ok (), on_binding_status (mark_binding_available (be_clock en)) fb' w4)))"
proof -
  let ?sub = "get_subject fb"
  obtain e1 w1 where t: "try_request (\<lambda>l. be_track en l ?sub) (TrackReference ?sub) w = (e1, w1)" by (metis surj_pair)
  have a1: "aside w w1" using t by (auto simp: try_request_def)
  show thesis
  proof (cases e1)
    case (Some e)
    then show thesis using run t a1 by (intro failed) (auto simp: reconcile_subject_def Let_def)
  next
    case e1: None
    show thesis
    proof (cases "parse_group_version (sr_api_version ?sub)")
      case (Inl e)
      then show thesis using run t e1 a1 by (intro failed) (auto simp: reconcile_subject_def Let_def)
    next
      case (Inr gv)
      let ?g = "kind_to_resource gv (sr_kind ?sub)"
      obtain e2 w2 where l: "try_request (\<lambda>l. be_lister en l ?g) (GetLister ?g) w1 = (e2, w2)" by (metis surj_pair)
      have "aside w1 w2" using l by (auto simp: try_request_def)
      note a2 = aside_trans [OF a1 this]
      show thesis
      proof (cases e2)
        case (Some e)
        have "r = Err e" and m: "binding_unavailable en ''SubjectUnavailable'' e fb w2 = (fb', w')"
          using run t e1 Inr l Some by (simp_all add: reconcile_subject_def Let_def)
        then show thesis
          using failed aside_trans [OF a2 aside_status [OF m [unfolded binding_unavailable_def]]]
            on_status_frame(3,4) [OF m [unfolded binding_unavailable_def]] by blast
      next
        case None
        then show thesis using run t e1 Inr l a2
          by (intro found [of ?g w2]) (simp_all add: subject_gvr_def reconcile_subject_def Let_def)
      qed
    qed
  qed
qed

lemma mutated_status:
  assumes out: "(r, fb', w') = (case x of Panic msg \<Rightarrow> (Panic msg, fb, w)
      | Err e \<Rightarrow> (Err e, binding_unavailable en ''BindingFailed'' e fb w)
      | Ok _ \<Rightarrow> (Ok (), on_binding_status (mark_binding_available (be_clock en)) fb w))"
    and x: "\<not> is_panic x"
  shows "bw_log w' = bw_log w \<and> bw_cache w' = bw_cache w \<and> gb_meta fb' = gb_meta fb \<and> gb_spec fb' = gb_spec fb \<and>
    \<not> is_panic r \<and> (r = Ok () \<longleftrightarrow> x = Ok ()) \<and>
    (r = Ok () \<longrightarrow> gb_status fb' = fst (mark_binding_available (be_clock en) (gb_status fb, bw_ticks w)))"
proof (cases x)
  case (Ok u)
  then have "on_binding_status (mark_binding_available (be_clock en)) fb w = (fb', w')" "r = Ok ()"
    using out by simp_all
  with Ok on_status_frame show ?thesis by (metis (full_types) is_panic_def old.unit.exhaust result.distinct(4))
next
  case (Err e)
  then have "binding_unavailable en ''BindingFailed'' e fb w = (fb', w')" "r = Err e" using out by simp_all
  with Err on_status_frame show ?thesis
    by (metis binding_unavailable_def is_panic_def result.distinct(1,5))
next
  case (Panic msg)
  with x show ?thesis by (simp add: is_panic_def)
qed

lemma reconcile_subject_outcome:
  assumes dist: "\<forall>g. distinct_keys (bw_cache w g)" and sane: "\<forall>ps. fst (m ps) = Ok ()"
    and run: "reconcile_subject en fb m w = (r, fb', w')"
  obtains (early) e where "r = Err e" "aside w w'" "gb_meta fb' = gb_meta fb" "gb_spec fb' = gb_spec fb"
  | (reached) g w1 where "subject_gvr fb = Inr g" "aside w w1"
      "bw_log w' = bw_log w1 @ patches g m (referents en fb (bw_cache w g))"
      "bw_cache w' = (bw_cache w)(g := mutate_meant en fb m (bw_cache w g))"
      "gb_meta fb' = gb_meta fb" "gb_spec fb' = gb_spec fb" "\<not> is_panic r"
      "r = Ok () \<longleftrightarrow> accepted en (bw_log w1) (patches g m (referents en fb (bw_cache w g)))"
      "r = Ok () \<Longrightarrow> gb_status fb' = fst (mark_binding_available (be_clock en) (gb_status fb, bw_ticks w1))"
  using run
proof (cases rule: reconcile_subject_lookups)
  case (failed e)
  then show thesis by (rule early)
next
  case (found g w2)
  obtain q fb1 w3 where f: "find_referents en g fb w2 = (q, fb1, w3)" by (metis surj_pair)
  have c2: "bw_cache w2 = bw_cache w" using found(2) by (simp add: aside_def)
  have "distinct_keys (bw_cache w2 g)" using spec [OF dist, of g] unfolding c2 .
  then show thesis
    using f
  proof (cases rule: find_referents_outcome)
    case (error e)
    then have "r = Err e" "fb' = fb1" "w' = w3" using found(3) f by simp_all
    then show thesis using error aside_trans [OF found(2) error(2)] by (intro early) simp_all
  next
    case referents: found
    let ?ps = "referents en fb (bw_cache w g)"
    have a3: "aside w w3" by (rule aside_trans [OF found(2) referents(3)])
    then have c3: "bw_cache w3 = bw_cache w" by (simp add: aside_def)
    obtain x w4 where x: "mutate_referents en g m ?ps w3 = (x, w4)" by (metis surj_pair)
    have s: "\<forall>p \<in> set ?ps. fst (m (wp_spec p)) = Ok ()" using sane by simp
    note all = mutate_referents_all [OF s x]
    have cache: "bw_cache w4 = (bw_cache w)(g := mutate_meant en fb m (bw_cache w g))"
      using all unfolding c3 mutate_cache_meant [OF spec [OF dist, of g]] by blast
    have "(r, fb', w') = (case x of Panic msg \<Rightarrow> (Panic msg, fb, w4)
        | Err e \<Rightarrow> (Err e, binding_unavailable en ''BindingFailed'' e fb w4)
        | Ok _ \<Rightarrow> (Ok (), on_binding_status (mark_binding_available (be_clock en)) fb w4))"
      using found(3) f referents c2 x by simp
    from mutated_status [OF this] all cache c3 show thesis
      by (intro reached [OF found(1) a3]) simp_all
  qed
qed

end
