(* ===== verification/BindingProperties.thy ===== *)
theory BindingProperties
  imports BindingReconciler
begin

section \<open>What the reconciler of bindings guarantees\<close>

text \<open>
  The finalizer comes before the first change of a subject and goes after the last; a successful run has bound every
  subject; and, since the objects are changed in the cache, a patch that failed is not sent again.
\<close>

subsection \<open>Facts\<close>

lemma same_spec:
  assumes "gb_spec b = gb_spec b'"
  shows "do_binding b = do_binding b'" "get_subject b = get_subject b'" "means en b = means en b'"
    "referents en b = referents en b'" "subject_gvr b = subject_gvr b'" "mutate_meant en b = mutate_meant en b'"
proof -
  show d: "do_binding b = do_binding b'" using assms by (simp add: do_binding_def fun_eq_iff)
  show s: "get_subject b = get_subject b'" using assms by (simp add: get_subject_def)
  show m: "means en b = means en b'" by (intro ext) (simp only: means_def s)
  show "referents en b = referents en b'" using m by (simp add: referents_def fun_eq_iff)
  show "subject_gvr b = subject_gvr b'" unfolding subject_gvr_def s ..
  show "mutate_meant en b = mutate_meant en b'" using m by (simp add: mutate_meant_def fun_eq_iff)
qed

lemma do_binding_sane: "bs_access_token (gb_spec b) = Some ref \<Longrightarrow> \<forall>ps. fst (do_binding b ps) = Ok ()"
  by (simp add: do_binding_def Let_def)

lemma undo_sane: "\<forall>ps. fst (undo_mutation ps) = Ok ()"
  by (simp add: undo_mutation_def)

lemma initialized:
  assumes "on_binding_status (initialize_binding_conditions (be_clock en)) fb w = (fb1, w1)"
  shows "cond_wf binding_cond_set (bst_conditions (gb_status fb)) \<Longrightarrow> cond_wf binding_cond_set (bst_conditions (gb_status fb1))"
    and "gb_meta fb1 = gb_meta fb" "gb_spec fb1 = gb_spec fb" "bw_log w1 = bw_log w" "bw_cache w1 = bw_cache w"
proof -
  note f = on_status_frame [OF assms]
  show "gb_meta fb1 = gb_meta fb" "gb_spec fb1 = gb_spec fb" "bw_log w1 = bw_log w" "bw_cache w1 = bw_cache w"
    using f by simp_all
  assume "cond_wf binding_cond_set (bst_conditions (gb_status fb))"
  then have "cond_wf binding_cond_set (fst (bst_conditions (gb_status fb), bw_ticks w))" by simp
  note wf = initialize_conditions_wf [OF this, of "be_clock en"]
  show "cond_wf binding_cond_set (bst_conditions (gb_status fb1))"
    using wf by (simp add: f(5) initialize_binding_conditions_def manage_binding_def split: prod.split)
      (metis fst_conv)
qed

text \<open>The patch of the finalizers of a binding, and the patches of subjects in a log.\<close>

definition finalizer_patch_of :: "gitlab_binding \<Rightarrow> string list \<Rightarrow> binding_request" where
  "finalizer_patch_of fb fins =
     PatchBindingFinalizers (om_namespace (gb_meta fb)) (om_name (gb_meta fb)) fins (om_resource_version (gb_meta fb))"

definition finalizers_accepted :: "binding_env \<Rightarrow> binding_request list \<Rightarrow> gitlab_binding \<Rightarrow> string list \<Rightarrow> bool" where
  "finalizers_accepted en l fb fins \<longleftrightarrow>
     be_finalizers en l (om_namespace (gb_meta fb)) (om_name (gb_meta fb)) fins (om_resource_version (gb_meta fb)) = None"

definition new_requests :: "bworld \<Rightarrow> bworld \<Rightarrow> binding_request list" where
  "new_requests w w' = drop (length (bw_log w)) (bw_log w')"

fun is_subject_patch :: "binding_request \<Rightarrow> bool" where
  "is_subject_patch (PatchSubject _ _ _) = True"
| "is_subject_patch _ = False"

fun is_finalizer_patch :: "binding_request \<Rightarrow> bool" where
  "is_finalizer_patch (PatchBindingFinalizers _ _ _ _) = True"
| "is_finalizer_patch _ = False"

lemma side_not_patch: "side_request r \<longleftrightarrow> \<not> is_subject_patch r \<and> \<not> is_finalizer_patch r"
  by (cases r) simp_all

lemma side_filters:
  "List.list_all side_request X \<Longrightarrow> filter is_subject_patch X = [] \<and> filter is_finalizer_patch X = []"
  by (auto simp: list_all_iff filter_empty_conv side_not_patch)

lemma patches_filters [simp]:
  "filter is_subject_patch (patches g m ps) = patches g m ps" "filter is_finalizer_patch (patches g m ps) = []"
  by (auto simp: patches_def filter_id_conv filter_empty_conv)

lemma ensure_finalizer_cases:
  assumes "ensure_finalizer en fb w = (e, w')"
  obtains (present) "binding_finalizer \<in> set (om_finalizers (gb_meta fb))" "e = None" "w' = w"
  | (added) "bw_log w' = bw_log w @ [finalizer_patch_of fb (om_finalizers (gb_meta fb) @ [binding_finalizer])]"
      "bw_cache w' = bw_cache w"
      "e = None \<longleftrightarrow> finalizers_accepted en (bw_log w) fb (om_finalizers (gb_meta fb) @ [binding_finalizer])"
  using assms
  by (auto simp: ensure_finalizer_def patch_binding_finalizers_def try_request_def Let_def
      finalizer_patch_of_def finalizers_accepted_def split: if_splits)

text \<open>A run of a live binding: the finalizer, then the subject.\<close>

lemma live_finalizer:
  assumes i: "on_binding_status (initialize_binding_conditions (be_clock en)) fb w = (fb1, w1)"
    and n: "ensure_finalizer en fb1 w1 = (e, w2)"
  shows "e = Some x \<Longrightarrow> new_requests w w2 = [finalizer_patch_of fb (om_finalizers (gb_meta fb) @ [binding_finalizer])] \<and>
      bw_cache w2 = bw_cache w"
    and "e = None \<Longrightarrow> \<exists>fs. (fs = [] \<and> binding_finalizer \<in> set (om_finalizers (gb_meta fb)) \<or>
       fs = [finalizer_patch_of fb (om_finalizers (gb_meta fb) @ [binding_finalizer])] \<and>
         finalizers_accepted en (bw_log w) fb (om_finalizers (gb_meta fb) @ [binding_finalizer])) \<and>
       bw_log w2 = bw_log w @ fs \<and> bw_cache w2 = bw_cache w"
proof -
  note f = initialized [OF i]
  have patch: "finalizer_patch_of fb1 fins = finalizer_patch_of fb fins"
    "finalizers_accepted en l fb1 fins = finalizers_accepted en l fb fins" for fins l
    using f by (simp_all add: finalizer_patch_of_def finalizers_accepted_def)
  show "new_requests w w2 = [finalizer_patch_of fb (om_finalizers (gb_meta fb) @ [binding_finalizer])] \<and>
      bw_cache w2 = bw_cache w" if "e = Some x"
  proof -
    from n have "bw_log w2 = bw_log w1 @ [finalizer_patch_of fb1 (om_finalizers (gb_meta fb1) @ [binding_finalizer])] \<and>
        bw_cache w2 = bw_cache w1"
      by (cases rule: ensure_finalizer_cases) (use that in auto)
    with f patch show ?thesis by (simp add: new_requests_def)
  qed
  show "\<exists>fs. (fs = [] \<and> binding_finalizer \<in> set (om_finalizers (gb_meta fb)) \<or>
       fs = [finalizer_patch_of fb (om_finalizers (gb_meta fb) @ [binding_finalizer])] \<and>
         finalizers_accepted en (bw_log w) fb (om_finalizers (gb_meta fb) @ [binding_finalizer])) \<and>
       bw_log w2 = bw_log w @ fs \<and> bw_cache w2 = bw_cache w" if "e = None"
    using n
  proof (cases rule: ensure_finalizer_cases)
    case present
    with f show ?thesis by (intro exI [of _ "[]"]) simp
  next
    case added
    with f that patch show ?thesis
      by (intro exI [of _ "[finalizer_patch_of fb (om_finalizers (gb_meta fb) @ [binding_finalizer])]"]) simp
  qed
qed

lemma live_subject:
  assumes token: "bs_access_token (gb_spec fb) = Some ref" and dist: "\<forall>g. distinct_keys (bw_cache w g)"
    and wf: "cond_wf binding_cond_set (bst_conditions (gb_status fb))"
    and q: "reconcile_subject en fb (do_binding fb) w = (q, fb2, w2)"
  shows "\<exists>X. bw_log w2 = bw_log w @ X \<and>
      (List.list_all side_request X \<and> bw_cache w2 = bw_cache w \<and> (\<exists>e. q = Err e) \<or>
       (\<exists>g X'. subject_gvr fb = Inr g \<and> X = X' @ patches g (do_binding fb) (referents en fb (bw_cache w g)) \<and>
          List.list_all side_request X' \<and>
          bw_cache w2 = (bw_cache w)(g := mutate_meant en fb (do_binding fb) (bw_cache w g)) \<and> \<not> is_panic q \<and>
          (q = Ok () \<longleftrightarrow> accepted en (bw_log w @ X') (patches g (do_binding fb) (referents en fb (bw_cache w g)))) \<and>
          (q = Ok () \<longrightarrow> status_of (bst_conditions (gb_status fb2)) condition_ready = Some CTrue \<and> gb_meta fb2 = gb_meta fb)))"
proof -
  have s: "\<forall>ps. fst (do_binding fb ps) = Ok ()" using do_binding_sane [of fb ref] token by simp
  from dist s q show ?thesis
  proof (cases rule: reconcile_subject_outcome)
    case (early x)
    then show ?thesis by (auto simp: aside_def)
  next
    case (reached g w4)
    then obtain X' where X': "bw_log w4 = bw_log w @ X'" "List.list_all side_request X'"
      by (auto simp: aside_def)
    have "status_of (bst_conditions (gb_status fb2)) condition_ready = Some CTrue" if "q = Ok ()"
      using reached(9) [OF that] mark_available_condition [OF wf, of "be_clock en" "bw_ticks w4"] by simp
    with reached X' show ?thesis
      by (intro exI [of _ "X' @ patches g (do_binding fb) (referents en fb (bw_cache w g))"]) auto
  qed
qed

lemma reconcile_live_cases:
  assumes token: "bs_access_token (gb_spec fb) = Some ref" and dist: "\<forall>g. distinct_keys (bw_cache w g)"
    and wf: "cond_wf binding_cond_set (bst_conditions (gb_status fb))" and run: "reconcile_live en fb w = (r, fb', w')"
  obtains (refused) e where "r = Err e" "bw_cache w' = bw_cache w"
      "new_requests w w' = [finalizer_patch_of fb (om_finalizers (gb_meta fb) @ [binding_finalizer])]"
  | (guarded) fs X where
      "fs = [] \<and> binding_finalizer \<in> set (om_finalizers (gb_meta fb)) \<or>
       fs = [finalizer_patch_of fb (om_finalizers (gb_meta fb) @ [binding_finalizer])] \<and>
         finalizers_accepted en (bw_log w) fb (om_finalizers (gb_meta fb) @ [binding_finalizer])"
      "bw_log w' = bw_log w @ fs @ X"
      "List.list_all side_request X \<and> bw_cache w' = bw_cache w \<and> (\<exists>e. r = Err e) \<or>
       (\<exists>g X'. subject_gvr fb = Inr g \<and> X = X' @ patches g (do_binding fb) (referents en fb (bw_cache w g)) \<and>
          List.list_all side_request X' \<and>
          bw_cache w' = (bw_cache w)(g := mutate_meant en fb (do_binding fb) (bw_cache w g)) \<and> \<not> is_panic r \<and>
          (r = Ok () \<longleftrightarrow> accepted en (bw_log w @ fs @ X') (patches g (do_binding fb) (referents en fb (bw_cache w g)))) \<and>
          (r = Ok () \<longrightarrow> status_of (bst_conditions (gb_status fb')) condition_ready = Some CTrue \<and>
             bst_observed_generation (gb_status fb') = om_generation (gb_meta fb)))"
proof -
  obtain fb1 w1 where i: "on_binding_status (initialize_binding_conditions (be_clock en)) fb w = (fb1, w1)"
    by (metis surj_pair)
  note f = initialized [OF i]
  obtain e w2 where n: "ensure_finalizer en fb1 w1 = (e, w2)" by (metis surj_pair)
  show thesis
  proof (cases e)
    case (Some x)
    with live_finalizer(1) [OF i n Some] run i n show thesis
      by (intro refused [of x]) (auto simp: reconcile_live_def new_requests_def)
  next
    case None
    from live_finalizer(2) [OF i n None] obtain fs where fs: "fs = [] \<and> binding_finalizer \<in> set (om_finalizers (gb_meta fb)) \<or>
       fs = [finalizer_patch_of fb (om_finalizers (gb_meta fb) @ [binding_finalizer])] \<and>
         finalizers_accepted en (bw_log w) fb (om_finalizers (gb_meta fb) @ [binding_finalizer])"
      "bw_log w2 = bw_log w @ fs" "bw_cache w2 = bw_cache w" by blast
    obtain q fb2 w3 where q: "reconcile_subject en fb1 (do_binding fb1) w2 = (q, fb2, w3)" by (metis surj_pair)
    have out: "w' = w3 \<and> r = q \<and> (q = Ok () \<longrightarrow>
        fb' = fb2\<lparr>gb_status := set_observed_generation (om_generation (gb_meta fb2)) (gb_status fb2)\<rparr>)"
      using run i n None q by (cases q) (auto simp: reconcile_live_def)
    note same = same_spec [OF f(3)]
    have "bs_access_token (gb_spec fb1) = Some ref" "\<forall>g. distinct_keys (bw_cache w2 g)"
      using token dist f(3) fs(3) by simp_all
    from live_subject [OF this f(1) [OF wf] q] obtain X where X: "bw_log w3 = bw_log w2 @ X"
      "List.list_all side_request X \<and> bw_cache w3 = bw_cache w2 \<and> (\<exists>e. q = Err e) \<or>
       (\<exists>g X'. subject_gvr fb = Inr g \<and> X = X' @ patches g (do_binding fb) (referents en fb (bw_cache w2 g)) \<and>
          List.list_all side_request X' \<and>
          bw_cache w3 = (bw_cache w2)(g := mutate_meant en fb (do_binding fb) (bw_cache w2 g)) \<and> \<not> is_panic q \<and>
          (q = Ok () \<longleftrightarrow> accepted en (bw_log w2 @ X') (patches g (do_binding fb) (referents en fb (bw_cache w2 g)))) \<and>
          (q = Ok () \<longrightarrow> status_of (bst_conditions (gb_status fb2)) condition_ready = Some CTrue \<and> gb_meta fb2 = gb_meta fb))"
      unfolding same f(2) by blast
    show thesis
      by (rule guarded [OF fs(1), of X]) (use X fs(2,3) out in \<open>auto simp: set_observed_generation_def\<close>)
  qed
qed

text \<open>A run of a binding that is being deleted.\<close>

lemma reconcile_deletion_cases:
  assumes dist: "\<forall>g. distinct_keys (bw_cache w g)" and run: "reconcile_deletion en fb w = (r, fb', w')"
  obtains (not_ours) "\<not> is_finalizing fb" "r = Ok ()" "w' = w"
  | (ours) X rm where "is_finalizing fb" "bw_log w' = bw_log w @ X @ rm"
      "List.list_all side_request X \<and> bw_cache w' = bw_cache w \<and>
         (rm = [] \<or> (\<exists>e. fst (reconcile_subject en fb undo_mutation w) = Err e \<and>
            (is_not_found (Some e) \<or> is_forbidden (Some e)))) \<or>
       (\<exists>g X'. subject_gvr fb = Inr g \<and> X = X' @ patches g undo_mutation (referents en fb (bw_cache w g)) \<and>
          List.list_all side_request X' \<and> bw_cache w' = (bw_cache w)(g := mutate_meant en fb undo_mutation (bw_cache w g)) \<and>
          (rm = [] \<or> accepted en (bw_log w @ X') (patches g undo_mutation (referents en fb (bw_cache w g))) \<or>
           (\<exists>e. fst (reconcile_subject en fb undo_mutation w) = Err e \<and> (is_not_found (Some e) \<or> is_forbidden (Some e)))))"
      "rm = [] \<and> (\<exists>e. r = Err e) \<or>
       rm = [finalizer_patch_of fb (tl (om_finalizers (gb_meta fb)))] \<and>
         (r = Ok () \<longleftrightarrow> finalizers_accepted en (bw_log w @ X) fb (tl (om_finalizers (gb_meta fb)))) \<and> \<not> is_panic r"
proof (cases "is_finalizing fb")
  case False
  then show thesis using run by (intro not_ours) (auto simp: reconcile_deletion_def)
next
  case True
  obtain q fb1 w1 where q: "reconcile_subject en fb undo_mutation w = (q, fb1, w1)" by (metis surj_pair)
  let ?fins = "tl (om_finalizers (gb_meta fb))"
  define go where "go \<longleftrightarrow> q = Ok () \<or> (\<exists>e. q = Err e \<and> (is_not_found (Some e) \<or> is_forbidden (Some e)))"
  have meta: "gb_meta fb1 = gb_meta fb" and np: "\<not> is_panic q"
    using dist undo_sane q by (cases rule: reconcile_subject_outcome; auto simp: is_panic_def)+
  have out: "if go then bw_log w' = bw_log w1 @ [finalizer_patch_of fb ?fins] \<and> bw_cache w' = bw_cache w1 \<and> \<not> is_panic r \<and>
        (r = Ok () \<longleftrightarrow> finalizers_accepted en (bw_log w1) fb ?fins)
      else w' = w1 \<and> (\<exists>e. r = Err e)"
    using run True q meta np
    by (cases q) (auto simp: reconcile_deletion_def go_def remove_finalizer_def patch_binding_finalizers_def try_request_def
        finalizer_patch_of_def finalizers_accepted_def as_result_def is_panic_def Let_def split: if_splits option.splits)
  define rm where "rm = (if go then [finalizer_patch_of fb ?fins] else [])"
  from dist undo_sane q show thesis
  proof (cases rule: reconcile_subject_outcome)
    case (early e)
    then obtain X where X: "bw_log w1 = bw_log w @ X" "List.list_all side_request X" "bw_cache w1 = bw_cache w"
      by (auto simp: aside_def)
    show thesis
      by (rule ours [OF True, of X rm]) (use out X early q in \<open>auto simp: rm_def go_def split: if_splits\<close>)
  next
    case (reached g w4)
    then obtain X' where X': "bw_log w4 = bw_log w @ X'" "List.list_all side_request X'" by (auto simp: aside_def)
    show thesis
    proof (rule ours [OF True, of "X' @ patches g undo_mutation (referents en fb (bw_cache w g))" rm], goal_cases)
      case 1
      show ?case using out X'(1) reached(3) by (simp add: rm_def split: if_splits)
    next
      case 2
      have "bw_cache w' = (bw_cache w)(g := mutate_meant en fb undo_mutation (bw_cache w g))"
        using out reached(4) by (simp split: if_splits)
      moreover have "rm = [] \<or> accepted en (bw_log w @ X') (patches g undo_mutation (referents en fb (bw_cache w g))) \<or>
           (\<exists>e. fst (reconcile_subject en fb undo_mutation w) = Err e \<and> (is_not_found (Some e) \<or> is_forbidden (Some e)))"
        using reached(8) X'(1) q by (auto simp: rm_def go_def)
      ultimately show ?case using reached(1) X'(2) by blast
    next
      case 3
      show ?case using out X'(1) reached(3) by (simp add: rm_def split: if_splits)
    qed
  qed
qed

text \<open>What a run does to the subjects.\<close>

definition mutation_of :: "gitlab_binding \<Rightarrow> mutation" where
  "mutation_of fb = (if om_deleted (gb_meta fb) then undo_mutation else do_binding fb)"

lemma new_requests_append: "bw_log w' = bw_log w @ X \<Longrightarrow> new_requests w w' = X"
  by (simp add: new_requests_def)

lemma finalizer_patch_filters [simp]:
  "is_finalizer_patch (finalizer_patch_of fb fins)" "\<not> is_subject_patch (finalizer_patch_of fb fins)"
  by (simp_all add: finalizer_patch_of_def)

lemma reconcile_binding_subject:
  assumes token: "bs_access_token (gb_spec fb) = Some ref" and dist: "\<forall>g. distinct_keys (bw_cache w g)"
    and wf: "cond_wf binding_cond_set (bst_conditions (gb_status fb))" and run: "reconcile_binding en fb w = (r, fb', w')"
  obtains (untouched) "filter is_subject_patch (new_requests w w') = []" "bw_cache w' = bw_cache w"
  | (touched) g where "subject_gvr fb = Inr g"
      "filter is_subject_patch (new_requests w w') = patches g (mutation_of fb) (referents en fb (bw_cache w g))"
      "bw_cache w' = (bw_cache w)(g := mutate_meant en fb (mutation_of fb) (bw_cache w g))"
proof (cases "om_deleted (gb_meta fb)")
  case True
  then have m: "mutation_of fb = undo_mutation" and "reconcile_deletion en fb w = (r, fb', w')"
    using run by (simp_all add: mutation_of_def reconcile_binding_def)
  from dist this(2) show thesis
  proof (cases rule: reconcile_deletion_cases)
    case not_ours
    then show thesis by (intro untouched) (simp_all add: new_requests_def)
  next
    case (ours X rm)
    have rm: "filter is_subject_patch rm = []" using ours(4) by auto
    from ours(3) consider "List.list_all side_request X" "bw_cache w' = bw_cache w"
      | g X' where "subject_gvr fb = Inr g" "X = X' @ patches g (mutation_of fb) (referents en fb (bw_cache w g))"
        "List.list_all side_request X'" "bw_cache w' = (bw_cache w)(g := mutate_meant en fb (mutation_of fb) (bw_cache w g))"
      unfolding m by metis
    then show thesis
    proof cases
      case 1
      with ours(2) rm show thesis by (intro untouched) (simp_all add: new_requests_append side_filters)
    next
      case (2 g X')
      with ours(2) rm show thesis by (intro touched) (simp_all add: new_requests_append side_filters)
    qed
  qed
next
  case False
  then have m: "mutation_of fb = do_binding fb" and l: "reconcile_live en fb w = (r, fb', w')"
    using run by (simp_all add: mutation_of_def reconcile_binding_def)
  from token dist wf l show thesis
  proof (cases rule: reconcile_live_cases)
    case (refused e)
    then show thesis by (intro untouched) simp_all
  next
    case (guarded fs X)
    have fs: "filter is_subject_patch fs = []" using guarded(1) by auto
    from guarded(3) consider "List.list_all side_request X" "bw_cache w' = bw_cache w"
      | g X' where "subject_gvr fb = Inr g" "X = X' @ patches g (mutation_of fb) (referents en fb (bw_cache w g))"
        "List.list_all side_request X'" "bw_cache w' = (bw_cache w)(g := mutate_meant en fb (mutation_of fb) (bw_cache w g))"
      unfolding m by metis
    then show thesis
    proof cases
      case 1
      with guarded(2) fs show thesis by (intro untouched) (simp_all add: new_requests_append side_filters)
    next
      case (2 g X')
      with guarded(2) fs show thesis by (intro touched) (simp_all add: new_requests_append side_filters)
    qed
  qed
qed

lemma mutation_of_idem: "single_use p \<Longrightarrow> snd (mutation_of fb (snd (mutation_of fb p))) = snd (mutation_of fb p)"
  by (simp add: mutation_of_def undo_mutation_def psb.bind_bind psb.unbind_unbind)

text \<open>Objects that are mutated already are not patched.\<close>

lemma patches_again:
  assumes "\<forall>p \<in> set c. single_use (wp_spec p)"
  shows "patches g (mutation_of fb) (referents en fb (mutate_meant en fb (mutation_of fb) c)) = []"
    and "mutate_meant en fb (mutation_of fb) (mutate_meant en fb (mutation_of fb) c) = mutate_meant en fb (mutation_of fb) c"
proof -
  have idem: "mutated (mutation_of fb) (mutated (mutation_of fb) p) = mutated (mutation_of fb) p" if "p \<in> set c" for p
    using assms that by (simp add: mutated_def mutation_of_idem)
  show "patches g (mutation_of fb) (referents en fb (mutate_meant en fb (mutation_of fb) c)) = []"
    using assms by (auto simp: patches_def mutate_meant_def referents_def mutated_def mutation_of_idem filter_empty_conv)
  show "mutate_meant en fb (mutation_of fb) (mutate_meant en fb (mutation_of fb) c) = mutate_meant en fb (mutation_of fb) c"
    using idem by (auto simp: mutate_meant_def)
qed

subsection \<open>A concrete cluster\<close>

definition sim_gvr :: gvr where "sim_gvr = (''apps'', ''v1'', ''deployments'')"

definition sim_deployment :: with_pod where
  "sim_deployment =
     \<lparr>wp_meta = (gb_meta (sim_binding None))\<lparr>om_name := ''d''\<rparr>, wp_spec = sim_pod\<rparr>"

definition sim_bworld :: bworld where
  "sim_bworld = \<lparr>bw_cache = (\<lambda>g. if g = sim_gvr then [sim_deployment] else []), bw_log = [], bw_ticks = []\<rparr>"

text \<open>A cluster that answers everything, and patches of subjects with \<open>answer\<close>.\<close>

definition sim_benv :: "goerr option \<Rightarrow> binding_env" where
  "sim_benv answer =
     \<lparr>be_track = \<lambda>l s. None, be_lister = \<lambda>l g. None,
      be_get = \<lambda>l ns n. Inl (not_found_error ''gitlabbindings.bindings.knative.dev'' n),
      be_namespace = \<lambda>l ns. Inr [(binding_include_label, ''true'')], be_label = \<lambda>l ns. None,
      be_finalizers = \<lambda>l ns n fs rv. None, be_patch = \<lambda>l g p q. answer, be_status = \<lambda>l b. None,
      be_selector = \<lambda>s. Inr Everything, be_clock = sim_env\<rparr>"

definition sim_live :: gitlab_binding where
  "sim_live = (sim_binding (Some sim_token))\<lparr>gb_spec := (gb_spec (sim_binding (Some sim_token)))
     \<lparr>bs_subject := (bs_subject (gb_spec (sim_binding None)))\<lparr>sr_namespace := ''ns''\<rparr>\<rparr>\<rparr>"

definition sim_dying :: gitlab_binding where
  "sim_dying = sim_live\<lparr>gb_meta := (gb_meta sim_live)\<lparr>om_deleted := True, om_finalizers := [binding_finalizer]\<rparr>\<rparr>"

lemma sim_live_facts:
  "bs_access_token (gb_spec sim_live) = Some sim_token" "bs_access_token (gb_spec sim_dying) = Some sim_token"
  "cond_wf binding_cond_set (bst_conditions (gb_status sim_live))"
  "cond_wf binding_cond_set (bst_conditions (gb_status sim_dying))"
  "\<not> om_deleted (gb_meta sim_live)" "om_deleted (gb_meta sim_dying)"
  by (simp_all add: sim_live_def sim_dying_def sim_binding_def)

lemma sim_bworld_keys: "\<forall>g. distinct_keys (bw_cache sim_bworld g)"
  by (simp add: sim_bworld_def distinct_keys_def)

subsection \<open>Properties\<close>

text \<open>
  C18: a successful run for a live binding has bound every object its subject means: it has sent, for each of them that
  was not bound yet, the patch from the object to what \<^verbatim>\<open>Do\<close> makes of it, and no other; all of these were accepted;
  the cache holds them bound, each with the volume of the token. The binding is Ready, and its observed
  generation is its generation.
\<close>

theorem binding_reconciles_subjects:
  assumes token: "bs_access_token (gb_spec fb) = Some ref" and live: "\<not> om_deleted (gb_meta fb)"
    and dist: "\<forall>g. distinct_keys (bw_cache w g)" and wf: "cond_wf binding_cond_set (bst_conditions (gb_status fb))"
    and run: "reconcile_binding en fb w = (Ok (), fb', w')"
  shows "\<exists>g X. subject_gvr fb = Inr g \<and>
    filter is_subject_patch (new_requests w w') = patches g (do_binding fb) (referents en fb (bw_cache w g)) \<and>
    filter is_subject_patch X = [] \<and>
    accepted en (bw_log w @ X) (patches g (do_binding fb) (referents en fb (bw_cache w g))) \<and>
    bw_cache w' = (bw_cache w)(g := mutate_meant en fb (do_binding fb) (bw_cache w g)) \<and>
    (\<forall>p \<in> set (bw_cache w' g). means en fb (wp_meta p) \<longrightarrow> token_volume ref \<in> set (ps_volumes (wp_spec p))) \<and>
    status_of (bst_conditions (gb_status fb')) condition_ready = Some CTrue \<and>
    bst_observed_generation (gb_status fb') = om_generation (gb_meta fb)"
proof -
  have l: "reconcile_live en fb w = (Ok (), fb', w')" using run live by (simp add: reconcile_binding_def)
  from token dist wf l show ?thesis
  proof (cases rule: reconcile_live_cases)
    case (guarded fs X)
    have fs: "filter is_subject_patch fs = []" using guarded(1) by auto
    from guarded(3) obtain g X' where g: "subject_gvr fb = Inr g"
        "X = X' @ patches g (do_binding fb) (referents en fb (bw_cache w g))" "List.list_all side_request X'"
        "bw_cache w' = (bw_cache w)(g := mutate_meant en fb (do_binding fb) (bw_cache w g))"
        "accepted en (bw_log w @ fs @ X') (patches g (do_binding fb) (referents en fb (bw_cache w g)))"
        "status_of (bst_conditions (gb_status fb')) condition_ready = Some CTrue"
        "bst_observed_generation (gb_status fb') = om_generation (gb_meta fb)"
      by auto
    have "token_volume ref \<in> set (ps_volumes (wp_spec p))" if "p \<in> set (bw_cache w' g)" "means en fb (wp_meta p)" for p
      using that g(4) token by (auto simp: mutate_meant_def mutated_def do_binding_def Let_def)
    with g guarded(2) fs show ?thesis
      by (intro exI [of _ g] exI [of _ "fs @ X'"]) (simp add: new_requests_append side_filters)
  qed simp
qed

theorem binding_reconciles_subjects_witness:
  "\<exists>w'. reconcile_binding (sim_benv None) sim_live sim_bworld = (Ok (), w') \<and>
     filter is_subject_patch (new_requests sim_bworld (snd w')) =
       [PatchSubject sim_gvr sim_deployment (sim_deployment\<lparr>wp_spec := snd (do_binding sim_live sim_pod)\<rparr>)]"
proof -
  obtain r fb' w' where run: "reconcile_binding (sim_benv None) sim_live sim_bworld = (r, fb', w')" by (metis surj_pair)
  have "fst (reconcile_binding (sim_benv None) sim_live sim_bworld) = Ok ()" by code_simp
  with run have r: "r = Ok ()" by simp
  obtain g where g: "subject_gvr sim_live = Inr g"
      "filter is_subject_patch (new_requests sim_bworld w') =
         patches g (do_binding sim_live) (referents (sim_benv None) sim_live (bw_cache sim_bworld g))"
    using binding_reconciles_subjects [OF sim_live_facts(1,5) sim_bworld_keys sim_live_facts(3) run [unfolded r]] by blast
  have "subject_gvr sim_live = Inr sim_gvr" by code_simp
  with g have "g = sim_gvr" by simp
  moreover have "patches sim_gvr (do_binding sim_live) (referents (sim_benv None) sim_live (bw_cache sim_bworld sim_gvr)) =
      [PatchSubject sim_gvr sim_deployment (sim_deployment\<lparr>wp_spec := snd (do_binding sim_live sim_pod)\<rparr>)]"
    by code_simp
  ultimately show ?thesis using run r g(2) by simp
qed

text \<open>
  The subjects as the API server has them, by resource and key, and what the accepted patches of a log make of them.
  \<open>diff p q\<close> is the effect of the JSON patch from \<open>p\<close> to \<open>q\<close> on the pod spec that the server has.
\<close>

type_synonym cluster = "gvr \<Rightarrow> string \<Rightarrow> pod_spec option"

fun cluster_after ::
  "(with_pod \<Rightarrow> with_pod \<Rightarrow> pod_spec \<Rightarrow> pod_spec) \<Rightarrow> binding_env \<Rightarrow> binding_request list \<Rightarrow> binding_request list \<Rightarrow> cluster \<Rightarrow>
   cluster" where
  "cluster_after diff en l [] C = C"
| "cluster_after diff en l (PatchSubject g p q # rs) C =
     cluster_after diff en (l @ [PatchSubject g p q]) rs
       (if be_patch en l g p q = None
        then C(g := (C g)(meta_key (wp_meta p) := map_option (diff p q) (C g (meta_key (wp_meta p))))) else C)"
| "cluster_after diff en l (r # rs) C = cluster_after diff en (l @ [r]) rs C"

lemma cluster_after_append: "cluster_after diff en l (rs @ rs') C = cluster_after diff en (l @ rs) rs' (cluster_after diff en l rs C)"
  by (induction diff en l rs C rule: cluster_after.induct) simp_all

lemma cluster_after_aside: "filter is_subject_patch rs = [] \<Longrightarrow> cluster_after diff en l rs C = C"
  by (induction diff en l rs C rule: cluster_after.induct) simp_all

text \<open>Accepted patches of objects that the server has as the cache has them leave them mutated.\<close>

lemma cluster_after_patches:
  assumes "\<forall>p q. diff p q (wp_spec p) = wp_spec q" and "distinct_keys ps"
    and "\<forall>p \<in> set ps. C g (meta_key (wp_meta p)) = Some (wp_spec p)" and "accepted en l (patches g m ps)"
  shows "(\<forall>p \<in> set ps. cluster_after diff en l (patches g m ps) C g (meta_key (wp_meta p)) = Some (snd (m (wp_spec p)))) \<and>
    (\<forall>k. k \<notin> (meta_key \<circ> wp_meta) ` set ps \<longrightarrow> cluster_after diff en l (patches g m ps) C g k = C g k)"
  using assms(2-4)
proof (induction ps arbitrary: l C)
  case Nil
  then show ?case by (simp add: patches_def)
next
  case (Cons p ps)
  let ?k = "meta_key (wp_meta p)" and ?rq = "PatchSubject g p (mutated m p)"
  have fresh: "?k \<notin> (meta_key \<circ> wp_meta) ` set ps" and d: "distinct_keys ps"
    using Cons.prems(1) by (simp_all add: distinct_keys_def)
  have here: "C g ?k = Some (wp_spec p)" using Cons.prems(2) by simp
  show ?case
  proof (cases "snd (m (wp_spec p)) = wp_spec p")
    case True
    then have same: "patches g m (p # ps) = patches g m ps" by (simp add: patches_def)
    have "accepted en l (patches g m ps)" "\<forall>p \<in> set ps. C g (meta_key (wp_meta p)) = Some (wp_spec p)"
      using Cons.prems(2,3) same by simp_all
    with Cons.IH [OF d] fresh here True show ?thesis unfolding same by auto
  next
    case False
    define C' where "C' = C(g := (C g)(?k := Some (snd (m (wp_spec p)))))"
    have C': "C' g ?k = Some (snd (m (wp_spec p)))" "\<And>k. k \<noteq> ?k \<Longrightarrow> C' g k = C g k" by (simp_all add: C'_def)
    have ps: "patches g m (p # ps) = ?rq # patches g m ps" using False by (simp add: patches_def)
    have acc: "be_patch en l g p (mutated m p) = None" "accepted en (l @ [?rq]) (patches g m ps)"
      using Cons.prems(3) ps by simp_all
    have "\<forall>q \<in> set ps. C' g (meta_key (wp_meta q)) = Some (wp_spec q)"
      using Cons.prems(2) fresh by (auto simp: image_iff C')
    note ih = Cons.IH [where C = C', OF d this acc(2)]
    have "diff p (mutated m p) (wp_spec p) = snd (m (wp_spec p))" using assms(1) by (simp add: mutated_def)
    then have "cluster_after diff en l (patches g m (p # ps)) C = cluster_after diff en (l @ [?rq]) (patches g m ps) C'"
      using acc(1) here by (simp add: ps C'_def)
    with ih fresh C' show ?thesis by auto
  qed
qed

lemma referents_keys: "distinct_keys c \<Longrightarrow> distinct_keys (referents en fb c)"
  by (simp add: distinct_keys_def referents_def distinct_map_filter)

text \<open>
  C19: a live binding changes no subject before its finalizer is stored: the finalizer was there, or the run begins with
  its patch and the patch was accepted. The finalizer of a binding that is being deleted is removed only when it is
  the first of the list, by the last request of the run, and only after every object the subject means was undone and
  all the patches were accepted, or after an error that says the subject is missing or out of reach. So, when the cache
  agreed with the API server at the beginning of the run, the server has every one of these objects undone at its end.
  (The patches are computed from the cache; when an earlier patch failed the two may differ, as the next property shows.)
\<close>

theorem binding_finalizer_guards:
  assumes token: "bs_access_token (gb_spec fb) = Some ref" and dist: "\<forall>g. distinct_keys (bw_cache w g)"
    and wf: "cond_wf binding_cond_set (bst_conditions (gb_status fb))" and run: "reconcile_binding en fb w = (r, fb', w')"
    and server: "\<forall>p q. diff p q (wp_spec p) = wp_spec q"
    and agree: "\<forall>g. \<forall>p \<in> set (bw_cache w g). C g (meta_key (wp_meta p)) = Some (wp_spec p)"
  defines "X \<equiv> new_requests w w'" and "fins \<equiv> om_finalizers (gb_meta fb)"
  shows "if \<not> om_deleted (gb_meta fb)
    then filter is_subject_patch X = [] \<or> binding_finalizer \<in> set fins \<or>
      hd X = finalizer_patch_of fb (fins @ [binding_finalizer]) \<and>
      finalizers_accepted en (bw_log w) fb (fins @ [binding_finalizer])
    else filter is_finalizer_patch X = [] \<or>
      is_finalizing fb \<and> filter is_finalizer_patch X = [finalizer_patch_of fb (tl fins)] \<and>
      last X = finalizer_patch_of fb (tl fins) \<and>
      ((\<exists>e. fst (reconcile_subject en fb undo_mutation w) = Err e \<and> (is_not_found (Some e) \<or> is_forbidden (Some e))) \<or>
       (\<exists>g Y. subject_gvr fb = Inr g \<and> filter is_subject_patch Y = [] \<and>
          accepted en (bw_log w @ Y) (patches g undo_mutation (referents en fb (bw_cache w g))) \<and>
          bw_cache w' = (bw_cache w)(g := mutate_meant en fb undo_mutation (bw_cache w g)) \<and>
          (\<forall>p \<in> set (bw_cache w g). means en fb (wp_meta p) \<longrightarrow>
             cluster_after diff en (bw_log w) X C g (meta_key (wp_meta p)) = Some (undo_binding (wp_spec p)))))"
proof (cases "om_deleted (gb_meta fb)")
  case False
  then have l: "reconcile_live en fb w = (r, fb', w')" using run by (simp add: reconcile_binding_def)
  from token dist wf l show ?thesis
  proof (cases rule: reconcile_live_cases)
    case (refused e)
    with False show ?thesis by (simp add: X_def fins_def)
  next
    case (guarded fs Y)
    with False show ?thesis by (auto simp: X_def fins_def new_requests_append)
  qed
next
  case True
  then have d: "reconcile_deletion en fb w = (r, fb', w')" using run by (simp add: reconcile_binding_def)
  from dist d show ?thesis
  proof (cases rule: reconcile_deletion_cases)
    case not_ours
    then show ?thesis using True by (simp add: X_def new_requests_def)
  next
    case (ours Y rm)
    have X: "X = Y @ rm" using ours(2) by (simp add: X_def new_requests_append)
    have Y: "filter is_finalizer_patch Y = []" using ours(3) by (auto simp: side_filters)
    show ?thesis
    proof (cases "rm = []")
      case True
      with X Y \<open>om_deleted (gb_meta fb)\<close> show ?thesis by simp
    next
      case False
      with ours(4) have rm: "rm = [finalizer_patch_of fb (tl fins)]" by (simp add: fins_def)
      consider (gone) "\<exists>e. fst (reconcile_subject en fb undo_mutation w) = Err e \<and> (is_not_found (Some e) \<or> is_forbidden (Some e))"
        | (undone) g X' where "subject_gvr fb = Inr g" "Y = X' @ patches g undo_mutation (referents en fb (bw_cache w g))"
          "List.list_all side_request X'" "accepted en (bw_log w @ X') (patches g undo_mutation (referents en fb (bw_cache w g)))"
          "bw_cache w' = (bw_cache w)(g := mutate_meant en fb undo_mutation (bw_cache w g))"
        using ours(3) False by metis
      then show ?thesis
      proof cases
        case gone
        with True ours(1) X Y rm show ?thesis by simp
      next
        case (undone g X')
        let ?refs = "referents en fb (bw_cache w g)"
        have side: "filter is_subject_patch X' = []" using undone(3) side_filters by blast
        have k: "distinct_keys ?refs" using dist referents_keys by blast
        have a: "\<forall>p \<in> set ?refs. C g (meta_key (wp_meta p)) = Some (wp_spec p)"
          using spec [OF agree, of g] by (simp add: referents_def)
        have "cluster_after diff en (bw_log w) X C = cluster_after diff en (bw_log w @ X') (patches g undo_mutation ?refs) C"
          unfolding X undone(2) rm
          by (simp add: cluster_after_append cluster_after_aside [OF side]) (simp add: finalizer_patch_of_def)
        with cluster_after_patches [where diff = diff and C = C and g = g, OF server k a undone(4)]
        have "\<forall>p \<in> set (bw_cache w g). means en fb (wp_meta p) \<longrightarrow>
             cluster_after diff en (bw_log w) X C g (meta_key (wp_meta p)) = Some (undo_binding (wp_spec p))"
          by (simp add: referents_def undo_mutation_def)
        with side undone(1,4,5) True ours(1) X Y rm show ?thesis by auto
      qed
    qed
  qed
qed

text \<open>A bound deployment, which the server has as the cache has it; a patch puts the new pod spec in the place of the old.\<close>

definition sim_bound :: with_pod where
  "sim_bound = sim_deployment\<lparr>wp_spec := snd (do_binding sim_live sim_pod)\<rparr>"

definition sim_bound_world :: bworld where
  "sim_bound_world = \<lparr>bw_cache = (\<lambda>g. if g = sim_gvr then [sim_bound] else []), bw_log = [], bw_ticks = []\<rparr>"

definition sim_cluster :: cluster where
  "sim_cluster g k = map_option wp_spec (find (\<lambda>p. meta_key (wp_meta p) = k) (bw_cache sim_bound_world g))"

theorem binding_finalizer_guards_witness:
  "case reconcile_binding (sim_benv None) sim_dying sim_bound_world of (r, fb', w') \<Rightarrow>
     is_finalizing sim_dying \<and> last (new_requests sim_bound_world w') = finalizer_patch_of sim_dying [] \<and>
     cluster_after (\<lambda>_ q _. wp_spec q) (sim_benv None) [] (new_requests sim_bound_world w') sim_cluster sim_gvr
       (meta_key (wp_meta sim_bound)) = Some (undo_binding (wp_spec sim_bound))"
proof -
  obtain r fb' w' where run: "reconcile_binding (sim_benv None) sim_dying sim_bound_world = (r, fb', w')" by (metis surj_pair)
  have "filter is_finalizer_patch (new_requests sim_bound_world
      (snd (snd (reconcile_binding (sim_benv None) sim_dying sim_bound_world)))) \<noteq> []"
    "fst (reconcile_subject (sim_benv None) sim_dying undo_mutation sim_bound_world) = Ok ()"
    "subject_gvr sim_dying = Inr sim_gvr" "means (sim_benv None) sim_dying (wp_meta sim_bound)" by code_simp+
  with run have ne: "filter is_finalizer_patch (new_requests sim_bound_world w') \<noteq> []"
    "fst (reconcile_subject (sim_benv None) sim_dying undo_mutation sim_bound_world) = Ok ()"
    "subject_gvr sim_dying = Inr sim_gvr" "means (sim_benv None) sim_dying (wp_meta sim_bound)" by simp_all
  have fins: "tl (om_finalizers (gb_meta sim_dying)) = []" by (simp add: sim_dying_def)
  have keys: "\<forall>g. distinct_keys (bw_cache sim_bound_world g)" by (simp add: sim_bound_world_def distinct_keys_def)
  have agree: "\<forall>g. \<forall>p \<in> set (bw_cache sim_bound_world g). sim_cluster g (meta_key (wp_meta p)) = Some (wp_spec p)"
    by (simp add: sim_cluster_def sim_bound_world_def)
  have server: "\<forall>p q. (\<lambda>_ q _. wp_spec q) p q (wp_spec p) = wp_spec q" by simp
  have here: "sim_bound \<in> set (bw_cache sim_bound_world sim_gvr)" "bw_log sim_bound_world = []"
    by (simp_all add: sim_bound_world_def)
  from binding_finalizer_guards [OF sim_live_facts(2) keys sim_live_facts(4) run server agree]
    ne sim_live_facts(6) fins here
  show ?thesis unfolding run prod.case by (simp only: if_False if_True not_True_eq_False simp_thms fins result.distinct) auto
qed

text \<open>
  C20: a patch that failed is forgotten. A run that changes subjects changes them in the cache, whether or not the API
  server accepts the patches. As long as no event replaces the objects of the cache, a later run for the same binding,
  live or being deleted, sends no patch for any subject: a live binding becomes Ready without its subjects being bound, and
  a deleted one loses its finalizer without their being undone.
\<close>

theorem binding_failed_patch_forgotten:
  assumes token: "bs_access_token (gb_spec fb) = Some ref" and dist: "\<forall>g. distinct_keys (bw_cache w g)"
    and wf: "cond_wf binding_cond_set (bst_conditions (gb_status fb))" "cond_wf binding_cond_set (bst_conditions (gb_status fb2))"
    and single: "\<forall>g. \<forall>p \<in> set (bw_cache w g). single_use (wp_spec p)"
    and run: "reconcile_binding en fb w = (r1, fb1, w1)"
    and touched: "filter is_subject_patch (new_requests w w1) \<noteq> []"
    and same: "gb_spec fb2 = gb_spec fb" "om_deleted (gb_meta fb2) = om_deleted (gb_meta fb)" "bw_cache w2 = bw_cache w1"
    and again: "reconcile_binding en fb2 w2 = (r2, fb3, w3)"
  shows "filter is_subject_patch (new_requests w2 w3) = [] \<and> bw_cache w3 = bw_cache w2 \<and>
    (r2 = Ok () \<and> \<not> om_deleted (gb_meta fb2) \<longrightarrow>
       status_of (bst_conditions (gb_status fb3)) condition_ready = Some CTrue)"
proof -
  have m: "mutation_of fb2 = mutation_of fb" using same same_spec(1) [OF same(1)] by (simp add: mutation_of_def)
  note s = same_spec [OF same(1)]
  from token dist wf(1) run obtain g where g: "subject_gvr fb = Inr g"
      "bw_cache w1 = (bw_cache w)(g := mutate_meant en fb (mutation_of fb) (bw_cache w g))"
    by (cases rule: reconcile_binding_subject) (use touched in auto)
  have c: "bw_cache w2 g = mutate_meant en fb (mutation_of fb) (bw_cache w g)" using same(3) g(2) by simp
  have "distinct_keys (bw_cache w2 g')" for g'
    using spec [OF dist, of g'] same(3) g(2) by (cases "g' = g") simp_all
  then have d2: "\<forall>g. distinct_keys (bw_cache w2 g)" by blast
  have single_g: "\<forall>p \<in> set (bw_cache w g). single_use (wp_spec p)" using single by blast
  have t2: "bs_access_token (gb_spec fb2) = Some ref" using token same(1) by simp
  have quiet: "filter is_subject_patch (new_requests w2 w3) = [] \<and> bw_cache w3 = bw_cache w2"
    using t2 d2 wf(2) again
  proof (cases rule: reconcile_binding_subject)
    case (touched g')
    then have "g' = g" using g(1) s(5) by simp
    with touched c show ?thesis
      unfolding m s by (simp add: patches_again [OF single_g] fun_upd_idem)
  qed simp
  have "status_of (bst_conditions (gb_status fb3)) condition_ready = Some CTrue"
    if "r2 = Ok ()" "\<not> om_deleted (gb_meta fb2)"
  proof -
    have l: "reconcile_live en fb2 w2 = (r2, fb3, w3)" using again that(2) by (simp add: reconcile_binding_def)
    from t2 d2 wf(2) l show ?thesis
      by (cases rule: reconcile_live_cases) (use that in auto)
  qed
  with quiet show ?thesis by blast
qed

text \<open>Every patch is refused: the first run fails, the second one succeeds without a patch.\<close>

theorem binding_failed_patch_forgotten_witness:
  "case reconcile_binding (sim_benv (Some (ErrText ''timeout''))) sim_live sim_bworld of (r1, fb1, w1) \<Rightarrow>
     case reconcile_binding (sim_benv (Some (ErrText ''timeout''))) sim_live w1 of (r2, fb2, w2) \<Rightarrow>
       r1 \<noteq> Ok () \<and> r2 = Ok () \<and> filter is_subject_patch (new_requests w1 w2) = [] \<and>
       status_of (bst_conditions (gb_status fb2)) condition_ready = Some CTrue"
proof -
  let ?en = "sim_benv (Some (ErrText ''timeout''))"
  obtain r1 fb1 w1 where run: "reconcile_binding ?en sim_live sim_bworld = (r1, fb1, w1)" by (metis surj_pair)
  obtain r2 fb2 w2 where again: "reconcile_binding ?en sim_live w1 = (r2, fb2, w2)" by (metis surj_pair)
  have "filter is_subject_patch (new_requests sim_bworld (snd (snd (reconcile_binding ?en sim_live sim_bworld)))) \<noteq> []"
    "fst (reconcile_binding ?en sim_live sim_bworld) \<noteq> Ok ()"
    "fst (reconcile_binding ?en sim_live (snd (snd (reconcile_binding ?en sim_live sim_bworld)))) = Ok ()"
    by code_simp+
  then have e: "filter is_subject_patch (new_requests sim_bworld w1) \<noteq> []" "r1 \<noteq> Ok ()" "r2 = Ok ()"
    using run again by simp_all
  have single: "\<forall>g. \<forall>p \<in> set (bw_cache sim_bworld g). single_use (wp_spec p)"
    using sim_pod_single by (simp add: sim_bworld_def sim_deployment_def)
  from binding_failed_patch_forgotten [OF sim_live_facts(1) sim_bworld_keys sim_live_facts(3,3) single run e(1) refl refl refl again]
    e run again sim_live_facts(5)
  show ?thesis by simp
qed

text \<open>
  The handler of namespace events does nothing. \<^verbatim>\<open>NewController\<close> enqueues the namespace itself, a key without a
  namespace; the run for it finds no binding under that key, whatever bindings the cache holds, and returns. So no binding is
  reconciled because its namespace changed, for instance because it lost the label of its selection.
\<close>

theorem namespace_event_no_effect:
  assumes cache: "\<forall>e \<in> set evs. namespaced (gb_meta (event_object e))"
      "s = foldl (apply_event gb_meta) (empty_indexer True) evs"
    and get: "be_get en = (\<lambda>l. binding_controller_get s)"
    and ns: "om_namespace (handled_object ev) = []" "CHR ''/'' \<notin> set (om_name (handled_object ev))"
  shows "map (\<lambda>k. base_reconcile en leader (safe_key k) w) (on_namespace_event ev) =
    [if leader ([], om_name (handled_object ev)) then (Ok (), emit (GetBinding [] (om_name (handled_object ev))) w)
     else (Err (SkipKeyErr (om_name (handled_object ev))), w)]"
proof -
  let ?n = "om_name (handled_object ev)"
  have st: "stores gb_meta (foldl (spec_event gb_meta) (\<lambda>_. None) evs) s"
    unfolding cache(2) by (rule stores_events [OF cache(1) stores_empty])
  have "foldl (spec_event gb_meta) (\<lambda>_. None) evs ([], ?n) = None"
  proof (rule ccontr)
    assume "\<not> ?thesis"
    then obtain x where x: "foldl (spec_event gb_meta) (\<lambda>_. None) evs ([], ?n) = Some x" by blast
    with st have "map_of (ix_items s) (''/'' @ ?n) = Some x" by (simp add: stores_def)
    then have "namespaced (gb_meta x)" using st by (auto simp: stores_def indexer_wf_def)
    moreover have "full_name (gb_meta x) = ([], ?n)" by (rule stores_key [OF st x])
    ultimately show False by (simp add: namespaced_def full_name_def)
  qed
  then have "binding_controller_get s [] ?n = Inl (not_found_error (binding_group_resource ''gitlabbinding'') ?n)"
    using stores_get [OF st] by (simp add: binding_controller_get_def binding_namespace_get_def binding_lister_namespace_def)
  then show ?thesis
    using ns get by (simp add: on_namespace_event_def enqueue_def safe_key_def base_reconcile_def split_key_def ask_binding_def)
qed

theorem namespace_event_no_effect_witness:
  "map (\<lambda>k. base_reconcile ((sim_benv None)\<lparr>be_get := \<lambda>l. binding_controller_get
        (foldl (apply_event gb_meta) (empty_indexer True) [Put sim_live])\<rparr>) (\<lambda>_. True) (safe_key k) sim_bworld)
     (on_namespace_event (Added (sample_object [] ''ns''))) = [(Ok (), emit (GetBinding [] ''ns'') sim_bworld)]"
proof -
  have "\<forall>e \<in> set [Put sim_live]. namespaced (gb_meta (event_object e))"
    by (simp add: sim_live_def sim_binding_def namespaced_def)
  from namespace_event_no_effect [OF this refl, of "(sim_benv None)\<lparr>be_get := \<lambda>l. binding_controller_get
        (foldl (apply_event gb_meta) (empty_indexer True) [Put sim_live])\<rparr>" "Added (sample_object [] ''ns'')" "\<lambda>_. True" sim_bworld]
  show ?thesis by (simp add: sample_object_def del: foldl_Cons)
qed

end
