(* ===== verification/Admission.thy ===== *)
theory Admission
  imports BindingProperties "HOL-Library.Multiset"
begin

section \<open>The admission webhook of bindings\<close>

text \<open>
  The other half of \<^verbatim>\<open>psbinding\<close>: the webhook that \<^verbatim>\<open>NewGitLabBindingWebhook\<close> of \<^verbatim>\<open>cmd/webhook/main.go\<close> installs. It
  keeps an index from subjects to bindings, rebuilt from \<^verbatim>\<open>binding.ListAll\<close>, and binds the objects that are
  created or updated before they are stored (\<^verbatim>\<open>webhook/psbinding/index.go\<close> and \<^verbatim>\<open>Admit\<close> of \<^verbatim>\<open>psbinding.go\<close>).
  The theory WebhookConfig programs the webhook configuration.
\<close>

type_synonym exact_key = "string \<times> string \<times> string \<times> string"
type_synonym inexact_key = "string \<times> string \<times> string"

text \<open>The two reverse indices, as the lists of their entries in the order they were added.\<close>

record binding_index =
  bi_exact :: "(exact_key \<times> gitlab_binding) list"
  bi_inexact :: "(inexact_key \<times> selector \<times> gitlab_binding) list"

definition empty_index :: binding_index where
  "empty_index = \<lparr>bi_exact = [], bi_inexact = []\<rparr>"

definition associate :: "exact_key \<Rightarrow> gitlab_binding \<Rightarrow> binding_index \<Rightarrow> binding_index" where
  "associate k fb ix = ix\<lparr>bi_exact := bi_exact ix @ [(k, fb)]\<rparr>"

definition associate_selection :: "inexact_key \<Rightarrow> selector \<Rightarrow> gitlab_binding \<Rightarrow> binding_index \<Rightarrow> binding_index" where
  "associate_selection k sel fb ix = ix\<lparr>bi_inexact := bi_inexact ix @ [(k, sel, fb)]\<rparr>"

definition exact_get :: "binding_index \<Rightarrow> exact_key \<Rightarrow> gitlab_binding list" where
  "exact_get ix k = map snd (filter (\<lambda>(k', _). k' = k) (bi_exact ix))"

definition inexact_get :: "binding_index \<Rightarrow> inexact_key \<Rightarrow> (string \<times> string) list \<Rightarrow> gitlab_binding list" where
  "inexact_get ix k ls = map (snd \<circ> snd) (filter (\<lambda>(k', sel, _). k' = k \<and> selector_matches sel ls) (bi_inexact ix))"

definition look_up :: "binding_index \<Rightarrow> exact_key \<Rightarrow> (string \<times> string) list \<Rightarrow> gitlab_binding list" where
  "look_up ix k ls = (case k of (g, kd, ns, n) \<Rightarrow> exact_get ix k @ inexact_get ix (g, kd, ns) ls)"

text \<open>
  The loop of \<^verbatim>\<open>reconcileMutatingWebhook\<close> that builds the index; an error of any binding leaves the old index in place.
\<close>

fun build_index ::
  "(string option \<Rightarrow> goerr + selector) \<Rightarrow> gitlab_binding list \<Rightarrow> binding_index \<Rightarrow> goerr + binding_index" where
  "build_index sel [] ix = Inr ix"
| "build_index sel (fb # fbs) ix =
     (let ref = get_subject fb
      in case parse_group_version (sr_api_version ref) of
           Inl e \<Rightarrow> Inl e
         | Inr gv \<Rightarrow>
             (if sr_name ref \<noteq> []
              then build_index sel fbs (associate (fst gv, sr_kind ref, sr_namespace ref, sr_name ref) fb ix)
              else (case sel (sr_selector ref) of
                      Inl e \<Rightarrow> Inl e
                    | Inr s \<Rightarrow> build_index sel fbs (associate_selection (fst gv, sr_kind ref, sr_namespace ref) s fb ix))))"

definition rebuild_index ::
  "(string option \<Rightarrow> goerr + selector) \<Rightarrow> gitlab_binding list \<Rightarrow> binding_index \<Rightarrow> goerr option \<times> binding_index" where
  "rebuild_index sel fbs old =
     (case build_index sel fbs empty_index of Inl e \<Rightarrow> (Some e, old) | Inr ix \<Rightarrow> (None, ix))"

subsection \<open>Admit\<close>

datatype operation = OpCreate | OpUpdate | OpDelete | OpConnect

record admission_request =
  ar_operation :: operation
  ar_group :: string
  ar_kind :: string
  ar_namespace :: string
  ar_object :: string

text \<open>A patch is the pair of the objects it is computed from.\<close>

datatype admission_response = Allowed "(with_pod \<times> with_pod) option" | Denied string

definition admit_mutation :: "gitlab_binding \<Rightarrow> mutation" where
  "admit_mutation fb = (if om_deleted (gb_meta fb) then undo_mutation else do_binding fb)"

fun apply_bindings :: "gitlab_binding list \<Rightarrow> pod_spec \<Rightarrow> pod_spec result" where
  "apply_bindings [] ps = Ok ps"
| "apply_bindings (fb # fbs) ps =
     (case admit_mutation fb ps of
        (Ok _, ps') \<Rightarrow> apply_bindings fbs ps'
      | (Err e, _) \<Rightarrow> Err e
      | (Panic msg, _) \<Rightarrow> Panic msg)"

definition admit ::
  "(string \<Rightarrow> goerr + with_pod) \<Rightarrow> binding_index \<Rightarrow> admission_request \<Rightarrow> admission_response result" where
  "admit decode ix rq =
     (if ar_operation rq \<notin> {OpCreate, OpUpdate} then Ok (Allowed None)
      else case decode (ar_object rq) of
             Inl e \<Rightarrow> Ok (Denied (''unable to decode object: '' @ err_text e))
           | Inr orig \<Rightarrow>
               (case look_up ix (ar_group rq, ar_kind rq, ar_namespace rq, om_name (wp_meta orig)) (om_labels (wp_meta orig)) of
                  [] \<Rightarrow> Ok (Allowed None)
                | fbs \<Rightarrow>
                    (case apply_bindings fbs (wp_spec orig) of
                       Ok ps \<Rightarrow> Ok (Allowed (Some (orig, orig\<lparr>wp_spec := ps\<rparr>)))
                     | Err e \<Rightarrow> Err e
                     | Panic msg \<Rightarrow> Panic msg)))"

text \<open>\<^verbatim>\<open>GITLAB_BINDING_SELECTION_MODE\<close>: which objects the webhook is called for, by the label of namespace and object.\<close>

datatype selection_mode = ExclusionSelector | InclusionSelector

definition selection_of_env :: "string \<Rightarrow> selection_mode" where
  "selection_of_env v = (if v = ''inclusion'' then InclusionSelector else ExclusionSelector)"

definition selects :: "selection_mode \<Rightarrow> (string \<times> string) list \<Rightarrow> bool" where
  "selects mode ls =
     (case mode of
        ExclusionSelector \<Rightarrow> map_of ls binding_exclude_label \<noteq> Some ''true''
      | InclusionSelector \<Rightarrow> map_of ls binding_include_label = Some ''true'')"

subsection \<open>Facts\<close>

lemma admit_mutation_eq: "admit_mutation = mutation_of"
  by (simp add: fun_eq_iff admit_mutation_def mutation_of_def)

text \<open>What the index of a list of bindings answers.\<close>

definition subject_group_kind :: "gitlab_binding \<Rightarrow> (string \<times> string) option" where
  "subject_group_kind fb =
     (case parse_group_version (sr_api_version (get_subject fb)) of
        Inl _ \<Rightarrow> None | Inr gv \<Rightarrow> Some (fst gv, sr_kind (get_subject fb)))"

definition indexed_under ::
  "(string option \<Rightarrow> goerr + selector) \<Rightarrow> exact_key \<Rightarrow> (string \<times> string) list \<Rightarrow> gitlab_binding \<Rightarrow> bool" where
  "indexed_under sel k ls fb =
     (case k of (g, kd, ns, n) \<Rightarrow>
        subject_group_kind fb = Some (g, kd) \<and> sr_namespace (get_subject fb) = ns \<and>
        (if sr_name (get_subject fb) \<noteq> [] then sr_name (get_subject fb) = n
         else case sel (sr_selector (get_subject fb)) of Inl _ \<Rightarrow> False | Inr s \<Rightarrow> selector_matches s ls))"

text \<open>The order of an answer: the bindings that name the object, then those that select it, each in the order they were indexed.\<close>

definition matches_in_order ::
  "(gitlab_binding \<Rightarrow> bool) \<Rightarrow> gitlab_binding list \<Rightarrow> gitlab_binding list" where
  "matches_in_order P fbs =
     filter (\<lambda>fb. P fb \<and> sr_name (get_subject fb) \<noteq> []) fbs @ filter (\<lambda>fb. P fb \<and> sr_name (get_subject fb) = []) fbs"

lemma matches_in_order_set [simp]: "set (matches_in_order P fbs) = {fb \<in> set fbs. P fb}"
  by (auto simp: matches_in_order_def)

lemma matches_in_order_cong:
  assumes "\<And>fb. fb \<in> set fbs \<Longrightarrow> P fb \<longleftrightarrow> Q fb"
  shows "matches_in_order P fbs = matches_in_order Q fbs"
  using assms by (simp add: matches_in_order_def cong: filter_cong)

lemma build_index_get:
  "build_index sel fbs ix = Inr ix' \<Longrightarrow>
   exact_get ix' (g, kd, ns, n) = exact_get ix (g, kd, ns, n) @
     filter (\<lambda>fb. indexed_under sel (g, kd, ns, n) ls fb \<and> sr_name (get_subject fb) \<noteq> []) fbs \<and>
   inexact_get ix' (g, kd, ns) ls = inexact_get ix (g, kd, ns) ls @
     filter (\<lambda>fb. indexed_under sel (g, kd, ns, n) ls fb \<and> sr_name (get_subject fb) = []) fbs"
proof (induction sel fbs ix arbitrary: ix' rule: build_index.induct)
  case (2 sel fb fbs ix)
  obtain gv where gv: "parse_group_version (sr_api_version (get_subject fb)) = Inr gv"
    using "2.prems" by (auto simp: Let_def split: sum.splits)
  have gk: "subject_group_kind fb = Some (fst gv, sr_kind (get_subject fb))" using gv by (simp add: subject_group_kind_def)
  show ?case
  proof (cases "sr_name (get_subject fb) \<noteq> []")
    case True
    let ?ix = "associate (fst gv, sr_kind (get_subject fb), sr_namespace (get_subject fb), sr_name (get_subject fb)) fb ix"
    have "build_index sel fbs ?ix = Inr ix'" using "2.prems" gv True by (simp add: Let_def)
    note ih = "2.IH"(1) [OF refl gv True this]
    show ?thesis unfolding ih [THEN conjunct1] ih [THEN conjunct2]
      using True gk by (auto simp: exact_get_def inexact_get_def associate_def indexed_under_def)
  next
    case False
    then obtain s where s: "sel (sr_selector (get_subject fb)) = Inr s"
      using "2.prems" gv by (auto simp: Let_def split: sum.splits)
    let ?ix = "associate_selection (fst gv, sr_kind (get_subject fb), sr_namespace (get_subject fb)) s fb ix"
    have "build_index sel fbs ?ix = Inr ix'" using "2.prems" gv False s by (simp add: Let_def)
    note ih = "2.IH"(2) [OF refl gv False s this]
    show ?thesis unfolding ih [THEN conjunct1] ih [THEN conjunct2]
      using False gk s by (auto simp: exact_get_def inexact_get_def associate_selection_def indexed_under_def)
  qed
qed simp

lemma look_up_build:
  "build_index sel fbs empty_index = Inr ix \<Longrightarrow> look_up ix k ls = matches_in_order (indexed_under sel k ls) fbs"
proof (cases k)
  case (fields g kd ns n)
  assume "build_index sel fbs empty_index = Inr ix"
  from build_index_get [OF this, of g kd ns n ls] show ?thesis
    by (simp add: fields look_up_def matches_in_order_def exact_get_def [of empty_index] inexact_get_def [of empty_index])
      (simp add: empty_index_def)
qed

text \<open>For a namespaced object, a binding that names a namespace is indexed under it exactly if the reconciler means it.\<close>

lemma indexed_means:
  assumes om: "namespaced om" and ns: "sr_namespace (get_subject fb) \<noteq> []"
  shows "indexed_under (be_selector en) (g, kd, om_namespace om, om_name om) (om_labels om) fb \<longleftrightarrow>
    subject_group_kind fb = Some (g, kd) \<and> means en fb om"
proof -
  have "meta_key om = sr_namespace (get_subject fb) @ ''/'' @ sr_name (get_subject fb) \<longleftrightarrow>
      om_namespace om = sr_namespace (get_subject fb) \<and> om_name om = sr_name (get_subject fb)"
    using key_inj [of "om_namespace om" "om_name om"] om by (auto simp: namespaced_key namespaced_def)
  then show ?thesis using ns by (auto simp: indexed_under_def means_def Let_def)
qed

text \<open>Bindings applied one after the other: the last one decides.\<close>

lemma apply_bindings_last:
  assumes "single_use ps" and "\<forall>fb \<in> set (fbs @ [fb]). om_deleted (gb_meta fb) \<or> bs_access_token (gb_spec fb) \<noteq> None"
  shows "apply_bindings (fbs @ [fb]) ps = Ok (snd (mutation_of fb ps))"
  using assms
proof (induction fbs arbitrary: ps)
  case Nil
  then have "fst (mutation_of fb ps) = Ok ()"
    by (auto simp: mutation_of_def undo_mutation_def do_binding_def Let_def)
  then show ?case by (cases "mutation_of fb ps") (simp add: admit_mutation_eq)
next
  case (Cons x fbs)
  have ok: "fst (mutation_of x ps) = Ok ()"
    using Cons.prems by (auto simp: mutation_of_def undo_mutation_def do_binding_def Let_def)
  have single: "single_use (snd (mutation_of x ps))"
    using Cons.prems(1) by (simp add: mutation_of_def undo_mutation_def psb.bind_inv psb.unbind_inv)
  have last: "snd (mutation_of fb (snd (mutation_of x ps))) = snd (mutation_of fb ps)"
    using Cons.prems(1)
    by (simp add: mutation_of_def undo_mutation_def psb.bind_bind psb.bind_unbind psb.unbind_bind psb.unbind_unbind)
  have "apply_bindings ((x # fbs) @ [fb]) ps = apply_bindings (fbs @ [fb]) (snd (mutation_of x ps))"
    using ok by (cases "mutation_of x ps") (simp add: admit_mutation_eq)
  also have "\<dots> = Ok (snd (mutation_of fb ps))"
    using Cons.IH [OF single] Cons.prems(2) last by simp
  finally show ?case .
qed

subsection \<open>Property\<close>

text \<open>
  C21: the webhook and the reconciler agree. For a namespaced object that uses the volume's name at most once, and bindings
  that name a namespace, the webhook finds exactly the bindings of the cache whose subject is of the object's group and
  kind and means it, the ones that name the object before the ones that select it, in the order the cache listed them. If
  there is none the object is admitted as it is; otherwise it is admitted with what the last of them makes of it: what the
  reconciler of that binding would patch it to, so that after it nothing is left to patch.
\<close>

theorem admission_agrees:
  assumes listed: "mset bs = mset (list_all_bindings s)"
    and built: "build_index (be_selector en) bs empty_index = Inr ix"
    and rq: "ar_operation rq \<in> {OpCreate, OpUpdate}" "decode (ar_object rq) = Inr p" "ar_namespace rq = om_namespace (wp_meta p)"
    and p: "namespaced (wp_meta p)" "single_use (wp_spec p)"
    and fbs: "\<forall>fb \<in> set (list_all_bindings s). sr_namespace (get_subject fb) \<noteq> [] \<and> bs_access_token (gb_spec fb) \<noteq> None"
  defines "found \<equiv> matches_in_order (\<lambda>fb. subject_group_kind fb = Some (ar_group rq, ar_kind rq) \<and> means en fb (wp_meta p)) bs"
  shows "set found = {fb \<in> set (list_all_bindings s). subject_group_kind fb = Some (ar_group rq, ar_kind rq) \<and> means en fb (wp_meta p)} \<and>
    admit decode ix rq = Ok (Allowed (if found = [] then None else Some (p, mutated (mutation_of (last found)) p))) \<and>
    (\<forall>g. patches g (mutation_of (last found)) [mutated (mutation_of (last found)) p] = [])"
proof -
  let ?l = "look_up ix (ar_group rq, ar_kind rq, ar_namespace rq, om_name (wp_meta p)) (om_labels (wp_meta p))"
  have bs: "set bs = set (list_all_bindings s)" using listed by (metis set_mset_mset)
  have same: "indexed_under (be_selector en) (ar_group rq, ar_kind rq, om_namespace (wp_meta p), om_name (wp_meta p))
        (om_labels (wp_meta p)) fb
      \<longleftrightarrow> subject_group_kind fb = Some (ar_group rq, ar_kind rq) \<and> means en fb (wp_meta p)" if "fb \<in> set bs" for fb
    using indexed_means [OF p(1)] fbs bs that by simp
  have l: "?l = found"
    unfolding look_up_build [OF built] found_def rq(3) by (rule matches_in_order_cong) (rule same)
  have "admit decode ix rq = Ok (Allowed (if found = [] then None else Some (p, mutated (mutation_of (last found)) p)))"
  proof (cases "found = []")
    case True
    with l rq show ?thesis by (simp add: admit_def)
  next
    case False
    then obtain fbs' fb where f: "found = fbs' @ [fb]" by (metis append_butlast_last_id)
    have "set found \<subseteq> set (list_all_bindings s)" using bs by (auto simp: found_def)
    then have "\<forall>x \<in> set (fbs' @ [fb]). om_deleted (gb_meta x) \<or> bs_access_token (gb_spec x) \<noteq> None"
      using f fbs by auto
    note last = apply_bindings_last [OF p(2) this]
    show ?thesis using rq l f last by (auto simp: admit_def mutated_def split: list.split)
  qed
  moreover have "patches g (mutation_of fb) [mutated (mutation_of fb) p] = []" for g fb
    using p(2) by (simp add: patches_def mutated_def mutation_of_idem)
  ultimately show ?thesis using bs by (auto simp: found_def)
qed

definition sim_admission :: admission_request where
  "sim_admission = \<lparr>ar_operation = OpCreate, ar_group = ''apps'', ar_kind = ''Deployment'', ar_namespace = ''ns'', ar_object = ''{}''\<rparr>"

theorem admission_agrees_witness:
  "\<exists>ix. build_index (\<lambda>_. Inr Everything) (list_all_bindings (indexer_add gb_meta sim_live (empty_indexer True))) empty_index = Inr ix \<and>
     admit (\<lambda>_. Inr sim_deployment) ix sim_admission =
       Ok (Allowed (Some (sim_deployment, mutated (do_binding sim_live) sim_deployment)))"
proof -
  let ?s = "indexer_add gb_meta sim_live (empty_indexer True)" and ?en = "sim_benv None"
  let ?ix = "associate (''apps'', ''Deployment'', ''ns'', ''d'') sim_live empty_index"
  have all: "list_all_bindings ?s = [sim_live]"
    by (simp add: list_all_bindings_def binding_lister_list_def lister_list_def list_all_def store_list_def
        indexer_add_def store_update_def empty_indexer_def)
  have sub: "get_subject sim_live = \<lparr>sr_api_version = ''apps/v1'', sr_kind = ''Deployment'', sr_namespace = ''ns'',
      sr_name = ''d'', sr_selector = None\<rparr>"
    by (simp add: sim_live_def sim_binding_def get_subject_def)
  have gv: "parse_group_version ''apps/v1'' = Inr (''apps'', ''v1'')" by code_simp
  have built: "build_index (be_selector ?en) (list_all_bindings ?s) empty_index = Inr ?ix"
    by (simp add: all sub gv Let_def)
  have m: "namespaced (wp_meta sim_deployment)" "single_use (wp_spec sim_deployment)"
    using sim_pod_single by (simp_all add: sim_deployment_def sim_binding_def namespaced_def)
  have found: "matches_in_order (\<lambda>fb. subject_group_kind fb = Some (ar_group sim_admission, ar_kind sim_admission) \<and>
      means ?en fb (wp_meta sim_deployment)) [sim_live] = [sim_live]"
    by (simp add: matches_in_order_def subject_group_kind_def sub gv sim_admission_def means_def sim_deployment_def
        sim_binding_def meta_key_def)
  have "ar_operation sim_admission \<in> {OpCreate, OpUpdate}" "ar_namespace sim_admission = om_namespace (wp_meta sim_deployment)"
    by (simp_all add: sim_admission_def sim_deployment_def sim_binding_def)
  from admission_agrees [OF refl built this(1) _ this(2) m, of "\<lambda>_. Inr sim_deployment", unfolded all found]
  have "admit (\<lambda>_. Inr sim_deployment) ?ix sim_admission =
      Ok (Allowed (Some (sim_deployment, mutated (mutation_of sim_live) sim_deployment)))"
    by (simp add: all sub sim_live_facts(1))
  moreover have "mutation_of sim_live = do_binding sim_live" using sim_live_facts(5) by (simp add: mutation_of_def)
  moreover have "be_selector ?en = (\<lambda>_. Inr Everything)" by (simp add: sim_benv_def)
  ultimately show ?thesis using built by auto
qed

end
