(* ===== verification/Webhooks.thy ===== *)
theory Webhooks
  imports Admission
begin

section \<open>The resource webhooks\<close>

text \<open>
  The defaulting and the validating webhook of \<^verbatim>\<open>cmd/webhook/main.go\<close>: its tables, knative's \<^verbatim>\<open>Admit\<close> of
  \<^verbatim>\<open>webhook/resourcesemantics/defaulting\<close> and \<^verbatim>\<open>webhook/resourcesemantics/validation\<close> with them, and what an object
  that passed both can be relied on for. The patch of the defaulting webhook is represented by the object it leads to;
  the annotations it adds (creator, last modifier) are not in the model's metadata. Decoding JSON is a parameter; it
  refuses unknown fields.
\<close>

datatype crd = SourceCrd gitlab_source | BindingCrd gitlab_binding

type_synonym kind_key = "string \<times> string \<times> string"

definition source_gvk :: kind_key where
  "source_gvk = (fst source_group_version, snd source_group_version, ''GitLabSource'')"

definition binding_key :: kind_key where
  "binding_key = (fst binding_group_version, snd binding_group_version, ''GitLabBinding'')"

record decoder =
  de_source :: "string \<Rightarrow> goerr + gitlab_source"
  de_binding :: "string \<Rightarrow> goerr + gitlab_binding"

text \<open>\<^verbatim>\<open>types\<close>, a kind with how an object of it is decoded, and \<^verbatim>\<open>callbacks\<close>.\<close>

definition webhook_types :: "decoder \<Rightarrow> kind_key \<Rightarrow> (string \<Rightarrow> goerr + crd) option" where
  "webhook_types D =
     [source_gvk \<mapsto> (\<lambda>s. case de_source D s of Inl e \<Rightarrow> Inl e | Inr x \<Rightarrow> Inr (SourceCrd x)),
      binding_key \<mapsto> (\<lambda>s. case de_binding D s of Inl e \<Rightarrow> Inl e | Inr x \<Rightarrow> Inr (BindingCrd x))]"

definition webhook_callbacks :: "kind_key \<Rightarrow> (string \<Rightarrow> goerr option) option" where
  "webhook_callbacks = (\<lambda>_. None)"

definition crd_set_defaults :: "crd \<Rightarrow> crd" where
  "crd_set_defaults x =
     (case x of SourceCrd s \<Rightarrow> SourceCrd (source_set_defaults s) | BindingCrd b \<Rightarrow> BindingCrd (binding_set_defaults b))"

record validators =
  va_sink :: "destination \<Rightarrow> field_error option"
  va_subject :: "subject_reference \<Rightarrow> field_error option"

definition crd_validate :: "validators \<Rightarrow> crd \<Rightarrow> field_error option" where
  "crd_validate V x =
     (case x of SourceCrd s \<Rightarrow> validate_source (va_sink V) s | BindingCrd b \<Rightarrow> validate_binding (va_subject V) b)"

text \<open>\<^verbatim>\<open>result.Filter(apis.ErrorLevel)\<close>; every diagnostic here has that level.\<close>

fun filter_error :: "field_error \<Rightarrow> field_error option" where
  "filter_error (FieldError m ps d es) =
     (let fe = foldl (\<lambda>acc e. also_error acc (filter_error e)) (Some (FieldError m ps d [])) es
      in if is_empty_error fe then None else fe)"

record resource_request =
  rr_operation :: operation
  rr_kind :: kind_key
  rr_object :: string
  rr_old :: string

datatype webhook_answer = Admitted "crd option" | Refused string "field_error option"

definition unhandled_kind :: "kind_key \<Rightarrow> string" where
  "unhandled_kind k = (case k of (g, v, kind) \<Rightarrow> ''unhandled kind: '' @ g @ ''/'' @ v @ '', Kind='' @ kind)"

definition decode_part :: "(string \<Rightarrow> goerr + crd) \<Rightarrow> string \<Rightarrow> string \<Rightarrow> string + crd option" where
  "decode_part dec which raw =
     (if raw = [] then Inr None
      else case dec raw of
             Inl e \<Rightarrow> Inl (''cannot decode incoming '' @ which @ '' object: '' @ err_text e)
           | Inr x \<Rightarrow> Inr (Some x))"

subsection \<open>Defaulting\<close>

text \<open>\<^verbatim>\<open>mutate\<close>. Without a new object, \<^verbatim>\<open>setDefaults\<close> dereferences nil.\<close>

definition mutate :: "decoder \<Rightarrow> resource_request \<Rightarrow> (string + crd) result" where
  "mutate D rq =
     (case webhook_types D (rr_kind rq) of
        None \<Rightarrow> Ok (Inl (unhandled_kind (rr_kind rq)))
      | Some dec \<Rightarrow>
          (case decode_part dec ''new'' (rr_object rq) of
             Inl e \<Rightarrow> Ok (Inl e)
           | Inr new \<Rightarrow>
               (case decode_part dec ''old'' (rr_old rq) of
                  Inl e \<Rightarrow> Ok (Inl e)
                | Inr _ \<Rightarrow>
                    (case new of
                       None \<Rightarrow> Panic ''invalid memory address or nil pointer dereference''
                     | Some x \<Rightarrow> Ok (Inr (crd_set_defaults x))))))"

definition defaulting_admit :: "decoder \<Rightarrow> resource_request \<Rightarrow> webhook_answer result" where
  "defaulting_admit D rq =
     (if rr_operation rq \<notin> {OpCreate, OpUpdate} then Ok (Admitted None)
      else case mutate D rq of
             Ok (Inl e) \<Rightarrow> Ok (Refused (''mutation failed: '' @ e) None)
           | Ok (Inr x) \<Rightarrow> Ok (Admitted (Some x))
           | Err e \<Rightarrow> Err e
           | Panic m \<Rightarrow> Panic m)"

subsection \<open>Validation\<close>

definition decode_request :: "decoder \<Rightarrow> resource_request \<Rightarrow> string + crd option" where
  "decode_request D rq =
     (case webhook_types D (rr_kind rq) of
        None \<Rightarrow> Inl (unhandled_kind (rr_kind rq))
      | Some dec \<Rightarrow>
          (case decode_part dec ''new'' (rr_object rq) of
             Inl e \<Rightarrow> Inl e
           | Inr new \<Rightarrow>
               (case decode_part dec ''old'' (rr_old rq) of
                  Inl e \<Rightarrow> Inl e
                | Inr old \<Rightarrow> Inr (if rr_operation rq = OpDelete then old else new))))"

definition validate_request :: "validators \<Rightarrow> crd option \<Rightarrow> resource_request \<Rightarrow> (string \<times> field_error option) option" where
  "validate_request V x rq =
     (if rr_operation rq \<notin> {OpCreate, OpUpdate} then None
      else case x of
             None \<Rightarrow> Some (''the new object may not be nil'', None)
           | Some r \<Rightarrow>
               (case crd_validate V r of
                  None \<Rightarrow> None
                | Some result \<Rightarrow>
                    (case filter_error result of None \<Rightarrow> None | Some fe \<Rightarrow> Some ([], Some fe))))"

definition run_callback :: "resource_request \<Rightarrow> goerr option" where
  "run_callback rq =
     (let raw = (if rr_operation rq = OpDelete then rr_old rq else rr_object rq)
      in if raw = [] then None
         else case webhook_callbacks (rr_kind rq) of None \<Rightarrow> None | Some c \<Rightarrow> c raw)"

definition validation_admit :: "decoder \<Rightarrow> validators \<Rightarrow> resource_request \<Rightarrow> webhook_answer" where
  "validation_admit D V rq =
     (case decode_request D rq of
        Inl e \<Rightarrow> Refused (''decoding request failed: '' @ e) None
      | Inr x \<Rightarrow>
          (case validate_request V x rq of
             Some (m, fe) \<Rightarrow> Refused (''validation failed: '' @ m) fe
           | None \<Rightarrow>
               (case run_callback rq of
                  Some e \<Rightarrow> Refused (''validation callback failed: '' @ err_text e) None
                | None \<Rightarrow> Admitted None)))"

subsection \<open>The process\<close>

text \<open>
  What \<^verbatim>\<open>main\<close> serves: the controllers with their names and paths, none of which changes the context it is given. The
  binding webhook is told which objects it is for.
\<close>

datatype served = ServeDefaulting | ServeValidation | ServeBinding selection_mode

record admission_controller =
  ad_name :: string
  ad_path :: string
  ad_disallow_unknown :: bool
  ad_serves :: served

record webhook_process =
  pr_port :: nat
  pr_secret :: string
  pr_controllers :: "admission_controller list"

definition new_defaulting_admission_controller :: admission_controller where
  "new_defaulting_admission_controller =
     \<lparr>ad_name = ''defaulting.webhook.gitlab.sources.knative.dev'', ad_path = ''/defaulting'', ad_disallow_unknown = True,
      ad_serves = ServeDefaulting\<rparr>"

definition new_validation_admission_controller :: admission_controller where
  "new_validation_admission_controller =
     \<lparr>ad_name = ''validation.webhook.gitlab.sources.knative.dev'', ad_path = ''/resource-validation'',
      ad_disallow_unknown = True, ad_serves = ServeValidation\<rparr>"

definition new_gitlab_binding_webhook :: "selection_mode \<Rightarrow> admission_controller" where
  "new_gitlab_binding_webhook mode =
     \<lparr>ad_name = ''gitlabbindings.webhook.gitlab.sources.knative.dev'', ad_path = ''/gitlabbindings'',
      ad_disallow_unknown = False, ad_serves = ServeBinding mode\<rparr>"

definition webhook_main :: "string \<Rightarrow> webhook_process" where
  "webhook_main selection =
     \<lparr>pr_port = 8443, pr_secret = ''gitlab-webhook-certs'',
      pr_controllers = [new_defaulting_admission_controller, new_validation_admission_controller,
        new_gitlab_binding_webhook (selection_of_env selection)]\<rparr>"

text \<open>The multiplexer: the controller whose path it is.\<close>

definition route :: "webhook_process \<Rightarrow> string \<Rightarrow> admission_controller option" where
  "route p path = find (\<lambda>c. ad_path c = path) (pr_controllers p)"

subsection \<open>Facts\<close>

lemma webhook_paths:
  "map ad_path (pr_controllers (webhook_main v)) = [''/defaulting'', ''/resource-validation'', ''/gitlabbindings'']"
  by (simp only: webhook_main_def new_defaulting_admission_controller_def new_validation_admission_controller_def
      new_gitlab_binding_webhook_def list.map admission_controller.select_convs webhook_process.select_convs)

lemma find_by_key:
  assumes "distinct (map k cs)" "c \<in> set cs"
  shows "find (\<lambda>x. k x = k c) cs = Some c"
  using assms by (induction cs) (simp, fastforce)

lemma routed:
  assumes "c \<in> set (pr_controllers (webhook_main v))"
  shows "route (webhook_main v) (ad_path c) = Some c"
proof -
  have "distinct (map ad_path (pr_controllers (webhook_main v)))"
    unfolding webhook_paths by code_simp
  from find_by_key [OF this assms] show ?thesis by (simp add: route_def)
qed

lemma leaves_foldl_also:
  "leaves_opt (foldl (\<lambda>acc e. also_error acc (f e)) a es) = leaves_opt a @ concat (map (\<lambda>e. leaves_opt (f e)) es)"
  by (induction es arbitrary: a) simp_all

lemma leaves_filter_error: "leaves_opt (filter_error fe) = leaves fe"
proof (induction fe)
  case (FieldError m ps d es)
  define g where "g = foldl (\<lambda>acc e. also_error acc (filter_error e)) (Some (FieldError m ps d [])) es"
  have "map (\<lambda>e. leaves_opt (filter_error e)) es = map leaves es" using FieldError by (simp cong: map_cong)
  then have "leaves_opt g = leaves (FieldError m ps d es)"
    unfolding g_def leaves_foldl_also by (simp only:) (simp add: leaves_opt_def)
  moreover have "leaves_opt g = []" if "is_empty_error g"
    using that by (cases g) (simp_all add: leaves_opt_def leaves_empty)
  ultimately have "leaves_opt (if is_empty_error g then None else g) = leaves (FieldError m ps d es)"
    by (cases "is_empty_error g") (simp_all add: leaves_opt_def split: if_splits)
  then show ?case by (simp add: Let_def flip: g_def)
qed

lemma source_binding_keys: "source_gvk \<noteq> binding_key"
  by (simp add: source_gvk_def binding_key_def)

lemma admitted_valid:
  assumes "validation_admit D V rq = Admitted r" and "rr_operation rq \<in> {OpCreate, OpUpdate}"
  shows "\<exists>x. decode_request D rq = Inr (Some x) \<and> leaves_opt (crd_validate V x) = []"
proof -
  obtain y where y: "decode_request D rq = Inr y" "validate_request V y rq = None"
    using assms(1) by (auto simp: validation_admit_def split: sum.splits option.splits)
  then obtain x where x: "y = Some x" using assms(2) by (cases y) (auto simp: validate_request_def)
  have "leaves_opt (crd_validate V x) = []"
  proof (cases "crd_validate V x")
    case (Some fe)
    then have "filter_error fe = None" using y(2) assms(2) x by (auto simp: validate_request_def split: option.splits)
    then show ?thesis using leaves_filter_error [of fe] Some by (simp add: leaves_opt_def)
  qed (simp add: leaves_opt_def)
  then show ?thesis using y(1) x by blast
qed

lemma missing_leaf [simp]: "leaves_opt (Some (err_missing_field p)) \<noteq> []" "leaves_opt (Some (err_invalid_value v p)) \<noteq> []"
  by (simp_all add: leaves_opt_def err_missing_field_def err_invalid_value_def)

lemma binding_diagnostics:
  assumes "leaves_opt (validate_binding vs b) = []"
  shows "leaves_opt (vs (bs_subject (gb_spec b))) = [] \<and>
     (\<exists>ref. bs_access_token (gb_spec b) = Some ref \<and> sks_name ref \<noteq> [] \<and> sks_key ref \<noteq> []) \<and>
     sr_namespace (bs_subject (gb_spec b)) \<in> {[], om_namespace (gb_meta b)}"
proof -
  have ns: "sr_namespace (bs_subject (gb_spec b)) \<in> {[], om_namespace (gb_meta b)}"
    and spec: "leaves_opt (validate_binding_spec vs (gb_spec b)) = []"
    using assms by (auto simp: validate_binding_def Let_def leaves_via_field_opt split: if_splits)
  then obtain ref where ref: "bs_access_token (gb_spec b) = Some ref"
    by (cases "bs_access_token (gb_spec b)") (auto simp: validate_binding_spec_def)
  then have "sks_name ref \<noteq> []" "sks_key ref \<noteq> []" "leaves_opt (vs (bs_subject (gb_spec b))) = []"
    using spec by (auto simp: validate_binding_spec_def Let_def leaves_via_field_opt split: if_splits)
  then show ?thesis using ns ref by blast
qed

subsection \<open>Properties\<close>

text \<open>
  C23: A binding that the defaulting webhook returned and the validating webhook let through is one the rest of the system
  can use: its subject is in its own namespace and without diagnostics, its access token selects a name and a key, so
  \<^verbatim>\<open>Do\<close> never panics or fails on it, and defaulting it again changes nothing.
\<close>

theorem admitted_binding_usable:
  assumes "rr_operation rq \<in> {OpCreate, OpUpdate}" and "rr_kind rq = binding_key"
    and "defaulting_admit D rq = Ok (Admitted (Some (BindingCrd b)))"
    and "raw \<noteq> []" and "de_binding D raw = Inr b"
    and "validation_admit D V (rq\<lparr>rr_object := raw\<rparr>) = Admitted r"
  shows "sr_namespace (get_subject b) = om_namespace (gb_meta b) \<and> leaves_opt (va_subject V (get_subject b)) = [] \<and>
    (\<exists>ref. bs_access_token (gb_spec b) = Some ref \<and> sks_name ref \<noteq> [] \<and> sks_key ref \<noteq> []) \<and>
    (\<forall>ps. fst (do_binding b ps) = Ok ()) \<and> binding_set_defaults b = b"
proof -
  obtain b0 where b0: "b = binding_set_defaults b0"
  proof -
    have "\<exists>x. mutate D rq = Ok (Inr x) \<and> BindingCrd b = x"
      using assms(1,3) by (auto simp: defaulting_admit_def split: result.splits sum.splits)
    then obtain x where "crd_set_defaults x = BindingCrd b"
      by (auto simp: mutate_def split: option.splits sum.splits)
    then show ?thesis by (cases x) (auto simp: crd_set_defaults_def intro: that)
  qed
  have types: "webhook_types D binding_key = Some (\<lambda>s. case de_binding D s of Inl e \<Rightarrow> Inl e | Inr x \<Rightarrow> Inr (BindingCrd x))"
    by (simp add: webhook_types_def)
  obtain x where x: "decode_request D (rq\<lparr>rr_object := raw\<rparr>) = Inr (Some x)" "leaves_opt (crd_validate V x) = []"
    using admitted_valid [OF assms(6)] assms(1) by auto
  have "x = BindingCrd b"
    using x(1) assms(1,2,4,5) by (auto simp: decode_request_def types decode_part_def split: sum.splits if_splits)
  then have d: "leaves_opt (validate_binding (va_subject V) b) = []" using x(2) by (simp add: crd_validate_def)
  note v = binding_diagnostics [OF d]
  have "sr_namespace (bs_subject (gb_spec b)) = [] \<longrightarrow> om_namespace (gb_meta b) = []"
    by (simp add: b0 binding_set_defaults_def)
  then have "sr_namespace (get_subject b) = om_namespace (gb_meta b)" using v by (auto simp: get_subject_def)
  moreover have "fst (do_binding b ps) = Ok ()" for ps using v by (auto simp: do_binding_def Let_def)
  moreover have "binding_set_defaults b = b" by (simp add: b0 binding_set_defaults_def)
  ultimately show ?thesis using v by (simp add: get_subject_def)
qed

definition sample_decoder :: decoder where
  "sample_decoder = \<lparr>de_source = (\<lambda>_. Inl (ErrText ''not a source'')),
     de_binding = (\<lambda>s. if s = ''defaulted'' then Inr (binding_set_defaults (sim_binding (Some sim_token)))
                       else Inr (sim_binding (Some sim_token)))\<rparr>"

definition sample_validators :: validators where
  "sample_validators = \<lparr>va_sink = (\<lambda>_. None), va_subject = (\<lambda>_. None)\<rparr>"

definition sample_request :: resource_request where
  "sample_request = \<lparr>rr_operation = OpCreate, rr_kind = binding_key, rr_object = ''sent'', rr_old = []\<rparr>"

theorem admitted_binding_usable_witness:
  "fst (do_binding (binding_set_defaults (sim_binding (Some sim_token))) sim_pod) = Ok () \<and>
   sr_namespace (get_subject (binding_set_defaults (sim_binding (Some sim_token)))) = ''ns''"
proof -
  have 1: "rr_operation sample_request \<in> {OpCreate, OpUpdate}" "rr_kind sample_request = binding_key"
    by (simp_all add: sample_request_def)
  have 2: "defaulting_admit sample_decoder sample_request =
      Ok (Admitted (Some (BindingCrd (binding_set_defaults (sim_binding (Some sim_token))))))"
    by (simp add: defaulting_admit_def mutate_def sample_request_def webhook_types_def decode_part_def sample_decoder_def
        crd_set_defaults_def)
  have 3: "de_binding sample_decoder ''defaulted'' = Inr (binding_set_defaults (sim_binding (Some sim_token)))"
    by (simp add: sample_decoder_def)
  have 4: "validation_admit sample_decoder sample_validators (sample_request\<lparr>rr_object := ''defaulted''\<rparr>) = Admitted None"
    by code_simp
  show ?thesis using admitted_binding_usable [OF 1 2 _ 3 4]
    by (simp add: binding_set_defaults_def sim_binding_def get_subject_def)
qed

end
