(* ===== verification/WebhookConfig.thy ===== *)
theory WebhookConfig
  imports Webhooks "HOL-Library.AList" "HOL-Library.Product_Lexorder" "HOL-Library.Multiset"
begin

section \<open>Programming the webhook of bindings\<close>

text \<open>
  \<^verbatim>\<open>Reconcile\<close> and \<^verbatim>\<open>reconcileMutatingWebhook\<close> of \<^verbatim>\<open>webhook/psbinding/psbinding.go\<close>: from the bindings of the cache come the
  index of the previous theory and the rules of the \<^verbatim>\<open>MutatingWebhookConfiguration\<close>, which tell the API server for which
  objects it must call the webhook. The plural of a kind (\<^verbatim>\<open>flect\<close>) is a parameter, as are the lister and the client.
  Go visits the map of the kinds, and the sets of versions in it, in an order that may differ each time: the order of a
  reconciliation is a field of its environment (\<open>we_visit\<close>), any rearrangement of the association list that stands for the map.
\<close>

subsection \<open>The configuration\<close>

record label_requirement =
  lq_key :: string
  lq_operator :: string
  lq_values :: "string list"

record label_selector =
  ls_labels :: "(string \<times> string) list"
  ls_expressions :: "label_requirement list"

record webhook_rule =
  wr_operations :: "operation list"
  wr_groups :: "string list"
  wr_versions :: "string list"
  wr_resources :: "string list"

text \<open>\<open>mw_service\<close> is \<^verbatim>\<open>ClientConfig.Service\<close> with its \<^verbatim>\<open>Path\<close>.\<close>

record mutating_webhook =
  mw_name :: string
  mw_match_policy :: "string option"
  mw_rules :: "webhook_rule list"
  mw_namespace_selector :: "label_selector option"
  mw_object_selector :: "label_selector option"
  mw_ca_bundle :: string
  mw_service :: "string option option"
  mw_reinvocation :: "string option"

record webhook_configuration =
  wk_name :: string
  wk_webhooks :: "mutating_webhook list"

subsection \<open>Selectors\<close>

fun contains :: "string \<Rightarrow> string \<Rightarrow> bool" where
  "contains [] sub = (sub = [])"
| "contains (c # s) sub = (has_prefix (c # s) sub \<or> contains s sub)"

definition ensure_requirements :: "label_requirement list \<Rightarrow> label_requirement list \<Rightarrow> label_requirement list" where
  "ensure_requirements current wanted = wanted @ filter (\<lambda>r. \<not> contains (lq_key r) ''knative.dev'') current"

definition ensure_expressions :: "label_selector option \<Rightarrow> label_selector \<Rightarrow> label_selector" where
  "ensure_expressions current wanted =
     (case current of
        None \<Rightarrow> wanted
      | Some c \<Rightarrow>
          if ls_expressions c = [] then \<lparr>ls_labels = ls_labels c, ls_expressions = ls_expressions wanted\<rparr>
          else \<lparr>ls_labels = ls_labels c, ls_expressions = ensure_requirements (ls_expressions c) (ls_expressions wanted)\<rparr>)"

definition mode_selector :: "selection_mode \<Rightarrow> label_selector" where
  "mode_selector mode =
     (case mode of
        ExclusionSelector \<Rightarrow> \<lparr>ls_labels = [], ls_expressions =
          [\<lparr>lq_key = binding_exclude_label, lq_operator = ''NotIn'', lq_values = [''true'']\<rparr>]\<rparr>
      | InclusionSelector \<Rightarrow> \<lparr>ls_labels = [], ls_expressions =
          [\<lparr>lq_key = binding_include_label, lq_operator = ''In'', lq_values = [''true'']\<rparr>]\<rparr>)"

subsection \<open>Rules\<close>

type_synonym bound_kinds = "((string \<times> string) \<times> string list) list"

definition note_version :: "string \<times> string \<Rightarrow> string \<Rightarrow> bound_kinds \<Rightarrow> bound_kinds" where
  "note_version gk v ks =
     (case map_of ks gk of None \<Rightarrow> ks @ [(gk, [v])] | Some vs \<Rightarrow> AList.update gk (List.insert v vs) ks)"

text \<open>The part of the loop that collects the kinds; a binding without a group version ended it already (\<open>build_index\<close>).\<close>

fun bound_kinds :: "gitlab_binding list \<Rightarrow> bound_kinds \<Rightarrow> bound_kinds" where
  "bound_kinds [] ks = ks"
| "bound_kinds (fb # fbs) ks =
     (case parse_group_version (sr_api_version (get_subject fb)) of
        Inl e \<Rightarrow> bound_kinds fbs ks
      | Inr gv \<Rightarrow> bound_kinds fbs (note_version (fst gv, sr_kind (get_subject fb)) (snd gv) ks))"

definition rule_of :: "(string \<Rightarrow> string) \<Rightarrow> (string \<times> string) \<times> string list \<Rightarrow> webhook_rule" where
  "rule_of plural e =
     (case e of ((g, k), vs) \<Rightarrow>
        \<lparr>wr_operations = [OpCreate, OpUpdate], wr_groups = [g], wr_versions = sort vs,
         wr_resources = [to_lower (plural k) @ ''/*'']\<rparr>)"

definition rule_key :: "webhook_rule \<Rightarrow> string \<times> string \<times> string" where
  "rule_key r = (hd (wr_groups r), hd (wr_versions r), hd (wr_resources r))"

text \<open>The loop over the kinds, visited as \<open>visit\<close> gives them, and the sort of its rules.\<close>

definition binding_rules ::
  "(string \<Rightarrow> string) \<Rightarrow> (bound_kinds \<Rightarrow> bound_kinds) \<Rightarrow> gitlab_binding list \<Rightarrow> webhook_rule list" where
  "binding_rules plural visit fbs = sort_key rule_key (map (rule_of plural) (visit (bound_kinds fbs [])))"

text \<open>What Go promises of a visit: every entry once, with the same versions.\<close>

definition same_kinds :: "bound_kinds \<Rightarrow> bound_kinds \<Rightarrow> bool" where
  "same_kinds ks ks' \<longleftrightarrow> mset (map (apsnd mset) ks') = mset (map (apsnd mset) ks)"

subsection \<open>The reconciler\<close>

text \<open>One webhook of the configuration, and the loop over them; a webhook without a service ends it.\<close>

definition program_webhook ::
  "string \<Rightarrow> label_selector \<Rightarrow> webhook_rule list \<Rightarrow> string \<Rightarrow> mutating_webhook \<Rightarrow> goerr + mutating_webhook" where
  "program_webhook path wanted rules ca w =
     (let selector = ensure_expressions (mw_namespace_selector w) wanted;
          w' = w\<lparr>mw_match_policy := Some ''Equivalent'', mw_rules := rules, mw_namespace_selector := Some selector,
            mw_object_selector := Some selector, mw_ca_bundle := ca\<rparr>
      in case mw_service w of
           None \<Rightarrow> Inl (ErrText (''missing service reference for webhook: '' @ mw_name w))
         | Some _ \<Rightarrow> Inr (w'\<lparr>mw_service := Some (Some path), mw_reinvocation := Some ''IfNeeded''\<rparr>))"

fun program_webhooks ::
  "string \<Rightarrow> (mutating_webhook \<Rightarrow> goerr + mutating_webhook) \<Rightarrow> mutating_webhook list \<Rightarrow> goerr + mutating_webhook list" where
  "program_webhooks name f [] = Inr []"
| "program_webhooks name f (w # ws) =
     (if mw_name w \<noteq> name
      then (case program_webhooks name f ws of Inl e \<Rightarrow> Inl e | Inr ws' \<Rightarrow> Inr (w # ws'))
      else (case f w of
              Inl e \<Rightarrow> Inl e
            | Inr w' \<Rightarrow> (case program_webhooks name f ws of Inl e \<Rightarrow> Inl e | Inr ws' \<Rightarrow> Inr (w' # ws'))))"

record webhook_reconciler =
  wx_name :: string
  wx_path :: string
  wx_secret :: string
  wx_mode :: selection_mode

text \<open>The one that \<^verbatim>\<open>main\<close> installs, \<open>v\<close> the value of \<^verbatim>\<open>GITLAB_BINDING_SELECTION_MODE\<close>.\<close>

definition binding_webhook_reconciler :: "string \<Rightarrow> webhook_reconciler" where
  "binding_webhook_reconciler v =
     (let c = new_gitlab_binding_webhook (selection_of_env v)
      in \<lparr>wx_name = ad_name c, wx_path = ad_path c, wx_secret = pr_secret (webhook_main v), wx_mode = selection_of_env v\<rparr>)"

record webhook_env =
  we_secret :: "string \<Rightarrow> goerr + secret_data"
  we_get :: "string \<Rightarrow> goerr + webhook_configuration"
  we_update :: "webhook_configuration \<Rightarrow> goerr option"
  we_leader :: bool
  we_selector :: "string option \<Rightarrow> goerr + selector"
  we_plural :: "string \<Rightarrow> string"
  we_visit :: "bound_kinds \<Rightarrow> bound_kinds"

text \<open>The result: the error, the index, and the update that was sent.\<close>

definition reconcile_mutating_webhook ::
  "webhook_env \<Rightarrow> webhook_reconciler \<Rightarrow> gitlab_binding list \<Rightarrow> string \<Rightarrow> binding_index \<Rightarrow>
   goerr option \<times> binding_index \<times> webhook_configuration option" where
  "reconcile_mutating_webhook en ac fbs ca old =
     (case build_index (we_selector en) fbs empty_index of
        Inl e \<Rightarrow> (Some e, old, None)
      | Inr ix \<Rightarrow>
          (if \<not> we_leader en then (None, ix, None)
           else (case we_get en (wx_name ac) of
              Inl e \<Rightarrow> (Some (ErrWrap ''error retrieving webhook: '' e), ix, None)
            | Inr c \<Rightarrow>
                (case program_webhooks (wk_name c)
                    (program_webhook (wx_path ac) (mode_selector (wx_mode ac)) (binding_rules (we_plural en) (we_visit en) fbs) ca)
                    (wk_webhooks c) of
                   Inl e \<Rightarrow> (Some e, ix, None)
                 | Inr ws \<Rightarrow>
                     (let c' = c\<lparr>wk_webhooks := ws\<rparr>
                      in if c' = c then (None, ix, None)
                         else (case we_update en c' of
                                 Some e \<Rightarrow> (Some (ErrWrap ''failed to update webhook: '' e), ix, Some c')
                               | None \<Rightarrow> (None, ix, Some c')))))))"

definition reconcile_binding_webhook ::
  "webhook_env \<Rightarrow> webhook_reconciler \<Rightarrow> gitlab_binding list \<Rightarrow> binding_index \<Rightarrow>
   goerr option \<times> binding_index \<times> webhook_configuration option" where
  "reconcile_binding_webhook en ac fbs old =
     (case we_secret en (wx_secret ac) of
        Inl e \<Rightarrow> (Some e, old, None)
      | Inr d \<Rightarrow>
          (case map_of d ''ca-cert.pem'' of
             None \<Rightarrow> (Some (ErrText (''secret '' @ quote (wx_secret ac) @ '' is missing '' @ quote ''ca-cert.pem'' @ '' key'')),
               old, None)
           | Some ca \<Rightarrow> reconcile_mutating_webhook en ac fbs ca old))"


subsection \<open>Facts\<close>

definition noted :: "bound_kinds \<Rightarrow> string \<times> string \<Rightarrow> string \<Rightarrow> bool" where
  "noted ks gk v \<longleftrightarrow> (\<exists>vs. map_of ks gk = Some vs \<and> v \<in> set vs)"

lemma note_version_noted: "noted (note_version gk v ks) gk' v' \<longleftrightarrow> gk' = gk \<and> v' = v \<or> noted ks gk' v'"
  by (auto simp: noted_def note_version_def AList.update_conv' map_add_def split: option.splits)

lemma note_version_distinct: "distinct (map fst ks) \<Longrightarrow> distinct (map fst (note_version gk v ks))"
  by (auto simp: note_version_def map_of_eq_None_iff distinct_update split: option.split)

lemma bound_kinds_noted:
  "noted (bound_kinds fbs ks) gk v \<longleftrightarrow> noted ks gk v \<or>
     (\<exists>fb \<in> set fbs. parse_group_version (sr_api_version (get_subject fb)) = Inr (fst gk, v) \<and> sr_kind (get_subject fb) = snd gk)"
proof (induction fbs arbitrary: ks)
  case (Cons fb fbs)
  show ?case
  proof (cases "parse_group_version (sr_api_version (get_subject fb))")
    case (Inr gv)
    then show ?thesis by (cases gv) (auto simp: Cons.IH note_version_noted prod_eq_iff)
  qed (simp add: Cons.IH)
qed simp

lemma bound_kinds_distinct: "distinct (map fst ks) \<Longrightarrow> distinct (map fst (bound_kinds fbs ks))"
  by (induction fbs arbitrary: ks) (simp_all add: note_version_distinct split: sum.split)

text \<open>A rule calls the webhook for the creations and updates of a resource in a group and version.\<close>

definition rule_covers :: "webhook_rule \<Rightarrow> string \<Rightarrow> string \<Rightarrow> string \<Rightarrow> bool" where
  "rule_covers r g v res \<longleftrightarrow> {OpCreate, OpUpdate} \<subseteq> set (wr_operations r) \<and> g \<in> set (wr_groups r) \<and> v \<in> set (wr_versions r) \<and>
     res @ ''/*'' \<in> set (wr_resources r)"

lemma rule_of_versions: "mset vs = mset vs' \<Longrightarrow> rule_of plural (gk, vs) = rule_of plural (gk, vs')"
  by (simp add: rule_of_def flip: sorted_list_of_multiset_mset split: prod.split)

text \<open>A rule depends on the versions of an entry as a bag only.\<close>

definition bag_rule :: "(string \<Rightarrow> string) \<Rightarrow> (string \<times> string) \<times> string multiset \<Rightarrow> webhook_rule" where
  "bag_rule plural e = rule_of plural (fst e, sorted_list_of_multiset (snd e))"

lemma rule_of_bag: "map (rule_of plural) ks = map (bag_rule plural) (map (apsnd mset) ks)"
  by (auto simp: bag_rule_def intro!: rule_of_versions)

lemma same_kinds_rules: "same_kinds ks ks' \<Longrightarrow> mset (map (rule_of plural) ks') = mset (map (rule_of plural) ks)"
  unfolding rule_of_bag same_kinds_def by (metis mset_map)

lemma same_kinds_set: "same_kinds ks ks' \<Longrightarrow> (gk, M) \<in> apsnd mset ` set ks' \<longleftrightarrow> (gk, M) \<in> apsnd mset ` set ks"
  unfolding same_kinds_def by (metis list.set_map set_mset_mset)

lemma same_kinds_noted:
  assumes "same_kinds ks ks'" and "distinct (map fst ks)"
  shows "(\<exists>vs. (gk, vs) \<in> set ks' \<and> v \<in> set vs) \<longleftrightarrow> noted ks gk v"
proof -
  have *: "(\<exists>vs. (gk, vs) \<in> set xs \<and> v \<in> set vs) \<longleftrightarrow> (\<exists>M. (gk, M) \<in> apsnd mset ` set xs \<and> v \<in># M)" for xs :: bound_kinds
    by force
  have "(\<exists>vs. (gk, vs) \<in> set ks' \<and> v \<in> set vs) \<longleftrightarrow> (\<exists>vs. (gk, vs) \<in> set ks \<and> v \<in> set vs)"
    unfolding * same_kinds_set [OF assms(1)] ..
  also have "\<dots> \<longleftrightarrow> noted ks gk v" using assms(2) by (auto simp: noted_def)
  finally show ?thesis .
qed

lemma binding_rules_cover:
  assumes visit: "same_kinds (bound_kinds fbs []) (visit (bound_kinds fbs []))"
  shows "(\<exists>r \<in> set (binding_rules plural visit fbs). rule_covers r g v res) \<longleftrightarrow>
     (\<exists>fb \<in> set fbs. parse_group_version (sr_api_version (get_subject fb)) = Inr (g, v) \<and>
        to_lower (plural (sr_kind (get_subject fb))) = res)"
proof -
  let ?ks = "bound_kinds fbs []"
  have d: "distinct (map fst ?ks)" by (rule bound_kinds_distinct) simp
  have "(\<exists>r \<in> set (binding_rules plural visit fbs). rule_covers r g v res) \<longleftrightarrow>
      (\<exists>k. (\<exists>vs. ((g, k), vs) \<in> set (visit ?ks) \<and> v \<in> set vs) \<and> to_lower (plural k) = res)"
    by (force simp: binding_rules_def rule_covers_def rule_of_def)
  also have "\<dots> \<longleftrightarrow> (\<exists>k. noted ?ks (g, k) v \<and> to_lower (plural k) = res)"
    unfolding same_kinds_noted [OF visit d] ..
  also have "\<dots> \<longleftrightarrow> (\<exists>fb \<in> set fbs. parse_group_version (sr_api_version (get_subject fb)) = Inr (g, v) \<and>
      to_lower (plural (sr_kind (get_subject fb))) = res)"
    by (auto simp: bound_kinds_noted noted_def [of "[]"])
  finally show ?thesis .
qed

text \<open>
  A resource name of a group has one kind: the API server's own rule for the kinds it serves. Then no two rules have one key,
  and their sort forgets in which order Go visited the map.
\<close>

definition one_kind_per_resource :: "(string \<Rightarrow> string) \<Rightarrow> gitlab_binding list \<Rightarrow> bool" where
  "one_kind_per_resource plural fbs \<longleftrightarrow>
     (\<forall>fb \<in> set fbs. \<forall>fb' \<in> set fbs. \<forall>g v v'.
        parse_group_version (sr_api_version (get_subject fb)) = Inr (g, v) \<and>
        parse_group_version (sr_api_version (get_subject fb')) = Inr (g, v') \<and>
        to_lower (plural (sr_kind (get_subject fb))) = to_lower (plural (sr_kind (get_subject fb'))) \<longrightarrow>
        sr_kind (get_subject fb) = sr_kind (get_subject fb'))"

definition versioned :: "bound_kinds \<Rightarrow> bool" where
  "versioned ks \<longleftrightarrow> (\<forall>vs \<in> snd ` set ks. vs \<noteq> [])"

lemma update_versioned: "versioned ks \<Longrightarrow> vs \<noteq> [] \<Longrightarrow> versioned (AList.update gk vs ks)"
  by (induction ks) (auto simp: versioned_def)

lemma insert_nonempty: "List.insert v vs \<noteq> []"
  by (metis list.set(1) set_insert insert_not_empty)

lemma note_version_versioned: "versioned ks \<Longrightarrow> versioned (note_version gk v ks)"
  by (cases "map_of ks gk") (simp_all add: note_version_def update_versioned insert_nonempty, auto simp: versioned_def)

lemma bound_kinds_versioned: "versioned ks \<Longrightarrow> versioned (bound_kinds fbs ks)"
  by (induction fbs arbitrary: ks) (simp_all add: note_version_versioned split: sum.split)

lemma bound_kinds_origin:
  assumes "((g, k), vs) \<in> set (bound_kinds fbs [])"
  obtains fb v where "fb \<in> set fbs" "parse_group_version (sr_api_version (get_subject fb)) = Inr (g, v)" "sr_kind (get_subject fb) = k"
proof -
  have "versioned (bound_kinds fbs [])" by (rule bound_kinds_versioned) (simp add: versioned_def)
  then have "vs \<noteq> []" using assms by (force simp: versioned_def)
  moreover have "distinct (map fst (bound_kinds fbs []))" by (rule bound_kinds_distinct) simp
  ultimately obtain v where "noted (bound_kinds fbs []) (g, k) v" using assms by (cases vs) (auto simp: noted_def)
  then show ?thesis using that by (auto simp: bound_kinds_noted noted_def [of "[]"])
qed

lemma rule_key_inj:
  assumes "one_kind_per_resource plural fbs"
  shows "inj_on rule_key (set (map (rule_of plural) (bound_kinds fbs [])))"
proof (rule inj_onI, clarsimp)
  fix g k vs g' k' vs'
  assume e: "((g, k), vs) \<in> set (bound_kinds fbs [])" "((g', k'), vs') \<in> set (bound_kinds fbs [])"
    and key: "rule_key (rule_of plural ((g, k), vs)) = rule_key (rule_of plural ((g', k'), vs'))"
  have g: "g' = g" and res: "to_lower (plural k) = to_lower (plural k')" using key by (simp_all add: rule_key_def rule_of_def)
  obtain fb v where fb: "fb \<in> set fbs" "parse_group_version (sr_api_version (get_subject fb)) = Inr (g, v)" "sr_kind (get_subject fb) = k"
    by (rule bound_kinds_origin [OF e(1)])
  obtain fb' v' where fb': "fb' \<in> set fbs" "parse_group_version (sr_api_version (get_subject fb')) = Inr (g', v')" "sr_kind (get_subject fb') = k'"
    by (rule bound_kinds_origin [OF e(2)])
  have "k = k'" using assms fb fb' g res unfolding one_kind_per_resource_def by metis
  moreover have "distinct (map fst (bound_kinds fbs []))" by (rule bound_kinds_distinct) simp
  ultimately show "rule_of plural ((g, k), vs) = rule_of plural ((g', k'), vs')"
    using e g eq_key_imp_eq_value [of "bound_kinds fbs []" "(g, k)" vs vs'] by simp
qed

lemma binding_rules_order:
  assumes "one_kind_per_resource plural fbs" and "same_kinds (bound_kinds fbs []) (visit (bound_kinds fbs []))"
    and "same_kinds (bound_kinds fbs []) (visit' (bound_kinds fbs []))"
  shows "binding_rules plural visit' fbs = binding_rules plural visit fbs"
proof -
  let ?ks = "bound_kinds fbs []" and ?rs = "\<lambda>ks. map (rule_of plural) ks"
  have m: "mset (?rs (visit ?ks)) = mset (?rs ?ks)" "mset (?rs (visit' ?ks)) = mset (?rs ?ks)"
    using assms(2,3) by (simp_all only: same_kinds_rules)
  have "inj_on rule_key (set (?rs (visit' ?ks)))"
    using rule_key_inj [OF assms(1)] m(2) by (metis set_mset_mset)
  then show ?thesis unfolding binding_rules_def
    by (intro sort_key_inj_key_eq) (simp_all only: mset_sort m sorted_sort_key)
qed

text \<open>Programming a webhook twice is programming it once.\<close>

lemma mode_selector_ours:
  "ls_expressions (mode_selector m) \<noteq> []" "filter (\<lambda>r. \<not> contains (lq_key r) ''knative.dev'') (ls_expressions (mode_selector m)) = []"
proof -
  have "contains binding_exclude_label ''knative.dev''" "contains binding_include_label ''knative.dev''"
    by (simp_all add: binding_exclude_label_def binding_include_label_def has_prefix_def)
  then show "ls_expressions (mode_selector m) \<noteq> []"
    "filter (\<lambda>r. \<not> contains (lq_key r) ''knative.dev'') (ls_expressions (mode_selector m)) = []"
    by (cases m; simp add: mode_selector_def)+
qed

lemma ensure_expressions_idem:
  "ensure_expressions (Some (ensure_expressions cur (mode_selector m))) (mode_selector m) = ensure_expressions cur (mode_selector m)"
  using mode_selector_ours [of m]
  by (cases cur) (auto simp: ensure_expressions_def ensure_requirements_def)

lemma ensure_expressions_ours: "set (ls_expressions (mode_selector m)) \<subseteq> set (ls_expressions (ensure_expressions cur (mode_selector m)))"
  by (cases cur) (auto simp: ensure_expressions_def ensure_requirements_def)

lemma program_webhook_idem:
  "program_webhook path (mode_selector m) rules ca w = Inr w' \<Longrightarrow> program_webhook path (mode_selector m) rules ca w' = Inr w'"
  by (auto simp: program_webhook_def Let_def ensure_expressions_idem split: option.splits)

definition programmed :: "string \<Rightarrow> (mutating_webhook \<Rightarrow> goerr + mutating_webhook) \<Rightarrow> mutating_webhook \<Rightarrow> mutating_webhook \<Rightarrow> bool" where
  "programmed name f w w' \<longleftrightarrow> (if mw_name w \<noteq> name then w' = w else f w = Inr w')"

lemma program_webhooks_each:
  "program_webhooks name f ws = Inr ws' \<Longrightarrow> list_all2 (programmed name f) ws ws'"
  by (induction ws arbitrary: ws') (auto simp: programmed_def split: sum.splits if_splits)

lemma program_webhooks_all:
  "list_all2 (programmed name f) ws ws' \<Longrightarrow> program_webhooks name f ws = Inr ws'"
  by (induction rule: list_all2_induct) (auto simp: programmed_def)

lemma program_webhooks_again:
  assumes "program_webhooks name f ws = Inr ws'" and "\<And>w w'. f w = Inr w' \<Longrightarrow> mw_name w' = mw_name w \<and> f w' = Inr w'"
  shows "program_webhooks name f ws' = Inr ws'"
proof (rule program_webhooks_all)
  have "list_all2 (programmed name f) ws ws'" by (rule program_webhooks_each [OF assms(1)])
  then show "list_all2 (programmed name f) ws' ws'"
    using assms(2) by (induction rule: list_all2_induct) (auto simp: programmed_def split: if_splits)
qed


lemma programmed_webhook:
  assumes "program_webhook path (mode_selector m) rules ca w = Inr w'"
  shows "mw_name w' = mw_name w \<and> mw_service w' = Some (Some path) \<and> mw_ca_bundle w' = ca \<and> mw_rules w' = rules \<and>
    mw_match_policy w' = Some ''Equivalent'' \<and> (\<exists>sel. mw_namespace_selector w' = Some sel \<and> mw_object_selector w' = Some sel \<and>
      set (ls_expressions (mode_selector m)) \<subseteq> set (ls_expressions sel))"
  using assms ensure_expressions_ours by (auto simp: program_webhook_def Let_def split: option.splits)

text \<open>The configuration after a reconciliation: the one of the lister, or the one that was sent.\<close>

definition stored_configuration :: "webhook_configuration \<Rightarrow> webhook_configuration option \<Rightarrow> webhook_configuration" where
  "stored_configuration c upd = (case upd of None \<Rightarrow> c | Some c' \<Rightarrow> c')"

lemma reconcile_binding_webhook_stored:
  assumes "reconcile_binding_webhook en ac fbs old = (None, ix, upd)" and "we_leader en" and "we_get en (wx_name ac) = Inr c"
  obtains d ca ws where "we_secret en (wx_secret ac) = Inr d" "map_of d ''ca-cert.pem'' = Some ca"
    "build_index (we_selector en) fbs empty_index = Inr ix" "stored_configuration c upd = c\<lparr>wk_webhooks := ws\<rparr>"
    "program_webhooks (wk_name c) (program_webhook (wx_path ac) (mode_selector (wx_mode ac)) (binding_rules (we_plural en) (we_visit en) fbs) ca)
       (wk_webhooks c) = Inr ws"
  using assms
  by (auto simp: reconcile_binding_webhook_def reconcile_mutating_webhook_def stored_configuration_def Let_def
      split: sum.splits option.splits if_splits) metis+

subsection \<open>Property\<close>

text \<open>
  C22: After a reconciliation of the leader that ended without an error the index is the one of the bindings, and every webhook of
  the configuration that has its name sends the API server to the handler's path, with the certificate of the Secret and the
  labels of the selection mode, for the creation and update of exactly the resources of the subjects of those bindings, in the
  groups and versions they name; every other webhook is as it was. Reconciling again sends nothing, in whatever order Go visits
  the map of the kinds and the sets of the versions this time, since the rules are sorted.
\<close>

theorem webhook_covers_subjects:
  assumes run: "reconcile_binding_webhook en ac fbs old = (None, ix, upd)"
    and leader: "we_leader en" and get: "we_get en (wx_name ac) = Inr c"
    and visit: "same_kinds (bound_kinds fbs []) (we_visit en (bound_kinds fbs []))"
    and again: "same_kinds (bound_kinds fbs []) (visit' (bound_kinds fbs []))"
    and kinds: "one_kind_per_resource (we_plural en) fbs"
  defines "c' \<equiv> stored_configuration c upd"
  shows "build_index (we_selector en) fbs empty_index = Inr ix \<and> wk_name c' = wk_name c \<and>
    list_all2 (\<lambda>w w'. mw_name w' = mw_name w \<and> (mw_name w \<noteq> wk_name c \<longrightarrow> w' = w)) (wk_webhooks c) (wk_webhooks c') \<and>
    (\<exists>d ca. we_secret en (wx_secret ac) = Inr d \<and> map_of d ''ca-cert.pem'' = Some ca \<and>
      (\<forall>w \<in> set (wk_webhooks c'). mw_name w = wk_name c \<longrightarrow>
         mw_service w = Some (Some (wx_path ac)) \<and> mw_ca_bundle w = ca \<and>
         (\<exists>sel. mw_namespace_selector w = Some sel \<and> mw_object_selector w = Some sel \<and>
            set (ls_expressions (mode_selector (wx_mode ac))) \<subseteq> set (ls_expressions sel)) \<and>
         (\<forall>g v res. (\<exists>r \<in> set (mw_rules w). rule_covers r g v res) \<longleftrightarrow>
            (\<exists>fb \<in> set fbs. parse_group_version (sr_api_version (get_subject fb)) = Inr (g, v) \<and>
               to_lower (we_plural en (sr_kind (get_subject fb))) = res)))) \<and>
    reconcile_binding_webhook (en\<lparr>we_get := \<lambda>_. Inr c', we_visit := visit'\<rparr>) ac fbs ix = (None, ix, None)"
proof -
  let ?rules = "binding_rules (we_plural en) (we_visit en) fbs"
  have rules: "binding_rules (we_plural en) visit' fbs = ?rules" by (rule binding_rules_order [where visit = "we_visit en" and visit' = visit', OF kinds visit again])
  obtain d ca ws where r: "we_secret en (wx_secret ac) = Inr d" "map_of d ''ca-cert.pem'' = Some ca"
    "build_index (we_selector en) fbs empty_index = Inr ix" "c' = c\<lparr>wk_webhooks := ws\<rparr>" and
    ws: "program_webhooks (wk_name c) (program_webhook (wx_path ac) (mode_selector (wx_mode ac)) ?rules ca) (wk_webhooks c) = Inr ws"
    using reconcile_binding_webhook_stored [OF run leader get] unfolding c'_def by metis
  let ?f = "program_webhook (wx_path ac) (mode_selector (wx_mode ac)) ?rules ca"
  have f: "mw_name w' = mw_name w \<and> ?f w' = Inr w'" if "?f w = Inr w'" for w w'
    using programmed_webhook [OF that] program_webhook_idem [OF that] by simp
  have each: "list_all2 (programmed (wk_name c) ?f) (wk_webhooks c) ws" by (rule program_webhooks_each [OF ws])
  have twice: "program_webhooks (wk_name c) ?f ws = Inr ws" by (rule program_webhooks_again [OF ws f])
  have "list_all2 (\<lambda>w w'. mw_name w' = mw_name w \<and> (mw_name w \<noteq> wk_name c \<longrightarrow> w' = w)) (wk_webhooks c) ws"
    using each by (rule list_all2_mono) (use f in \<open>auto simp: programmed_def split: if_splits\<close>)
  moreover have "?f w = Inr w" if "w \<in> set ws" "mw_name w = wk_name c" for w
    using program_webhooks_each [OF twice] that
    by (auto simp: list_all2_conv_all_nth in_set_conv_nth programmed_def)
  then have "mw_service w = Some (Some (wx_path ac)) \<and> mw_ca_bundle w = ca \<and> mw_rules w = ?rules \<and>
      (\<exists>sel. mw_namespace_selector w = Some sel \<and> mw_object_selector w = Some sel \<and>
         set (ls_expressions (mode_selector (wx_mode ac))) \<subseteq> set (ls_expressions sel))"
    if "w \<in> set ws" "mw_name w = wk_name c" for w
    using programmed_webhook that by blast
  moreover have "reconcile_binding_webhook (en\<lparr>we_get := \<lambda>_. Inr c', we_visit := visit'\<rparr>) ac fbs ix = (None, ix, None)"
    using r twice leader rules by (simp add: reconcile_binding_webhook_def reconcile_mutating_webhook_def Let_def)
  ultimately show ?thesis using r by (simp add: binding_rules_cover [where visit = "we_visit en", OF visit])
qed

definition sim_webhook :: "string \<Rightarrow> mutating_webhook" where
  "sim_webhook n =
     \<lparr>mw_name = n, mw_match_policy = None, mw_rules = [], mw_namespace_selector = None, mw_object_selector = None,
      mw_ca_bundle = [], mw_service = Some None, mw_reinvocation = None\<rparr>"

definition sim_configuration :: webhook_configuration where
  "sim_configuration = 
     (let n = ad_name (new_gitlab_binding_webhook ExclusionSelector)
      in \<lparr>wk_name = n, wk_webhooks = [sim_webhook ''other'', sim_webhook n]\<rparr>)"

definition sim_webhook_env :: webhook_env where
  "sim_webhook_env =
     \<lparr>we_secret = (\<lambda>_. Inr [(''ca-cert.pem'', ''PEM'')]), we_get = (\<lambda>_. Inr sim_configuration), we_update = (\<lambda>_. None),
      we_leader = True, we_selector = (\<lambda>_. Inr Everything), we_plural = (\<lambda>k. k @ ''s''), we_visit = (\<lambda>ks. ks)\<rparr>"

text \<open>Two kinds, listed against the order of their resources.\<close>

definition sim_stateful :: gitlab_binding where
  "sim_stateful = sim_live\<lparr>gb_spec := (gb_spec sim_live)\<lparr>bs_subject := (bs_subject (gb_spec sim_live))\<lparr>sr_kind := ''StatefulSet''\<rparr>\<rparr>\<rparr>"

theorem webhook_covers_subjects_witness:
  "\<exists>ix upd. reconcile_binding_webhook sim_webhook_env (binding_webhook_reconciler '''') [sim_stateful, sim_live] empty_index =
       (None, ix, upd) \<and>
     (\<exists>w \<in> set (wk_webhooks (stored_configuration sim_configuration upd)). mw_name w = wk_name sim_configuration \<and>
        (\<exists>r \<in> set (mw_rules w). rule_covers r ''apps'' ''v1'' ''deployments'')) \<and>
     reconcile_binding_webhook
         (sim_webhook_env\<lparr>we_get := \<lambda>_. Inr (stored_configuration sim_configuration upd), we_visit := rev\<rparr>)
         (binding_webhook_reconciler '''') [sim_stateful, sim_live] ix = (None, ix, None)"
proof -
  let ?fbs = "[sim_stateful, sim_live]"
  let ?run = "reconcile_binding_webhook sim_webhook_env (binding_webhook_reconciler '''') ?fbs empty_index"
  obtain e ix upd where run: "?run = (e, ix, upd)" by (metis surj_pair)
  have "fst ?run = None" by code_simp
  with run have run': "?run = (None, ix, upd)" by simp
  have plurals: "to_lower (we_plural sim_webhook_env (sr_kind (get_subject sim_live))) = ''deployments''"
    "to_lower (we_plural sim_webhook_env (sr_kind (get_subject sim_stateful))) = ''statefulsets''" by code_simp+
  have en: "we_leader sim_webhook_env" "we_get sim_webhook_env (wx_name (binding_webhook_reconciler '''')) = Inr sim_configuration"
    "same_kinds (bound_kinds ?fbs []) (we_visit sim_webhook_env (bound_kinds ?fbs []))"
    "same_kinds (bound_kinds ?fbs []) (rev (bound_kinds ?fbs []))"
    by (simp_all add: sim_webhook_env_def same_kinds_def)
  have "one_kind_per_resource (we_plural sim_webhook_env) ?fbs" by (simp add: one_kind_per_resource_def plurals)
  note facts = webhook_covers_subjects [where visit' = rev, OF run' en this]
  have "list_all2 (\<lambda>w w'. mw_name w' = mw_name w) (wk_webhooks sim_configuration)
      (wk_webhooks (stored_configuration sim_configuration upd))"
    by (rule list_all2_mono [where P = "\<lambda>w w'. mw_name w' = mw_name w \<and> (mw_name w \<noteq> wk_name sim_configuration \<longrightarrow> w' = w)"])
      (use facts in simp_all)
  then have "\<exists>w \<in> set (wk_webhooks (stored_configuration sim_configuration upd)). mw_name w = wk_name sim_configuration"
    by (auto simp: sim_configuration_def sim_webhook_def list_all2_Cons1 Let_def)
  then obtain w where w: "w \<in> set (wk_webhooks (stored_configuration sim_configuration upd))" "mw_name w = wk_name sim_configuration" by blast
  have gv: "parse_group_version (sr_api_version (get_subject sim_live)) = Inr (''apps'', ''v1'')" by code_simp
  from facts w have "(\<exists>r \<in> set (mw_rules w). rule_covers r ''apps'' ''v1'' ''deployments'') \<longleftrightarrow>
      (\<exists>fb \<in> set ?fbs. parse_group_version (sr_api_version (get_subject fb)) = Inr (''apps'', ''v1'') \<and>
         to_lower (we_plural sim_webhook_env (sr_kind (get_subject fb))) = ''deployments'')" by blast
  moreover have "\<exists>fb \<in> set ?fbs. parse_group_version (sr_api_version (get_subject fb)) = Inr (''apps'', ''v1'') \<and>
      to_lower (we_plural sim_webhook_env (sr_kind (get_subject fb))) = ''deployments''" using gv plurals(1) by auto
  moreover have "reconcile_binding_webhook
      (sim_webhook_env\<lparr>we_get := \<lambda>_. Inr (stored_configuration sim_configuration upd), we_visit := rev\<rparr>)
      (binding_webhook_reconciler '''') ?fbs ix = (None, ix, None)"
    using facts by blast
  ultimately show ?thesis using w run' by blast
qed

end
