(* ===== verification/Injection.thy ===== *)
theory Injection
  imports Informers ClientConfig
begin

section \<open>Injection\<close>

text \<open>
  How the mains fill the context their controllers are constructed with: \<^verbatim>\<open>pkg/client/injection\<close>, its packages
  \<^verbatim>\<open>client\<close>, \<^verbatim>\<open>informers/factory\<close>, \<^verbatim>\<open>informers/*/v1alpha1/*\<close>, their \<^verbatim>\<open>filtered\<close> and \<^verbatim>\<open>fake\<close> variants. A context is the
  chain of the values it was given, the newest first. A factory is a pointer: the index of its object in the list
  of the factories made so far, each with the client it was made with. \<open>'c\<close> is the type of the clients.
\<close>

datatype ctx_key =
    ConfigKey | ResyncKey | NamespaceKey | ClientKey | FactoryKey | LabelKey
  | FilteredFactoryKey string
  | InformerKey object_type
  | FilteredInformerKey object_type string

text \<open>An informer of the context: its type, the factory it asks and the namespace and tweak it hands over.\<close>

datatype 'c ctx_value =
    VConfig rest_config
  | VResync duration
  | VNamespace string
  | VClient 'c
  | VFactory nat
  | VSelectors "string list"
  | VInformer object_type nat accessor

type_synonym 'c ctx = "(ctx_key \<times> 'c ctx_value) list"
type_synonym 'c factories = "('c \<times> factory) list"

definition with_value :: "ctx_key \<Rightarrow> 'c ctx_value \<Rightarrow> 'c ctx \<Rightarrow> 'c ctx" where
  "with_value k v ctx = (k, v) # ctx"

definition value_of :: "'c ctx \<Rightarrow> ctx_key \<Rightarrow> 'c ctx_value option" where
  "value_of ctx k = map_of ctx k"

definition default_resync :: duration where
  "default_resync = 36000000000000"

definition resync_period :: "'c ctx \<Rightarrow> duration" where
  "resync_period ctx = (case value_of ctx ResyncKey of Some (VResync d) \<Rightarrow> d | _ \<Rightarrow> default_resync)"

definition namespace_scope :: "'c ctx \<Rightarrow> string" where
  "namespace_scope ctx = (case value_of ctx NamespaceKey of Some (VNamespace ns) \<Rightarrow> ns | _ \<Rightarrow> [])"

subsection \<open>The client\<close>

text \<open>
  A failing type assertion panics too. \<open>new_client\<close> is the constructor: \<open>clientset_or_die\<close> on the clients counted so far.
\<close>

definition type_panic :: string where "type_panic = ''interface conversion''"

definition unable :: "string \<Rightarrow> string" where
  "unable what = ''Unable to fetch knative.dev/eventing-gitlab/pkg/client/'' @ what @ '' from context.''"

definition client_get :: "'c ctx \<Rightarrow> 'c result" where
  "client_get ctx =
     (case value_of ctx ClientKey of
        Some (VClient c) \<Rightarrow> Ok c
      | Some _ \<Rightarrow> Panic type_panic
      | None \<Rightarrow>
          (if value_of ctx ConfigKey = None
           then Panic (unable ''clientset/versioned.Interface'' @
             '' This context is not the application context (which is typically given to constructors via sharedmain).'')
           else Panic (unable ''clientset/versioned.Interface'')))"

definition with_client_from_config :: "(rest_config \<Rightarrow> 'c result) \<Rightarrow> rest_config \<Rightarrow> 'c ctx \<Rightarrow> 'c ctx result" where
  "with_client_from_config new_client cfg ctx =
     (case new_client cfg of
        Ok c \<Rightarrow> Ok (with_value ClientKey (VClient c) ctx)
      | Err e \<Rightarrow> Err e
      | Panic m \<Rightarrow> Panic m)"

text \<open>The fake client, a clientset on the given objects (theory \<open>FakeClient\<close>).\<close>

definition fake_with :: "'c \<Rightarrow> 'c ctx \<Rightarrow> 'c ctx \<times> 'c" where
  "fake_with c ctx = (with_value ClientKey (VClient c) ctx, c)"

definition fake_with_client :: "'c \<Rightarrow> 'c ctx \<Rightarrow> 'c ctx" where
  "fake_with_client empty_client ctx = fst (fake_with empty_client ctx)"

definition fake_client_get :: "'c ctx \<Rightarrow> 'c result" where
  "fake_client_get ctx =
     (case value_of ctx ClientKey of
        Some (VClient c) \<Rightarrow> Ok c
      | Some _ \<Rightarrow> Panic type_panic
      | None \<Rightarrow> Panic (unable ''clientset/versioned/fake.Clientset''))"

subsection \<open>The factories\<close>

definition scope_options :: "'c ctx \<Rightarrow> factory_option list" where
  "scope_options ctx = (if namespace_scope ctx \<noteq> [] then [WithNamespace (namespace_scope ctx)] else [])"

definition add_factory :: "ctx_key \<Rightarrow> 'c \<Rightarrow> factory_option list \<Rightarrow> 'c ctx \<times> 'c factories \<Rightarrow> 'c ctx \<times> 'c factories" where
  "add_factory k c opts s =
     (case s of (ctx, fs) \<Rightarrow>
        (with_value k (VFactory (length fs)) ctx, fs @ [(c, new_factory_with_options (resync_period ctx) opts)]))"

definition with_factory_of ::
  "('c ctx \<Rightarrow> 'c result) \<Rightarrow> 'c ctx \<times> 'c factories \<Rightarrow> ('c ctx \<times> 'c factories) result" where
  "with_factory_of get s =
     (case get (fst s) of
        Ok c \<Rightarrow> Ok (add_factory FactoryKey c (scope_options (fst s)) s)
      | Err e \<Rightarrow> Err e
      | Panic m \<Rightarrow> Panic m)"

definition with_informer_factory :: "'c ctx \<times> 'c factories \<Rightarrow> ('c ctx \<times> 'c factories) result" where
  "with_informer_factory = with_factory_of client_get"

definition fake_with_informer_factory :: "'c ctx \<times> 'c factories \<Rightarrow> ('c ctx \<times> 'c factories) result" where
  "fake_with_informer_factory = with_factory_of fake_client_get"

definition pointer_at :: "'c ctx \<Rightarrow> ctx_key \<Rightarrow> string \<Rightarrow> nat result" where
  "pointer_at ctx k missing =
     (case value_of ctx k of
        Some (VFactory p) \<Rightarrow> Ok p | Some _ \<Rightarrow> Panic type_panic | None \<Rightarrow> Panic missing)"

definition factory_get :: "'c ctx \<Rightarrow> nat result" where
  "factory_get ctx = pointer_at ctx FactoryKey (unable ''informers/externalversions.SharedInformerFactory'')"

text \<open>The filtered factories: one per selector, whose tweak sets the label selector.\<close>

definition with_selectors :: "string list \<Rightarrow> 'c ctx \<Rightarrow> 'c ctx" where
  "with_selectors ss ctx = with_value LabelKey (VSelectors ss) ctx"

definition selector_tweak :: "string \<Rightarrow> tweak" where
  "selector_tweak s l = l\<lparr>lo_label_selector := s\<rparr>"

fun filtered_factories :: "'c \<Rightarrow> string list \<Rightarrow> 'c ctx \<times> 'c factories \<Rightarrow> 'c ctx \<times> 'c factories" where
  "filtered_factories c [] s = s"
| "filtered_factories c (sel # ss) s =
     filtered_factories c ss
       (add_factory (FilteredFactoryKey sel) c (scope_options (fst s) @ [WithTweakListOptions (selector_tweak sel)]) s)"

definition selectors_of :: "'c ctx \<Rightarrow> string list result" where
  "selectors_of ctx =
     (case value_of ctx LabelKey of
        Some (VSelectors ss) \<Rightarrow> Ok ss | Some _ \<Rightarrow> Panic type_panic
      | None \<Rightarrow> Panic ''Unable to fetch labelkey from context.'')"

definition with_filtered_of ::
  "('c ctx \<Rightarrow> 'c result) \<Rightarrow> 'c ctx \<times> 'c factories \<Rightarrow> ('c ctx \<times> 'c factories) result" where
  "with_filtered_of get s =
     (case get (fst s) of
        Ok c \<Rightarrow>
          (case selectors_of (fst s) of
             Ok ss \<Rightarrow> Ok (filtered_factories c ss s) | Err e \<Rightarrow> Err e | Panic m \<Rightarrow> Panic m)
      | Err e \<Rightarrow> Err e
      | Panic m \<Rightarrow> Panic m)"

definition with_filtered_factories :: "'c ctx \<times> 'c factories \<Rightarrow> ('c ctx \<times> 'c factories) result" where
  "with_filtered_factories = with_filtered_of client_get"

definition fake_with_filtered_factories :: "'c ctx \<times> 'c factories \<Rightarrow> ('c ctx \<times> 'c factories) result" where
  "fake_with_filtered_factories = with_filtered_of fake_client_get"

definition filtered_factory_get :: "'c ctx \<Rightarrow> string \<Rightarrow> nat result" where
  "filtered_factory_get ctx sel =
     pointer_at ctx (FilteredFactoryKey sel)
       (unable (''informers/externalversions.SharedInformerFactory with selector '' @ sel))"

subsection \<open>The informers\<close>

text \<open>
  \<^verbatim>\<open>f.Sources().V1alpha1().GitLabSources()\<close> goes into the context, and its \<^verbatim>\<open>Informer()\<close>, which makes the informer in the
  factory, is returned to be started.
\<close>

definition accessor_of :: "factory \<Rightarrow> accessor" where
  "accessor_of f = resource_accessor (version_accessor (group_accessor f))"

definition add_informer ::
  "ctx_key \<Rightarrow> object_type \<Rightarrow> nat \<Rightarrow> 'c ctx \<times> 'c factories \<Rightarrow> ('c ctx \<times> 'c factories) \<times> informer" where
  "add_informer k t p s =
     (case s of (ctx, fs) \<Rightarrow>
        let (c, f) = fs ! p; a = accessor_of f; (ifm, f') = resource_informer t a f
        in ((with_value k (VInformer t p a) ctx, fs[p := (c, f')]), ifm))"

definition with_informer ::
  "object_type \<Rightarrow> 'c ctx \<times> 'c factories \<Rightarrow> (('c ctx \<times> 'c factories) \<times> informer) result" where
  "with_informer t s =
     (case factory_get (fst s) of
        Ok p \<Rightarrow> Ok (add_informer (InformerKey t) t p s) | Err e \<Rightarrow> Err e | Panic m \<Rightarrow> Panic m)"

definition informer_at :: "'c ctx \<Rightarrow> ctx_key \<Rightarrow> object_type \<Rightarrow> string \<Rightarrow> (nat \<times> accessor) result" where
  "informer_at ctx k t missing =
     (case value_of ctx k of
        Some (VInformer t' p a) \<Rightarrow> (if t' = t then Ok (p, a) else Panic type_panic)
      | Some _ \<Rightarrow> Panic type_panic
      | None \<Rightarrow> Panic missing)"

definition informer_name :: "object_type \<Rightarrow> string" where
  "informer_name t = ''informers/externalversions/'' @
     (case t of SourceType \<Rightarrow> ''sources/v1alpha1.GitLabSourceInformer''
      | BindingType \<Rightarrow> ''bindings/v1alpha1.GitLabBindingInformer'' | OtherType n \<Rightarrow> n)"

definition informer_get :: "'c ctx \<Rightarrow> object_type \<Rightarrow> (nat \<times> accessor) result" where
  "informer_get ctx t = informer_at ctx (InformerKey t) t (unable (informer_name t))"

fun filtered_informers ::
  "object_type \<Rightarrow> string list \<Rightarrow> ('c ctx \<times> 'c factories) \<times> informer list \<Rightarrow>
   (('c ctx \<times> 'c factories) \<times> informer list) result" where
  "filtered_informers t [] out = Ok out"
| "filtered_informers t (sel # ss) (s, infs) =
     (case filtered_factory_get (fst s) sel of
        Ok p \<Rightarrow>
          (let (s', ifm) = add_informer (FilteredInformerKey t sel) t p s in filtered_informers t ss (s', infs @ [ifm]))
      | Err e \<Rightarrow> Err e
      | Panic m \<Rightarrow> Panic m)"

definition with_filtered_informers ::
  "object_type \<Rightarrow> 'c ctx \<times> 'c factories \<Rightarrow> (('c ctx \<times> 'c factories) \<times> informer list) result" where
  "with_filtered_informers t s =
     (case selectors_of (fst s) of
        Ok ss \<Rightarrow> filtered_informers t ss (s, []) | Err e \<Rightarrow> Err e | Panic m \<Rightarrow> Panic m)"

definition filtered_informer_get :: "'c ctx \<Rightarrow> object_type \<Rightarrow> string \<Rightarrow> (nat \<times> accessor) result" where
  "filtered_informer_get ctx t sel =
     informer_at ctx (FilteredInformerKey t sel) t (unable (informer_name t @ '' with selector '' @ sel))"

text \<open>The packages of the two resources, and their fakes, whose \<^verbatim>\<open>Get\<close> are the same functions.\<close>

definition sources_with_informer :: "'c ctx \<times> 'c factories \<Rightarrow> (('c ctx \<times> 'c factories) \<times> informer) result" where
  "sources_with_informer s = with_informer SourceType s"

definition bindings_with_informer :: "'c ctx \<times> 'c factories \<Rightarrow> (('c ctx \<times> 'c factories) \<times> informer) result" where
  "bindings_with_informer s = with_informer BindingType s"

definition sources_with_filtered :: "'c ctx \<times> 'c factories \<Rightarrow> (('c ctx \<times> 'c factories) \<times> informer list) result" where
  "sources_with_filtered s = with_filtered_informers SourceType s"

definition bindings_with_filtered :: "'c ctx \<times> 'c factories \<Rightarrow> (('c ctx \<times> 'c factories) \<times> informer list) result" where
  "bindings_with_filtered s = with_filtered_informers BindingType s"

definition bindings_informer_get :: "'c ctx \<Rightarrow> (nat \<times> accessor) result" where
  "bindings_informer_get ctx = informer_get ctx BindingType"

definition bindings_filtered_get :: "'c ctx \<Rightarrow> string \<Rightarrow> (nat \<times> accessor) result" where
  "bindings_filtered_get ctx = filtered_informer_get ctx BindingType"

definition fake_sources_with_informer where "fake_sources_with_informer s = with_informer SourceType s"
definition fake_bindings_with_informer where "fake_bindings_with_informer s = with_informer BindingType s"
definition fake_sources_with_filtered where "fake_sources_with_filtered s = with_filtered_informers SourceType s"
definition fake_bindings_with_filtered where "fake_bindings_with_filtered s = with_filtered_informers BindingType s"

subsection \<open>Set-up\<close>

text \<open>
  \<^verbatim>\<open>SetupInformers\<close> of \<^verbatim>\<open>knative.dev/pkg/injection\<close>: the client, the factories, the informers of the types linked into
  the binary. The mains of this repository link the informers of the first kind; a main that links the filtered
  packages has its selectors in the context it starts from.
\<close>

fun setup_types ::
  "object_type list \<Rightarrow> ('c ctx \<times> 'c factories) \<times> informer list \<Rightarrow> (('c ctx \<times> 'c factories) \<times> informer list) result" where
  "setup_types [] out = Ok out"
| "setup_types (t # ts) (s, infs) =
     (case with_informer t s of
        Ok (s', ifm) \<Rightarrow> setup_types ts (s', infs @ [ifm]) | Err e \<Rightarrow> Err e | Panic m \<Rightarrow> Panic m)"

definition setup_informers ::
  "(rest_config \<Rightarrow> 'c result) \<Rightarrow> rest_config \<Rightarrow> object_type list \<Rightarrow> 'c ctx \<Rightarrow> (('c ctx \<times> 'c factories) \<times> informer list) result" where
  "setup_informers new_client cfg ts ctx =
     (case with_client_from_config new_client cfg ctx of
        Ok ctx1 \<Rightarrow>
          (case with_informer_factory (ctx1, []) of
             Ok s \<Rightarrow> setup_types ts (s, []) | Err e \<Rightarrow> Err e | Panic m \<Rightarrow> Panic m)
      | Err e \<Rightarrow> Err e
      | Panic m \<Rightarrow> Panic m)"

fun setup_filtered_types ::
  "object_type list \<Rightarrow> ('c ctx \<times> 'c factories) \<times> informer list \<Rightarrow> (('c ctx \<times> 'c factories) \<times> informer list) result" where
  "setup_filtered_types [] out = Ok out"
| "setup_filtered_types (t # ts) (s, infs) =
     (case with_filtered_informers t s of
        Ok (s', js) \<Rightarrow> setup_filtered_types ts (s', infs @ js) | Err e \<Rightarrow> Err e | Panic m \<Rightarrow> Panic m)"

definition setup_filtered ::
  "(rest_config \<Rightarrow> 'c result) \<Rightarrow> rest_config \<Rightarrow> object_type list \<Rightarrow> 'c ctx \<Rightarrow> (('c ctx \<times> 'c factories) \<times> informer list) result" where
  "setup_filtered new_client cfg ts ctx =
     (case with_client_from_config new_client cfg ctx of
        Ok ctx1 \<Rightarrow>
          (case with_filtered_factories (ctx1, []) of
             Ok s \<Rightarrow> setup_filtered_types ts (s, []) | Err e \<Rightarrow> Err e | Panic m \<Rightarrow> Panic m)
      | Err e \<Rightarrow> Err e
      | Panic m \<Rightarrow> Panic m)"

subsection \<open>Facts\<close>

lemma value_of_with [simp]: "value_of (with_value k v ctx) k' = (if k' = k then Some v else value_of ctx k')"
  by (simp add: value_of_def with_value_def)

text \<open>The informers of a factory carry its settings.\<close>

definition uniform :: "factory \<Rightarrow> bool" where
  "uniform f \<longleftrightarrow> fa_custom_resync f = (\<lambda>_. None) \<and>
     (\<forall>(t, i) \<in> set (fa_informers f). in_type i = t \<and> in_namespace i = fa_namespace f \<and> in_tweak i = fa_tweak f \<and>
        in_resync i = fa_default_resync f \<and> in_indexed i)"

definition settings :: "'c \<times> factory \<Rightarrow> 'c \<times> string \<times> tweak option \<times> duration" where
  "settings cf = (fst cf, fa_namespace (snd cf), fa_tweak (snd cf), fa_default_resync (snd cf))"

definition ready :: "'c ctx \<times> 'c factories \<Rightarrow> ctx_key \<Rightarrow> object_type \<Rightarrow> nat \<Rightarrow> informer \<Rightarrow> bool" where
  "ready s k t p i \<longleftrightarrow> (\<exists>a. value_of (fst s) k = Some (VInformer t p a)) \<and>
     map_of (fa_informers (snd (snd s ! p))) t = Some i"

lemma resource_informer_uniform:
  assumes "uniform f" and "resource_informer t (accessor_of f) f = (i, f')"
  shows "uniform f'" and "settings (c, f') = settings (c, f)" and "map_of (fa_informers f') t = Some i"
    and "in_type i = t"
    and "map_of (fa_informers f) u = Some j \<Longrightarrow> map_of (fa_informers f') u = Some j"
proof -
  have all: "uniform f' \<and> settings (c, f') = settings (c, f) \<and> map_of (fa_informers f') t = Some i \<and> in_type i = t \<and>
      (\<forall>u j. map_of (fa_informers f) u = Some j \<longrightarrow> map_of (fa_informers f') u = Some j)"
  proof (cases "map_of (fa_informers f) t")
    case None
    then show ?thesis
      using assms
      by (auto simp: resource_informer_def informer_for_def Let_def default_informer_def new_filtered_informer_def
          accessor_of_def resource_accessor_def version_accessor_def group_accessor_def uniform_def settings_def map_add_def
          split: option.splits)
  next
    case (Some j)
    then have "in_type j = t" using assms(1) map_of_SomeD [OF Some] by (auto simp: uniform_def)
    then show ?thesis using Some assms by (simp add: resource_informer_def informer_for_found)
  qed
  then show "uniform f'" "settings (c, f') = settings (c, f)" "map_of (fa_informers f') t = Some i" "in_type i = t"
    "map_of (fa_informers f) u = Some j \<Longrightarrow> map_of (fa_informers f') u = Some j" by blast+
qed

lemma add_informer_facts:
  assumes s: "add_informer k t p s = (s', i)" and p: "p < length (snd s)" and u: "\<forall>f \<in> snd ` set (snd s). uniform f"
  shows "ready s' k t p i" and "in_type i = t" and "map settings (snd s') = map settings (snd s)"
    and "\<forall>f \<in> snd ` set (snd s'). uniform f" and "k' \<noteq> k \<Longrightarrow> value_of (fst s') k' = value_of (fst s) k'"
    and "ready s k' v q j \<Longrightarrow> (k' = k \<Longrightarrow> v = t \<and> q = p) \<Longrightarrow> ready s' k' v q j"
proof -
  obtain ctx fs where s0: "s = (ctx, fs)" by (metis surj_pair)
  obtain c f where cf: "fs ! p = (c, f)" by (metis surj_pair)
  obtain f' where r: "resource_informer t (accessor_of f) f = (i, f')"
    and s': "s' = (with_value k (VInformer t p (accessor_of f)) ctx, fs[p := (c, f')])"
    using s by (auto simp: s0 cf add_informer_def Let_def split: prod.splits)
  have "(c, f) \<in> set fs" using p cf by (metis nth_mem s0 snd_conv)
  then have "uniform f" using u s0 by force
  note f = resource_informer_uniform [OF this r]
  show "ready s' k t p i" using p f(3) by (simp add: ready_def s' s0)
  show "in_type i = t" by (rule f(4))
  show "map settings (snd s') = map settings (snd s)"
    using p cf f(2) [of c] by (simp add: s' s0 map_update list_update_same_conv)
  show "\<forall>f \<in> snd ` set (snd s'). uniform f"
    using u f(1) set_update_subset_insert [of fs p "(c, f')"] by (auto simp: s' s0)
  show "k' \<noteq> k \<Longrightarrow> value_of (fst s') k' = value_of (fst s) k'" by (simp add: s' s0)
  show "ready s k' v q j \<Longrightarrow> (k' = k \<Longrightarrow> v = t \<and> q = p) \<Longrightarrow> ready s' k' v q j"
    using f(5) p cf by (auto simp: ready_def s' s0 nth_list_update)
qed

text \<open>Every set-up adds a list of informers: their keys, types and factories.\<close>

fun add_informers ::
  "(ctx_key \<times> object_type \<times> nat) list \<Rightarrow> ('c ctx \<times> 'c factories) \<times> informer list \<Rightarrow> ('c ctx \<times> 'c factories) \<times> informer list" where
  "add_informers [] out = out"
| "add_informers ((k, t, p) # xs) (s, infs) = (let (s', i) = add_informer k t p s in add_informers xs (s', infs @ [i]))"

lemma add_informers_append: "add_informers (xs @ ys) out = add_informers ys (add_informers xs out)"
  by (induction xs out rule: add_informers.induct) (auto split: prod.split)

definition added ::
  "(ctx_key \<times> object_type \<times> nat) list \<Rightarrow> (ctx_key \<Rightarrow> object_type \<times> nat) \<Rightarrow> 'c ctx \<times> 'c factories \<Rightarrow> 'c ctx \<times> 'c factories \<Rightarrow>
   informer list \<Rightarrow> bool" where
  "added xs g s s' js \<longleftrightarrow> map in_type js = map (fst \<circ> snd) xs \<and> map settings (snd s') = map settings (snd s) \<and>
      (\<forall>f \<in> snd ` set (snd s'). uniform f) \<and> (\<forall>k. k \<notin> fst ` set xs \<longrightarrow> value_of (fst s') k = value_of (fst s) k) \<and>
      (\<forall>(k, t, p) \<in> set xs. \<exists>i \<in> set js. ready s' k t p i) \<and>
      (\<forall>k t p i. ready s k t p i \<longrightarrow> g k = (t, p) \<longrightarrow> ready s' k t p i)"

lemma add_informers_facts:
  assumes "add_informers xs (s, infs) = (s', infs')"
    and "\<forall>(k, t, p) \<in> set xs. p < length (snd s)" and "\<forall>f \<in> snd ` set (snd s). uniform f"
    and "\<forall>(k, t, p) \<in> set xs. g k = (t, p)"
  shows "\<exists>js. infs' = infs @ js \<and> added xs g s s' js"
  using assms
proof (induction xs arbitrary: s infs)
  case (Cons x xs)
  obtain k t p where x: "x = (k, t, p)" by (metis surj_pair)
  obtain s1 i where s1: "add_informer k t p s = (s1, i)" by (metis surj_pair)
  have p: "p < length (snd s)" and g: "g k = (t, p)" using Cons.prems(2,4) by (auto simp: x)
  note a = add_informer_facts [OF s1 p Cons.prems(3)]
  have len: "length (snd s1) = length (snd s)" using a(3) by (metis length_map)
  have 1: "add_informers xs (s1, infs @ [i]) = (s', infs')" using Cons.prems(1) s1 by (simp add: x)
  have 2: "\<forall>(k, t, p) \<in> set xs. p < length (snd s1)" using Cons.prems(2) len by auto
  have 3: "\<forall>(k, t, p) \<in> set xs. g k = (t, p)" using Cons.prems(4) by simp
  from Cons.IH [OF 1 2 a(4) 3] obtain js where infs: "infs' = (infs @ [i]) @ js" and js: "added xs g s1 s' js" by blast
  have keep: "\<forall>k t p i. ready s1 k t p i \<longrightarrow> g k = (t, p) \<longrightarrow> ready s' k t p i" using js by (simp add: added_def)
  have "ready s' k t p i" using keep a(1) g by blast
  moreover have "ready s1 k' v q j" if "ready s k' v q j" "g k' = (v, q)" for k' v q j
    by (rule a(6) [OF that(1)]) (use that(2) g in simp)
  then have "\<forall>k t p i. ready s k t p i \<longrightarrow> g k = (t, p) \<longrightarrow> ready s' k t p i" using keep by blast
  moreover have "\<forall>k'. k' \<notin> fst ` set (x # xs) \<longrightarrow> value_of (fst s') k' = value_of (fst s) k'"
    using js a(5) by (simp add: added_def x)
  moreover have "\<forall>(k, t, p) \<in> set xs. \<exists>i \<in> set js. ready s' k t p i" using js by (simp add: added_def)
  ultimately have "added (x # xs) g s s' (i # js)"
    using js a(2,3) by (simp add: added_def x) fastforce
  then show ?case using infs by auto
qed (simp add: added_def)

lemma factory_get_value: "value_of ctx FactoryKey = Some (VFactory p) \<Longrightarrow> factory_get ctx = Ok p"
  by (simp add: factory_get_def pointer_at_def)

lemma setup_types_adds:
  assumes "value_of (fst s) FactoryKey = Some (VFactory p)"
  shows "setup_types ts (s, infs) = Ok (add_informers (map (\<lambda>t. (InformerKey t, t, p)) ts) (s, infs))"
  using assms
proof (induction ts arbitrary: s infs)
  case (Cons t ts)
  obtain s' i where s': "add_informer (InformerKey t) t p s = (s', i)" by (metis surj_pair)
  then have "value_of (fst s') FactoryKey = Some (VFactory p)"
    using Cons.prems by (auto simp: add_informer_def Let_def split: prod.splits)
  from Cons.IH [OF this] Cons.prems s' show ?case by (simp add: with_informer_def factory_get_value)
qed simp

lemma filtered_informers_adds:
  assumes "\<forall>sel \<in> set ss. value_of (fst s) (FilteredFactoryKey sel) = Some (VFactory (ptr sel))"
  shows "filtered_informers t ss (s, infs) =
    Ok (add_informers (map (\<lambda>sel. (FilteredInformerKey t sel, t, ptr sel)) ss) (s, infs))"
  using assms
proof (induction ss arbitrary: s infs)
  case (Cons sel ss)
  obtain s' i where s': "add_informer (FilteredInformerKey t sel) t (ptr sel) s = (s', i)" by (metis surj_pair)
  then have "value_of (fst s') (FilteredFactoryKey x) = value_of (fst s) (FilteredFactoryKey x)" for x
    by (auto simp: add_informer_def Let_def split: prod.splits)
  then have "\<forall>x \<in> set ss. value_of (fst s') (FilteredFactoryKey x) = Some (VFactory (ptr x))"
    using Cons.prems by simp
  from Cons.IH [OF this] Cons.prems s' show ?case by (simp add: filtered_factory_get_def pointer_at_def)
qed simp

lemma add_informers_accumulates:
  "add_informers xs (s, infs) = (fst (add_informers xs (s, [])), infs @ snd (add_informers xs (s, [])))"
proof (induction xs arbitrary: s infs)
  case (Cons x xs)
  obtain k t p where x: "x = (k, t, p)" by (metis surj_pair)
  obtain s' i where "add_informer k t p s = (s', i)" by (metis surj_pair)
  then show ?case using Cons [of s' "infs @ [i]"] Cons [of s' "[i]"] by (simp add: x)
qed simp

lemma add_informers_value:
  "k \<notin> fst ` set xs \<Longrightarrow> value_of (fst (fst (add_informers xs out))) k = value_of (fst (fst out)) k"
proof (induction xs out rule: add_informers.induct)
  case (2 k' t p xs s infs)
  then show ?case by (auto simp: add_informer_def Let_def split: prod.splits)
qed simp

definition filtered_list :: "(string \<Rightarrow> nat) \<Rightarrow> string list \<Rightarrow> object_type list \<Rightarrow> (ctx_key \<times> object_type \<times> nat) list" where
  "filtered_list ptr ss ts = concat (map (\<lambda>t. map (\<lambda>sel. (FilteredInformerKey t sel, t, ptr sel)) ss) ts)"

lemma setup_filtered_types_adds:
  assumes "value_of (fst s) LabelKey = Some (VSelectors ss)"
    and "\<forall>sel \<in> set ss. value_of (fst s) (FilteredFactoryKey sel) = Some (VFactory (ptr sel))"
  shows "setup_filtered_types ts (s, infs) = Ok (add_informers (filtered_list ptr ss ts) (s, infs))"
  using assms
proof (induction ts arbitrary: s infs)
  case (Cons t ts)
  define xs where "xs = map (\<lambda>sel. (FilteredInformerKey t sel, t, ptr sel)) ss"
  obtain s' js where s': "add_informers xs (s, []) = (s', js)" by (metis surj_pair)
  then have all: "add_informers xs (s, infs) = (s', infs @ js)" using add_informers_accumulates [of xs s infs] by simp
  have "LabelKey \<notin> fst ` set xs" "FilteredFactoryKey sel \<notin> fst ` set xs" for sel by (auto simp: xs_def)
  then have "value_of (fst s') LabelKey = Some (VSelectors ss)"
    and "value_of (fst s') (FilteredFactoryKey sel) = value_of (fst s) (FilteredFactoryKey sel)" for sel
    using add_informers_value [of _ xs "(s, [])"] s' Cons.prems(1) by simp_all
  then have "setup_filtered_types ts (s', infs @ js) = Ok (add_informers (filtered_list ptr ss ts) (s', infs @ js))"
    using Cons by simp
  then show ?case
    using filtered_informers_adds [OF Cons.prems(2), of t "[]"] Cons.prems(1) s' all
    by (simp add: with_filtered_informers_def selectors_of_def filtered_list_def add_informers_append flip: xs_def)
qed (simp add: filtered_list_def)

lemma filtered_factories_value:
  assumes "filtered_factories c ss (ctx, fs) = (ctx', fs')"
  shows "fs' = fs @ map (\<lambda>sel. (c, new_factory_with_options (resync_period ctx)
             (scope_options ctx @ [WithTweakListOptions (selector_tweak sel)]))) ss \<and>
         (\<forall>k. k \<notin> FilteredFactoryKey ` set ss \<longrightarrow> value_of ctx' k = value_of ctx k) \<and>
         (\<forall>sel \<in> set ss. \<exists>p. value_of ctx' (FilteredFactoryKey sel) = Some (VFactory p) \<and>
             length fs \<le> p \<and> p < length fs + length ss \<and> ss ! (p - length fs) = sel)"
  using assms
proof (induction ss arbitrary: ctx fs)
  case (Cons sel ss)
  let ?ctx = "with_value (FilteredFactoryKey sel) (VFactory (length fs)) ctx"
  let ?fs = "fs @ [(c, new_factory_with_options (resync_period ctx)
      (scope_options ctx @ [WithTweakListOptions (selector_tweak sel)]))]"
  have same: "resync_period ?ctx = resync_period ctx" "scope_options ?ctx = scope_options ctx"
    by (simp_all add: resync_period_def scope_options_def namespace_scope_def)
  have run: "filtered_factories c ss (?ctx, ?fs) = (ctx', fs')"
    using Cons.prems by (simp add: add_factory_def)
  note ih = Cons.IH [OF run, unfolded same]
  have "\<exists>p. value_of ctx' (FilteredFactoryKey x) = Some (VFactory p) \<and> length fs \<le> p \<and>
      p < length fs + length (sel # ss) \<and> (sel # ss) ! (p - length fs) = x" if "x \<in> set (sel # ss)" for x
  proof (cases "x \<in> set ss")
    case True
    then obtain p where "value_of ctx' (FilteredFactoryKey x) = Some (VFactory p)" "length ?fs \<le> p"
      "p < length ?fs + length ss" "ss ! (p - length ?fs) = x" using ih by meson
    then show ?thesis by (intro exI [of _ p]) (simp add: nth_Cons')
  next
    case False
    then have "x = sel" using that by simp
    moreover have "value_of ctx' (FilteredFactoryKey x) = value_of ?ctx (FilteredFactoryKey x)" using ih False by blast
    ultimately show ?thesis by simp
  qed
  moreover have "fs' = ?fs @ map (\<lambda>sel. (c, new_factory_with_options (resync_period ctx)
             (scope_options ctx @ [WithTweakListOptions (selector_tweak sel)]))) ss" using ih by blast
  moreover have "value_of ctx' k = value_of ctx k" if "k \<notin> FilteredFactoryKey ` set (sel # ss)" for k
    using ih that by simp
  ultimately show ?case by simp
qed simp

lemma new_factory_settings:
  "uniform (new_factory_with_options resync (scope_options ctx))"
  "settings (c, new_factory_with_options resync (scope_options ctx)) = (c, namespace_scope ctx, None, resync)"
  "uniform (new_factory_with_options resync (scope_options ctx @ [WithTweakListOptions tw]))"
  "settings (c, new_factory_with_options resync (scope_options ctx @ [WithTweakListOptions tw])) =
     (c, namespace_scope ctx, Some tw, resync)"
  by (auto simp: uniform_def settings_def scope_options_def new_factory_with_options_def)

lemma ready_informer:
  assumes "ready s k t p i" and "\<forall>f \<in> snd ` set (snd s). uniform f" and "p < length (snd s)"
    and "settings (snd s ! p) = (c, ns, tw, resync)"
  shows "\<exists>a. informer_at (fst s) k t m = Ok (p, a) \<and> resource_informer t a (snd (snd s ! p)) = (i, snd (snd s ! p)) \<and>
    in_namespace i = ns \<and> in_resync i = resync \<and> in_tweak i = tw"
proof -
  have "uniform (snd (snd s ! p))" using assms(2,3) by simp
  moreover have "map_of (fa_informers (snd (snd s ! p))) t = Some i" using assms(1) by (simp add: ready_def)
  ultimately show ?thesis
    using assms(1,4) map_of_SomeD [of "fa_informers (snd (snd s ! p))" t i]
    by (fastforce simp: ready_def informer_at_def resource_informer_def informer_for_found uniform_def settings_def)
qed

text \<open>The state after the set-up.\<close>

lemma setup_informers_state:
  assumes "new_client cfg = Ok c"
  obtains s' infs f where "setup_informers new_client cfg ts ctx = Ok (s', infs)" "snd s' = [(c, f)]"
    "settings (c, f) = (c, namespace_scope ctx, None, resync_period ctx)" "uniform f" "map in_type infs = ts"
    "\<forall>k. k \<notin> InformerKey ` set ts \<longrightarrow>
       value_of (fst s') k = value_of (with_value FactoryKey (VFactory 0) (with_value ClientKey (VClient c) ctx)) k"
    "\<forall>t \<in> set ts. \<exists>i \<in> set infs. ready s' (InformerKey t) t 0 i"
proof -
  define ctx1 where "ctx1 = with_value ClientKey (VClient c) ctx"
  define f0 where "f0 = new_factory_with_options (resync_period ctx) (scope_options ctx1)"
  define s where "s = (with_value FactoryKey (VFactory 0) ctx1, [(c, f0)])"
  have scope: "namespace_scope ctx1 = namespace_scope ctx" "resync_period ctx1 = resync_period ctx"
    by (simp_all add: ctx1_def namespace_scope_def resync_period_def)
  define xs where "xs = map (\<lambda>t. (InformerKey t, t, 0::nat)) ts"
  obtain s' infs where s': "add_informers xs (s, []) = (s', infs)" by (metis surj_pair)
  have "value_of (fst s) FactoryKey = Some (VFactory 0)" by (simp add: s_def)
  moreover have "with_client_from_config new_client cfg ctx = Ok ctx1"
    using assms by (simp add: with_client_from_config_def ctx1_def)
  moreover have "client_get ctx1 = Ok c" by (simp add: ctx1_def client_get_def)
  then have "with_informer_factory (ctx1, []) = Ok s"
    by (simp add: with_informer_factory_def with_factory_of_def add_factory_def s_def f0_def scope)
  ultimately have run: "setup_informers new_client cfg ts ctx = Ok (s', infs)"
    using setup_types_adds [of s 0 ts "[]"] s' by (simp add: setup_informers_def xs_def)
  have u: "\<forall>f \<in> snd ` set (snd s). uniform f" by (simp add: s_def f0_def new_factory_settings)
  define g where "g k = (case k of InformerKey t \<Rightarrow> (t, 0::nat) | _ \<Rightarrow> (SourceType, 0))" for k
  have added: "added xs g s s' infs"
    using add_informers_facts [OF s' _ u, of g] by (auto simp: xs_def g_def s_def)
  then obtain f where f: "snd s' = [(c, f)]" "settings (c, f) = (c, namespace_scope ctx, None, resync_period ctx)"
    using new_factory_settings(2) [of c "resync_period ctx" ctx1]
    by (auto simp: added_def s_def f0_def scope settings_def)
  show thesis
    by (rule that [OF run f])
      (use added f(1) in \<open>auto simp: added_def xs_def o_def s_def ctx1_def image_image\<close>)
qed

subsection \<open>Properties\<close>

text \<open>
  Once injection is set up, everything it promises is there: the client and the one factory made on it come out
  of the context, and for each type linked into the binary \<^verbatim>\<open>Get\<close> gives an informer whose \<^verbatim>\<open>Informer()\<close> is the one
  handed out to be started (no second one is made), scoped to the namespace, with the resync period and without a
  tweak. \<^verbatim>\<open>Get\<close> of a type that is not linked panics.
\<close>

theorem injection_complete:
  assumes "new_client cfg = Ok c"
  shows "\<exists>ctx' f infs. setup_informers new_client cfg ts ctx = Ok ((ctx', [(c, f)]), infs) \<and>
    client_get ctx' = Ok c \<and> factory_get ctx' = Ok 0 \<and> map in_type infs = ts \<and>
    (\<forall>t \<in> set ts. \<exists>a. \<exists>i \<in> set infs. informer_get ctx' t = Ok (0, a) \<and> resource_informer t a f = (i, f) \<and>
       in_namespace i = namespace_scope ctx \<and> in_resync i = resync_period ctx \<and> in_tweak i = None) \<and>
    (\<forall>t. t \<notin> set ts \<longrightarrow> value_of ctx (InformerKey t) = None \<longrightarrow>
       informer_get ctx' t = Panic (unable (informer_name t)))"
proof -
  from assms obtain s' infs f where run: "setup_informers new_client cfg ts ctx = Ok (s', infs)" and f: "snd s' = [(c, f)]"
    and st: "settings (c, f) = (c, namespace_scope ctx, None, resync_period ctx)" and u: "uniform f"
    and types: "map in_type infs = ts"
    and old: "\<forall>k. k \<notin> InformerKey ` set ts \<longrightarrow>
       value_of (fst s') k = value_of (with_value FactoryKey (VFactory 0) (with_value ClientKey (VClient c) ctx)) k"
    and new: "\<forall>t \<in> set ts. \<exists>i \<in> set infs. ready s' (InformerKey t) t 0 i"
    by (rule setup_informers_state [where ts = ts and ctx = ctx])
  have "client_get (fst s') = Ok c" "factory_get (fst s') = Ok 0"
    using spec [OF old, of ClientKey] spec [OF old, of FactoryKey] by (auto simp: client_get_def factory_get_def pointer_at_def)
  moreover have "\<exists>a. \<exists>i \<in> set infs. informer_get (fst s') t = Ok (0, a) \<and> resource_informer t a f = (i, f) \<and>
       in_namespace i = namespace_scope ctx \<and> in_resync i = resync_period ctx \<and> in_tweak i = None" if t: "t \<in> set ts" for t
  proof -
    obtain i where i: "i \<in> set infs" "ready s' (InformerKey t) t 0 i" using new t by blast
    have "settings (snd s' ! 0) = (c, namespace_scope ctx, None, resync_period ctx)" "0 < length (snd s')"
      "\<forall>f \<in> snd ` set (snd s'). uniform f"
      using f st u by simp_all
    from ready_informer [OF i(2) this(3,2,1), of "unable (informer_name t)"]
    obtain a where "informer_get (fst s') t = Ok (0, a)" "resource_informer t a f = (i, f)"
       "in_namespace i = namespace_scope ctx" "in_resync i = resync_period ctx" "in_tweak i = None"
      unfolding informer_get_def by (metis f nth_Cons_0 snd_conv)
    then show ?thesis using i(1) by blast
  qed
  moreover have "informer_get (fst s') t = Panic (unable (informer_name t))"
    if "t \<notin> set ts" "value_of ctx (InformerKey t) = None" for t
    using spec [OF old, of "InformerKey t"] that by (auto simp: informer_get_def informer_at_def)
  moreover have "s' = (fst s', [(c, f)])" using f by (metis prod.collapse)
  ultimately show ?thesis using run types by metis
qed

definition some_config :: rest_config where
  "some_config = \<lparr>cf_host = [], cf_api_path = [], cf_group_version = None, cf_serializer = False, cf_user_agent = [],
     cf_qps = 0, cf_burst = 0, cf_rate_limiter = None\<rparr>"

theorem injection_complete_witness:
  "\<exists>ctx' f infs. setup_informers (\<lambda>_. Ok (7::nat)) some_config [SourceType, BindingType] [] = Ok ((ctx', [(7, f)]), infs) \<and>
    map in_type infs = [SourceType, BindingType]"
  using injection_complete [of "\<lambda>_. Ok (7::nat)" some_config 7 "[SourceType, BindingType]" "[]", OF refl]
  by (elim exE conjE, intro exI conjI)

text \<open>
  With the filtered packages linked, there is a factory for each selector of the context, and \<^verbatim>\<open>Get\<close> with that
  selector gives the informer of that factory, which lists and watches with this label selector and no other, in
  the namespace of the context; a selector that was not announced panics.
\<close>

theorem injection_filtered:
  assumes "new_client cfg = Ok c" and "value_of ctx LabelKey = Some (VSelectors ss)"
  shows "\<exists>ctx' fs infs. setup_filtered new_client cfg ts ctx = Ok ((ctx', fs), infs) \<and> length fs = length ss \<and>
    (\<forall>sel \<in> set ss. \<exists>p < length fs. filtered_factory_get ctx' sel = Ok p \<and> fst (fs ! p) = c \<and>
       (\<forall>t \<in> set ts. \<exists>a. \<exists>i \<in> set infs. filtered_informer_get ctx' t sel = Ok (p, a) \<and>
          resource_informer t a (snd (fs ! p)) = (i, snd (fs ! p)) \<and> in_namespace i = namespace_scope ctx \<and>
          in_resync i = resync_period ctx \<and> (\<forall>opts. tweaked i opts = opts\<lparr>lo_label_selector := sel\<rparr>))) \<and>
    (\<forall>sel. sel \<notin> set ss \<longrightarrow> value_of ctx (FilteredFactoryKey sel) = None \<longrightarrow>
       filtered_factory_get ctx' sel = Panic (unable (''informers/externalversions.SharedInformerFactory with selector '' @ sel)))"
proof -
  define ctx1 where "ctx1 = with_value ClientKey (VClient c) ctx"
  have scope: "namespace_scope ctx1 = namespace_scope ctx" "resync_period ctx1 = resync_period ctx"
    by (simp_all add: ctx1_def namespace_scope_def resync_period_def)
  obtain ctx2 fs0 where ff: "filtered_factories c ss (ctx1, []) = (ctx2, fs0)" by (metis surj_pair)
  note v = filtered_factories_value [OF ff, unfolded scope, simplified]
  then obtain ptr where ptr: "\<forall>sel \<in> set ss. value_of ctx2 (FilteredFactoryKey sel) = Some (VFactory (ptr sel)) \<and>
      ptr sel < length ss \<and> ss ! ptr sel = sel"
    by metis
  have other: "\<And>k. k \<notin> FilteredFactoryKey ` set ss \<Longrightarrow> value_of ctx2 k = value_of ctx1 k" using v by blast
  have fs0: "fs0 = map (\<lambda>sel. (c, new_factory_with_options (resync_period ctx)
             (scope_options ctx1 @ [WithTweakListOptions (selector_tweak sel)]))) ss" using v by blast
  define xs where "xs = filtered_list ptr ss ts"
  have keys: "fst ` set xs = {FilteredInformerKey t sel |t sel. t \<in> set ts \<and> sel \<in> set ss}"
    by (auto simp: xs_def filtered_list_def image_iff)
  obtain s' infs where s': "add_informers xs ((ctx2, fs0), []) = (s', infs)" by (metis surj_pair)
  have "value_of ctx2 LabelKey = Some (VSelectors ss)" using other [of LabelKey] assms(2) by (auto simp: ctx1_def)
  then have "setup_filtered_types ts ((ctx2, fs0), []) = Ok (s', infs)"
    using setup_filtered_types_adds [of "(ctx2, fs0)" ss ptr ts "[]"] ptr s' by (simp add: xs_def)
  moreover have "client_get ctx1 = Ok c" "selectors_of ctx1 = Ok ss"
    using assms(2) by (simp_all add: ctx1_def client_get_def selectors_of_def)
  then have "with_filtered_factories (ctx1, []) = Ok (ctx2, fs0)"
    by (simp add: with_filtered_factories_def with_filtered_of_def ff)
  moreover have "with_client_from_config new_client cfg ctx = Ok ctx1"
    using assms by (simp add: with_client_from_config_def ctx1_def)
  ultimately have run: "setup_filtered new_client cfg ts ctx = Ok (s', infs)" by (simp add: setup_filtered_def)
  have u: "\<forall>f \<in> snd ` set (snd (ctx2, fs0)). uniform f" by (auto simp: fs0 new_factory_settings)
  define g where "g k = (case k of FilteredInformerKey t sel \<Rightarrow> (t, ptr sel) | _ \<Rightarrow> (SourceType, 0))" for k
  have "added xs g (ctx2, fs0) s' infs"
    using add_informers_facts [OF s' _ u, of g] ptr by (auto simp: xs_def filtered_list_def g_def fs0)
  then have set': "map settings (snd s') = map settings fs0" and u': "\<forall>f \<in> snd ` set (snd s'). uniform f"
    and old: "\<And>k. k \<notin> fst ` set xs \<Longrightarrow> value_of (fst s') k = value_of ctx2 k"
    and new: "\<forall>(k, t, p) \<in> set xs. \<exists>i \<in> set infs. ready s' k t p i"
    by (simp_all add: added_def)
  have len: "length (snd s') = length ss" using set' fs0 by (metis length_map)
  have facs: "value_of (fst s') (FilteredFactoryKey sel) = value_of ctx2 (FilteredFactoryKey sel)" for sel
    using old [of "FilteredFactoryKey sel"] by (auto simp: keys)
  have st: "settings (snd s' ! ptr sel) = (c, namespace_scope ctx, Some (selector_tweak sel), resync_period ctx)"
    if "sel \<in> set ss" for sel
  proof -
    have "settings (snd s' ! ptr sel) = settings (fs0 ! ptr sel)"
      using set' ptr that len fs0 by (metis length_map nth_map)
    then show ?thesis using ptr that by (simp add: fs0 new_factory_settings scope)
  qed
  have "\<exists>p < length (snd s'). filtered_factory_get (fst s') sel = Ok p \<and> fst (snd s' ! p) = c \<and>
       (\<forall>t \<in> set ts. \<exists>a. \<exists>i \<in> set infs. filtered_informer_get (fst s') t sel = Ok (p, a) \<and>
          resource_informer t a (snd (snd s' ! p)) = (i, snd (snd s' ! p)) \<and> in_namespace i = namespace_scope ctx \<and>
          in_resync i = resync_period ctx \<and> (\<forall>opts. tweaked i opts = opts\<lparr>lo_label_selector := sel\<rparr>))"
    if "sel \<in> set ss" for sel
  proof (intro exI [of _ "ptr sel"] conjI ballI)
    show p: "ptr sel < length (snd s')" using ptr that len by simp
    show "filtered_factory_get (fst s') sel = Ok (ptr sel)"
      using ptr that by (simp add: filtered_factory_get_def pointer_at_def facs)
    show "fst (snd s' ! ptr sel) = c" using st [OF that] by (simp add: settings_def)
    fix t assume "t \<in> set ts"
    then have "(FilteredInformerKey t sel, t, ptr sel) \<in> set xs" using that by (auto simp: xs_def filtered_list_def)
    then obtain i where "i \<in> set infs" "ready s' (FilteredInformerKey t sel) t (ptr sel) i" using new by blast
    with ready_informer [OF this(2) u' p st [OF that], of "unable (informer_name t @ '' with selector '' @ sel)"]
    show "\<exists>a. \<exists>i \<in> set infs. filtered_informer_get (fst s') t sel = Ok (ptr sel, a) \<and>
          resource_informer t a (snd (snd s' ! ptr sel)) = (i, snd (snd s' ! ptr sel)) \<and>
          in_namespace i = namespace_scope ctx \<and> in_resync i = resync_period ctx \<and>
          (\<forall>opts. tweaked i opts = opts\<lparr>lo_label_selector := sel\<rparr>)"
      unfolding filtered_informer_get_def tweaked_def by (metis option.simps(5) selector_tweak_def)
  qed
  moreover have "filtered_factory_get (fst s') sel =
      Panic (unable (''informers/externalversions.SharedInformerFactory with selector '' @ sel))"
    if "sel \<notin> set ss" "value_of ctx (FilteredFactoryKey sel) = None" for sel
  proof -
    have "FilteredFactoryKey sel \<notin> FilteredFactoryKey ` set ss" using that(1) by blast
    then show ?thesis
      using facs [of sel] other that(2) by (simp add: filtered_factory_get_def pointer_at_def ctx1_def)
  qed
  ultimately show ?thesis using run len by (intro exI [of _ "fst s'"] exI [of _ "snd s'"] exI [of _ infs]) simp
qed

theorem injection_filtered_witness:
  "\<exists>ctx' fs infs. setup_filtered (\<lambda>_. Ok (7::nat)) some_config [SourceType] [(LabelKey, VSelectors [''a=b'', ''c''])] =
      Ok ((ctx', fs), infs) \<and> length fs = 2"
proof -
  have "(\<lambda>_. Ok (7::nat)) some_config = Ok 7" by simp
  moreover have "value_of [(LabelKey, VSelectors [''a=b'', ''c''])] LabelKey = Some (VSelectors [''a=b'', ''c''])"
    by (simp add: value_of_def)
  ultimately have "\<exists>ctx' fs infs.
      setup_filtered (\<lambda>_. Ok (7::nat)) some_config [SourceType] [(LabelKey, VSelectors [''a=b'', ''c''])] =
      Ok ((ctx', fs), infs) \<and> length fs = length [''a=b'', ''c'']"
    using injection_filtered [of "\<lambda>_. Ok (7::nat)" some_config 7 _ _ "[SourceType]"] by blast
  then show ?thesis by (simp add: numeral_2_eq_2)
qed

end
