(* ===== verification/Tracker.thy ===== *)
theory Tracker
  imports BindingProperties Injection
begin

section \<open>The tracker of subjects\<close>

text \<open>
  How a binding hears of its subjects: the reconciler tracks the reference it is about to resolve, the informer of the
  subject's resource calls the tracker for each change, and the tracker enqueues the bindings whose lease on the changed
  object has not expired (\<^verbatim>\<open>tracker/enqueue.go\<close> and \<^verbatim>\<open>apis/duck\<close> of \<^verbatim>\<open>knative.dev/pkg\<close>, as
  \<^verbatim>\<open>NewController\<close> of \<^verbatim>\<open>pkg/reconciler/binding/controller.go\<close> connects them).

  Each call reads the clock as often as the code does: \<open>clk i\<close> is the \<open>i\<close>-th reading of the call, in nanoseconds. An
  iteration over a map takes the order of its list.
\<close>

subsection \<open>References\<close>

definition in_range :: "char \<Rightarrow> char \<Rightarrow> char \<Rightarrow> bool" where
  "in_range a b c \<longleftrightarrow> byte a \<le> byte c \<and> byte c \<le> byte b"

definition lower_alphanumeric :: "char \<Rightarrow> bool" where
  "lower_alphanumeric c \<longleftrightarrow> in_range CHR ''a'' CHR ''z'' c \<or> in_range CHR ''0'' CHR ''9'' c"

definition alphanumeric :: "char \<Rightarrow> bool" where
  "alphanumeric c \<longleftrightarrow> lower_alphanumeric c \<or> in_range CHR ''A'' CHR ''Z'' c"

text \<open>The regular expressions, of the shapes \<^verbatim>\<open>(AB*)?A\<close>, \<^verbatim>\<open>L(\.L)*\<close> and \<^verbatim>\<open>AB*\<close>.\<close>

definition delimited :: "(char \<Rightarrow> bool) \<Rightarrow> string \<Rightarrow> string \<Rightarrow> bool" where
  "delimited A marks s \<longleftrightarrow> s \<noteq> [] \<and> A (hd s) \<and> A (last s) \<and> List.list_all (\<lambda>c. A c \<or> c \<in> set marks) s"

definition label_matches :: "string \<Rightarrow> bool" where
  "label_matches s = delimited lower_alphanumeric ''-'' s"

definition subdomain_matches :: "string \<Rightarrow> bool" where
  "subdomain_matches s = List.list_all label_matches (split_on CHR ''.'' s)"

definition label_key_matches :: "string \<Rightarrow> bool" where
  "label_key_matches s = delimited alphanumeric ''-_.'' s"

definition c_identifier_matches :: "string \<Rightarrow> bool" where
  "c_identifier_matches s \<longleftrightarrow> s \<noteq> [] \<and> (alphanumeric (hd s) \<and> \<not> in_range CHR ''0'' CHR ''9'' (hd s) \<or> hd s = CHR ''_'') \<and>
     List.list_all (\<lambda>c. alphanumeric c \<or> c = CHR ''_'') s"

definition dns1123_label_fmt :: string where
  "dns1123_label_fmt = ''[a-z0-9]([-a-z0-9]*[a-z0-9])?''"

definition dns1123_subdomain_fmt :: string where
  "dns1123_subdomain_fmt = dns1123_label_fmt @ ''('' @ CHR 0x5C # ''.'' @ dns1123_label_fmt @ '')*''"

definition label_key_fmt :: string where
  "label_key_fmt = ''([A-Za-z0-9][-A-Za-z0-9_.]*)?[A-Za-z0-9]''"

definition regex_error :: "string \<Rightarrow> string \<Rightarrow> string list \<Rightarrow> string" where
  "regex_error msg fmt examples =
     (let q = apostrophes
      in if examples = [] then msg @ '' (regex used for validation is '' @ q fmt @ '')''
         else msg @ '' (e.g. '' @ fold (\<lambda>x acc. (if acc = [] then [] else acc @ '' or '') @ q x @ '', '') examples [] @
           ''regex used for validation is '' @ q fmt @ '')'')"

definition is_dns1123_label :: "string \<Rightarrow> string list" where
  "is_dns1123_label s =
     (if length s > 63 then [''must be no more than 63 characters''] else []) @
     (if label_matches s then []
      else if subdomain_matches s then [''must not contain dots'']
      else [regex_error (''a lowercase RFC 1123 label must consist of lower case alphanumeric characters or '' @ apostrophes ''-'' @ '', and must start and end with an alphanumeric character'') dns1123_label_fmt
        [''my-name'', ''123-abc'']])"

text \<open>The length is counted in characters for a name, in bytes for the prefix of a qualified name.\<close>

definition is_dns1123_subdomain :: "string \<Rightarrow> string \<Rightarrow> string list" where
  "is_dns1123_subdomain units s =
     (if length s > 253 then [''must be no more than 253 '' @ units] else []) @
     (if subdomain_matches s then []
      else [regex_error (''a lowercase RFC 1123 subdomain must consist of lower case alphanumeric characters, '' @ apostrophes ''-'' @ '' or '' @ apostrophes ''.'' @
        '', and must start and end with an alphanumeric character'') dns1123_subdomain_fmt [''example.com'']])"

definition label_key_error :: string where
  "label_key_error = regex_error (''must consist of alphanumeric characters, '' @ apostrophes ''-'' @ '', '' @
     apostrophes ''_'' @ '' or '' @ apostrophes ''.'' @
     '', and must start and end with an alphanumeric character'') label_key_fmt [''MyName'', ''my.name'', ''123-abc'']"

definition name_part_errors :: "string \<Rightarrow> string list" where
  "name_part_errors name =
     (if name = [] then [''name part must be non-empty'']
      else if length name > 63 then [''name part must be no more than 63 bytes''] else []) @
     (if label_key_matches name then [] else [''name part '' @ label_key_error])"

definition is_label_key :: "string \<Rightarrow> string list" where
  "is_label_key s =
     (case split_on CHR ''/'' s of
        [name] \<Rightarrow> name_part_errors name
      | [prefix, name] \<Rightarrow>
          (if prefix = [] then [''prefix part must be non-empty'']
           else map (\<lambda>m. ''prefix part '' @ m) (is_dns1123_subdomain ''bytes'' prefix)) @ name_part_errors name
      | _ \<Rightarrow> [''a valid label key '' @ label_key_error @ '' with an optional DNS subdomain prefix and '' @
          apostrophes ''/'' @ '' (e.g. '' @ apostrophes ''example.com/MyName'' @ '')''])"

definition is_c_identifier :: "string \<Rightarrow> string list" where
  "is_c_identifier s =
     (if c_identifier_matches s then []
      else [regex_error (''a valid C identifier must start with alphabetic character or '' @ apostrophes ''_'' @
        '', followed by a string of alphanumeric characters or '' @ apostrophes ''_'')
        ''[A-Za-z_][A-Za-z0-9_]*'' [''my_name'', ''MY_NAME'', ''MyName'']])"

definition reference_errors :: "(string option \<Rightarrow> goerr + selector) \<Rightarrow> subject_reference \<Rightarrow> string list" where
  "reference_errors sel r =
     (let about = (\<lambda>k msgs. map (\<lambda>m. k @ '': '' @ m) msgs)
      in (if sr_selector r \<noteq> None \<and> sr_name r \<noteq> [] then [''cannot provide both Name and Selector'']
          else if sr_name r \<noteq> [] then about ''Name'' (is_dns1123_subdomain ''characters'' (sr_name r))
          else case sr_selector r of
                 None \<Rightarrow> [''must provide either Name or Selector'']
               | Some _ \<Rightarrow> (case sel (sr_selector r) of Inl e \<Rightarrow> about ''Selector'' [err_text e] | Inr _ \<Rightarrow> [])) @
         about ''APIVersion'' (is_label_key (sr_api_version r)) @
         about ''Kind'' (is_c_identifier (sr_kind r)) @
         (if sr_namespace r \<noteq> [] then about ''Namespace'' (is_dns1123_label (sr_namespace r)) else []))"

definition reference_error :: "(string option \<Rightarrow> goerr + selector) \<Rightarrow> subject_reference \<Rightarrow> goerr option" where
  "reference_error sel r =
     (case reference_errors sel r of
        [] \<Rightarrow> None
      | es \<Rightarrow> Some (ErrText (''invalid Reference:'' @ [CHR 0x0A] @ join_with (CHR 0x0A) (sort es))))"

subsection \<open>The tracker\<close>

text \<open>
  \<^verbatim>\<open>exact\<close> and \<^verbatim>\<open>inexact\<close>, from a reference (API version, kind, namespace, and a name that is empty in
  \<^verbatim>\<open>inexact\<close>) to the leases on it: the key of each binding with the expiry, and its selector.
\<close>

type_synonym track_key = "string \<times> string \<times> string \<times> string"
type_synonym clock = "nat \<Rightarrow> int"

record subject_tracker =
  tk_exact :: "(track_key \<times> (queue_key \<times> int) list) list"
  tk_inexact :: "(track_key \<times> (queue_key \<times> selector \<times> int) list) list"
  tk_lease :: int

definition new_tracker :: "int \<Rightarrow> subject_tracker" where
  "new_tracker lease = \<lparr>tk_exact = [], tk_inexact = [], tk_lease = lease\<rparr>"

definition is_expired :: "int \<Rightarrow> int \<Rightarrow> bool" where
  "is_expired now expiry \<longleftrightarrow> now > expiry"

definition at_key :: "'k \<Rightarrow> ('k \<times> 'v list) list \<Rightarrow> 'v list" where
  "at_key k m = (case map_of m k of None \<Rightarrow> [] | Some l \<Rightarrow> l)"

definition exact_reference :: "subject_reference \<Rightarrow> track_key" where
  "exact_reference r = (sr_api_version r, sr_kind r, sr_namespace r, sr_name r)"

definition partial_reference :: "subject_reference \<Rightarrow> track_key" where
  "partial_reference r = (sr_api_version r, sr_kind r, sr_namespace r, [])"

definition tracked_selector :: "(string option \<Rightarrow> goerr + selector) \<Rightarrow> subject_reference \<Rightarrow> selector option" where
  "tracked_selector sel r =
     (if sr_name r \<noteq> [] then None
      else case sr_selector r of
             None \<Rightarrow> None
           | Some _ \<Rightarrow> (case sel (sr_selector r) of Inl _ \<Rightarrow> None | Inr s \<Rightarrow> Some s))"

text \<open>A key that is not covered is called back at once.\<close>

definition uncovered :: "('v \<Rightarrow> int) \<Rightarrow> clock \<Rightarrow> queue_key \<Rightarrow> (queue_key \<times> 'v) list \<Rightarrow> queue_key list" where
  "uncovered expiry clk k l =
     (case map_of l k of None \<Rightarrow> [k] | Some v \<Rightarrow> (if is_expired (clk 0) (expiry v) then [k] else []))"

definition track_reference ::
  "(string option \<Rightarrow> goerr + selector) \<Rightarrow> clock \<Rightarrow> subject_reference \<Rightarrow> object_meta \<Rightarrow> subject_tracker \<Rightarrow>
   goerr option \<times> queue_key list \<times> subject_tracker" where
  "track_reference sel clk r m t =
     (case reference_error sel r of
        Some e \<Rightarrow> (Some e, [], t)
      | None \<Rightarrow>
          (let k = key_of m; expiry = clk 1 + tk_lease t
           in case tracked_selector sel r of
                None \<Rightarrow>
                  (let l = at_key (exact_reference r) (tk_exact t)
                   in (None, uncovered (\<lambda>x. x) clk k l,
                       t\<lparr>tk_exact := AList.update (exact_reference r) (AList.update k expiry l) (tk_exact t)\<rparr>))
              | Some s \<Rightarrow>
                  (let l = at_key (partial_reference r) (tk_inexact t)
                   in (None, uncovered snd clk k l,
                       t\<lparr>tk_inexact := AList.update (partial_reference r) (AList.update k (s, expiry) l) (tk_inexact t)\<rparr>))))"

text \<open>
  \<^verbatim>\<open>GetObservers\<close>, for an object with its type: the leases that have expired are dropped on the way, and a reference
  without a lease is too.
\<close>

record observed_object =
  ob_api_version :: string
  ob_kind :: string
  ob_meta :: object_meta

definition object_reference :: "observed_object \<Rightarrow> track_key" where
  "object_reference ob =
     (let (g, v) = (case parse_group_version (ob_api_version ob) of Inl _ \<Rightarrow> ([], []) | Inr gv \<Rightarrow> gv)
      in (if g \<noteq> [] then g @ ''/'' @ v else v, ob_kind ob, om_namespace (ob_meta ob), om_name (ob_meta ob)))"

fun sweep :: "('v \<Rightarrow> int) \<Rightarrow> ('v \<Rightarrow> bool) \<Rightarrow> clock \<Rightarrow> (queue_key \<times> 'v) list \<Rightarrow> queue_key list \<times> (queue_key \<times> 'v) list" where
  "sweep expiry wanted clk [] = ([], [])"
| "sweep expiry wanted clk ((k, v) # l) =
     (let (ks, l') = sweep expiry wanted (\<lambda>i. clk (Suc i)) l
      in if is_expired (clk 0) (expiry v) then (ks, l')
         else (if wanted v then k # ks else ks, (k, v) # l'))"

definition sweep_at ::
  "('v \<Rightarrow> int) \<Rightarrow> ('v \<Rightarrow> bool) \<Rightarrow> clock \<Rightarrow> track_key \<Rightarrow> (track_key \<times> (queue_key \<times> 'v) list) list \<Rightarrow>
   queue_key list \<times> (track_key \<times> (queue_key \<times> 'v) list) list" where
  "sweep_at expiry wanted clk r m =
     (case map_of m r of
        None \<Rightarrow> ([], m)
      | Some l \<Rightarrow>
          (let (ks, l') = sweep expiry wanted clk l
           in (ks, if l' = [] then AList.delete r m else AList.update r l' m)))"

definition nameless :: "track_key \<Rightarrow> track_key" where
  "nameless r = (case r of (v, kd, ns, _) \<Rightarrow> (v, kd, ns, []))"

definition get_observers :: "clock \<Rightarrow> observed_object \<Rightarrow> subject_tracker \<Rightarrow> queue_key list \<times> subject_tracker" where
  "get_observers clk ob t =
     (let r = object_reference ob;
          (ks, ex) = sweep_at (\<lambda>x. x) (\<lambda>_. True) clk r (tk_exact t);
          clk' = (\<lambda>i. clk (length (at_key r (tk_exact t)) + i));
          (ks', inex) = sweep_at snd (\<lambda>(s, _). selector_matches s (om_labels (ob_meta ob))) clk'
             (nameless r) (tk_inexact t)
      in (ks @ ks', t\<lparr>tk_exact := ex, tk_inexact := inex\<rparr>))"

definition on_deleted_observer :: "object_meta \<Rightarrow> subject_tracker \<Rightarrow> subject_tracker" where
  "on_deleted_observer m t =
     t\<lparr>tk_exact := filter (\<lambda>(_, l). l \<noteq> []) (map (\<lambda>(r, l). (r, AList.delete (key_of m) l)) (tk_exact t)),
       tk_inexact := filter (\<lambda>(_, l). l \<noteq> []) (map (\<lambda>(r, l). (r, AList.delete (key_of m) l)) (tk_inexact t))\<rparr>"

subsection \<open>The informers of the subjects\<close>

text \<open>
  The factory of \<^verbatim>\<open>NewController\<close>: the informer of a resource is asked for once, and the handler is attached to it once,
  when it could be had.
\<close>

record subject_watch =
  sw_tracker :: subject_tracker
  sw_informers :: "gvr list"

text \<open>\<open>answer\<close> is what the injected factory says of the resource.\<close>

definition get_informer :: "(gvr \<Rightarrow> goerr option) \<Rightarrow> gvr \<Rightarrow> subject_watch \<Rightarrow> goerr option \<times> subject_watch" where
  "get_informer answer g s =
     (if g \<in> set (sw_informers s) then (None, s)
      else case answer g of
             Some e \<Rightarrow> (Some e, s)
           | None \<Rightarrow> (None, s\<lparr>sw_informers := sw_informers s @ [g]\<rparr>))"

definition on_changed :: "clock \<Rightarrow> observed_object \<Rightarrow> subject_watch \<Rightarrow> queue_key list \<times> subject_watch" where
  "on_changed clk ob s = (let (ks, t) = get_observers clk ob (sw_tracker s) in (ks, s\<lparr>sw_tracker := t\<rparr>))"

definition on_subject_event ::
  "clock \<Rightarrow> gvr \<Rightarrow> observed_object informer_event \<Rightarrow> subject_watch \<Rightarrow> queue_key list \<times> subject_watch" where
  "on_subject_event clk g ev s =
     (if g \<in> set (sw_informers s) then on_changed clk (handled_object ev) s else ([], s))"

subsection \<open>Leases, as a contract\<close>

text \<open>
  What a client of a tracker relies on: tracking gives a lease for its length, a lease is only lost by time or by the same
  client tracking another reference, and a change of an object concerned by an unexpired lease tells its holder.
\<close>

datatype ('r, 'm, 'o) lease_op = TrackOp clock 'r 'm | ChangeOp clock 'o

fun lease_step ::
  "(clock \<Rightarrow> 'r \<Rightarrow> 'm \<Rightarrow> 't \<Rightarrow> 't) \<Rightarrow> (clock \<Rightarrow> 'o \<Rightarrow> 't \<Rightarrow> 'k list \<times> 't) \<Rightarrow> ('r, 'm, 'o) lease_op \<Rightarrow> 't \<Rightarrow> 't" where
  "lease_step track change (TrackOp clk r m) t = track clk r m t"
| "lease_step track change (ChangeOp clk ob) t = snd (change clk ob t)"

text \<open>Operations that leave a lease of \<open>k\<close> on \<open>r\<close>, given at \<open>since\<close> or later and good until \<open>e\<close>, in force.\<close>

fun keeps_lease :: "('m \<Rightarrow> 'k) \<Rightarrow> 'r \<Rightarrow> 'k \<Rightarrow> int \<Rightarrow> int \<Rightarrow> ('r, 'm, 'o) lease_op \<Rightarrow> bool" where
  "keeps_lease key r k since e (TrackOp clk r' m) \<longleftrightarrow> (key m = k \<longrightarrow> r' = r) \<and> since \<le> clk 1"
| "keeps_lease key r k since e (ChangeOp clk ob) \<longleftrightarrow> (\<forall>i. clk i \<le> e)"

locale leasing =
  fixes track :: "clock \<Rightarrow> 'r \<Rightarrow> 'm \<Rightarrow> 't \<Rightarrow> 't"
    and change :: "clock \<Rightarrow> 'o \<Rightarrow> 't \<Rightarrow> 'k list \<times> 't"
    and key :: "'m \<Rightarrow> 'k"
    and valid :: "'r \<Rightarrow> bool"
    and lease_length :: "'t \<Rightarrow> int"
    and leased :: "'r \<Rightarrow> 'k \<Rightarrow> int \<Rightarrow> 't \<Rightarrow> bool"
    and concerns :: "'r \<Rightarrow> 'o \<Rightarrow> bool"
  assumes track_gives: "valid r \<Longrightarrow> e \<le> clk 1 + lease_length t \<Longrightarrow> leased r (key m) e (track clk r m t)"
    and track_keeps: "leased r k e t \<Longrightarrow> (key m = k \<longrightarrow> r' = r) \<Longrightarrow> e \<le> clk 1 + lease_length t \<Longrightarrow>
      leased r k e (track clk r' m t)"
    and track_length: "lease_length (track clk r m t) = lease_length t"
    and change_keeps: "leased r k e t \<Longrightarrow> (\<forall>i. clk i \<le> e) \<Longrightarrow> leased r k e (snd (change clk ob t))"
    and change_length: "lease_length (snd (change clk ob t)) = lease_length t"
    and change_tells: "leased r k e t \<Longrightarrow> (\<forall>i. clk i \<le> e) \<Longrightarrow> concerns r ob \<Longrightarrow> k \<in> set (fst (change clk ob t))"
begin

lemma step_keeps:
  assumes "leased r k e t" "keeps_lease key r k (e - lease_length t) e op"
  shows "leased r k e (lease_step track change op t) \<and> lease_length (lease_step track change op t) = lease_length t"
  using assms by (cases op) (auto intro!: track_keeps change_keeps simp: track_length change_length)

lemma steps_keep:
  assumes "leased r k e t" "\<forall>op \<in> set ops. keeps_lease key r k (e - lease_length t) e op"
  shows "leased r k e (fold (lease_step track change) ops t)"
  using assms
proof (induction ops arbitrary: t)
  case (Cons op ops)
  then have "leased r k e (lease_step track change op t)"
    "lease_length (lease_step track change op t) = lease_length t"
    using step_keeps [of r k e t op] by simp_all
  with Cons show ?case by simp
qed simp

text \<open>A client that tracked is told of every change of an object it is concerned with, until its lease expires.\<close>

lemma told_while_leased:
  assumes "valid r" and e: "e \<le> clk 1 + lease_length t"
    and ops: "\<forall>op \<in> set ops. keeps_lease key r (key m) (e - lease_length t) e op"
    and "\<forall>i. clk' i \<le> e" and "concerns r ob"
  shows "key m \<in> set (fst (change clk' ob (fold (lease_step track change) ops (track clk r m t))))"
proof -
  have "leased r (key m) e (fold (lease_step track change) ops (track clk r m t))"
    by (rule steps_keep [OF track_gives [where clk = clk, OF assms(1) e]]) (use ops in \<open>simp add: track_length\<close>)
  from change_tells [OF this assms(4,5)] show ?thesis .
qed

end

subsection \<open>The tracker keeps the contract\<close>

definition leased :: "(string option \<Rightarrow> goerr + selector) \<Rightarrow> subject_reference \<Rightarrow> queue_key \<Rightarrow> int \<Rightarrow> subject_tracker \<Rightarrow> bool" where
  "leased sel r k e t \<longleftrightarrow>
     (case tracked_selector sel r of
        None \<Rightarrow> (\<exists>x \<ge> e. map_of (at_key (exact_reference r) (tk_exact t)) k = Some x)
      | Some s \<Rightarrow> (\<exists>x \<ge> e. map_of (at_key (partial_reference r) (tk_inexact t)) k = Some (s, x)))"

definition concerns :: "(string option \<Rightarrow> goerr + selector) \<Rightarrow> subject_reference \<Rightarrow> observed_object \<Rightarrow> bool" where
  "concerns sel r ob \<longleftrightarrow>
     (case tracked_selector sel r of
        None \<Rightarrow> object_reference ob = exact_reference r
      | Some s \<Rightarrow> nameless (object_reference ob) = partial_reference r \<and> selector_matches s (om_labels (ob_meta ob)))"

lemma sweep_keeps:
  assumes "map_of l k = Some v" "\<forall>i. clk i \<le> expiry v"
  shows "map_of (snd (sweep expiry wanted clk l)) k = Some v"
    and "wanted v \<Longrightarrow> k \<in> set (fst (sweep expiry wanted clk l))"
proof -
  have "map_of (snd (sweep expiry wanted clk l)) k = Some v \<and> (wanted v \<longrightarrow> k \<in> set (fst (sweep expiry wanted clk l)))"
    using assms
  proof (induction l arbitrary: clk)
    case (Cons x l)
    obtain k' v' where x: "x = (k', v')" by (cases x)
    obtain ks l' where s: "sweep expiry wanted (\<lambda>i. clk (Suc i)) l = (ks, l')" by (metis surj_pair)
    show ?case
    proof (cases "k' = k")
      case True
      then have "\<not> is_expired (clk 0) (expiry v')" "v' = v" using Cons.prems x by (auto simp: is_expired_def not_less)
      then show ?thesis using True by (simp add: x s)
    next
      case False
      then show ?thesis using Cons.IH [of "\<lambda>i. clk (Suc i)"] Cons.prems by (auto simp: x s)
    qed
  qed simp
  then show "map_of (snd (sweep expiry wanted clk l)) k = Some v"
    and "wanted v \<Longrightarrow> k \<in> set (fst (sweep expiry wanted clk l))" by simp_all
qed

lemma at_key_update [simp]: "at_key r' (AList.update r l m) = (if r' = r then l else at_key r' m)"
  by (simp add: at_key_def update_conv')

lemma at_key_delete [simp]: "at_key r' (AList.delete r m) = (if r' = r then [] else at_key r' m)"
  by (simp add: at_key_def delete_conv')

lemma sweep_at_eq:
  "fst (sweep_at expiry wanted clk r m) = fst (sweep expiry wanted clk (at_key r m))"
  "at_key r' (snd (sweep_at expiry wanted clk r m)) =
     (if r' = r then snd (sweep expiry wanted clk (at_key r m)) else at_key r' m)"
proof -
  have "fst (sweep_at expiry wanted clk r m) = fst (sweep expiry wanted clk (at_key r m)) \<and>
    at_key r' (snd (sweep_at expiry wanted clk r m)) =
     (if r' = r then snd (sweep expiry wanted clk (at_key r m)) else at_key r' m)"
  proof (cases "map_of m r")
    case None
    then show ?thesis by (simp add: sweep_at_def at_key_def)
  next
    case (Some l)
    then have "at_key r m = l" by (simp add: at_key_def)
    then show ?thesis using Some by (simp add: sweep_at_def split_beta)
  qed
  then show "fst (sweep_at expiry wanted clk r m) = fst (sweep expiry wanted clk (at_key r m))"
    "at_key r' (snd (sweep_at expiry wanted clk r m)) =
     (if r' = r then snd (sweep expiry wanted clk (at_key r m)) else at_key r' m)" by blast+
qed

lemma get_observers_eq:
  "\<exists>clk'. range clk' \<subseteq> range clk \<and>
     fst (get_observers clk ob t) =
       fst (sweep (\<lambda>x. x) (\<lambda>_. True) clk (at_key (object_reference ob) (tk_exact t))) @
       fst (sweep snd (\<lambda>(s, _). selector_matches s (om_labels (ob_meta ob))) clk'
          (at_key (nameless (object_reference ob)) (tk_inexact t))) \<and>
     (\<forall>q. at_key q (tk_exact (snd (get_observers clk ob t))) =
       (if q = object_reference ob then snd (sweep (\<lambda>x. x) (\<lambda>_. True) clk (at_key q (tk_exact t))) else at_key q (tk_exact t))) \<and>
     (\<forall>q. at_key q (tk_inexact (snd (get_observers clk ob t))) =
       (if q = nameless (object_reference ob)
        then snd (sweep snd (\<lambda>(s, _). selector_matches s (om_labels (ob_meta ob))) clk' (at_key q (tk_inexact t)))
        else at_key q (tk_inexact t)))"
  by (rule exI [of _ "\<lambda>i. clk (length (at_key (object_reference ob) (tk_exact t)) + i)"])
    (auto simp: get_observers_def Let_def split_beta sweep_at_eq)

lemma get_observers_lease [simp]: "tk_lease (snd (get_observers clk ob t)) = tk_lease t"
  by (simp add: get_observers_def Let_def split_beta)

lemma observers_keep:
  assumes l: "leased sel r k e t" and clk: "\<forall>i. clk i \<le> e"
  shows "leased sel r k e (snd (get_observers clk ob t))"
    and "concerns sel r ob \<Longrightarrow> k \<in> set (fst (get_observers clk ob t))"
proof -
  obtain clk' where range: "range clk' \<subseteq> range clk" and
    told: "fst (get_observers clk ob t) =
       fst (sweep (\<lambda>x. x) (\<lambda>_. True) clk (at_key (object_reference ob) (tk_exact t))) @
       fst (sweep snd (\<lambda>(s, _). selector_matches s (om_labels (ob_meta ob))) clk'
          (at_key (nameless (object_reference ob)) (tk_inexact t)))" and
    ex: "\<And>q. at_key q (tk_exact (snd (get_observers clk ob t))) =
       (if q = object_reference ob then snd (sweep (\<lambda>x. x) (\<lambda>_. True) clk (at_key q (tk_exact t))) else at_key q (tk_exact t))" and
    inex: "\<And>q. at_key q (tk_inexact (snd (get_observers clk ob t))) =
       (if q = nameless (object_reference ob)
        then snd (sweep snd (\<lambda>(s, _). selector_matches s (om_labels (ob_meta ob))) clk' (at_key q (tk_inexact t)))
        else at_key q (tk_inexact t))"
    using get_observers_eq [of clk ob t] by blast
  have clk': "\<forall>i. clk' i \<le> e" using range clk by (metis rangeE range_subsetD)
  have "leased sel r k e (snd (get_observers clk ob t)) \<and>
    (concerns sel r ob \<longrightarrow> k \<in> set (fst (get_observers clk ob t)))"
  proof (cases "tracked_selector sel r")
    case None
    then obtain x where x: "x \<ge> e" "map_of (at_key (exact_reference r) (tk_exact t)) k = Some x"
      using l by (auto simp: leased_def)
    have c: "\<forall>i. clk i \<le> x" using clk x(1) order_trans by blast
    note s = sweep_keeps [where expiry = "\<lambda>x. x" and wanted = "\<lambda>_. True", OF x(2) c]
    have "map_of (at_key (exact_reference r) (tk_exact (snd (get_observers clk ob t)))) k = Some x"
      using x(2) s(1) unfolding ex by (cases "exact_reference r = object_reference ob") simp_all
    then have "leased sel r k e (snd (get_observers clk ob t))" using x(1) by (auto simp: leased_def None)
    moreover have "k \<in> set (fst (get_observers clk ob t))" if "concerns sel r ob"
      using s(2) that unfolding told by (simp add: concerns_def None)
    ultimately show ?thesis by blast
  next
    case (Some sl)
    then obtain x where x: "x \<ge> e" "map_of (at_key (partial_reference r) (tk_inexact t)) k = Some (sl, x)"
      using l by (auto simp: leased_def)
    have c: "\<forall>i. clk' i \<le> snd (sl, x)" using spec [OF clk'] x(1) by (metis order_trans snd_conv)
    note s = sweep_keeps [where expiry = snd and wanted = "\<lambda>(s, _). selector_matches s (om_labels (ob_meta ob))", OF x(2) c]
    have "map_of (at_key (partial_reference r) (tk_inexact (snd (get_observers clk ob t)))) k = Some (sl, x)"
      using x(2) s(1) unfolding inex by (cases "partial_reference r = nameless (object_reference ob)") simp_all
    then have "leased sel r k e (snd (get_observers clk ob t))" using x(1) by (auto simp: leased_def Some)
    moreover have "k \<in> set (fst (get_observers clk ob t))" if "concerns sel r ob"
      using s(2) that unfolding told by (simp add: concerns_def Some)
    ultimately show ?thesis by blast
  qed
  then show "leased sel r k e (snd (get_observers clk ob t))"
    and "concerns sel r ob \<Longrightarrow> k \<in> set (fst (get_observers clk ob t))" by simp_all
qed

definition tracking ::
  "(string option \<Rightarrow> goerr + selector) \<Rightarrow> clock \<Rightarrow> subject_reference \<Rightarrow> object_meta \<Rightarrow> subject_tracker \<Rightarrow> subject_tracker" where
  "tracking sel clk r m t = snd (snd (track_reference sel clk r m t))"

lemma tracking_lease [simp]: "tk_lease (tracking sel clk r m t) = tk_lease t"
  by (simp add: tracking_def track_reference_def Let_def split: option.split)

lemma tracking_gives:
  assumes "reference_error sel r = None" and "e \<le> clk 1 + tk_lease t"
  shows "leased sel r (key_of m) e (tracking sel clk r m t)"
  using assms by (auto simp: tracking_def track_reference_def leased_def update_conv' Let_def split: option.splits)

lemma tracking_keeps:
  assumes l: "leased sel r k e t" and same: "key_of m = k \<longrightarrow> r' = r" and e: "e \<le> clk 1 + tk_lease t"
  shows "leased sel r k e (tracking sel clk r' m t)"
proof (cases "key_of m = k \<and> reference_error sel r' = None")
  case True
  with same e tracking_gives show ?thesis by metis
next
  case False
  then show ?thesis
    using l by (auto simp: tracking_def track_reference_def leased_def update_conv' Let_def split: option.splits)
qed

interpretation subjects: leasing "tracking sel" get_observers key_of "\<lambda>r. reference_error sel r = None" tk_lease
  "leased sel" "concerns sel" for sel
  by unfold_locales (auto intro: tracking_gives tracking_keeps observers_keep)

subsection \<open>What a run tracks\<close>

fun plain_request :: "binding_request \<Rightarrow> bool" where
  "plain_request (TrackReference _) = False"
| "plain_request (GetLister _) = False"
| "plain_request _ = True"

definition plainly :: "bworld \<Rightarrow> bworld \<Rightarrow> bool" where
  "plainly w w' \<longleftrightarrow> (\<exists>X. bw_log w' = bw_log w @ X \<and> List.list_all plain_request X)"

lemma plainly_same: "bw_log w' = bw_log w \<Longrightarrow> plainly w w'"
  by (simp add: plainly_def)

lemma plainly_trans: "plainly a b \<Longrightarrow> plainly b c \<Longrightarrow> plainly a c"
  by (auto simp: plainly_def)

lemma plainly_try: "try_request f r w = (e, w') \<Longrightarrow> plain_request r \<Longrightarrow> plainly w w'"
  by (auto simp: try_request_def plainly_def)

lemma plainly_status: "on_binding_status f fb w = (fb', w') \<Longrightarrow> plainly w w'"
  by (rule plainly_same) (rule on_status_frame(1))

lemma plainly_label: "label_namespace en ns w = (e, w') \<Longrightarrow> plainly w w'"
  by (auto simp: label_namespace_def try_request_def plainly_def Let_def split: sum.splits if_splits)

lemma plainly_find:
  assumes "find_referents en g fb w = (q, fb', w')"
  shows "plainly w w'"
  using assms
  by (auto simp: find_referents_def binding_unavailable_def Let_def plainly_same
      dest!: plainly_label plainly_status split: if_splits option.splits sum.splits prod.splits)

lemma plainly_mutate: "mutate_referent en g m p w = (r, w') \<Longrightarrow> plainly w w'"
  by (auto simp: mutate_referent_def try_request_def plainly_def set_cached_def emit_def Let_def
      split: prod.splits result.splits if_splits option.splits)

lemma plainly_mutates: "mutate_referents en g m ps w = (r, w') \<Longrightarrow> plainly w w'"
proof (induction ps arbitrary: w r w')
  case Nil
  then show ?case by (simp add: plainly_same)
next
  case (Cons p ps)
  obtain q w1 where q: "mutate_referent en g m p w = (q, w1)" by (metis surj_pair)
  obtain q' w2 where q': "mutate_referents en g m ps w1 = (q', w2)" by (metis surj_pair)
  have "w' = w1 \<or> w' = w2" using Cons.prems q q' by (cases q; cases q') auto
  with plainly_mutate [OF q] Cons.IH [OF q'] plainly_trans show ?case by blast
qed

text \<open>A run for a subject tracks it, and then asks for its informer, before anything else.\<close>

lemma reconcile_subject_tracks:
  assumes run: "reconcile_subject en fb m w = (r, fb', w')"
  obtains (early) "bw_log w' = bw_log w @ [TrackReference (get_subject fb)]"
  | (asked) g X where "be_track en (bw_log w) (get_subject fb) = None" "subject_gvr fb = Inr g"
      "bw_log w' = bw_log w @ [TrackReference (get_subject fb), GetLister g] @ X" "List.list_all plain_request X"
proof -
  let ?sub = "get_subject fb"
  show thesis
  proof (cases "be_track en (bw_log w) ?sub")
    case (Some e)
    then show thesis using run by (intro early) (auto simp: reconcile_subject_def try_request_def Let_def)
  next
    case None
    show thesis
    proof (cases "parse_group_version (sr_api_version ?sub)")
      case (Inl e)
      then show thesis using run None by (intro early) (auto simp: reconcile_subject_def try_request_def Let_def)
    next
      case (Inr gv)
      let ?g = "kind_to_resource gv (sr_kind ?sub)"
      define w2 where "w2 = emit (GetLister ?g) (emit (TrackReference ?sub) w)"
      have "plainly w2 w'"
      proof (cases "be_lister en (bw_log (emit (TrackReference ?sub) w)) ?g")
        case (Some e)
        then have "binding_unavailable en ''SubjectUnavailable'' e fb w2 = (fb', w')"
          using run None Inr by (simp add: reconcile_subject_def try_request_def w2_def Let_def)
        then show ?thesis unfolding binding_unavailable_def by (rule plainly_status)
      next
        case listed: None
        obtain q fb1 w3 where f: "find_referents en ?g fb w2 = (q, fb1, w3)" by (metis surj_pair)
        note p = plainly_find [OF f]
        show ?thesis
        proof (cases q)
          case (Inl e)
          then have "w' = w3" using run None Inr listed f by (simp add: reconcile_subject_def try_request_def w2_def Let_def)
          with p show ?thesis by simp
        next
          case ps: (Inr ps)
          obtain x w4 where x: "mutate_referents en ?g m ps w3 = (x, w4)" by (metis surj_pair)
          have "plainly w4 w'"
            using run None Inr listed f ps x
            by (auto simp: reconcile_subject_def try_request_def w2_def binding_unavailable_def Let_def plainly_same
                dest!: plainly_status split: result.splits)
          with plainly_trans [OF p plainly_mutates [OF x]] plainly_trans show ?thesis by blast
        qed
      qed
      then obtain X where X: "bw_log w' = bw_log w2 @ X" "List.list_all plain_request X" by (auto simp: plainly_def)
      show thesis by (rule asked [OF None _ _ X(2), of ?g]) (use Inr X(1) in \<open>simp_all add: subject_gvr_def w2_def\<close>)
    qed
  qed
qed

lemma plain_not_lister: "List.list_all plain_request X \<Longrightarrow> GetLister g \<notin> set X"
  by (induction X) auto

lemma plainly_patch: "patch_binding_finalizers en fb fins w = (e, w') \<Longrightarrow> plainly w w'"
  by (auto simp: patch_binding_finalizers_def Let_def dest: plainly_try)

lemma plainly_ensure: "ensure_finalizer en fb w = (e, w') \<Longrightarrow> plainly w w'"
  by (auto simp: ensure_finalizer_def plainly_same split: if_splits dest: plainly_patch)

lemma subject_run_tracks:
  assumes before: "plainly w w1" and run: "reconcile_subject en fb1 m w1 = (q, fb2, w2)" and after: "plainly w2 w'"
    and spec: "gb_spec fb1 = gb_spec fb" and asked: "GetLister g \<in> set (new_requests w w')"
  obtains pre X where "be_track en (bw_log w @ pre) (get_subject fb) = None" "subject_gvr fb = Inr g"
    "bw_log w' = bw_log w @ pre @ [TrackReference (get_subject fb), GetLister g] @ X"
    "List.list_all plain_request pre" "List.list_all plain_request X"
proof -
  obtain pre where pre: "bw_log w1 = bw_log w @ pre" "List.list_all plain_request pre" using before by (auto simp: plainly_def)
  obtain Y where Y: "bw_log w' = bw_log w2 @ Y" "List.list_all plain_request Y" using after by (auto simp: plainly_def)
  note same = same_spec [OF spec]
  from run show thesis
  proof (cases rule: reconcile_subject_tracks)
    case early
    then show thesis using asked pre Y plain_not_lister by (auto simp: new_requests_def)
  next
    case (asked g' X)
    then have "g' = g"
      using \<open>GetLister g \<in> set (new_requests w w')\<close> pre Y plain_not_lister [of X g] plain_not_lister [of Y g]
        plain_not_lister [of pre g] by (auto simp: new_requests_def)
    with asked pre Y same show thesis by (intro that [of pre "X @ Y"]) simp_all
  qed
qed

lemma reconcile_binding_tracks:
  assumes run: "reconcile_binding en fb w = (r, fb', w')" and asked: "GetLister g \<in> set (new_requests w w')"
  obtains pre X where "be_track en (bw_log w @ pre) (get_subject fb) = None" "subject_gvr fb = Inr g"
    "bw_log w' = bw_log w @ pre @ [TrackReference (get_subject fb), GetLister g] @ X"
    "List.list_all plain_request pre" "List.list_all plain_request X"
proof (cases "om_deleted (gb_meta fb)")
  case True
  then have d: "reconcile_deletion en fb w = (r, fb', w')" using run by (simp add: reconcile_binding_def)
  show thesis
  proof (cases "is_finalizing fb")
    case False
    then have "w' = w" using d by (simp add: reconcile_deletion_def)
    then show thesis using asked by (simp add: new_requests_def)
  next
    case True
    obtain q fb1 w1 where q: "reconcile_subject en fb undo_mutation w = (q, fb1, w1)" by (metis surj_pair)
    have "plainly w1 w'"
      using d True q by (auto simp: reconcile_deletion_def remove_finalizer_def plainly_same
          dest!: plainly_patch split: result.splits if_splits prod.splits)
    from subject_run_tracks [OF plainly_same [OF refl] q this refl asked] that show thesis by blast
  qed
next
  case False
  then have l: "reconcile_live en fb w = (r, fb', w')" using run by (simp add: reconcile_binding_def)
  obtain fb1 w1 where i: "on_binding_status (initialize_binding_conditions (be_clock en)) fb w = (fb1, w1)"
    by (metis surj_pair)
  obtain e w2 where n: "ensure_finalizer en fb1 w1 = (e, w2)" by (metis surj_pair)
  note p = plainly_trans [OF plainly_status [OF i] plainly_ensure [OF n]]
  show thesis
  proof (cases e)
    case (Some x)
    then have "w' = w2" using l i n by (simp add: reconcile_live_def)
    then show thesis using p asked plain_not_lister [of _ g] by (auto simp: plainly_def new_requests_def)
  next
    case None
    obtain q fb2 w3 where q: "reconcile_subject en fb1 (do_binding fb1) w2 = (q, fb2, w3)" by (metis surj_pair)
    have "w' = w3" using l i n None q by (cases q) (auto simp: reconcile_live_def)
    then have "plainly w3 w'" by (simp add: plainly_same)
    from subject_run_tracks [OF p q this on_status_frame(4) [OF i] asked] that show thesis by blast
  qed
qed

text \<open>What the requests of a run for the object \<open>m\<close> do to the tracker and to the informers; \<open>l\<close> are those made before.\<close>

fun watch_requests ::
  "binding_env \<Rightarrow> object_meta \<Rightarrow> (nat \<Rightarrow> clock) \<Rightarrow> binding_request list \<Rightarrow> binding_request list \<Rightarrow> subject_watch \<Rightarrow> subject_watch" where
  "watch_requests en m clk l [] s = s"
| "watch_requests en m clk l (TrackReference r # rs) s =
     watch_requests en m clk (l @ [TrackReference r]) rs
       (s\<lparr>sw_tracker := tracking (be_selector en) (clk (length l)) r m (sw_tracker s)\<rparr>)"
| "watch_requests en m clk l (GetLister g # rs) s =
     watch_requests en m clk (l @ [GetLister g]) rs (snd (get_informer (be_lister en l) g s))"
| "watch_requests en m clk l (r # rs) s = watch_requests en m clk (l @ [r]) rs s"

lemma watch_plain: "List.list_all plain_request X \<Longrightarrow> watch_requests en m clk l (X @ rs) s = watch_requests en m clk (l @ X) rs s"
proof (induction X arbitrary: l)
  case (Cons x X)
  then show ?case by (cases x) simp_all
qed simp

lemma get_informer_adds:
  "answer g = None \<Longrightarrow> get_informer answer g s = (e, s') \<Longrightarrow> g \<in> set (sw_informers s') \<and> sw_tracker s' = sw_tracker s"
  by (auto simp: get_informer_def split: if_splits)

subsection \<open>Valid references\<close>

lemma label_key_normal:
  assumes "is_label_key s = []"
  shows "(case parse_group_version s of Inl _ \<Rightarrow> False | Inr (g, v) \<Rightarrow> (if g \<noteq> [] then g @ ''/'' @ v else v) = s)"
proof -
  consider (plain) name where "split_on CHR ''/'' s = [name]" "name \<noteq> []"
    | (prefixed) prefix name where "split_on CHR ''/'' s = [prefix, name]" "prefix \<noteq> []"
    using assms by (auto simp: is_label_key_def name_part_errors_def split: list.splits if_splits)
  then show ?thesis
  proof cases
    case plain
    then have "s = name" "CHR ''/'' \<notin> set name" using split_on_one split_on_parts [of name "CHR ''/''" s] by auto
    with plain show ?thesis by (auto simp: parse_group_version_def)
  next
    case prefixed
    from split_on_two [OF prefixed(1)] prefixed show ?thesis by (auto simp: parse_group_version_def)
  qed
qed

lemma split_on_covers: "x \<in> set s \<Longrightarrow> x \<noteq> c \<Longrightarrow> \<exists>p \<in> set (split_on c s). x \<in> set p"
proof (induction s)
  case (Cons y s)
  then show ?case by (cases "split_on c s") auto
qed simp

lemma subdomain_no_slash:
  assumes "is_dns1123_subdomain u s = []"
  shows "CHR ''/'' \<notin> set s"
proof
  assume "CHR ''/'' \<in> set s"
  then obtain p where p: "p \<in> set (split_on CHR ''.'' s)" "CHR ''/'' \<in> set p"
    using split_on_covers [of "CHR ''/''" s "CHR ''.''"] by auto
  moreover have "subdomain_matches s" using assms by (simp add: is_dns1123_subdomain_def split: if_splits)
  ultimately have "lower_alphanumeric CHR ''/'' \<or> CHR ''/'' \<in> set ''-''"
    by (auto simp: subdomain_matches_def list_all_iff label_matches_def delimited_def)
  moreover have "\<not> lower_alphanumeric CHR ''/''" by code_simp
  ultimately show False by simp
qed

lemma last_slash:
  assumes "a @ CHR ''/'' # x = b @ CHR ''/'' # y" "CHR ''/'' \<notin> set x" "CHR ''/'' \<notin> set y"
  shows "a = b \<and> x = y"
proof -
  have "split_on CHR ''/'' (a @ CHR ''/'' # x) = split_on CHR ''/'' a @ [x]"
    "split_on CHR ''/'' (b @ CHR ''/'' # y) = split_on CHR ''/'' b @ [y]"
    using assms(2,3) by (simp_all add: split_on_sep)
  then have "x = y" using assms(1) by simp
  with assms(1) show ?thesis by simp
qed

lemma valid_reference:
  assumes "reference_error sel r = None"
  shows "is_label_key (sr_api_version r) = []" "sr_name r \<noteq> [] \<Longrightarrow> CHR ''/'' \<notin> set (sr_name r)"
    "sr_name r = [] \<Longrightarrow> \<exists>x s. sr_selector r = Some x \<and> sel (Some x) = Inr s \<and> tracked_selector sel r = Some s"
proof -
  have none: "reference_errors sel r = []" using assms by (simp add: reference_error_def split: list.splits)
  then show "is_label_key (sr_api_version r) = []" by (simp add: reference_errors_def Let_def)
  show "CHR ''/'' \<notin> set (sr_name r)" if "sr_name r \<noteq> []"
    using none that subdomain_no_slash by (auto simp: reference_errors_def Let_def split: if_splits)
  show "\<exists>x s. sr_selector r = Some x \<and> sel (Some x) = Inr s \<and> tracked_selector sel r = Some s" if "sr_name r = []"
    using none that by (auto simp: reference_errors_def tracked_selector_def Let_def split: option.splits sum.splits)
qed

text \<open>The objects a valid subject with a namespace means are the ones a lease on it is concerned with.\<close>

lemma means_concerns:
  assumes valid: "reference_error (be_selector en) (get_subject fb) = None"
    and means: "means en fb (ob_meta ob)"
    and type: "ob_api_version ob = sr_api_version (get_subject fb)" "ob_kind ob = sr_kind (get_subject fb)"
    and ns: "sr_namespace (get_subject fb) \<noteq> []" and plain: "CHR ''/'' \<notin> set (om_name (ob_meta ob))"
  shows "concerns (be_selector en) (get_subject fb) ob"
proof -
  let ?sub = "get_subject fb"
  have ref: "object_reference ob = (sr_api_version ?sub, sr_kind ?sub, om_namespace (ob_meta ob), om_name (ob_meta ob))"
    using label_key_normal [OF valid_reference(1) [OF valid]] type
    by (auto simp: object_reference_def Let_def split: sum.splits if_splits)
  show ?thesis
  proof (cases "sr_name ?sub = []")
    case True
    then show ?thesis
      using valid_reference(3) [OF valid True] means ns
      by (auto simp: means_def concerns_def ref nameless_def partial_reference_def Let_def)
  next
    case False
    then have key: "meta_key (ob_meta ob) = sr_namespace ?sub @ ''/'' @ sr_name ?sub"
      using means by (simp add: means_def Let_def)
    have "om_namespace (ob_meta ob) = sr_namespace ?sub \<and> om_name (ob_meta ob) = sr_name ?sub"
    proof (cases "om_namespace (ob_meta ob) = []")
      case True
      then show ?thesis using key plain by (auto simp: meta_key_def)
    next
      case named: False
      then have "om_namespace (ob_meta ob) @ CHR ''/'' # om_name (ob_meta ob) = sr_namespace ?sub @ CHR ''/'' # sr_name ?sub"
        using key by (simp add: meta_key_def)
      from last_slash [OF this plain valid_reference(2) [OF valid False]] show ?thesis .
    qed
    then show ?thesis using False by (simp add: concerns_def tracked_selector_def ref exact_reference_def)
  qed
qed

text \<open>Kinds that differ only in case have the same resource, but the tracker distinguishes them.\<close>

lemma kind_case_not_tracked:
  assumes "to_lower kd = to_lower (sr_kind r)" and "kd \<noteq> sr_kind r" and "ob_kind ob = kd"
  shows "kind_to_resource gv kd = kind_to_resource gv (sr_kind r) \<and> \<not> concerns sel r ob"
  using assms
  by (auto simp: kind_to_resource_def pluralize_kind_def concerns_def object_reference_def exact_reference_def
      partial_reference_def nameless_def Let_def split: option.splits prod.splits)

subsection \<open>Properties\<close>

text \<open>
  C24: a run of the reconciler that asked for the informer of its subject's resource, whatever became of the run, leaves the
  binding informed: until the lease it took expires, and whichever references are tracked and objects changed meanwhile,
  each event of an object that the subject means, one that did not exist during the run included, enqueues the binding.
\<close>

theorem subject_change_wakes_binding:
  assumes track: "be_track en = (\<lambda>l. reference_error (be_selector en))" and lister: "\<forall>l. be_lister en l g = None"
    and run: "reconcile_binding en fb w = (r, fb', w')" and asked: "GetLister g \<in> set (new_requests w w')"
    and s: "s = watch_requests en (gb_meta fb) clk (bw_log w) (new_requests w w') s0"
    and start: "\<forall>i. start \<le> clk i 1" and e: "e = start + tk_lease (sw_tracker s0)"
    and ops: "\<forall>op \<in> set ops. keeps_lease key_of (get_subject fb) (key_of (gb_meta fb)) start e op"
    and later: "\<forall>i. clk' i \<le> e" and more: "set (sw_informers s) \<subseteq> set infs"
    and s': "s' = \<lparr>sw_tracker = fold (lease_step (tracking (be_selector en)) get_observers) ops (sw_tracker s),
      sw_informers = infs\<rparr>"
    and means: "means en fb (ob_meta (handled_object ev))" "sr_namespace (get_subject fb) \<noteq> []"
      "CHR ''/'' \<notin> set (om_name (ob_meta (handled_object ev)))"
    and type: "ob_api_version (handled_object ev) = sr_api_version (get_subject fb)"
      "ob_kind (handled_object ev) = sr_kind (get_subject fb)"
  shows "subject_gvr fb = Inr g \<and> key_of (gb_meta fb) \<in> set (fst (on_subject_event clk' g ev s'))"
proof -
  let ?sub = "get_subject fb" and ?sel = "be_selector en"
  from run asked obtain pre X where pre: "be_track en (bw_log w @ pre) ?sub = None" "subject_gvr fb = Inr g"
    "bw_log w' = bw_log w @ pre @ [TrackReference ?sub, GetLister g] @ X"
    "List.list_all plain_request pre" "List.list_all plain_request X"
    by (rule reconcile_binding_tracks)
  define c where "c = clk (length (bw_log w @ pre))"
  have valid: "reference_error ?sel ?sub = None" using pre(1) track by simp
  have reqs: "new_requests w w' = pre @ TrackReference ?sub # GetLister g # X" using pre(3) by (simp add: new_requests_def)
  define s1 where "s1 = s0\<lparr>sw_tracker := tracking ?sel c ?sub (gb_meta fb) (sw_tracker s0)\<rparr>"
  obtain s2 where s2: "snd (get_informer (be_lister en (bw_log w @ pre @ [TrackReference ?sub])) g s1) = s2" by blast
  have "s = s2"
    using watch_plain [OF pre(5), of en "gb_meta fb" clk _ "[]"]
    by (simp add: s reqs watch_plain [OF pre(4)] c_def s1_def flip: s2)
  with get_informer_adds [of "be_lister en (bw_log w @ pre @ [TrackReference ?sub])" g s1] lister s2
  have s_eq: "g \<in> set (sw_informers s)" "sw_tracker s = tracking ?sel c ?sub (gb_meta fb) (sw_tracker s0)"
    by (auto simp: s1_def prod_eq_iff)
  have lease: "e \<le> c 1 + tk_lease (sw_tracker s0)" using start e by (simp add: c_def)
  have "key_of (gb_meta fb) \<in> set (fst (get_observers clk' (handled_object ev)
      (fold (lease_step (tracking ?sel) get_observers) ops (tracking ?sel c ?sub (gb_meta fb) (sw_tracker s0)))))"
    by (rule subjects.told_while_leased [where clk = c and clk' = clk', OF valid lease _ later means_concerns [OF valid means(1) type means(2,3)]])
      (use ops e in simp)
  then show ?thesis
    using pre(2) s_eq more by (auto simp: on_subject_event_def on_changed_def s' split: prod.splits)
qed

text \<open>The subject does not exist yet; it is created while another binding tracks and another object changes.\<close>

theorem subject_change_wakes_binding_witness:
  "let en = (sim_benv None)\<lparr>be_track := \<lambda>l. reference_error (be_selector (sim_benv None))\<rparr>;
       w = sim_bworld\<lparr>bw_cache := \<lambda>_. []\<rparr>;
       (r, fb', w') = reconcile_binding en sim_live w;
       s = watch_requests en (gb_meta sim_live) (\<lambda>_ _. 0) [] (new_requests w w')
         \<lparr>sw_tracker = new_tracker 100, sw_informers = []\<rparr>;
       other = \<lparr>ob_api_version = ''v1'', ob_kind = ''Pod'', ob_meta = sample_object ''ns'' ''p''\<rparr>;
       t = snd (get_observers (\<lambda>_. 70) other (tracking (be_selector en) (\<lambda>_. 60) (get_subject sim_live)
         (sample_object ''ns'' ''c'') (sw_tracker s)));
       ob = \<lparr>ob_api_version = sr_api_version (get_subject sim_live), ob_kind = sr_kind (get_subject sim_live),
         ob_meta = wp_meta sim_deployment\<rparr>
   in (\<exists>e. r = Err e) \<and>
     key_of (gb_meta sim_live) \<in> set (fst (on_subject_event (\<lambda>_. 100) sim_gvr (Added ob) \<lparr>sw_tracker = t, sw_informers = sw_informers s\<rparr>))"
proof -
  define en where "en = (sim_benv None)\<lparr>be_track := \<lambda>l. reference_error (be_selector (sim_benv None))\<rparr>"
  define w where "w = sim_bworld\<lparr>bw_cache := \<lambda>_. []\<rparr>"
  obtain r fb' w' where run: "reconcile_binding en sim_live w = (r, fb', w')" by (metis surj_pair)
  define s0 where "s0 = \<lparr>sw_tracker = new_tracker 100, sw_informers = []\<rparr>"
  define s where "s = watch_requests en (gb_meta sim_live) (\<lambda>_ _. 0) (bw_log w) (new_requests w w') s0"
  define other where "other = \<lparr>ob_api_version = ''v1'', ob_kind = ''Pod'', ob_meta = sample_object ''ns'' ''p''\<rparr>"
  define ob where "ob = \<lparr>ob_api_version = sr_api_version (get_subject sim_live), ob_kind = sr_kind (get_subject sim_live),
         ob_meta = wp_meta sim_deployment\<rparr>"
  define ops where "ops = [TrackOp (\<lambda>_. 60) (get_subject sim_live) (sample_object ''ns'' ''c''), ChangeOp (\<lambda>_. 70) other]"
  have "case fst (reconcile_binding en sim_live w) of Err e \<Rightarrow> True | _ \<Rightarrow> False"
    "GetLister sim_gvr \<in> set (new_requests w (snd (snd (reconcile_binding en sim_live w))))"
    unfolding en_def w_def by code_simp+
  then have out: "\<exists>e. r = Err e" "GetLister sim_gvr \<in> set (new_requests w w')"
    using run by (auto split: result.splits)
  have track: "be_track en = (\<lambda>l. reference_error (be_selector en))" "\<forall>l. be_lister en l sim_gvr = None"
    by (simp_all add: en_def sim_benv_def)
  have ops: "\<forall>op \<in> set ops. keeps_lease key_of (get_subject sim_live) (key_of (gb_meta sim_live)) 0 100 op"
    by (simp add: ops_def)
  have ob: "means en sim_live (ob_meta ob)" "sr_namespace (get_subject sim_live) \<noteq> []" "CHR ''/'' \<notin> set (om_name (ob_meta ob))"
    unfolding en_def ob_def by code_simp+
  have "key_of (gb_meta sim_live) \<in> set (fst (on_subject_event (\<lambda>_. 100) sim_gvr (Added ob)
      \<lparr>sw_tracker = fold (lease_step (tracking (be_selector en)) get_observers) ops (sw_tracker s), sw_informers = sw_informers s\<rparr>))"
    by (rule subject_change_wakes_binding [OF track run out(2) s_def _ _ ops _ order_refl refl, THEN conjunct2])
      (use ob in \<open>simp_all add: s0_def new_tracker_def ob_def\<close>)
  moreover have "bw_log w = []" by (simp add: w_def sim_bworld_def)
  ultimately show ?thesis
    using out(1) run
    by (simp add: Let_def ops_def s_def s0_def flip: en_def w_def other_def ob_def)
qed

end
