(* ===== verification/Controllers.thy ===== *)
theory Controllers
  imports Tracker
begin

section \<open>The two controllers, put together\<close>

text \<open>
  \<^verbatim>\<open>NewController\<close> of \<^verbatim>\<open>pkg/reconciler/source/controller.go\<close> and of
  \<^verbatim>\<open>pkg/reconciler/binding/controller.go\<close>: what each takes from the context and the environment, and what it connects.
  The injected clients and informers of other packages are assumed to be in the context; a missing one panics there.
\<close>

subsection \<open>Sources\<close>

record source_setup =
  ss_controller :: "unit controller_impl"
  ss_kind :: kind_reconciler
  ss_informer :: "nat \<times> accessor"
  ss_on_source :: "gitlab_source informer_event \<Rightarrow> queue_key list"
  ss_on_service :: "kservice informer_event \<Rightarrow> queue_key list"

text \<open>\<^verbatim>\<open>GL_RA_IMAGE\<close> is required, but may be empty; \<^verbatim>\<open>envconfig.MustProcess\<close> panics without it.\<close>

definition env_image :: "string option \<Rightarrow> string result" where
  "env_image v = (case v of None \<Rightarrow> Panic ''required key GL_RA_IMAGE missing value'' | Some img \<Rightarrow> Ok img)"

definition new_source_controller ::
  "env \<Rightarrow> (string \<Rightarrow> string \<Rightarrow> bool) \<Rightarrow> string option \<Rightarrow> 'c ctx \<Rightarrow> source_setup result" where
  "new_source_controller en leader gl_image ctx =
     (case env_image gl_image of
        Ok img \<Rightarrow>
          (case informer_get ctx SourceType of
             Ok ifm \<Rightarrow>
               (case client_get ctx of
                  Ok _ \<Rightarrow>
                    (case source_controller leader of
                       Ok c \<Rightarrow> Ok \<lparr>ss_controller = c, ss_kind = source_kind en img, ss_informer = ifm,
                          ss_on_source = on_source_event, ss_on_service = on_service_event\<rparr>
                     | Err e \<Rightarrow> Err e | Panic m \<Rightarrow> Panic m)
                | Err e \<Rightarrow> Err e | Panic m \<Rightarrow> Panic m)
           | Err e \<Rightarrow> Err e | Panic m \<Rightarrow> Panic m)
      | Err e \<Rightarrow> Err e | Panic m \<Rightarrow> Panic m)"

subsection \<open>Bindings\<close>

text \<open>\<^verbatim>\<open>GetTrackerLease\<close>, on 64 bits.\<close>

definition tracker_lease :: "'c ctx \<Rightarrow> duration" where
  "tracker_lease ctx = 3 * resync_period ctx"

record binding_setup =
  bc_promote :: "bucket \<Rightarrow> queue_key list"
  bc_gvr :: gvr
  bc_get :: "string \<Rightarrow> string \<Rightarrow> goerr + gitlab_binding"
  bc_agent_name :: string
  bc_queue_name :: string
  bc_on_binding :: "gitlab_binding informer_event \<Rightarrow> queue_key list"
  bc_on_namespace :: "object_meta informer_event \<Rightarrow> queue_key list"
  bc_watch :: subject_watch

text \<open>\<open>store\<close> is the indexer of an informer of the factory; the tracker and the cached informers are empty at first.\<close>

definition new_binding_controller ::
  "(nat \<times> accessor \<Rightarrow> gitlab_binding indexer) \<Rightarrow> (queue_key \<Rightarrow> string) \<Rightarrow> 'c ctx \<Rightarrow> binding_setup result" where
  "new_binding_controller store owner ctx =
     (case bindings_informer_get ctx of
        Ok ifm \<Rightarrow> Ok
          \<lparr>bc_promote = binding_promote_func owner (store ifm), bc_gvr = binding_gvr,
           bc_get = binding_controller_get (store ifm), bc_agent_name = ''gitlabbinding-controller'',
           bc_queue_name = ''GitLabBindings'', bc_on_binding = on_binding_event, bc_on_namespace = on_namespace_event,
           bc_watch = \<lparr>sw_tracker = new_tracker (sint (tracker_lease ctx)), sw_informers = []\<rparr>\<rparr>
      | Err e \<Rightarrow> Err e
      | Panic m \<Rightarrow> Panic m)"

subsection \<open>Facts\<close>

lemma source_controller_needs:
  "(\<exists>s. new_source_controller en leader gl_image ctx = Ok s) \<longleftrightarrow>
     gl_image \<noteq> None \<and> (\<exists>i. informer_get ctx SourceType = Ok i) \<and> (\<exists>c. client_get ctx = Ok c)"
proof -
  obtain c where "source_controller leader = Ok c" using source_controller_ok by blast
  then show ?thesis
    by (auto simp: new_source_controller_def env_image_def split: option.splits result.splits)
qed

text \<open>
  A lease outlives two resyncs as long as three fit into 64 bits, which they do by default: each resync tracks again in time.
\<close>

lemma lease_outlives_resync:
  assumes "0 < sint (resync_period ctx)" "3 * sint (resync_period ctx) < 2 ^ 63"
  shows "sint (tracker_lease ctx) = 3 * sint (resync_period ctx)" "2 * sint (resync_period ctx) < sint (tracker_lease ctx)"
proof -
  have "sint (tracker_lease ctx) = signed_take_bit 63 (3 * sint (resync_period ctx))"
    by (simp add: tracker_lease_def sint_word_ariths)
  also have "\<dots> = 3 * sint (resync_period ctx)"
    by (rule signed_take_bit_int_eq_self) (use assms in simp_all)
  finally show "sint (tracker_lease ctx) = 3 * sint (resync_period ctx)" .
  with assms(1) show "2 * sint (resync_period ctx) < sint (tracker_lease ctx)" by simp
qed

lemma default_lease: "value_of ctx ResyncKey = None \<Longrightarrow> sint (tracker_lease ctx) = 108000000000000"
  by (simp add: tracker_lease_def resync_period_def default_resync_def)

end
