(* ===== verification/FakeClient.thy ===== *)
theory FakeClient
  imports BindingReconciler Clientset "HOL-Library.Product_Lexorder"
begin

section \<open>The fake clientset\<close>

text \<open>
  The clientset that the tests of the repository run against: \<^verbatim>\<open>pkg/client/clientset/versioned/fake\<close> and the typed
  fakes \<^verbatim>\<open>typed/*/v1alpha1/fake\<close>, on client-go's object tracker (\<^verbatim>\<open>testing/fixture.go\<close>, \<^verbatim>\<open>testing/fake.go\<close>). The tracker
  stores and returns deep copies, so objects are values here. The objects handed in are not nil.
\<close>

datatype runtime_object =
    SourceObject gitlab_source
  | BindingObject gitlab_binding
  | SourceItems "gitlab_source list"
  | BindingItems "gitlab_binding list"
  | OtherObject string

subsection \<open>The scheme\<close>

type_synonym gvk = "string \<times> string \<times> string"

definition add_known_types :: "string \<times> string \<Rightarrow> string list \<Rightarrow> gvk list \<Rightarrow> gvk list" where
  "add_known_types gv kinds sch = foldl (\<lambda>s k. List.insert (fst gv, snd gv, k) s) sch kinds"

definition sources_add_to_scheme :: "gvk list \<Rightarrow> gvk list" where
  "sources_add_to_scheme = add_known_types source_group_version [''GitLabSource'', ''GitLabSourceList'']"

definition bindings_add_to_scheme :: "gvk list \<Rightarrow> gvk list" where
  "bindings_add_to_scheme = add_known_types binding_group_version [''GitLabBinding'', ''GitLabBindingList'']"

definition local_scheme_builder :: "(gvk list \<Rightarrow> gvk list) list" where
  "local_scheme_builder = [bindings_add_to_scheme, sources_add_to_scheme]"

definition fake_scheme :: "gvk list" where
  "fake_scheme = foldl (\<lambda>s f. f s) [] local_scheme_builder"

text \<open>The scheme of the real clientset, filled by the same builders; the meta types every group gets are left out of both.\<close>

definition client_scheme :: "gvk list" where
  "client_scheme = foldl (\<lambda>s f. f s) [] local_scheme_builder"

text \<open>The kinds a Go type is registered as.\<close>

definition go_type_kinds :: "runtime_object \<Rightarrow> gvk list" where
  "go_type_kinds x =
     (case x of
        SourceObject _ \<Rightarrow> [(fst source_group_version, snd source_group_version, ''GitLabSource'')]
      | BindingObject _ \<Rightarrow> [(fst binding_group_version, snd binding_group_version, ''GitLabBinding'')]
      | SourceItems _ \<Rightarrow> [(fst source_group_version, snd source_group_version, ''GitLabSourceList'')]
      | BindingItems _ \<Rightarrow> [(fst binding_group_version, snd binding_group_version, ''GitLabBindingList'')]
      | OtherObject _ \<Rightarrow> [])"

definition object_kinds :: "gvk list \<Rightarrow> runtime_object \<Rightarrow> goerr + gvk list" where
  "object_kinds sch x =
     (case filter (\<lambda>k. k \<in> set sch) (go_type_kinds x) of
        [] \<Rightarrow> Inl (ErrText ''no kind is registered for the type in scheme'')
      | ks \<Rightarrow> Inr ks)"

subsection \<open>Metadata\<close>

definition with_ns :: "string \<Rightarrow> object_meta \<Rightarrow> object_meta" where
  "with_ns ns m = m\<lparr>om_namespace := ns\<rparr>"

text \<open>\<^verbatim>\<open>meta.Accessor\<close>; a list has no object metadata. \<open>set_object_ns\<close> is \<^verbatim>\<open>SetNamespace\<close> on what it gives.\<close>

definition accessor_error :: goerr where
  "accessor_error = ErrText ''object does not implement the Object interfaces''"

definition object_meta_of :: "runtime_object \<Rightarrow> goerr + object_meta" where
  "object_meta_of x =
     (case x of
        SourceObject s \<Rightarrow> Inr (src_meta s) | BindingObject b \<Rightarrow> Inr (gb_meta b) | _ \<Rightarrow> Inl accessor_error)"

definition set_object_ns :: "string \<Rightarrow> runtime_object \<Rightarrow> runtime_object" where
  "set_object_ns ns x =
     (case x of
        SourceObject s \<Rightarrow> SourceObject (s\<lparr>src_meta := with_ns ns (src_meta s)\<rparr>)
      | BindingObject b \<Rightarrow> BindingObject (b\<lparr>gb_meta := with_ns ns (gb_meta b)\<rparr>)
      | y \<Rightarrow> y)"

definition object_ns :: "runtime_object \<Rightarrow> string" where
  "object_ns x = (case object_meta_of x of Inr m \<Rightarrow> om_namespace m | Inl _ \<Rightarrow> [])"

definition object_name :: "runtime_object \<Rightarrow> string" where
  "object_name x = (case object_meta_of x of Inr m \<Rightarrow> om_name m | Inl _ \<Rightarrow> [])"

subsection \<open>The tracker\<close>

text \<open>
  A watcher holds the events its reader has not taken; the channel has room for 100 and a send to a full one panics.
  The objects are those of the maps by resource, in an arbitrary order.
\<close>

datatype watch_event = EventAdded runtime_object | EventModified runtime_object | EventDeleted runtime_object

record watcher =
  wa_gvr :: gvr
  wa_ns :: string
  wa_queue :: "watch_event list"
  wa_stopped :: bool

record tracker =
  tr_objects :: "((gvr \<times> string \<times> string) \<times> runtime_object) list"
  tr_watchers :: "watcher list"

definition empty_tracker :: tracker where
  "empty_tracker = \<lparr>tr_objects = [], tr_watchers = []\<rparr>"

definition chan_size :: nat where "chan_size = 100"

definition channel_full :: string where "channel_full = ''channel full''"

fun send :: "watch_event \<Rightarrow> watcher \<Rightarrow> watcher option" where
  "send e w =
     (if wa_stopped w then Some w
      else if length (wa_queue w) < chan_size then Some (w\<lparr>wa_queue := wa_queue w @ [e]\<rparr>) else None)"

text \<open>\<^verbatim>\<open>getWatches\<close>, as positions: those of the namespace, then those of all namespaces.\<close>

definition get_watches :: "gvr \<Rightarrow> string \<Rightarrow> tracker \<Rightarrow> nat list" where
  "get_watches g ns t =
     (let at = (\<lambda>n. filter (\<lambda>i. wa_gvr (tr_watchers t ! i) = g \<and> wa_ns (tr_watchers t ! i) = n) [0..<length (tr_watchers t)])
      in at ns @ (if ns \<noteq> [] then at [] else []))"

fun notify :: "watch_event \<Rightarrow> nat list \<Rightarrow> watcher list \<Rightarrow> bool \<times> watcher list" where
  "notify e [] ws = (True, ws)"
| "notify e (i # is) ws =
     (case send e (ws ! i) of
        None \<Rightarrow> (False, ws)
      | Some w \<Rightarrow> notify e is (ws[i := w]))"

definition notify_all :: "watch_event \<Rightarrow> gvr \<Rightarrow> string \<Rightarrow> tracker \<Rightarrow> unit result \<times> tracker" where
  "notify_all e g ns t =
     (let (ok, ws) = notify e (get_watches g ns t) (tr_watchers t)
      in (if ok then Ok () else Panic channel_full, t\<lparr>tr_watchers := ws\<rparr>))"

definition put_object :: "gvr \<Rightarrow> string \<Rightarrow> string \<Rightarrow> runtime_object \<Rightarrow> tracker \<Rightarrow> tracker" where
  "put_object g ns n x t = t\<lparr>tr_objects := AList.update (g, ns, n) x (tr_objects t)\<rparr>"

definition bad_request_error :: "string \<Rightarrow> goerr" where
  "bad_request_error m = StatusErr ''BadRequest'' 400 m"

definition already_exists_error :: "string \<Rightarrow> string \<Rightarrow> goerr" where
  "already_exists_error r n = StatusErr ''AlreadyExists'' 409 (r @ '' '' @ quote n @ '' already exists'')"

definition namespace_mismatch :: "string \<Rightarrow> string \<Rightarrow> goerr" where
  "namespace_mismatch ns obj_ns = bad_request_error
     (''request namespace does not match object namespace, request: '' @ quote ns @ '' object: '' @ quote obj_ns)"

text \<open>\<^verbatim>\<open>add\<close>: a replaced object is announced before it is stored, a new one after.\<close>

definition tracker_add :: "gvr \<Rightarrow> runtime_object \<Rightarrow> string \<Rightarrow> bool \<Rightarrow> tracker \<Rightarrow> unit result \<times> tracker" where
  "tracker_add g obj ns replace t =
     (case object_meta_of obj of
        Inl e \<Rightarrow> (Err e, t)
      | Inr m \<Rightarrow>
          (let x = (if om_namespace m = [] then set_object_ns ns obj else obj);
               key = (g, object_ns x, om_name m)
           in if ns \<noteq> object_ns x then (Err (namespace_mismatch ns (object_ns x)), t)
              else case map_of (tr_objects t) key of
                Some _ \<Rightarrow>
                  (if replace
                   then (case notify_all (EventModified x) g ns t of
                           (Ok _, t1) \<Rightarrow> (Ok (), put_object g (object_ns x) (om_name m) x t1)
                         | (r, t1) \<Rightarrow> (r, t1))
                   else (Err (already_exists_error (group_resource g) (om_name m)), t))
              | None \<Rightarrow>
                  (if replace then (Err (not_found_error (group_resource g) (om_name m)), t)
                   else notify_all (EventAdded x) g ns (put_object g (object_ns x) (om_name m) x t))))"

definition tracker_get :: "gvr \<Rightarrow> string \<Rightarrow> string \<Rightarrow> tracker \<Rightarrow> goerr + runtime_object" where
  "tracker_get g ns n t =
     (case map_of (tr_objects t) (g, ns, n) of
        None \<Rightarrow> Inl (not_found_error (group_resource g) n)
      | Some x \<Rightarrow> Inr x)"

definition tracker_delete :: "gvr \<Rightarrow> string \<Rightarrow> string \<Rightarrow> tracker \<Rightarrow> unit result \<times> tracker" where
  "tracker_delete g ns n t =
     (case map_of (tr_objects t) (g, ns, n) of
        None \<Rightarrow> (Err (not_found_error (group_resource g) n), t)
      | Some x \<Rightarrow> notify_all (EventDeleted x) g ns (t\<lparr>tr_objects := AList.delete (g, ns, n) (tr_objects t)\<rparr>))"

text \<open>\<^verbatim>\<open>filterByNamespace\<close>, sorted by namespace and name.\<close>

definition filter_by_namespace :: "gvr \<Rightarrow> string \<Rightarrow> tracker \<Rightarrow> runtime_object list" where
  "filter_by_namespace g ns t =
     sort_key (\<lambda>x. (object_ns x, object_name x))
       (map snd (filter (\<lambda>((g', _), x). g' = g \<and> (ns = [] \<or> object_ns x = ns)) (tr_objects t)))"

text \<open>The list object of a kind, with \<^verbatim>\<open>meta.SetList\<close>, which refuses an item of another type.\<close>

fun source_items :: "runtime_object list \<Rightarrow> gitlab_source list option" where
  "source_items [] = Some []"
| "source_items (SourceObject s # xs) = map_option (Cons s) (source_items xs)"
| "source_items (_ # xs) = None"

fun binding_items :: "runtime_object list \<Rightarrow> gitlab_binding list option" where
  "binding_items [] = Some []"
| "binding_items (BindingObject b # xs) = map_option (Cons b) (binding_items xs)"
| "binding_items (_ # xs) = None"

definition list_object :: "gvk \<Rightarrow> runtime_object list \<Rightarrow> goerr + runtime_object" where
  "list_object k xs =
     (let wrong = Inl (ErrText ''item: can't assign or convert to the type of the list'')
      in case k of (g, v, kind) \<Rightarrow>
       if k \<notin> set fake_scheme then Inl (ErrText (''no kind '' @ quote kind @ '' is registered for version'' ))
       else if kind = ''GitLabSourceList'' then (case source_items xs of Some ys \<Rightarrow> Inr (SourceItems ys) | None \<Rightarrow> wrong)
       else if kind = ''GitLabBindingList'' then (case binding_items xs of Some ys \<Rightarrow> Inr (BindingItems ys) | None \<Rightarrow> wrong)
       else Inl (ErrText (quote kind @ '' is not a list type'')))"

definition tracker_list :: "gvr \<Rightarrow> gvk \<Rightarrow> string \<Rightarrow> tracker \<Rightarrow> goerr + runtime_object" where
  "tracker_list g k ns t =
     (case k of (grp, v, kind) \<Rightarrow> list_object (grp, v, kind @ ''List'') (filter_by_namespace g ns t))"

definition tracker_watch :: "gvr \<Rightarrow> string \<Rightarrow> tracker \<Rightarrow> nat \<times> tracker" where
  "tracker_watch g ns t =
     (length (tr_watchers t),
      t\<lparr>tr_watchers := tr_watchers t @ [\<lparr>wa_gvr = g, wa_ns = ns, wa_queue = [], wa_stopped = False\<rparr>]\<rparr>)"

text \<open>\<^verbatim>\<open>Add\<close>, under the resource guessed from the kind; a list adds its items.\<close>

definition unpluralized :: "string list" where "unpluralized = [''endpoints'']"

definition guess_resource :: "gvk \<Rightarrow> gvr" where
  "guess_resource k =
     (case k of (g, v, kind) \<Rightarrow>
       if kind = [] then ([], [], [])
       else let s = to_lower kind in
         (g, v, if List.list_ex (has_suffix s) unpluralized then s
                else if last s = CHR ''s'' then s @ ''es''
                else if last s = CHR ''y'' then butlast s @ ''ies'' else s @ ''s''))"

fun add_kinds :: "gvk list \<Rightarrow> runtime_object \<Rightarrow> string \<Rightarrow> tracker \<Rightarrow> unit result \<times> tracker" where
  "add_kinds [] x ns t = (Ok (), t)"
| "add_kinds (k # ks) x ns t =
     (case tracker_add (guess_resource k) x ns False t of
        (Ok _, t1) \<Rightarrow> add_kinds ks x ns t1
      | (r, t1) \<Rightarrow> (r, t1))"

definition add_object :: "runtime_object \<Rightarrow> tracker \<Rightarrow> unit result \<times> tracker" where
  "add_object x t =
     (case object_meta_of x of
        Inl e \<Rightarrow> (Err e, t)
      | Inr m \<Rightarrow>
          (case object_kinds fake_scheme x of
             Inl e \<Rightarrow> (Err e, t)
           | Inr ks \<Rightarrow> add_kinds ks x (om_namespace m) t))"

fun add_each :: "runtime_object list \<Rightarrow> tracker \<Rightarrow> unit result \<times> tracker" where
  "add_each [] t = (Ok (), t)"
| "add_each (x # xs) t = (case add_object x t of (Ok _, t1) \<Rightarrow> add_each xs t1 | (r, t1) \<Rightarrow> (r, t1))"

definition tracker_add_object :: "runtime_object \<Rightarrow> tracker \<Rightarrow> unit result \<times> tracker" where
  "tracker_add_object x t =
     (case x of
        SourceItems xs \<Rightarrow> add_each (map SourceObject xs) t
      | BindingItems xs \<Rightarrow> add_each (map BindingObject xs) t
      | _ \<Rightarrow> add_object x t)"

subsection \<open>Actions and reactors\<close>

datatype action =
    GetAction gvr string string
  | ListAction gvr gvk string
  | CreateAction gvr string runtime_object
  | UpdateAction gvr string string runtime_object
  | DeleteAction gvr string string
  | DeleteCollectionAction gvr string
  | PatchAction gvr string string string string string
  | WatchAction gvr string

fun action_verb :: "action \<Rightarrow> string" where
  "action_verb (GetAction _ _ _) = ''get''"
| "action_verb (ListAction _ _ _) = ''list''"
| "action_verb (CreateAction _ _ _) = ''create''"
| "action_verb (UpdateAction _ _ _ _) = ''update''"
| "action_verb (DeleteAction _ _ _) = ''delete''"
| "action_verb (DeleteCollectionAction _ _) = ''delete-collection''"
| "action_verb (PatchAction _ _ _ _ _ _) = ''patch''"
| "action_verb (WatchAction _ _) = ''watch''"

fun action_gvr :: "action \<Rightarrow> gvr" where
  "action_gvr (GetAction g _ _) = g"
| "action_gvr (ListAction g _ _) = g"
| "action_gvr (CreateAction g _ _) = g"
| "action_gvr (UpdateAction g _ _ _) = g"
| "action_gvr (DeleteAction g _ _) = g"
| "action_gvr (DeleteCollectionAction g _) = g"
| "action_gvr (PatchAction g _ _ _ _ _) = g"
| "action_gvr (WatchAction g _) = g"

fun action_subresource :: "action \<Rightarrow> string" where
  "action_subresource (UpdateAction _ sub _ _) = sub"
| "action_subresource (PatchAction _ sub _ _ _ _) = sub"
| "action_subresource _ = []"

text \<open>
  What the fake needs of other packages: the parsers of selectors, the decoding of an applied configuration, the patch
  of an object by type and data, and \<^verbatim>\<open>path.Join\<close>. The field selector is in the opaque part of the options.
\<close>

record fake_env =
  fe_labels :: "string \<Rightarrow> goerr + selector"
  fe_fields :: "string \<Rightarrow> goerr + unit"
  fe_decode :: "string \<Rightarrow> goerr option"
  fe_patch :: "string \<Rightarrow> string \<Rightarrow> runtime_object \<Rightarrow> goerr + runtime_object"
  fe_join :: "string list \<Rightarrow> string"

definition apply_patch_type :: string where "apply_patch_type = ''application/apply-patch+yaml''"

type_synonym reply = "runtime_object option \<times> goerr option"

definition after_store :: "unit result \<times> tracker \<Rightarrow> (tracker \<Rightarrow> goerr + runtime_object) \<Rightarrow> reply result \<times> tracker" where
  "after_store r get =
     (case r of
        (Ok _, t) \<Rightarrow> (case get t of Inl e \<Rightarrow> (Ok (None, Some e), t) | Inr x \<Rightarrow> (Ok (Some x, None), t))
      | (Err e, t) \<Rightarrow> (Ok (None, Some e), t)
      | (Panic m, t) \<Rightarrow> (Panic m, t))"

text \<open>
  \<^verbatim>\<open>ObjectReaction\<close>: whether the action was handled, its reply and the tracker. An action has no case for the deletion
  of a collection. A patch answers with the object patched, an applied configuration with the one read back.
\<close>

definition object_reaction :: "fake_env \<Rightarrow> action \<Rightarrow> tracker \<Rightarrow> (bool \<times> reply) result \<times> tracker" where
  "object_reaction en a t =
     (let handled = (\<lambda>(r, t'). (case r of Ok rep \<Rightarrow> Ok (True, rep) | Err e \<Rightarrow> Err e | Panic m \<Rightarrow> Panic m, t'));
          reply = (\<lambda>x. case x of Inl e \<Rightarrow> (None, Some e) | Inr y \<Rightarrow> (Some y, None))
      in case a of
           ListAction g k ns \<Rightarrow> handled (Ok (reply (tracker_list g k ns t)), t)
         | GetAction g ns n \<Rightarrow> handled (Ok (reply (tracker_get g ns n t)), t)
         | CreateAction g ns x \<Rightarrow> handled (after_store (tracker_add g x ns False t) (tracker_get g ns (object_name x)))
         | UpdateAction g sub ns x \<Rightarrow> handled (after_store (tracker_add g x ns True t) (tracker_get g ns (object_name x)))
         | DeleteAction g ns n \<Rightarrow>
             handled (case tracker_delete g ns n t of
                (Ok _, t1) \<Rightarrow> (Ok (None, None), t1)
              | (Err e, t1) \<Rightarrow> (Ok (None, Some e), t1)
              | (Panic m, t1) \<Rightarrow> (Panic m, t1))
         | PatchAction g sub ns n pt data \<Rightarrow>
             handled (if pt = apply_patch_type \<and> fe_decode en data \<noteq> None then (Ok (None, fe_decode en data), t)
              else case tracker_get g ns n t of
                Inl e \<Rightarrow> (Ok (None, Some e), t)
              | Inr x \<Rightarrow>
                  (case fe_patch en pt data x of
                     Inl e \<Rightarrow> (Ok (None, Some e), t)
                   | Inr y \<Rightarrow>
                       after_store (tracker_add g y ns True t)
                         (\<lambda>t1. if pt = apply_patch_type then tracker_get g ns n t1 else Inr y)))
         | _ \<Rightarrow> (Ok (False, None, Some (ErrText ''no reaction implemented'')), t))"

text \<open>
  The chain: the reaction of the tracker, added first by the constructor and registered for everything, and those that
  a test prepends or appends, functions of the action.
\<close>

datatype reactor = TrackerReactor | Reacting string string "action \<Rightarrow> bool \<times> reply"

datatype watch_reactor = TrackerWatch | WatchReacting string "action \<Rightarrow> bool \<times> nat option \<times> goerr option"

record fake =
  fk_actions :: "action list"
  fk_chain :: "reactor list"
  fk_watch_chain :: "watch_reactor list"
  fk_tracker :: tracker

definition resource_covers :: "string \<Rightarrow> action \<Rightarrow> bool" where
  "resource_covers r a \<longleftrightarrow> r = ''*'' \<or> r = snd (snd (action_gvr a)) \<or>
     (CHR ''/'' \<in> set r \<and> takeWhile (\<lambda>c. c \<noteq> CHR ''/'') r = snd (snd (action_gvr a)) \<and>
      tl (dropWhile (\<lambda>c. c \<noteq> CHR ''/'') r) = action_subresource a)"

fun reactor_handles :: "reactor \<Rightarrow> action \<Rightarrow> bool" where
  "reactor_handles TrackerReactor a = True"
| "reactor_handles (Reacting verb r _) a \<longleftrightarrow> (verb = ''*'' \<or> verb = action_verb a) \<and> resource_covers r a"

fun react :: "fake_env \<Rightarrow> reactor \<Rightarrow> action \<Rightarrow> tracker \<Rightarrow> (bool \<times> reply) result \<times> tracker" where
  "react en TrackerReactor a t = object_reaction en a t"
| "react en (Reacting _ _ f) a t = (Ok (f a), t)"

fun run_chain :: "fake_env \<Rightarrow> reactor list \<Rightarrow> action \<Rightarrow> reply \<Rightarrow> tracker \<Rightarrow> reply result \<times> tracker" where
  "run_chain en [] a dflt t = (Ok dflt, t)"
| "run_chain en (r # rs) a dflt t =
     (if \<not> reactor_handles r a then run_chain en rs a dflt t
      else case react en r a t of
             (Ok (True, rep), t1) \<Rightarrow> (Ok rep, t1)
           | (Ok (False, _), t1) \<Rightarrow> run_chain en rs a dflt t1
           | (Err e, t1) \<Rightarrow> (Err e, t1)
           | (Panic m, t1) \<Rightarrow> (Panic m, t1))"

definition invokes :: "fake_env \<Rightarrow> action \<Rightarrow> runtime_object \<Rightarrow> fake \<Rightarrow> reply result \<times> fake" where
  "invokes en a dflt fk =
     (let (r, t) = run_chain en (fk_chain fk) a (Some dflt, None) (fk_tracker fk)
      in (r, fk\<lparr>fk_actions := fk_actions fk @ [a], fk_tracker := t\<rparr>))"

fun run_watch_chain :: "watch_reactor list \<Rightarrow> action \<Rightarrow> tracker \<Rightarrow> (nat option \<times> goerr option) \<times> tracker" where
  "run_watch_chain [] a t = ((None, Some (ErrText ''unhandled watch'')), t)"
| "run_watch_chain (TrackerWatch # rs) a t =
     (case a of
        WatchAction g ns \<Rightarrow> (let (w, t1) = tracker_watch g ns t in ((Some w, None), t1))
      | _ \<Rightarrow> run_watch_chain rs a t)"
| "run_watch_chain (WatchReacting r f # rs) a t =
     (if \<not> resource_covers r a then run_watch_chain rs a t
      else case f a of (True, out) \<Rightarrow> (out, t) | (False, _) \<Rightarrow> run_watch_chain rs a t)"

definition invokes_watch :: "action \<Rightarrow> fake \<Rightarrow> (nat option \<times> goerr option) \<times> fake" where
  "invokes_watch a fk =
     (let (r, t) = run_watch_chain (fk_watch_chain fk) a (fk_tracker fk)
      in (r, fk\<lparr>fk_actions := fk_actions fk @ [a], fk_tracker := t\<rparr>))"

definition prepend_reactor :: "string \<Rightarrow> string \<Rightarrow> (action \<Rightarrow> bool \<times> reply) \<Rightarrow> fake \<Rightarrow> fake" where
  "prepend_reactor verb r f fk = fk\<lparr>fk_chain := Reacting verb r f # fk_chain fk\<rparr>"

definition add_reactor :: "reactor \<Rightarrow> fake \<Rightarrow> fake" where
  "add_reactor r fk = fk\<lparr>fk_chain := fk_chain fk @ [r]\<rparr>"

definition add_watch_reactor :: "watch_reactor \<Rightarrow> fake \<Rightarrow> fake" where
  "add_watch_reactor r fk = fk\<lparr>fk_watch_chain := fk_watch_chain fk @ [r]\<rparr>"

text \<open>\<^verbatim>\<open>NewSimpleClientset\<close>: an error of \<^verbatim>\<open>Add\<close> panics with it.\<close>

fun add_objects :: "runtime_object list \<Rightarrow> tracker \<Rightarrow> tracker result" where
  "add_objects [] t = Ok t"
| "add_objects (x # xs) t =
     (case tracker_add_object x t of
        (Ok _, t1) \<Rightarrow> add_objects xs t1
      | (Err e, _) \<Rightarrow> Panic (err_text e)
      | (Panic m, _) \<Rightarrow> Panic m)"

definition new_simple_clientset :: "runtime_object list \<Rightarrow> fake result" where
  "new_simple_clientset xs =
     (case add_objects xs empty_tracker of
        Ok t \<Rightarrow> Ok (add_watch_reactor TrackerWatch (add_reactor TrackerReactor
                  \<lparr>fk_actions = [], fk_chain = [], fk_watch_chain = [], fk_tracker = t\<rparr>))
      | Err e \<Rightarrow> Err e
      | Panic m \<Rightarrow> Panic m)"

text \<open>The clientset: its group clients are views of the one fake, a typed client is one with a namespace.\<close>

definition clientset_tracker :: "fake \<Rightarrow> tracker" where "clientset_tracker fk = fk_tracker fk"

subsection \<open>The typed fakes\<close>

text \<open>
  The two files are the same up to the type, so the methods are written once, over what differs: the resource, the kind,
  the constructors of the objects and of their list, and the zero object.
\<close>

record 'a fake_kind =
  fq_gvr :: gvr
  fq_gvk :: gvk
  fq_wrap :: "'a \<Rightarrow> runtime_object"
  fq_unwrap :: "runtime_object \<Rightarrow> 'a option"
  fq_items :: "runtime_object \<Rightarrow> 'a list option"
  fq_list :: "'a list \<Rightarrow> runtime_object"
  fq_meta :: "'a \<Rightarrow> object_meta"
  fq_zero :: 'a

text \<open>The result: nil, or the type assertion of the reply, which panics on another type.\<close>

definition typed_reply :: "(runtime_object \<Rightarrow> 'b option) \<Rightarrow> reply result \<Rightarrow> ('b option \<times> goerr option) result" where
  "typed_reply unwrap r =
     (case r of
        Ok (None, e) \<Rightarrow> Ok (None, e)
      | Ok (Some x, e) \<Rightarrow>
          (case unwrap x of Some y \<Rightarrow> Ok (Some y, e) | None \<Rightarrow> Panic ''interface conversion'')
      | Err e \<Rightarrow> Err e
      | Panic m \<Rightarrow> Panic m)"

definition fake_call ::
  "fake_env \<Rightarrow> 'a fake_kind \<Rightarrow> action \<Rightarrow> fake \<Rightarrow> ('a option \<times> goerr option) result \<times> fake" where
  "fake_call en K a fk =
     (let (r, fk1) = invokes en a (fq_wrap K (fq_zero K)) fk in (typed_reply (fq_unwrap K) r, fk1))"

definition fake_get where
  "fake_get en K ns n = fake_call en K (GetAction (fq_gvr K) ns n)"

definition fake_create where
  "fake_create en K ns x = fake_call en K (CreateAction (fq_gvr K) ns (fq_wrap K x))"

definition fake_update where
  "fake_update en K ns x = fake_call en K (UpdateAction (fq_gvr K) [] ns (fq_wrap K x))"

definition fake_update_status where
  "fake_update_status en K ns x = fake_call en K (UpdateAction (fq_gvr K) ''status'' ns (fq_wrap K x))"

definition fake_patch where
  "fake_patch en K ns n pt data subs = fake_call en K (PatchAction (fq_gvr K) (fe_join en subs) ns n pt data)"

definition error_of :: "reply result \<Rightarrow> goerr option result" where
  "error_of r = (case r of Ok (_, e) \<Rightarrow> Ok e | Err e \<Rightarrow> Err e | Panic m \<Rightarrow> Panic m)"

definition fake_delete :: "fake_env \<Rightarrow> 'a fake_kind \<Rightarrow> string \<Rightarrow> string \<Rightarrow> fake \<Rightarrow> goerr option result \<times> fake" where
  "fake_delete en K ns n fk =
     (let (r, fk1) = invokes en (DeleteAction (fq_gvr K) ns n) (fq_wrap K (fq_zero K)) fk in (error_of r, fk1))"

text \<open>\<^verbatim>\<open>ExtractFromListOptions\<close>, which panics on a selector that does not parse.\<close>

definition extract_options :: "fake_env \<Rightarrow> list_options \<Rightarrow> selector result" where
  "extract_options en opts =
     (case fe_labels en (lo_label_selector opts) of
        Inl e \<Rightarrow> Panic (''invalid selector '' @ quote (lo_label_selector opts) @ '': '' @ err_text e)
      | Inr sel \<Rightarrow>
          (case fe_fields en (lo_rest opts) of
             Inl e \<Rightarrow> Panic (''invalid selector '' @ quote (lo_rest opts) @ '': '' @ err_text e)
           | Inr _ \<Rightarrow> Ok sel))"

definition fake_list ::
  "fake_env \<Rightarrow> 'a fake_kind \<Rightarrow> string \<Rightarrow> list_options \<Rightarrow> fake \<Rightarrow> ('a list option \<times> goerr option) result \<times> fake" where
  "fake_list en K ns opts fk =
     (case extract_options en opts of
        Ok sel \<Rightarrow>
          (let (r, fk1) = invokes en (ListAction (fq_gvr K) (fq_gvk K) ns) (fq_list K []) fk
           in (case typed_reply (fq_items K) r of
                 Ok (Some xs, e) \<Rightarrow> Ok (Some (filter (\<lambda>x. selector_matches sel (om_labels (fq_meta K x))) xs), e)
               | r' \<Rightarrow> r', fk1))
      | Err e \<Rightarrow> (Err e, fk)
      | Panic m \<Rightarrow> (Panic m, fk))"

definition fake_watch ::
  "fake_env \<Rightarrow> 'a fake_kind \<Rightarrow> string \<Rightarrow> list_options \<Rightarrow> fake \<Rightarrow> (nat option \<times> goerr option) result \<times> fake" where
  "fake_watch en K ns opts fk =
     (case extract_options en opts of
        Ok _ \<Rightarrow> (let (r, fk1) = invokes_watch (WatchAction (fq_gvr K) ns) fk in (Ok r, fk1))
      | Err e \<Rightarrow> (Err e, fk)
      | Panic m \<Rightarrow> (Panic m, fk))"

definition fake_delete_collection ::
  "fake_env \<Rightarrow> 'a fake_kind \<Rightarrow> string \<Rightarrow> list_options \<Rightarrow> fake \<Rightarrow> goerr option result \<times> fake" where
  "fake_delete_collection en K ns opts fk =
     (case extract_options en opts of
        Ok _ \<Rightarrow>
          (let (r, fk1) = invokes en (DeleteCollectionAction (fq_gvr K) ns) (fq_list K []) fk in (error_of r, fk1))
      | Err e \<Rightarrow> (Err e, fk)
      | Panic m \<Rightarrow> (Panic m, fk))"

subsection \<open>The two resources\<close>

definition zero_meta :: object_meta where
  "zero_meta = \<lparr>om_name = [], om_generate_name = [], om_namespace = [], om_uid = [], om_resource_version = [],
     om_generation = 0, om_deleted = False, om_finalizers = [], om_labels = [], om_owner_references = []\<rparr>"

definition zero_source :: gitlab_source where
  "zero_source = \<lparr>src_meta = zero_meta,
     src_spec = \<lparr>spec_sink = \<lparr>dest_ref = None, dest_uri = None\<rparr>, spec_ce_overrides = None, spec_service_account = [],
       spec_project_url = [], spec_event_types = [], spec_access_token = None, spec_secret_token = None,
       spec_ssl_verify = False\<rparr>,
     src_status = \<lparr>st_observed_generation = 0, st_conditions = [], st_sink_uri = None, st_ce_attributes = [],
       st_webhook_id = None\<rparr>\<rparr>"

definition zero_binding :: gitlab_binding where
  "zero_binding = \<lparr>gb_meta = zero_meta,
     gb_spec = \<lparr>bs_subject = \<lparr>sr_api_version = [], sr_kind = [], sr_namespace = [], sr_name = [], sr_selector = None\<rparr>,
       bs_access_token = None\<rparr>,
     gb_status = \<lparr>bst_observed_generation = 0, bst_conditions = [], bst_sink_uri = None\<rparr>\<rparr>"

definition source_fakes :: "gitlab_source fake_kind" where
  "source_fakes = \<lparr>fq_gvr = (fst source_group_version, snd source_group_version, sources_resource),
     fq_gvk = (fst source_group_version, snd source_group_version, ''GitLabSource''),
     fq_wrap = SourceObject, fq_unwrap = (\<lambda>x. case x of SourceObject s \<Rightarrow> Some s | _ \<Rightarrow> None),
     fq_items = (\<lambda>x. case x of SourceItems xs \<Rightarrow> Some xs | _ \<Rightarrow> None), fq_list = SourceItems,
     fq_meta = src_meta, fq_zero = zero_source\<rparr>"

definition binding_fakes :: "gitlab_binding fake_kind" where
  "binding_fakes = \<lparr>fq_gvr = (fst binding_group_version, snd binding_group_version, bindings_resource),
     fq_gvk = (fst binding_group_version, snd binding_group_version, ''GitLabBinding''),
     fq_wrap = BindingObject, fq_unwrap = (\<lambda>x. case x of BindingObject b \<Rightarrow> Some b | _ \<Rightarrow> None),
     fq_items = (\<lambda>x. case x of BindingItems xs \<Rightarrow> Some xs | _ \<Rightarrow> None), fq_list = BindingItems,
     fq_meta = gb_meta, fq_zero = zero_binding\<rparr>"

definition fake_sources_get where "fake_sources_get en = fake_get en source_fakes"
definition fake_sources_list where "fake_sources_list en = fake_list en source_fakes"
definition fake_sources_watch where "fake_sources_watch en = fake_watch en source_fakes"
definition fake_sources_create where "fake_sources_create en = fake_create en source_fakes"
definition fake_sources_update where "fake_sources_update en = fake_update en source_fakes"
definition fake_sources_update_status where "fake_sources_update_status en = fake_update_status en source_fakes"
definition fake_sources_delete where "fake_sources_delete en = fake_delete en source_fakes"
definition fake_sources_delete_collection where
  "fake_sources_delete_collection en = fake_delete_collection en source_fakes"
definition fake_sources_patch where "fake_sources_patch en = fake_patch en source_fakes"

definition fake_bindings_get where "fake_bindings_get en = fake_get en binding_fakes"
definition fake_bindings_list where "fake_bindings_list en = fake_list en binding_fakes"
definition fake_bindings_watch where "fake_bindings_watch en = fake_watch en binding_fakes"
definition fake_bindings_create where "fake_bindings_create en = fake_create en binding_fakes"
definition fake_bindings_update where "fake_bindings_update en = fake_update en binding_fakes"
definition fake_bindings_update_status where "fake_bindings_update_status en = fake_update_status en binding_fakes"
definition fake_bindings_delete where "fake_bindings_delete en = fake_delete en binding_fakes"
definition fake_bindings_delete_collection where
  "fake_bindings_delete_collection en = fake_delete_collection en binding_fakes"
definition fake_bindings_patch where "fake_bindings_patch en = fake_patch en binding_fakes"

subsection \<open>The store the fake promises\<close>

text \<open>
  What a client may do, over the kind of its resource, and a map from namespaces and names to objects that does it.
  A patch has its type, its data and the sub-resources it is sent to. Watching is the matter of \<^verbatim>\<open>FakeWatch\<close>.
\<close>

datatype 'a client_op =
    DoGet string string
  | DoList string list_options
  | DoCreate string 'a
  | DoUpdate string 'a
  | DoUpdateStatus string 'a
  | DoDelete string string
  | DoDeleteCollection string list_options
  | DoPatch string string string string "string list"

datatype 'a outcome =
    OutObject 'a
  | OutList "'a list"
  | OutNone
  | OutError goerr
  | OutPanic string

definition object_outcome :: "('a option \<times> goerr option) result \<Rightarrow> 'a outcome" where
  "object_outcome r =
     (case r of
        Ok (_, Some e) \<Rightarrow> OutError e | Ok (Some x, None) \<Rightarrow> OutObject x | Ok (None, None) \<Rightarrow> OutNone
      | Err e \<Rightarrow> OutError e | Panic m \<Rightarrow> OutPanic m)"

definition list_outcome :: "('a list option \<times> goerr option) result \<Rightarrow> 'a outcome" where
  "list_outcome r =
     (case r of
        Ok (_, Some e) \<Rightarrow> OutError e | Ok (Some xs, None) \<Rightarrow> OutList xs | Ok (None, None) \<Rightarrow> OutNone
      | Err e \<Rightarrow> OutError e | Panic m \<Rightarrow> OutPanic m)"

definition error_outcome :: "goerr option result \<Rightarrow> 'a outcome" where
  "error_outcome r =
     (case r of Ok (Some e) \<Rightarrow> OutError e | Ok None \<Rightarrow> OutNone | Err e \<Rightarrow> OutError e | Panic m \<Rightarrow> OutPanic m)"

definition fake_op :: "fake_env \<Rightarrow> 'a fake_kind \<Rightarrow> 'a client_op \<Rightarrow> fake \<Rightarrow> 'a outcome \<times> fake" where
  "fake_op en K p fk =
     (case p of
        DoGet ns n \<Rightarrow> apfst object_outcome (fake_get en K ns n fk)
      | DoList ns opts \<Rightarrow> apfst list_outcome (fake_list en K ns opts fk)
      | DoCreate ns x \<Rightarrow> apfst object_outcome (fake_create en K ns x fk)
      | DoUpdate ns x \<Rightarrow> apfst object_outcome (fake_update en K ns x fk)
      | DoUpdateStatus ns x \<Rightarrow> apfst object_outcome (fake_update_status en K ns x fk)
      | DoDelete ns n \<Rightarrow> apfst error_outcome (fake_delete en K ns n fk)
      | DoDeleteCollection ns opts \<Rightarrow> apfst error_outcome (fake_delete_collection en K ns opts fk)
      | DoPatch ns n pt data subs \<Rightarrow> apfst object_outcome (fake_patch en K ns n pt data subs fk))"

fun fake_ops :: "fake_env \<Rightarrow> 'a fake_kind \<Rightarrow> 'a client_op list \<Rightarrow> fake \<Rightarrow> 'a outcome list \<times> fake" where
  "fake_ops en K [] fk = ([], fk)"
| "fake_ops en K (p # ps) fk =
     (let (r, fk1) = fake_op en K p fk; (rs, fk2) = fake_ops en K ps fk1 in (r # rs, fk2))"

type_synonym 'a store = "string \<times> string \<Rightarrow> 'a option"

definition scoped :: "('a \<Rightarrow> object_meta) \<Rightarrow> (string \<Rightarrow> 'a \<Rightarrow> 'a) \<Rightarrow> string \<Rightarrow> 'a \<Rightarrow> goerr + 'a" where
  "scoped meta move ns x =
     (let y = (if om_namespace (meta x) = [] then move ns x else x)
      in if om_namespace (meta y) = ns then Inr y else Inl (namespace_mismatch ns (om_namespace (meta y))))"

text \<open>
  The step of the store: every outcome but a listing is determined, and a listing up to its order, which is by name.
  The deletion of a collection is the one operation that is not the store's: the fixture has no reaction for it, so it
  deletes nothing and answers nil. A patch is that of \<open>patch\<close> on the object found, stored as an update would be,
  whatever sub-resource it is sent to: if it changes the name, it is the object of that name that is replaced. It is
  answered by the patched object, an applied configuration by what is then stored under the name it was sent to.
\<close>

type_synonym 'a patch = "string \<Rightarrow> string \<Rightarrow> 'a \<Rightarrow> goerr + 'a"

definition patch_step ::
  "goerr option \<Rightarrow> string \<Rightarrow> ('a \<Rightarrow> object_meta) \<Rightarrow> (string \<Rightarrow> 'a \<Rightarrow> 'a) \<Rightarrow> ('a \<Rightarrow> goerr + 'a) \<Rightarrow> bool \<Rightarrow> string \<Rightarrow> string \<Rightarrow>
   'a store \<Rightarrow> 'a outcome \<times> 'a store"
where
  "patch_step undecoded res meta move patch applied ns n m =
     (case (if applied then undecoded else None) of
        Some e \<Rightarrow> (OutError e, m)
      | None \<Rightarrow>
          (case m (ns, n) of
             None \<Rightarrow> (OutError (not_found_error res n), m)
           | Some x \<Rightarrow>
               (case patch x of
                  Inl e \<Rightarrow> (OutError e, m)
                | Inr y \<Rightarrow>
                    (case scoped meta move ns y of
                       Inl e \<Rightarrow> (OutError e, m)
                     | Inr z \<Rightarrow>
                         if m (ns, om_name (meta y)) = None then (OutError (not_found_error res (om_name (meta y))), m)
                         else let m' = m((ns, om_name (meta y)) \<mapsto> z)
                           in (OutObject (if applied then the (m' (ns, n)) else y), m')))))"

definition store_step ::
  "fake_env \<Rightarrow> 'a patch \<Rightarrow> string \<Rightarrow> ('a \<Rightarrow> object_meta) \<Rightarrow> (string \<Rightarrow> 'a \<Rightarrow> 'a) \<Rightarrow> 'a client_op \<Rightarrow> 'a store \<Rightarrow> 'a outcome \<Rightarrow>
   'a store \<Rightarrow> bool"
where
  "store_step en patch res meta move p m out m' \<longleftrightarrow>
     (case p of
        DoGet ns n \<Rightarrow> m' = m \<and> out = (case m (ns, n) of Some x \<Rightarrow> OutObject x | None \<Rightarrow> OutError (not_found_error res n))
      | DoList ns opts \<Rightarrow> m' = m \<and>
          (case extract_options en opts of
             Ok sel \<Rightarrow> (\<exists>xs. out = OutList xs \<and> distinct xs \<and> sorted (map (\<lambda>x. (om_namespace (meta x), om_name (meta x))) xs) \<and>
               set xs = {x. x \<in> ran m \<and> (ns = [] \<or> om_namespace (meta x) = ns) \<and> selector_matches sel (om_labels (meta x))})
           | Err e \<Rightarrow> out = OutError e | Panic e \<Rightarrow> out = OutPanic e)
      | DoCreate ns x \<Rightarrow>
          (case scoped meta move ns x of
             Inl e \<Rightarrow> out = OutError e \<and> m' = m
           | Inr y \<Rightarrow> (let n = om_name (meta x) in
               if m (ns, n) \<noteq> None then out = OutError (already_exists_error res n) \<and> m' = m
               else out = OutObject y \<and> m' = m((ns, n) \<mapsto> y)))
      | DoDelete ns n \<Rightarrow>
          (if m (ns, n) = None then out = OutError (not_found_error res n) \<and> m' = m
           else out = OutNone \<and> m' = m((ns, n) := None))
      | DoDeleteCollection ns opts \<Rightarrow> m' = m \<and>
          (case extract_options en opts of Ok _ \<Rightarrow> out = OutNone | Err e \<Rightarrow> out = OutError e | Panic e \<Rightarrow> out = OutPanic e)
      | DoPatch ns n pt data subs \<Rightarrow>
          (out, m') = patch_step (fe_decode en data) res meta move (patch pt data) (pt = apply_patch_type) ns n m
      | DoUpdate ns x \<Rightarrow>
          (case scoped meta move ns x of
             Inl e \<Rightarrow> out = OutError e \<and> m' = m
           | Inr y \<Rightarrow> (let n = om_name (meta x) in
               if m (ns, n) = None then out = OutError (not_found_error res n) \<and> m' = m
               else out = OutObject y \<and> m' = m((ns, n) \<mapsto> y)))
      | DoUpdateStatus ns x \<Rightarrow>
          (case scoped meta move ns x of
             Inl e \<Rightarrow> out = OutError e \<and> m' = m
           | Inr y \<Rightarrow> (let n = om_name (meta x) in
               if m (ns, n) = None then out = OutError (not_found_error res n) \<and> m' = m
               else out = OutObject y \<and> m' = m((ns, n) \<mapsto> y))))"

fun store_trace ::
  "fake_env \<Rightarrow> 'a patch \<Rightarrow> string \<Rightarrow> ('a \<Rightarrow> object_meta) \<Rightarrow> (string \<Rightarrow> 'a \<Rightarrow> 'a) \<Rightarrow> 'a client_op list \<Rightarrow> 'a store \<Rightarrow>
   'a outcome list \<Rightarrow> 'a store \<Rightarrow> bool" where
  "store_trace en patch res meta move [] m outs m' \<longleftrightarrow> outs = [] \<and> m' = m"
| "store_trace en patch res meta move (p # ps) m outs m' \<longleftrightarrow>
     (\<exists>r rs m1. outs = r # rs \<and> store_step en patch res meta move p m r m1 \<and> store_trace en patch res meta move ps m1 rs m')"

text \<open>The store of a kind in the tracker.\<close>

definition stored :: "'a fake_kind \<Rightarrow> tracker \<Rightarrow> 'a store" where
  "stored K t k = (case map_of (tr_objects t) (fq_gvr K, k) of Some x \<Rightarrow> fq_unwrap K x | None \<Rightarrow> None)"

subsection \<open>The tracker without watchers\<close>

lemma apfst_eqE: "apfst f p = (r, s) \<Longrightarrow> (\<And>r'. p = (r', s) \<Longrightarrow> r = f r' \<Longrightarrow> thesis) \<Longrightarrow> thesis"
  by (cases p) auto

definition quiet :: "fake \<Rightarrow> bool" where
  "quiet fk \<longleftrightarrow> fk_chain fk = [TrackerReactor] \<and> tr_watchers (fk_tracker fk) = [] \<and>
     distinct (map fst (tr_objects (fk_tracker fk)))"

lemma notify_all_quiet: "tr_watchers t = [] \<Longrightarrow> notify_all e g ns t = (Ok (), t)"
  by (simp add: notify_all_def get_watches_def)

lemma map_of_put: "map_of (tr_objects (put_object g ns n x t)) = (map_of (tr_objects t))((g, ns, n) \<mapsto> x)"
  by (simp add: put_object_def update_conv')

lemma put_object_simps [simp]:
  "tr_watchers (put_object g ns n x t) = tr_watchers t"
  "distinct (map fst (tr_objects t)) \<Longrightarrow> distinct (map fst (tr_objects (put_object g ns n x t)))"
  by (simp_all add: put_object_def distinct_update)

locale tracked_kind =
  fixes K :: "'a fake_kind" and move :: "string \<Rightarrow> 'a \<Rightarrow> 'a"
  assumes unwrap: "fq_unwrap K o' = Some x \<longleftrightarrow> o' = fq_wrap K x"
    and metadata: "object_meta_of (fq_wrap K x) = Inr (fq_meta K x)"
    and moved: "set_object_ns ns (fq_wrap K x) = fq_wrap K (move ns x)"
    and move_meta: "fq_meta K (move ns x) = with_ns ns (fq_meta K x)"
    and items: "fq_items K (fq_list K xs) = Some xs"
    and listed: "fq_gvk K = (g, v, k) \<Longrightarrow> list_object (g, v, k @ ''List'') (map (fq_wrap K) xs) = Inr (fq_list K xs)"
begin

abbreviation res :: string where "res \<equiv> group_resource (fq_gvr K)"

definition kind_wf :: "tracker \<Rightarrow> bool" where
  "kind_wf t \<longleftrightarrow> (\<forall>ns n x. map_of (tr_objects t) (fq_gvr K, ns, n) = Some x \<longrightarrow>
     (\<exists>y. x = fq_wrap K y \<and> om_namespace (fq_meta K y) = ns \<and> om_name (fq_meta K y) = n))"

lemma object_facts [simp]:
  "object_ns (fq_wrap K x) = om_namespace (fq_meta K x)" "object_name (fq_wrap K x) = om_name (fq_meta K x)"
  "fq_unwrap K (fq_wrap K x) = Some x"
  "om_namespace (fq_meta K (move ns x)) = ns" "om_name (fq_meta K (move ns x)) = om_name (fq_meta K x)"
  using unwrap by (simp_all add: object_ns_def object_name_def metadata move_meta with_ns_def)

lemma stored_found:
  "kind_wf t \<Longrightarrow> map_of (tr_objects t) (fq_gvr K, ns, n) = map_option (fq_wrap K) (stored K t (ns, n))"
proof (cases "map_of (tr_objects t) (fq_gvr K, ns, n)")
  case (Some x)
  moreover assume "kind_wf t"
  ultimately obtain y where "x = fq_wrap K y" unfolding kind_wf_def by blast
  then show ?thesis using Some by (simp add: stored_def)
qed (simp add: stored_def)

lemma scoped_names:
  "scoped (fq_meta K) move ns x = Inr y \<Longrightarrow> om_namespace (fq_meta K y) = ns \<and> om_name (fq_meta K y) = om_name (fq_meta K x)"
proof -
  assume "scoped (fq_meta K) move ns x = Inr y"
  then have "y = (if om_namespace (fq_meta K x) = [] then move ns x else x)" "om_namespace (fq_meta K y) = ns"
    by (auto simp: scoped_def Let_def split: if_splits)
  then show ?thesis by simp
qed

lemma tracker_add_quiet:
  assumes "tr_watchers t = []" and "kind_wf t"
  shows "tracker_add (fq_gvr K) (fq_wrap K x) ns replace t =
    (case scoped (fq_meta K) move ns x of
       Inl e \<Rightarrow> (Err e, t)
     | Inr y \<Rightarrow>
         (let n = om_name (fq_meta K x) in
          if (stored K t (ns, n) \<noteq> None) = replace then (Ok (), put_object (fq_gvr K) ns n (fq_wrap K y) t)
          else (Err ((if replace then not_found_error else already_exists_error) res n), t)))"
  using assms(1) stored_found [OF assms(2), of ns "om_name (fq_meta K x)"]
  by (auto simp: tracker_add_def metadata moved scoped_def Let_def notify_all_quiet split: option.split)

lemma stored_put:
  "stored K (put_object (fq_gvr K) ns n (fq_wrap K y) t) = (stored K t)((ns, n) \<mapsto> y)"
  by (rule ext) (simp add: stored_def map_of_put)

lemma kind_wf_put:
  "kind_wf t \<Longrightarrow> om_namespace (fq_meta K y) = ns \<Longrightarrow> om_name (fq_meta K y) = n \<Longrightarrow>
   kind_wf (put_object (fq_gvr K) ns n (fq_wrap K y) t)"
  by (auto simp: kind_wf_def map_of_put)

lemma tracker_delete_quiet:
  assumes "tr_watchers t = []" and "kind_wf t"
  shows "tracker_delete (fq_gvr K) ns n t =
    (if stored K t (ns, n) = None then (Err (not_found_error res n), t)
     else (Ok (), t\<lparr>tr_objects := AList.delete (fq_gvr K, ns, n) (tr_objects t)\<rparr>))"
  using assms(1) stored_found [OF assms(2), of ns n]
  by (auto simp: tracker_delete_def notify_all_quiet split: option.split)

lemma listing_member:
  assumes "distinct (map fst (tr_objects t))" and "kind_wf t"
    and os: "os = filter (\<lambda>((g', _), x). g' = fq_gvr K \<and> (ns = [] \<or> object_ns x = ns)) (tr_objects t)"
  shows "fq_wrap K x \<in> snd ` set os \<longleftrightarrow> x \<in> ran (stored K t) \<and> (ns = [] \<or> om_namespace (fq_meta K x) = ns)"
proof
  assume "fq_wrap K x \<in> snd ` set os"
  then obtain g a b where ob: "((g, a, b), fq_wrap K x) \<in> set os" by (auto)
  then have "map_of (tr_objects t) (fq_gvr K, a, b) = Some (fq_wrap K x)" "ns = [] \<or> om_namespace (fq_meta K x) = ns"
    using assms(1) by (auto simp: os)
  then show "x \<in> ran (stored K t) \<and> (ns = [] \<or> om_namespace (fq_meta K x) = ns)"
    by (auto simp: stored_def intro!: ranI [of _ "(a, b)"])
next
  assume "x \<in> ran (stored K t) \<and> (ns = [] \<or> om_namespace (fq_meta K x) = ns)"
  then obtain a b where "stored K t (a, b) = Some x" and n: "ns = [] \<or> om_namespace (fq_meta K x) = ns" by (auto simp: ran_def)
  then have "map_of (tr_objects t) (fq_gvr K, a, b) = Some (fq_wrap K x)" using stored_found [OF assms(2), of a b] by simp
  then have "((fq_gvr K, a, b), fq_wrap K x) \<in> set os" using n map_of_SomeD by (fastforce simp: os)
  then show "fq_wrap K x \<in> snd ` set os" by force
qed

lemma kind_listing:
  assumes "distinct (map fst (tr_objects t))" and "kind_wf t"
  shows "\<exists>xs. filter_by_namespace (fq_gvr K) ns t = map (fq_wrap K) xs \<and> distinct xs \<and>
    sorted (map (\<lambda>x. (om_namespace (fq_meta K x), om_name (fq_meta K x))) xs) \<and>
    set xs = {x. x \<in> ran (stored K t) \<and> (ns = [] \<or> om_namespace (fq_meta K x) = ns)}"
proof -
  define os where "os = filter (\<lambda>((g', _), x). g' = fq_gvr K \<and> (ns = [] \<or> object_ns x = ns)) (tr_objects t)"
  have typed: "\<exists>y. x = fq_wrap K y \<and> om_namespace (fq_meta K y) = a \<and> om_name (fq_meta K y) = b"
    if "((g, a, b), x) \<in> set os" for g a b x
  proof -
    have "map_of (tr_objects t) (fq_gvr K, a, b) = Some x"
      using that assms(1) by (auto simp: os_def)
    then show ?thesis using assms(2) by (simp add: kind_wf_def)
  qed
  define xs where "xs = map (the \<circ> fq_unwrap K) (filter_by_namespace (fq_gvr K) ns t)"
  have set_f: "set (filter_by_namespace (fq_gvr K) ns t) = snd ` set os"
    by (simp add: filter_by_namespace_def os_def)
  have w: "filter_by_namespace (fq_gvr K) ns t = map (fq_wrap K) xs"
  proof -
    have "fq_wrap K (the (fq_unwrap K x)) = x" if "x \<in> snd ` set os" for x using that typed by force
    then show ?thesis unfolding xs_def map_map by (intro map_idI [symmetric]) (simp add: set_f)
  qed
  have inj: "inj_on snd (set os)"
  proof (rule inj_onI)
    fix p q assume p: "p \<in> set os" and q: "q \<in> set os" and e: "snd p = snd q"
    obtain g a b x where pp: "p = ((g, a, b), x)" by (metis surj_pair)
    obtain g' a' b' where qq: "q = ((g', a', b'), x)" using e pp by (metis surj_pair snd_conv)
    have "g = fq_gvr K" "g' = fq_gvr K" using p q by (auto simp: pp qq os_def)
    then show "p = q" using typed [of g a b x] typed [of g' a' b' x] p q unwrap by (auto simp: pp qq) (metis object_facts(1,2))+
  qed
  have "distinct os" using assms(1) by (simp add: os_def distinct_map)
  then have "distinct (filter_by_namespace (fq_gvr K) ns t)"
    using inj by (simp add: filter_by_namespace_def distinct_map flip: os_def)
  then have dist: "distinct xs" unfolding w by (simp add: distinct_map)
  have sorted_xs: "sorted (map (\<lambda>x. (om_namespace (fq_meta K x), om_name (fq_meta K x))) xs)"
  proof -
    have "sorted (map (\<lambda>x. (object_ns x, object_name x)) (filter_by_namespace (fq_gvr K) ns t))"
      unfolding filter_by_namespace_def by (rule sorted_sort_key)
    then show ?thesis unfolding w by (simp add: o_def)
  qed
  note mem = listing_member [OF assms os_def]
  have "x \<in> set xs \<longleftrightarrow> fq_wrap K x \<in> snd ` set os" for x
  proof -
    have "inj (fq_wrap K)" by (rule injI) (metis object_facts(3) option.inject)
    moreover have "snd ` set os = fq_wrap K ` set xs" using set_f unfolding w by simp
    ultimately show ?thesis by (simp add: inj_image_mem_iff)
  qed
  then have "set xs = {x. x \<in> ran (stored K t) \<and> (ns = [] \<or> om_namespace (fq_meta K x) = ns)}"
    using mem by blast
  then show ?thesis using w dist sorted_xs by blast
qed

lemma after_store_quiet:
  assumes "tr_watchers t = []" and "kind_wf t"
  shows "after_store (tracker_add (fq_gvr K) (fq_wrap K x) ns replace t) (tracker_get (fq_gvr K) ns (om_name (fq_meta K x))) =
    (case scoped (fq_meta K) move ns x of
       Inl e \<Rightarrow> (Ok (None, Some e), t)
     | Inr y \<Rightarrow>
         (let n = om_name (fq_meta K x) in
          if (stored K t (ns, n) \<noteq> None) = replace
          then (Ok (Some (fq_wrap K y), None), put_object (fq_gvr K) ns n (fq_wrap K y) t)
          else (Ok (None, Some ((if replace then not_found_error else already_exists_error) res n)), t)))"
  by (cases "stored K t (ns, om_name (fq_meta K x))")
    (simp_all add: tracker_add_quiet [OF assms] after_store_def tracker_get_def map_of_put Let_def split: sum.split)

text \<open>What a step leaves of the tracker.\<close>

definition kept :: "fake \<Rightarrow> fake \<Rightarrow> bool" where
  "kept fk fk' \<longleftrightarrow> quiet fk' \<and> kind_wf (fk_tracker fk') \<and>
     (\<forall>g k. g \<noteq> fq_gvr K \<longrightarrow> map_of (tr_objects (fk_tracker fk')) (g, k) = map_of (tr_objects (fk_tracker fk)) (g, k))"

lemma kept_other:
  "kept fk fk' \<Longrightarrow> g \<noteq> fq_gvr K \<Longrightarrow> map_of (tr_objects (fk_tracker fk')) (g, k) = map_of (tr_objects (fk_tracker fk)) (g, k)"
  unfolding kept_def by blast

lemma kept_same: "quiet fk \<Longrightarrow> kind_wf (fk_tracker fk) \<Longrightarrow> kept fk (fk\<lparr>fk_actions := as, fk_tracker := fk_tracker fk\<rparr>)"
  by (simp add: kept_def quiet_def)

lemma kept_put:
  "quiet fk \<Longrightarrow> kind_wf (fk_tracker fk) \<Longrightarrow> om_namespace (fq_meta K y) = ns \<Longrightarrow> om_name (fq_meta K y) = n \<Longrightarrow>
   kept fk (fk\<lparr>fk_actions := as, fk_tracker := put_object (fq_gvr K) ns n (fq_wrap K y) (fk_tracker fk)\<rparr>)"
  by (simp add: kept_def quiet_def kind_wf_put map_of_put)

lemma kept_delete:
  assumes "quiet fk" and "kind_wf (fk_tracker fk)"
  shows "kept fk (fk\<lparr>fk_actions := as, fk_tracker := (fk_tracker fk)
    \<lparr>tr_objects := AList.delete (fq_gvr K, ns, n) (tr_objects (fk_tracker fk))\<rparr>\<rparr>)"
  using assms by (auto simp: kept_def quiet_def kind_wf_def delete_conv' distinct_delete)

lemma write_step:
  assumes "quiet fk" and "kind_wf (fk_tracker fk)"
    and "a = CreateAction (fq_gvr K) ns (fq_wrap K x) \<and> \<not> replace \<or> a = UpdateAction (fq_gvr K) sub ns (fq_wrap K x) \<and> replace"
    and "fake_call en K a fk = (r, fk')"
  shows "kept fk fk'" and "case scoped (fq_meta K) move ns x of
       Inl e \<Rightarrow> object_outcome r = OutError e \<and> stored K (fk_tracker fk') = stored K (fk_tracker fk)
     | Inr y \<Rightarrow>
         (let n = om_name (fq_meta K x) in
          if (stored K (fk_tracker fk) (ns, n) \<noteq> None) = replace
          then object_outcome r = OutObject y \<and> stored K (fk_tracker fk') = (stored K (fk_tracker fk))((ns, n) \<mapsto> y)
          else object_outcome r = OutError ((if replace then not_found_error else already_exists_error) res n) \<and>
            stored K (fk_tracker fk') = stored K (fk_tracker fk))"
proof -
  have chain: "fk_chain fk = [TrackerReactor]" and w: "tr_watchers (fk_tracker fk) = []" using assms(1) by (simp_all add: quiet_def)
  define out where "out = (case scoped (fq_meta K) move ns x of
       Inl e \<Rightarrow> (Ok (None, Some e), fk_tracker fk)
     | Inr y \<Rightarrow>
         (let n = om_name (fq_meta K x) in
          if (stored K (fk_tracker fk) (ns, n) \<noteq> None) = replace
          then (Ok (Some (fq_wrap K y), None), put_object (fq_gvr K) ns n (fq_wrap K y) (fk_tracker fk))
          else (Ok (None, Some ((if replace then not_found_error else already_exists_error) res n)), fk_tracker fk)))"
  have "object_reaction en a (fk_tracker fk) =
      (case out of (r, t') \<Rightarrow> (case r of Ok rep \<Rightarrow> Ok (True, rep) | Err e \<Rightarrow> Err e | Panic m \<Rightarrow> Panic m, t'))"
    using assms(3) after_store_quiet [OF w assms(2), of x ns replace] by (auto simp: object_reaction_def out_def Let_def)
  moreover have "\<exists>rep t'. out = (Ok rep, t')" by (auto simp: out_def Let_def split: sum.split)
  ultimately have run: "run_chain en (fk_chain fk) a d (fk_tracker fk) = out" for d
    by (auto simp: chain)
  then have r: "r = typed_reply (fq_unwrap K) (fst out)" and fk': "fk' = fk\<lparr>fk_actions := fk_actions fk @ [a], fk_tracker := snd out\<rparr>"
    using assms(4) by (auto simp: fake_call_def invokes_def Let_def split: prod.splits)
  show "kept fk fk'"
    using kept_same [OF assms(1,2)] kept_put [OF assms(1,2)] scoped_names
    by (auto simp: fk' out_def Let_def split: sum.split)
  show "case scoped (fq_meta K) move ns x of
       Inl e \<Rightarrow> object_outcome r = OutError e \<and> stored K (fk_tracker fk') = stored K (fk_tracker fk)
     | Inr y \<Rightarrow>
         (let n = om_name (fq_meta K x) in
          if (stored K (fk_tracker fk) (ns, n) \<noteq> None) = replace
          then object_outcome r = OutObject y \<and> stored K (fk_tracker fk') = (stored K (fk_tracker fk))((ns, n) \<mapsto> y)
          else object_outcome r = OutError ((if replace then not_found_error else already_exists_error) res n) \<and>
            stored K (fk_tracker fk') = stored K (fk_tracker fk))"
    by (auto simp: fk' r out_def Let_def typed_reply_def object_outcome_def stored_put split: sum.split)
qed

lemma get_step:
  assumes q: "quiet fk" and wf: "kind_wf (fk_tracker fk)" and op: "fake_op en K (DoGet ns n) fk = (r, fk')"
  shows "kept fk fk' \<and> store_step en patch res (fq_meta K) move (DoGet ns n) (stored K (fk_tracker fk)) r (stored K (fk_tracker fk'))"
proof -
  have chain: "fk_chain fk = [TrackerReactor]" using q by (simp add: quiet_def)
  have fk': "fk' = fk\<lparr>fk_actions := fk_actions fk @ [GetAction (fq_gvr K) ns n], fk_tracker := fk_tracker fk\<rparr>"
    and r: "r = (case stored K (fk_tracker fk) (ns, n) of Some x \<Rightarrow> OutObject x | None \<Rightarrow> OutError (not_found_error res n))"
    using op stored_found [OF wf, of ns n]
    by (auto simp: fake_op_def fake_get_def fake_call_def invokes_def chain object_reaction_def tracker_get_def typed_reply_def
        object_outcome_def Let_def split: option.splits)
  show ?thesis using kept_same [OF q wf] by (simp add: fk' store_step_def r)
qed

lemma delete_collection_step:
  assumes q: "quiet fk" and wf: "kind_wf (fk_tracker fk)" and op: "fake_op en K (DoDeleteCollection ns opts) fk = (r, fk')"
  shows "kept fk fk' \<and>
    store_step en patch res (fq_meta K) move (DoDeleteCollection ns opts) (stored K (fk_tracker fk)) r (stored K (fk_tracker fk'))"
proof -
  have chain: "fk_chain fk = [TrackerReactor]" using q by (simp add: quiet_def)
  have "kept fk fk' \<and> stored K (fk_tracker fk') = stored K (fk_tracker fk) \<and>
      r = (case extract_options en opts of Ok _ \<Rightarrow> OutNone | Err e \<Rightarrow> OutError e | Panic e \<Rightarrow> OutPanic e)"
  proof (cases "extract_options en opts")
    case (Ok sel)
    then have "fk' = fk\<lparr>fk_actions := fk_actions fk @ [DeleteCollectionAction (fq_gvr K) ns], fk_tracker := fk_tracker fk\<rparr>"
      and "r = OutNone"
      using op by (auto simp: fake_op_def fake_delete_collection_def invokes_def chain object_reaction_def
        error_of_def error_outcome_def Let_def)
    then show ?thesis using kept_same [OF q wf] Ok by simp
  next
    case (Err e)
    then have "fk' = fk" "r = OutError e"
      using op by (simp_all add: fake_op_def fake_delete_collection_def error_outcome_def)
    then show ?thesis using q wf by (simp add: Err kept_def)
  next
    case (Panic m)
    then have "fk' = fk" "r = OutPanic m"
      using op by (simp_all add: fake_op_def fake_delete_collection_def error_outcome_def)
    then show ?thesis using q wf by (simp add: Panic kept_def)
  qed
  then show ?thesis by (simp add: store_step_def split: result.split)
qed

lemma list_step:
  assumes q: "quiet fk" and wf: "kind_wf (fk_tracker fk)" and op: "fake_op en K (DoList ns opts) fk = (r, fk')"
  shows "kept fk fk' \<and>
    store_step en patch res (fq_meta K) move (DoList ns opts) (stored K (fk_tracker fk)) r (stored K (fk_tracker fk'))"
proof -
  have chain: "fk_chain fk = [TrackerReactor]" and dist: "distinct (map fst (tr_objects (fk_tracker fk)))"
    using q by (simp_all add: quiet_def)
  obtain xs where xs: "filter_by_namespace (fq_gvr K) ns (fk_tracker fk) = map (fq_wrap K) xs" "distinct xs"
    "sorted (map (\<lambda>x. (om_namespace (fq_meta K x), om_name (fq_meta K x))) xs)"
    "set xs = {x. x \<in> ran (stored K (fk_tracker fk)) \<and> (ns = [] \<or> om_namespace (fq_meta K x) = ns)}"
    using kind_listing [OF dist wf] by blast
  obtain g v k where gvk: "fq_gvk K = (g, v, k)" by (metis surj_pair)
  have l: "tracker_list (fq_gvr K) (fq_gvk K) ns (fk_tracker fk) = Inr (fq_list K xs)"
    using listed [OF gvk, of xs] by (simp add: tracker_list_def gvk xs(1))
  show ?thesis
  proof (cases "extract_options en opts")
    case (Ok sel)
    let ?ys = "filter (\<lambda>x. selector_matches sel (om_labels (fq_meta K x))) xs"
    have fk': "fk' = fk\<lparr>fk_actions := fk_actions fk @ [ListAction (fq_gvr K) (fq_gvk K) ns], fk_tracker := fk_tracker fk\<rparr>"
      and r: "r = OutList ?ys"
      using op by (auto simp: Ok fake_op_def fake_list_def invokes_def chain object_reaction_def l typed_reply_def items
        list_outcome_def Let_def)
    have "sorted (map (\<lambda>x. (om_namespace (fq_meta K x), om_name (fq_meta K x))) ?ys)"
      using xs(3) by (rule sorted_filter)
    then show ?thesis using kept_same [OF q wf] xs(2,4) by (auto simp: Ok fk' store_step_def r)
  next
    case (Err e)
    then have "fk' = fk" "r = OutError e" using op by (simp_all add: fake_op_def fake_list_def list_outcome_def)
    then show ?thesis using q wf by (simp add: Err store_step_def kept_def)
  next
    case (Panic m)
    then have "fk' = fk" "r = OutPanic m" using op by (simp_all add: fake_op_def fake_list_def list_outcome_def)
    then show ?thesis using q wf by (simp add: Panic store_step_def kept_def)
  qed
qed

text \<open>A patch of an object of the kind is an error or an object of the kind, which Go's types see to.\<close>

definition patches :: "fake_env \<Rightarrow> 'a patch \<Rightarrow> bool" where
  "patches en patch \<longleftrightarrow> (\<forall>pt data x. fe_patch en pt data (fq_wrap K x) = map_sum id (fq_wrap K) (patch pt data x))"

lemma patch_reaction:
  assumes q: "quiet fk" and wf: "kind_wf (fk_tracker fk)" and typed: "patches en patch"
    and st: "patch_step (fe_decode en data) res (fq_meta K) move (patch pt data) (pt = apply_patch_type) ns n
      (stored K (fk_tracker fk)) = (out, m')"
  shows "\<exists>rep t'. object_reaction en (PatchAction (fq_gvr K) sub ns n pt data) (fk_tracker fk) = (Ok (True, rep), t') \<and>
    object_outcome (typed_reply (fq_unwrap K) (Ok rep)) = out \<and> stored K t' = m' \<and>
    kept fk (fk\<lparr>fk_actions := as, fk_tracker := t'\<rparr>)"
proof -
  let ?t = "fk_tracker fk"
  have w: "tr_watchers ?t = []" using q by (simp add: quiet_def)
  note same = kept_same [OF q wf, of as]
  have err: "object_outcome (typed_reply (fq_unwrap K) (Ok (None, Some e))) = OutError e" for e
    by (simp add: typed_reply_def object_outcome_def)
  show ?thesis
  proof (cases "pt = apply_patch_type \<and> fe_decode en data \<noteq> None")
    case True
    then show ?thesis using st same err by (auto simp: patch_step_def object_reaction_def Let_def)
  next
    case dec: False
    then have st': "patch_step None res (fq_meta K) move (patch pt data) (pt = apply_patch_type) ns n (stored K ?t) = (out, m')"
      using st by (auto simp: patch_step_def split: if_splits)
    show ?thesis
    proof (cases "stored K ?t (ns, n)")
      case None
      then have "tracker_get (fq_gvr K) ns n ?t = Inl (not_found_error res n)"
        using stored_found [OF wf, of ns n] by (simp add: tracker_get_def)
      then show ?thesis using dec st' same err None by (auto simp: patch_step_def object_reaction_def Let_def)
    next
      case (Some x)
      then have get: "tracker_get (fq_gvr K) ns n ?t = Inr (fq_wrap K x)"
        using stored_found [OF wf, of ns n] by (simp add: tracker_get_def)
      show ?thesis
      proof (cases "patch pt data x")
        case (Inl e)
        then have "fe_patch en pt data (fq_wrap K x) = Inl e" using typed by (simp add: patches_def)
        then show ?thesis using dec get st' same err Some Inl by (auto simp: patch_step_def object_reaction_def Let_def)
      next
        case (Inr y)
        then have "fe_patch en pt data (fq_wrap K x) = Inr (fq_wrap K y)" using typed by (simp add: patches_def)
        then have run: "object_reaction en (PatchAction (fq_gvr K) sub ns n pt data) ?t =
            (case after_store (tracker_add (fq_gvr K) (fq_wrap K y) ns True ?t)
               (\<lambda>t1. if pt = apply_patch_type then tracker_get (fq_gvr K) ns n t1 else Inr (fq_wrap K y)) of
             (r, t') \<Rightarrow> (case r of Ok rep \<Rightarrow> Ok (True, rep) | Err e \<Rightarrow> Err e | Panic m \<Rightarrow> Panic m, t'))"
          using dec by (auto simp: object_reaction_def get Let_def)
        note add = tracker_add_quiet [OF w wf, of y ns True]
        show ?thesis
        proof (cases "scoped (fq_meta K) move ns y")
          case sc: (Inl e)
          then show ?thesis using run add st' same err Some Inr by (auto simp: patch_step_def after_store_def)
        next
          case sc: (Inr z)
          let ?n = "om_name (fq_meta K y)"
          have z: "om_namespace (fq_meta K z) = ns" "om_name (fq_meta K z) = ?n" using scoped_names [OF sc] by simp_all
          show ?thesis
          proof (cases "stored K ?t (ns, ?n)")
            case None
            then show ?thesis using run add sc st' same err Some Inr by (auto simp: patch_step_def after_store_def Let_def)
          next
            case found: (Some u)
            let ?t' = "put_object (fq_gvr K) ns ?n (fq_wrap K z) ?t"
            have wf': "kind_wf ?t'" using kind_wf_put [OF wf] z by simp
            have get': "tracker_get (fq_gvr K) ns n ?t' =
                Inr (fq_wrap K (the (((stored K ?t)((ns, ?n) \<mapsto> z)) (ns, n))))"
              using Some stored_found [OF wf', of ns n] by (auto simp: tracker_get_def stored_put)
            have ob: "object_outcome (typed_reply (fq_unwrap K) (Ok (Some (fq_wrap K v), None))) = OutObject v" for v
              by (simp add: typed_reply_def object_outcome_def)
            have "out = OutObject (if pt = apply_patch_type then the (((stored K ?t)((ns, ?n) \<mapsto> z)) (ns, n)) else y)"
              and "m' = (stored K ?t)((ns, ?n) \<mapsto> z)"
              using st' by (simp_all add: patch_step_def Some Inr sc found Let_def)
            moreover have "tracker_add (fq_gvr K) (fq_wrap K y) ns True ?t = (Ok (), ?t')"
              using add found by (simp add: sc Let_def)
            ultimately show ?thesis
              using run ob get' stored_put kept_put [OF q wf z, of as] by (auto simp: after_store_def)
          qed
        qed
      qed
    qed
  qed
qed

lemma patch_op_step:
  assumes q: "quiet fk" and wf: "kind_wf (fk_tracker fk)" and typed: "patches en patch"
    and op: "fake_op en K (DoPatch ns n pt data subs) fk = (r, fk')"
  shows "kept fk fk' \<and>
    store_step en patch res (fq_meta K) move (DoPatch ns n pt data subs) (stored K (fk_tracker fk)) r (stored K (fk_tracker fk'))"
proof -
  obtain out m' where st: "patch_step (fe_decode en data) res (fq_meta K) move (patch pt data) (pt = apply_patch_type) ns n
      (stored K (fk_tracker fk)) = (out, m')" by (metis surj_pair)
  let ?a = "PatchAction (fq_gvr K) (fe_join en subs) ns n pt data"
  obtain rep t' where "object_reaction en ?a (fk_tracker fk) = (Ok (True, rep), t')"
    and *: "object_outcome (typed_reply (fq_unwrap K) (Ok rep)) = out" "stored K t' = m'"
      "kept fk (fk\<lparr>fk_actions := fk_actions fk @ [?a], fk_tracker := t'\<rparr>)"
    using patch_reaction [OF q wf typed st] by blast
  then have "r = out" "fk' = fk\<lparr>fk_actions := fk_actions fk @ [?a], fk_tracker := t'\<rparr>"
    using op q by (auto simp: fake_op_def fake_patch_def fake_call_def invokes_def quiet_def Let_def)
  then show ?thesis using * st by (simp add: store_step_def)
qed

lemma op_step:
  assumes q: "quiet fk" and wf: "kind_wf (fk_tracker fk)" and typed: "patches en patch" and op: "fake_op en K p fk = (r, fk')"
  shows "kept fk fk' \<and>
    store_step en patch res (fq_meta K) move p (stored K (fk_tracker fk)) r (stored K (fk_tracker fk'))"
proof (cases p)
  case (DoCreate ns x)
  obtain r' where c: "fake_call en K (CreateAction (fq_gvr K) ns (fq_wrap K x)) fk = (r', fk')" and r: "r = object_outcome r'"
    using op by (auto simp: DoCreate fake_op_def fake_create_def elim: apfst_eqE)
  note s = write_step [OF q wf _ c, of ns x False]
  show ?thesis using s by (auto simp: DoCreate store_step_def r Let_def split: sum.splits)
next
  case (DoUpdate ns x)
  obtain r' where c: "fake_call en K (UpdateAction (fq_gvr K) [] ns (fq_wrap K x)) fk = (r', fk')" and r: "r = object_outcome r'"
    using op by (auto simp: DoUpdate fake_op_def fake_update_def elim: apfst_eqE)
  note s = write_step [OF q wf _ c, of ns x True]
  show ?thesis using s by (auto simp: DoUpdate store_step_def r Let_def split: sum.splits)
next
  case (DoUpdateStatus ns x)
  obtain r' where c: "fake_call en K (UpdateAction (fq_gvr K) ''status'' ns (fq_wrap K x)) fk = (r', fk')"
    and r: "r = object_outcome r'"
    using op by (auto simp: DoUpdateStatus fake_op_def fake_update_status_def elim: apfst_eqE)
  note s = write_step [OF q wf _ c, of ns x True]
  show ?thesis using s by (auto simp: DoUpdateStatus store_step_def r Let_def split: sum.splits)
next
  case (DoDelete ns n)
  have "fk_chain fk = [TrackerReactor]" and "tr_watchers (fk_tracker fk) = []" using q by (simp_all add: quiet_def)
  then show ?thesis
    using op kept_same [OF q wf] kept_delete [OF q wf, where ns = ns and n = n]
    by (auto simp: DoDelete fake_op_def fake_delete_def invokes_def object_reaction_def tracker_delete_quiet [OF _ wf]
        store_step_def error_of_def error_outcome_def stored_def delete_conv' Let_def fun_eq_iff split: option.splits)
next
  case (DoGet ns n)
  then show ?thesis using get_step [OF q wf] op by blast
next
  case (DoList ns opts)
  then show ?thesis using list_step [OF q wf] op by blast
next
  case (DoDeleteCollection ns opts)
  then show ?thesis using delete_collection_step [OF q wf] op by blast
next
  case (DoPatch ns n pt data subs)
  then show ?thesis using patch_op_step [OF q wf typed] op by blast
qed

lemma ops_trace:
  assumes "quiet fk" and "kind_wf (fk_tracker fk)" and typed: "patches en patch" and "fake_ops en K ps fk = (rs, fk')"
  shows "kept fk fk' \<and> store_trace en patch res (fq_meta K) move ps (stored K (fk_tracker fk)) rs (stored K (fk_tracker fk'))"
  using assms(1,2,4)
proof (induction ps arbitrary: fk rs fk')
  case Nil
  then show ?case by (simp add: kept_def)
next
  case (Cons p ps)
  obtain r fk1 where 1: "fake_op en K p fk = (r, fk1)" by (metis surj_pair)
  obtain rs' fk2 where 2: "fake_ops en K ps fk1 = (rs', fk2)" by (metis surj_pair)
  have k: "kept fk fk1" and st: "store_step en patch res (fq_meta K) move p (stored K (fk_tracker fk)) r (stored K (fk_tracker fk1))"
    using op_step [OF Cons.prems(1,2) typed 1] by simp_all
  have "quiet fk1" "kind_wf (fk_tracker fk1)" using k by (simp_all add: kept_def)
  note ih = Cons.IH [OF this 2]
  have rs: "rs = r # rs'" "fk' = fk2" using Cons.prems(3) 1 2 by simp_all
  have "kept fk fk2" using k ih by (simp add: kept_def)
  then show ?case using st ih rs by auto
qed

end

definition move_source :: "string \<Rightarrow> gitlab_source \<Rightarrow> gitlab_source" where
  "move_source ns s = s\<lparr>src_meta := with_ns ns (src_meta s)\<rparr>"

definition move_binding :: "string \<Rightarrow> gitlab_binding \<Rightarrow> gitlab_binding" where
  "move_binding ns b = b\<lparr>gb_meta := with_ns ns (gb_meta b)\<rparr>"

lemma items_wrapped [simp]: "source_items (map SourceObject xs) = Some xs" "binding_items (map BindingObject ys) = Some ys"
  by (induction xs, simp_all) (induction ys, simp_all)

lemma scheme_kinds [simp]:
  "set fake_scheme = {(fst source_group_version, snd source_group_version, ''GitLabSource''),
     (fst source_group_version, snd source_group_version, ''GitLabSourceList''),
     (fst binding_group_version, snd binding_group_version, ''GitLabBinding''),
     (fst binding_group_version, snd binding_group_version, ''GitLabBindingList'')}"
  by (auto simp: fake_scheme_def local_scheme_builder_def bindings_add_to_scheme_def sources_add_to_scheme_def add_known_types_def)

interpretation fake_source: tracked_kind source_fakes move_source
  by unfold_locales (auto simp: source_fakes_def object_meta_of_def set_object_ns_def move_source_def list_object_def Let_def
    split: runtime_object.splits)

interpretation fake_binding: tracked_kind binding_fakes move_binding
  by unfold_locales (auto simp: binding_fakes_def object_meta_of_def set_object_ns_def move_binding_def list_object_def Let_def
    split: runtime_object.splits)

subsection \<open>The first objects\<close>

definition started :: "tracker \<Rightarrow> bool" where
  "started t \<longleftrightarrow> tr_watchers t = [] \<and> distinct (map fst (tr_objects t)) \<and> fake_source.kind_wf t \<and> fake_binding.kind_wf t"

lemma other_gvr: "fq_gvr source_fakes \<noteq> fq_gvr binding_fakes" "fq_gvr binding_fakes \<noteq> fq_gvr source_fakes"
  by (simp_all add: source_fakes_def binding_fakes_def sources_resource_def bindings_resource_def)

lemma guessed:
  "guess_resource (fst source_group_version, snd source_group_version, ''GitLabSource'') = fq_gvr source_fakes"
  "guess_resource (fst binding_group_version, snd binding_group_version, ''GitLabBinding'') = fq_gvr binding_fakes"
  by code_simp+

lemma started_add:
  assumes "started t"
  shows "started (snd (tracker_add (fq_gvr source_fakes) (SourceObject s) ns False t))"
    and "started (snd (tracker_add (fq_gvr binding_fakes) (BindingObject b) ns False t))"
proof -
  have w: "tr_watchers t = []" and s: "fake_source.kind_wf t" and b: "fake_binding.kind_wf t"
    using assms by (simp_all add: started_def)
  have ws: "fq_wrap source_fakes s = SourceObject s" "fq_wrap binding_fakes b = BindingObject b"
    by (simp_all add: source_fakes_def binding_fakes_def)
  have keep: "fake_binding.kind_wf (put_object (fq_gvr source_fakes) ns n x t)" for n x
    using b other_gvr by (simp add: fake_binding.kind_wf_def map_of_put)
  have keep': "fake_source.kind_wf (put_object (fq_gvr binding_fakes) ns n x t)" for n x
    using s other_gvr by (simp add: fake_source.kind_wf_def map_of_put)
  show "started (snd (tracker_add (fq_gvr source_fakes) (SourceObject s) ns False t))"
    using fake_source.tracker_add_quiet [OF w s, of s ns False] assms keep fake_source.kind_wf_put [OF s] fake_source.scoped_names
    by (auto simp: ws started_def Let_def split: sum.split)
  show "started (snd (tracker_add (fq_gvr binding_fakes) (BindingObject b) ns False t))"
    using fake_binding.tracker_add_quiet [OF w b, of b ns False] assms keep' fake_binding.kind_wf_put [OF b] fake_binding.scoped_names
    by (auto simp: ws started_def Let_def split: sum.split)
qed

lemma add_one_kind: "snd (add_kinds [k] x ns t) = snd (tracker_add (guess_resource k) x ns False t)"
  by (auto split: prod.split result.split)

lemma started_add_object: "started t \<Longrightarrow> started (snd (add_object x t))"
  using started_add [of t] add_one_kind
  by (cases x) (simp_all add: add_object_def object_kinds_def go_type_kinds_def object_meta_of_def guessed del: add_kinds.simps)

lemma started_add_each: "started t \<Longrightarrow> started (snd (add_each xs t))"
proof (induction xs arbitrary: t)
  case (Cons x xs)
  obtain r t1 where "add_object x t = (r, t1)" by (metis surj_pair)
  then show ?case using Cons started_add_object [OF Cons.prems, of x] by (cases r) auto
qed simp

lemma started_add_objects: "started t \<Longrightarrow> add_objects xs t = Ok t' \<Longrightarrow> started t'"
proof (induction xs arbitrary: t)
  case (Cons x xs)
  have "started (snd (tracker_add_object x t))"
    using Cons.prems(1) started_add_object started_add_each by (cases x) (auto simp: tracker_add_object_def)
  then show ?case using Cons by (auto split: prod.splits result.splits)
qed simp

lemma started_clientset:
  assumes "new_simple_clientset xs = Ok fk"
  shows "quiet fk" and "started (fk_tracker fk)"
proof -
  have e: "started empty_tracker"
    by (simp add: started_def empty_tracker_def fake_source.kind_wf_def fake_binding.kind_wf_def)
  obtain t where t: "add_objects xs empty_tracker = Ok t"
    using assms by (cases "add_objects xs empty_tracker") (simp_all add: new_simple_clientset_def)
  then have fk: "fk = add_watch_reactor TrackerWatch (add_reactor TrackerReactor
      \<lparr>fk_actions = [], fk_chain = [], fk_watch_chain = [], fk_tracker = t\<rparr>)"
    using assms by (simp add: new_simple_clientset_def)
  have "started t" by (rule started_add_objects [OF e t])
  then show "started (fk_tracker fk)" "quiet fk"
    by (simp_all add: fk add_reactor_def add_watch_reactor_def quiet_def started_def)
qed

subsection \<open>Properties\<close>

text \<open>
  C40: A clientset fresh from \<^verbatim>\<open>NewSimpleClientset\<close> is a store: whatever a test does with the typed fake of one of the two
  resources short of watching it (gets, listings, creations, updates, updates of the status, deletions, patches of any
  type, deletions of a collection, in any order), every result and every change is the one of a map from namespaces and
  names to objects: an update of the status is an update of the whole object, a patch is that of the object found,
  whatever its sub-resource, a listing is complete, filtered by namespace and labels and sorted by name. The deletion of a
  collection alone is not what its name says: it deletes nothing. The objects of the other resource are untouched.
\<close>

theorem fake_refines_store:
  assumes new: "new_simple_clientset objects = Ok fk"
    and sources: "fake_ops en source_fakes ops fk = (rs, fk1)" and bindings: "fake_ops en binding_fakes bops fk = (brs, fk2)"
    and patched_source: "\<And>pt data s. fe_patch en pt data (SourceObject s) = map_sum id SourceObject (patch pt data s)"
    and patched_binding: "\<And>pt data b. fe_patch en pt data (BindingObject b) = map_sum id BindingObject (bpatch pt data b)"
  shows "store_trace en patch ''gitlabsources.sources.knative.dev'' src_meta move_source ops (stored source_fakes (fk_tracker fk)) rs
        (stored source_fakes (fk_tracker fk1)) \<and>
      stored binding_fakes (fk_tracker fk1) = stored binding_fakes (fk_tracker fk) \<and>
      store_trace en bpatch ''gitlabbindings.bindings.knative.dev'' gb_meta move_binding bops (stored binding_fakes (fk_tracker fk))
        brs (stored binding_fakes (fk_tracker fk2)) \<and>
      stored source_fakes (fk_tracker fk2) = stored source_fakes (fk_tracker fk)"
proof -
  have q: "quiet fk" and s: "fake_source.kind_wf (fk_tracker fk)" and b: "fake_binding.kind_wf (fk_tracker fk)"
    using started_clientset [OF new] by (simp_all add: started_def)
  have res: "group_resource (fq_gvr source_fakes) = ''gitlabsources.sources.knative.dev''"
    "group_resource (fq_gvr binding_fakes) = ''gitlabbindings.bindings.knative.dev''"
    "fq_meta source_fakes = src_meta" "fq_meta binding_fakes = gb_meta"
    by (simp_all add: source_fakes_def binding_fakes_def group_resource_def source_group_version_def binding_group_version_def
        sources_resource_def bindings_resource_def)
  have "fq_wrap source_fakes = SourceObject" "fq_wrap binding_fakes = BindingObject"
    by (simp_all add: source_fakes_def binding_fakes_def)
  then have p: "fake_source.patches en patch" "fake_binding.patches en bpatch"
    using patched_source patched_binding by (simp_all add: fake_source.patches_def fake_binding.patches_def)
  note t1 = fake_source.ops_trace [OF q s p(1) sources, unfolded res]
  note t2 = fake_binding.ops_trace [OF q b p(2) bindings, unfolded res]
  have "stored binding_fakes (fk_tracker fk1) k = stored binding_fakes (fk_tracker fk) k" for k
    using fake_source.kept_other [of fk fk1 "fq_gvr binding_fakes" k] t1 other_gvr by (simp add: stored_def)
  moreover have "stored source_fakes (fk_tracker fk2) k = stored source_fakes (fk_tracker fk) k" for k
    using fake_binding.kept_other [of fk fk2 "fq_gvr source_fakes" k] t2 other_gvr by (simp add: stored_def)
  ultimately show ?thesis using t1 t2 by blast
qed

text \<open>A patch that renames, and fails on no data.\<close>

definition rename_patch :: "string \<Rightarrow> gitlab_source \<Rightarrow> goerr + gitlab_source" where
  "rename_patch d s =
     (if d = [] then Inl (ErrText ''unexpected end of JSON input'') else Inr (s\<lparr>src_meta := (src_meta s)\<lparr>om_name := d\<rparr>\<rparr>))"

definition sample_fake_env :: fake_env where
  "sample_fake_env = \<lparr>fe_labels = (\<lambda>s. if s = [] then Inr Everything else Inl (ErrText ''bad selector'')), fe_fields = (\<lambda>_. Inr ()),
     fe_decode = (\<lambda>_. None), fe_patch = (\<lambda>_ d x. case x of SourceObject s \<Rightarrow> map_sum id SourceObject (rename_patch d s) | y \<Rightarrow> Inr y),
     fe_join = concat\<rparr>"

definition named_source :: "string \<Rightarrow> string \<Rightarrow> gitlab_source" where
  "named_source ns n = zero_source\<lparr>src_meta := zero_meta\<lparr>om_namespace := ns, om_name := n\<rparr>\<rparr>"

definition sample_ops :: "gitlab_source client_op list" where
  "sample_ops = [DoCreate ''ns'' (named_source [] ''a''), DoCreate ''ns'' (named_source ''ns'' ''a''), DoDelete ''ns'' ''b'',
     DoDeleteCollection ''ns'' \<lparr>lo_timeout_seconds = None, lo_watch = False, lo_label_selector = [], lo_rest = []\<rparr>,
     DoGet ''ns'' ''a'', DoUpdateStatus ''other'' (named_source ''ns'' ''a''),
     DoPatch ''ns'' ''a'' ''application/merge-patch+json'' [] [], DoPatch ''ns'' ''a'' ''application/merge-patch+json'' ''c'' [],
     DoPatch ''ns'' ''a'' apply_patch_type ''b'' [''status'']]"

definition sample_objects :: "runtime_object list" where
  "sample_objects = [SourceItems [named_source ''ns'' ''b''], BindingObject zero_binding]"

theorem fake_refines_store_witness:
  "\<exists>fk rs fk1. new_simple_clientset sample_objects = Ok fk \<and> fake_ops sample_fake_env source_fakes sample_ops fk = (rs, fk1) \<and>
     length rs = 9 \<and>
     store_trace sample_fake_env (\<lambda>_. rename_patch) ''gitlabsources.sources.knative.dev'' src_meta move_source sample_ops
       (stored source_fakes (fk_tracker fk)) rs (stored source_fakes (fk_tracker fk1))"
proof -
  have "case new_simple_clientset sample_objects of Ok fk \<Rightarrow>
      length (fst (fake_ops sample_fake_env source_fakes sample_ops fk)) = 9 | _ \<Rightarrow> False"
    by code_simp
  then obtain fk where fk: "new_simple_clientset sample_objects = Ok fk"
    and l: "length (fst (fake_ops sample_fake_env source_fakes sample_ops fk)) = 9"
    by (cases "new_simple_clientset sample_objects") simp_all
  obtain rs fk1 where r: "fake_ops sample_fake_env source_fakes sample_ops fk = (rs, fk1)" by (metis surj_pair)
  have "fake_ops sample_fake_env binding_fakes [] fk = ([], fk)" by simp
  from fake_refines_store [where patch = "\<lambda>_. rename_patch" and bpatch = "\<lambda>_ _ b. Inr b", OF fk r this] fk r l
  show ?thesis by (auto simp: sample_fake_env_def)
qed

end
