(* ===== verification/FakeWatch.thy ===== *)
theory FakeWatch
  imports FakeClient
begin

section \<open>Watching the fake clientset\<close>

text \<open>
  What the reader of a watch of the tracker sees, over any sequence of calls: additions, replacements, deletions, further
  watches, the reader taking an event, another reader stopping. A call that panics on a full channel ends the sequence.
\<close>

datatype tracker_call =
    CallAdd gvr runtime_object string bool
  | CallDelete gvr string string
  | CallWatch gvr string
  | CallTake
  | CallStop nat

definition take_event :: "nat \<Rightarrow> tracker \<Rightarrow> watch_event list \<times> tracker" where
  "take_event i t =
     (case wa_queue (tr_watchers t ! i) of
        [] \<Rightarrow> ([], t)
      | e # es \<Rightarrow> ([e], t\<lparr>tr_watchers := (tr_watchers t)[i := (tr_watchers t ! i)\<lparr>wa_queue := es\<rparr>]\<rparr>))"

definition stop_watch :: "nat \<Rightarrow> tracker \<Rightarrow> tracker" where
  "stop_watch j t = t\<lparr>tr_watchers := (tr_watchers t)[j := (tr_watchers t ! j)\<lparr>wa_stopped := True\<rparr>]\<rparr>"

definition unless_panic :: "unit result \<times> tracker \<Rightarrow> (watch_event list \<times> tracker) option" where
  "unless_panic r = (case r of (Panic _, _) \<Rightarrow> None | (_, t) \<Rightarrow> Some ([], t))"

fun call_step :: "nat \<Rightarrow> tracker_call \<Rightarrow> tracker \<Rightarrow> (watch_event list \<times> tracker) option" where
  "call_step i (CallAdd g x ns replace) t = unless_panic (tracker_add g x ns replace t)"
| "call_step i (CallDelete g ns n) t = unless_panic (tracker_delete g ns n t)"
| "call_step i (CallWatch g ns) t = Some ([], snd (tracker_watch g ns t))"
| "call_step i CallTake t = Some (take_event i t)"
| "call_step i (CallStop j) t = Some ([], stop_watch j t)"

fun run_calls :: "nat \<Rightarrow> tracker_call list \<Rightarrow> tracker \<Rightarrow> (watch_event list \<times> tracker) option" where
  "run_calls i [] t = Some ([], t)"
| "run_calls i (c # cs) t =
     (case call_step i c t of
        None \<Rightarrow> None
      | Some (es, t1) \<Rightarrow> map_option (apfst ((@) es)) (run_calls i cs t1))"

text \<open>What a watcher of a namespace (or of all) can see, and what its events make of it.\<close>

definition in_scope :: "gvr \<Rightarrow> string \<Rightarrow> tracker \<Rightarrow> runtime_object store" where
  "in_scope g ns t k = (if ns = [] \<or> fst k = ns then map_of (tr_objects t) (g, k) else None)"

definition object_key :: "runtime_object \<Rightarrow> string \<times> string" where
  "object_key x = (object_ns x, object_name x)"

fun replay_event :: "watch_event \<Rightarrow> runtime_object store \<Rightarrow> runtime_object store" where
  "replay_event (EventAdded x) m = m(object_key x \<mapsto> x)"
| "replay_event (EventModified x) m = m(object_key x \<mapsto> x)"
| "replay_event (EventDeleted x) m = m(object_key x := None)"

definition replay :: "watch_event list \<Rightarrow> runtime_object store \<Rightarrow> runtime_object store" where
  "replay es m = foldl (\<lambda>m e. replay_event e m) m es"

lemma replay_append: "replay (es @ fs) m = replay fs (replay es m)"
  by (simp add: replay_def)

definition keys_wf :: "tracker \<Rightarrow> bool" where
  "keys_wf t \<longleftrightarrow> (\<forall>g ns n x. map_of (tr_objects t) (g, ns, n) = Some x \<longrightarrow> object_key x = (ns, n))"

text \<open>The watcher: where it is, what it watches, that it has not stopped and its channel is not overfull.\<close>

definition watching :: "nat \<Rightarrow> gvr \<Rightarrow> string \<Rightarrow> tracker \<Rightarrow> bool" where
  "watching i g ns t \<longleftrightarrow> i < length (tr_watchers t) \<and> wa_gvr (tr_watchers t ! i) = g \<and> wa_ns (tr_watchers t ! i) = ns \<and>
     \<not> wa_stopped (tr_watchers t ! i) \<and> length (wa_queue (tr_watchers t ! i)) \<le> chan_size"

definition pending :: "nat \<Rightarrow> tracker \<Rightarrow> watch_event list" where
  "pending i t = wa_queue (tr_watchers t ! i)"

lemma notify_at:
  "notify e is ws = (True, ws') \<Longrightarrow> distinct is \<Longrightarrow> set is \<subseteq> {..<length ws} \<Longrightarrow>
   length ws' = length ws \<and> (\<forall>i < length ws. Some (ws' ! i) = (if i \<in> set is then send e (ws ! i) else Some (ws ! i)))"
proof (induction e "is" ws rule: notify.induct)
  case (2 e i "is" ws)
  obtain w where w: "send e (ws ! i) = Some w" using "2.prems"(1) by (cases "send e (ws ! i)") (simp_all del: send.simps)
  have run: "notify e is (ws[i := w]) = (True, ws')" using "2.prems"(1) w by (simp del: send.simps)
  have ih: "length ws' = length ws \<and> (\<forall>j < length ws. Some (ws' ! j) =
      (if j \<in> set is then send e (ws[i := w] ! j) else Some (ws[i := w] ! j)))"
    using "2.IH" [OF w run] "2.prems" by (simp del: send.simps)
  have "Some (ws' ! j) = (if j \<in> set (i # is) then send e (ws ! j) else Some (ws ! j))" if "j < length ws" for j
    using ih that "2.prems"(2,3) w by (cases "j = i") (auto simp del: send.simps)
  then show ?case using ih by blast
qed simp

lemma get_watches_facts:
  "distinct (get_watches g ns t)" "set (get_watches g ns t) \<subseteq> {..<length (tr_watchers t)}"
  "watching i g' ns' t \<Longrightarrow> i \<in> set (get_watches g ns t) \<longleftrightarrow> g' = g \<and> (ns' = ns \<or> ns' = [])"
  by (auto simp: get_watches_def Let_def watching_def)

lemma notify_all_watching:
  assumes "notify_all e g ns t = (r, t')" and "\<not> is_panic r" and "watching i g' ns' t"
  shows "tr_objects t' = tr_objects t" and "watching i g' ns' t'"
    and "pending i t' = (if g' = g \<and> (ns' = ns \<or> ns' = []) then pending i t @ [e] else pending i t)"
proof -
  obtain ws where ws: "notify e (get_watches g ns t) (tr_watchers t) = (True, ws)" and t': "t' = t\<lparr>tr_watchers := ws\<rparr>"
    using assms(1,2) by (auto simp: notify_all_def is_panic_def Let_def split: prod.splits if_splits)
  show "tr_objects t' = tr_objects t" by (simp add: t')
  have n: "length ws = length (tr_watchers t)"
    "Some (ws ! i) = (if i \<in> set (get_watches g ns t) then send e (tr_watchers t ! i) else Some (tr_watchers t ! i))"
    using notify_at [OF ws get_watches_facts(1,2)] assms(3) by (auto simp: watching_def)
  note sc = get_watches_facts(3) [OF assms(3), of g ns]
  show "watching i g' ns' t'" "pending i t' = (if g' = g \<and> (ns' = ns \<or> ns' = []) then pending i t @ [e] else pending i t)"
    using n sc assms(3) by (auto simp: t' watching_def pending_def split: if_splits)
qed

text \<open>What one call does to the watcher: the events it adds are those that turn what was there into what is there.\<close>

definition replays :: "nat \<Rightarrow> gvr \<Rightarrow> string \<Rightarrow> tracker \<Rightarrow> watch_event list \<Rightarrow> tracker \<Rightarrow> bool" where
  "replays i g ns t es t' \<longleftrightarrow> watching i g ns t' \<and>
     (\<exists>new. es @ pending i t' = pending i t @ new \<and> in_scope g ns t' = replay new (in_scope g ns t))"

lemma replays_refl: "watching i g ns t \<Longrightarrow> replays i g ns t [] t"
  by (simp add: replays_def replay_def)

lemma replays_trans:
  assumes "replays i g ns t es t1" and "replays i g ns t1 fs t2"
  shows "replays i g ns t (es @ fs) t2"
proof -
  obtain n1 where n1: "es @ pending i t1 = pending i t @ n1" "in_scope g ns t1 = replay n1 (in_scope g ns t)"
    using assms(1) by (auto simp: replays_def)
  obtain n2 where n2: "fs @ pending i t2 = pending i t1 @ n2" "in_scope g ns t2 = replay n2 (in_scope g ns t1)"
    using assms(2) by (auto simp: replays_def)
  have "(es @ fs) @ pending i t2 = pending i t @ (n1 @ n2)" using n1(1) n2(1) by (metis append.assoc)
  moreover have "in_scope g ns t2 = replay (n1 @ n2) (in_scope g ns t)" using n1(2) n2(2) by (simp add: replay_append)
  ultimately show ?thesis using assms(2) unfolding replays_def by blast
qed

lemma in_scope_put:
  "in_scope g ns (put_object g' a b x t) =
    (if g' = g \<and> (ns = [] \<or> a = ns) then (in_scope g ns t)((a, b) \<mapsto> x) else in_scope g ns t)"
  by (rule ext) (auto simp: in_scope_def map_of_put)

lemma in_scope_delete:
  "in_scope g ns (t\<lparr>tr_objects := AList.delete (g', a, b) (tr_objects t)\<rparr>) =
    (if g' = g \<and> (ns = [] \<or> a = ns) then (in_scope g ns t)((a, b) := None) else in_scope g ns t)"
  by (rule ext) (auto simp: in_scope_def delete_conv')

lemma keys_wf_put: "keys_wf t \<Longrightarrow> object_key x = (a, b) \<Longrightarrow> keys_wf (put_object g a b x t)"
  by (auto simp: keys_wf_def map_of_put)

lemma keys_wf_same: "tr_objects t' = tr_objects t \<Longrightarrow> keys_wf t' = keys_wf t"
  by (simp add: keys_wf_def)

lemma keys_wf_delete: "keys_wf t \<Longrightarrow> keys_wf (t\<lparr>tr_objects := AList.delete k (tr_objects t)\<rparr>)"
  by (auto simp: keys_wf_def delete_conv')

lemma notify_all_objects: "tr_objects (snd (notify_all e g ns t)) = tr_objects t"
  by (simp add: notify_all_def Let_def split: prod.split)

lemma notify_all_replays:
  assumes n: "notify_all e g ns t = (r, t')" "\<not> is_panic r" and w: "watching i g' ns' t"
    and sc: "in_scope g' ns' t2 = (if g' = g \<and> (ns' = ns \<or> ns' = []) then replay_event e (in_scope g' ns' t) else in_scope g' ns' t)"
    and w2: "tr_watchers t2 = tr_watchers t'"
  shows "replays i g' ns' t [] t2"
proof -
  note f = notify_all_watching [OF n w]
  have "watching i g' ns' t2" "pending i t2 = pending i t'" using f(2) w2 by (simp_all add: watching_def pending_def)
  then show ?thesis using f(3) sc
    by (cases "g' = g \<and> (ns' = ns \<or> ns' = [])") (auto simp: replays_def replay_def)
qed

lemma tracker_add_result:
  assumes "object_meta_of obj = Inr m" and "x = (if om_namespace m = [] then set_object_ns ns obj else obj)"
  shows "tracker_add g obj ns replace t =
    (if object_ns x \<noteq> ns then (Err (namespace_mismatch ns (object_ns x)), t)
     else case map_of (tr_objects t) (g, ns, om_name m) of
       Some _ \<Rightarrow>
         (if replace
          then (case notify_all (EventModified x) g ns t of
                  (Ok _, t1) \<Rightarrow> (Ok (), put_object g ns (om_name m) x t1)
                | (r, t1) \<Rightarrow> (r, t1))
          else (Err (already_exists_error (group_resource g) (om_name m)), t))
     | None \<Rightarrow>
         (if replace then (Err (not_found_error (group_resource g) (om_name m)), t)
          else notify_all (EventAdded x) g ns (put_object g ns (om_name m) x t)))"
  unfolding tracker_add_def Let_def assms(1) sum.case assms(2) [symmetric] by (cases "object_ns x = ns") auto

lemma set_object_ns_facts:
  assumes "object_meta_of obj = Inr m" and "x = (if om_namespace m = [] then set_object_ns ns obj else obj)"
  shows "object_name x = om_name m"
  using assms by (cases obj) (auto simp: object_meta_of_def set_object_ns_def object_name_def with_ns_def)

lemma tracker_add_replays:
  assumes a: "tracker_add g obj ns replace t = (r, t')" "\<not> is_panic r" and w: "watching i g' ns' t"
  shows "replays i g' ns' t [] t'"
proof (cases "object_meta_of obj")
  case (Inl e)
  then show ?thesis using a w by (simp add: tracker_add_def replays_refl)
next
  case (Inr m)
  define x where "x = (if om_namespace m = [] then set_object_ns ns obj else obj)"
  note name = set_object_ns_facts [OF Inr x_def]
  note add = tracker_add_result [OF Inr x_def]
  show ?thesis
  proof (cases "object_ns x = ns")
    case ns: True
    then have key: "object_key x = (ns, om_name m)" by (simp add: object_key_def name)
    show ?thesis
    proof (cases "map_of (tr_objects t) (g, ns, om_name m)")
      case None
      show ?thesis
      proof (cases replace)
        case False
        let ?t = "put_object g ns (om_name m) x t"
        have run: "notify_all (EventAdded x) g ns ?t = (r, t')"
          using a(1) ns None False by (simp add: add)
        have w1: "watching i g' ns' ?t" using w by (simp add: watching_def)
        have f: "watching i g' ns' t'" "tr_objects t' = tr_objects ?t"
          "pending i t' = (if g' = g \<and> (ns' = ns \<or> ns' = []) then pending i ?t @ [EventAdded x] else pending i ?t)"
          using notify_all_watching [OF run a(2) w1] by simp_all
        have "in_scope g' ns' t' = in_scope g' ns' ?t" using f(2) by (simp add: in_scope_def fun_eq_iff)
        then show ?thesis using f key by (auto simp: replays_def in_scope_put pending_def replay_def)
      qed (use a(1) ns None w in \<open>simp add: add replays_refl\<close>)
    next
      case (Some old)
      show ?thesis
      proof (cases replace)
        case True
        obtain r1 t1 where run: "notify_all (EventModified x) g ns t = (r1, t1)" by (metis surj_pair)
        have ok: "\<not> is_panic r1" "r1 = Ok ()" and t': "t' = put_object g ns (om_name m) x t1"
          using a ns Some True run by (auto simp: add is_panic_def notify_all_def Let_def split: if_splits prod.splits)
        have "in_scope g' ns' t1 = in_scope g' ns' t" using notify_all_objects [of "EventModified x" g ns t] run by (simp add: in_scope_def fun_eq_iff)
        then show ?thesis
          using key by (intro notify_all_replays [OF run ok(1) w]) (auto simp: t' in_scope_put)
      qed (use a(1) ns Some w in \<open>simp add: add replays_refl\<close>)
    qed
  qed (use a(1) w in \<open>simp add: add replays_refl\<close>)
qed

lemma tracker_add_keys:
  assumes "keys_wf t"
  shows "keys_wf (snd (tracker_add g obj ns replace t))"
proof (cases "object_meta_of obj")
  case (Inr m)
  define x where "x = (if om_namespace m = [] then set_object_ns ns obj else obj)"
  note name = set_object_ns_facts [OF Inr x_def]
  have put: "keys_wf (put_object g ns (om_name m) x t1)" if "keys_wf t1" "object_ns x = ns" for t1
    using that by (intro keys_wf_put) (simp_all add: object_key_def name)
  have n: "keys_wf (snd (notify_all e g ns t1))" if "keys_wf t1" for e t1
    using that keys_wf_same [OF notify_all_objects] by blast
  obtain r1 t1 where run: "notify_all (EventModified x) g ns t = (r1, t1)" by (metis surj_pair)
  have "keys_wf t1" using n [OF assms, of "EventModified x"] run by simp
  then show ?thesis
    using assms put n run by (cases r1) (auto simp: tracker_add_result [OF Inr x_def] split: option.split)
qed (use assms in \<open>simp add: tracker_add_def\<close>)

lemma tracker_delete_replays:
  assumes a: "tracker_delete g ns n t = (r, t')" "\<not> is_panic r" and w: "watching i g' ns' t" and k: "keys_wf t"
  shows "replays i g' ns' t [] t'"
proof (cases "map_of (tr_objects t) (g, ns, n)")
  case None
  then show ?thesis using a w by (simp add: tracker_delete_def replays_refl)
next
  case (Some x)
  let ?t = "t\<lparr>tr_objects := AList.delete (g, ns, n) (tr_objects t)\<rparr>"
  have run: "notify_all (EventDeleted x) g ns ?t = (r, t')" using a(1) Some by (simp add: tracker_delete_def)
  have w1: "watching i g' ns' ?t" using w by (simp add: watching_def)
  have key: "object_key x = (ns, n)" using k Some unfolding keys_wf_def by blast
  note f = notify_all_watching [OF run a(2) w1]
  have "in_scope g' ns' t' = in_scope g' ns' ?t" using f(1) by (simp add: in_scope_def fun_eq_iff)
  then show ?thesis using f(2,3) key by (auto simp: replays_def in_scope_delete pending_def replay_def)
qed

lemma take_event_replays:
  assumes "watching i g ns t"
  shows "replays i g ns t (fst (take_event i t)) (snd (take_event i t))"
proof (cases "wa_queue (tr_watchers t ! i)")
  case Nil
  then show ?thesis using replays_refl [OF assms] by (simp add: take_event_def)
next
  case (Cons e es)
  then show ?thesis
    using assms by (auto simp: take_event_def replays_def watching_def pending_def in_scope_def replay_def fun_eq_iff)
qed

lemma call_step_replays:
  assumes c: "call_step i c t = Some (es, t')" and w: "watching i g ns t" and k: "keys_wf t" and s: "c \<noteq> CallStop i"
  shows "replays i g ns t es t' \<and> keys_wf t'"
proof (cases c)
  case (CallAdd g' x ns' replace)
  obtain r where r: "tracker_add g' x ns' replace t = (r, t')" and ok: "\<not> is_panic r" "es = []"
    using c by (auto simp: CallAdd unless_panic_def is_panic_def split: prod.splits result.splits)
  show ?thesis using tracker_add_replays [OF r ok(1) w] tracker_add_keys [OF k, of g' x ns' replace] r ok(2) by simp
next
  case (CallDelete g' ns' n)
  obtain r where r: "tracker_delete g' ns' n t = (r, t')" and ok: "\<not> is_panic r" "es = []"
    using c by (auto simp: CallDelete unless_panic_def is_panic_def split: prod.splits result.splits)
  have "keys_wf (snd (tracker_delete g' ns' n t))"
    using k keys_wf_delete [OF k] keys_wf_same [OF notify_all_objects] by (simp add: tracker_delete_def split: option.split)
  then show ?thesis using tracker_delete_replays [OF r ok(1) w k] r ok(2) by simp
next
  case (CallWatch g' ns')
  then have "es = []" "t' = snd (tracker_watch g' ns' t)" using c by simp_all
  then show ?thesis using w k
    by (auto simp: tracker_watch_def replays_def watching_def pending_def in_scope_def nth_append replay_def keys_wf_def fun_eq_iff)
next
  case CallTake
  then have "es = fst (take_event i t)" "t' = snd (take_event i t)" using c by simp_all
  moreover have "keys_wf (snd (take_event i t)) = keys_wf t"
    by (rule keys_wf_same) (simp add: take_event_def split: list.split)
  ultimately show ?thesis using take_event_replays [OF w] k by simp
next
  case (CallStop j)
  then have "es = []" "t' = stop_watch j t" "j \<noteq> i" using c s by auto
  then show ?thesis using w k
    by (auto simp: stop_watch_def replays_def watching_def pending_def in_scope_def replay_def keys_wf_def fun_eq_iff)
qed

lemma run_calls_replays:
  assumes "run_calls i cs t = Some (es, t')" and "watching i g ns t" and "keys_wf t" and "CallStop i \<notin> set cs"
  shows "replays i g ns t es t' \<and> keys_wf t'"
  using assms
proof (induction cs arbitrary: t es)
  case (Cons c cs)
  obtain es1 t1 where 1: "call_step i c t = Some (es1, t1)" using Cons.prems(1) by (cases "call_step i c t") auto
  obtain es2 where 2: "run_calls i cs t1 = Some (es2, t')" "es = es1 @ es2"
    using Cons.prems(1) 1 by (auto simp: apfst_def map_prod_def)
  have s: "replays i g ns t es1 t1 \<and> keys_wf t1" using call_step_replays [OF 1 Cons.prems(2,3)] Cons.prems(4) by auto
  then have "watching i g ns t1" by (simp add: replays_def)
  then have "replays i g ns t1 es2 t' \<and> keys_wf t'" using Cons.IH [OF 2(1)] s Cons.prems(4) by simp
  then show ?case using s replays_trans 2(2) by blast
qed (simp add: replays_refl)

text \<open>The trackers that calls bring about, whoever reads their watches.\<close>

lemma call_step_keys: "call_step i c t = Some (es, t') \<Longrightarrow> keys_wf t \<Longrightarrow> keys_wf t'"
proof (cases c)
  case (CallAdd g x ns replace)
  moreover assume "call_step i c t = Some (es, t')" "keys_wf t"
  ultimately show ?thesis using tracker_add_keys [of t g x ns replace]
    by (auto simp: unless_panic_def split: prod.splits result.splits)
next
  case (CallDelete g ns n)
  moreover assume c: "call_step i c t = Some (es, t')" and k: "keys_wf t"
  have "keys_wf (snd (tracker_delete g ns n t))"
    using k keys_wf_delete [OF k] keys_wf_same [OF notify_all_objects] by (simp add: tracker_delete_def split: option.split)
  then show ?thesis using c by (auto simp: CallDelete unless_panic_def split: prod.splits result.splits)
qed (auto simp: tracker_watch_def take_event_def stop_watch_def keys_wf_def split: list.splits)

lemma run_calls_keys: "run_calls i cs t = Some (es, t') \<Longrightarrow> keys_wf t \<Longrightarrow> keys_wf t'"
proof (induction cs arbitrary: t es)
  case (Cons c cs)
  then show ?case using call_step_keys by (cases "call_step i c t") fastforce+
qed simp

text \<open>
  A watch of the tracker misses nothing and invents nothing: at any moment after it began, the events its reader has
  taken followed by those still in the channel, replayed over the objects of its resource and namespace when it began,
  give exactly those objects now. The channel never holds more than 100 events.
\<close>

theorem watch_replays_store:
  assumes "run_calls j before empty_tracker = Some (old, t)" and "tracker_watch g ns t = (i, t1)"
    and "run_calls i cs t1 = Some (taken, t')" and "CallStop i \<notin> set cs"
  shows "replay (taken @ pending i t') (in_scope g ns t) = in_scope g ns t' \<and> length (pending i t') \<le> 100"
proof -
  have "keys_wf empty_tracker" by (simp add: keys_wf_def empty_tracker_def)
  from run_calls_keys [OF assms(1) this] have k: "keys_wf t" .
  have w: "watching i g ns t1" "pending i t1 = []" "in_scope g ns t1 = in_scope g ns t" "keys_wf t1"
    using assms(2) k by (auto simp: tracker_watch_def watching_def pending_def in_scope_def keys_wf_def fun_eq_iff)
  have r: "replays i g ns t1 taken t'" using run_calls_replays [OF assms(3) w(1,4) assms(4)] by simp
  then show ?thesis using w(2,3) by (auto simp: replays_def watching_def pending_def chan_size_def)
qed

theorem watch_replays_store_witness:
  "\<exists>t t1 taken t'. run_calls 0 [CallAdd (fq_gvr source_fakes) (SourceObject (named_source ''ns'' ''a'')) ''ns'' False] empty_tracker = Some ([], t) \<and>
     tracker_watch (fq_gvr source_fakes) ''ns'' t = (0, t1) \<and>
     run_calls 0 [CallAdd (fq_gvr source_fakes) (SourceObject (named_source [] ''b'')) ''ns'' False, CallTake,
       CallDelete (fq_gvr source_fakes) ''ns'' ''a''] t1 = Some (taken, t') \<and> length taken = 1 \<and>
     replay (taken @ pending 0 t') (in_scope (fq_gvr source_fakes) ''ns'' t) = in_scope (fq_gvr source_fakes) ''ns'' t'"
proof -
  define b where "b = [CallAdd (fq_gvr source_fakes) (SourceObject (named_source ''ns'' ''a'')) ''ns'' False]"
  define cs where "cs = [CallAdd (fq_gvr source_fakes) (SourceObject (named_source [] ''b'')) ''ns'' False, CallTake,
       CallDelete (fq_gvr source_fakes) ''ns'' ''a'']"
  have "case run_calls 0 b empty_tracker of None \<Rightarrow> False | Some (old, t) \<Rightarrow> old = [] \<and>
      (case tracker_watch (fq_gvr source_fakes) ''ns'' t of (i, t1) \<Rightarrow> i = 0 \<and>
        (case run_calls 0 cs t1 of None \<Rightarrow> False | Some (taken, t') \<Rightarrow> length taken = 1))"
    unfolding b_def cs_def by code_simp
  then obtain t t1 taken t' where "run_calls 0 b empty_tracker = Some ([], t)"
    "tracker_watch (fq_gvr source_fakes) ''ns'' t = (0, t1)" "run_calls 0 cs t1 = Some (taken, t')" "length taken = 1"
    by (auto split: option.splits prod.splits)
  moreover have "CallStop 0 \<notin> set cs" by (simp add: cs_def)
  ultimately show ?thesis using watch_replays_store unfolding b_def cs_def by blast
qed

end
