(* ===== verification/Spec2Isabelle.thy ===== *)
theory Spec2Isabelle
  imports SteadyState QueueDraining AdapterMain AdapterServer ClientConfig DeepCopy Informers Leadership OneAdapter Boundaries WebhookConfig Controllers FakeWatch
begin

text \<open>
  A verification library for \<^verbatim>\<open>eventing-gitlab\<close>, a controller that connects GitLab projects to Knative:
  a \<^verbatim>\<open>GitLabSource\<close> names a project and a sink, and the controller keeps a webhook in the project and
  a receive adapter that turns the calls of the webhook into CloudEvents for the sink; a \<^verbatim>\<open>GitLabBinding\<close>
  mounts an access token into the pods of a subject.

  \<^bold>\<open>How the parts interact.\<close> Informers fill the indexers behind the listers; their events and the
  promotions of a replica become keys of the work queue; a key taken from the queue becomes a run of the
  generated reconciler, which reads the object from a lister, guards it with a finalizer, calls
  \<^verbatim>\<open>ReconcileKind\<close> or \<^verbatim>\<open>FinalizeKind\<close> and writes the status through the typed client. \<^verbatim>\<open>ReconcileKind\<close> resolves the
  sink, keeps one Knative service (the receive adapter) and one hook on GitLab, whose client it builds from
  Secrets. The adapter is a process of its own: an HTTP handler and a server with a graceful shutdown.

  \<^bold>\<open>How effects are modelled.\<close> Everything the controller asks of the outside is a \<open>request\<close> of theory World; an
  environment \<open>env\<close> answers a request from the requests made before it, and an operation returns the
  history extended. A request to GitLab stands for one call of the vendored client with its retries, answered by the last
  attempt. A theorem about every \<open>env\<close> is a theorem about every behaviour of Kubernetes,
  GitLab, the sink resolver and the clock. Errors are values (\<open>goerr\<close>, with Go's error chains), a run that
  panics is the result \<open>Panic\<close>. Unbounded Go ints (identifiers, generations, instants) are \<open>int\<close>; the durations
  of the typed clients are 64-bit words, because they wrap.

  \<^bold>\<open>Theories, and the code they model\<close> (paths under \<^verbatim>\<open>src/\<close>):
  \<^item> Prelude, GoErrors, NetUrl: the functions of Go's \<^verbatim>\<open>strings\<close>, \<^verbatim>\<open>strconv\<close>, \<^verbatim>\<open>errors\<close> and \<^verbatim>\<open>net/url\<close> that the program
    calls, and the classification of Kubernetes and GitLab errors (\<^verbatim>\<open>CheckResponse\<close> of the vendored client).
  \<^item> ApiTypes, World, Conditions, FieldErrors, SourceApi: \<^verbatim>\<open>pkg/apis/sources/v1alpha1\<close> and knative's condition
    manager \<^verbatim>\<open>apis/condition_set.go\<close>, with the invariant that a condition list is sorted, has one condition per
    type and an aggregate Ready.
  \<^item> Secrets: \<^verbatim>\<open>pkg/secret/secret.go\<close>. WebhookClient, WebhookService: \<^verbatim>\<open>pkg/client/gitlab/webhook_client.go\<close>, and the
    documented behaviour of GitLab's hooks as a locale with the client's refinement of it.
  \<^item> SourceReconciler: \<^verbatim>\<open>pkg/reconciler/source/gitlabsource.go\<close>, every function. Traces: which requests it makes.
    Simulation: a concrete environment for the witnesses. OneAdapter: many reconciliations one after the other.
    Boundaries: panics, retries and the cache of the Secrets.
  \<^item> GenReconciler, GenFacts: the generated reconciler
    (\<^verbatim>\<open>pkg/client/injection/reconciler/sources/v1alpha1/gitlabsource/reconciler.go\<close>, \<^verbatim>\<open>state.go\<close>) with the
    parts of \<^verbatim>\<open>knative.dev/pkg/reconciler\<close> it calls. SourceController and SteadyState: the two put together.
  \<^item> WorkQueue: the event handlers of \<^verbatim>\<open>pkg/reconciler/source/controller.go\<close> and the processing of a key.
    KeyQueue, QueueDraining: the two-lane queue of \<^verbatim>\<open>knative.dev/pkg/controller\<close> on client-go's \<^verbatim>\<open>util/workqueue\<close>, with
    its goroutines and the workers, and that no key is lost in it. Leadership: \<^verbatim>\<open>NewImpl\<close>, the promote functions and
    \<^verbatim>\<open>LeaderAwareFuncs\<close>.
  \<^item> Adapter, AdapterServer: \<^verbatim>\<open>pkg/adapter/webhook.go\<close> and \<^verbatim>\<open>receive_adapter.go\<close>. AdapterMain: \<^verbatim>\<open>cmd/receive_adapter\<close>, from
    the environment that the controller gives the adapter's container to the client and the handler.
  \<^item> Binding: \<^verbatim>\<open>pkg/apis/bindings/v1alpha1\<close> and \<^verbatim>\<open>gitlab/client.go\<close>. BindingReconciler, BindingProperties: \<^verbatim>\<open>pkg/reconciler/binding/controller.go\<close> with knative's \<^verbatim>\<open>psbinding.BaseReconciler\<close>. Tracker: how an event of a subject reaches it (\<^verbatim>\<open>knative.dev/pkg/tracker\<close>). Controllers: the two \<^verbatim>\<open>NewController\<close>. Admission, Webhooks, WebhookConfig: the three webhooks of \<^verbatim>\<open>cmd/webhook/main.go\<close>, and the configuration that has the API server call that of the bindings.
  \<^item> RestClient, Clientset, ClientConfig: \<^verbatim>\<open>pkg/client/clientset/versioned\<close>, on a model of the REST request builder.
    FakeClient, FakeWatch: \<^verbatim>\<open>clientset/versioned/fake\<close>, the typed fakes and client-go's object tracker.
  \<^item> Heap, DeepCopy: the generated deep copies of both APIs on an explicit store of cells.
  \<^item> Listers, Informers: \<^verbatim>\<open>pkg/client/listers\<close>, \<^verbatim>\<open>pkg/client/informers/externalversions\<close> and the indexer they stand on.
    Injection: \<^verbatim>\<open>pkg/client/injection\<close>, how a main fills the context of its controllers.
  \<^item> Transitions: reachability and the locales of invariants and of progress that the step relations of
    AdapterServer, Informers, OneAdapter and KeyQueue interpret.

  \<^bold>\<open>What is shown.\<close> For a source: Ready is the aggregate of the other conditions and is True only with a resolved
  sink, a ready adapter and a hook (C1, C2); nothing is sent to GitLab too early, no hook is added twice while its
  identifier is known, the hooks are those of the specification at the URL of the source's adapter (C3 to C6);
  finalization forgets a hook only after its deletion (C7, C8); no source controls two adapters, and an adapter is never updated (C9, C10). For a run: the
  finalizer comes before every effect and goes only after the cleanup, a run writes one sound status at most five
  times, a settled source is a fixed point (C11 to C15), and the error paths (C16, C17). For a binding: the
  reconciler patches exactly the subjects it means and guards them with a finalizer, on the API server too when the
  cache agreed with it; what becomes of a failed patch; the webhook binds what the reconciler would and is called for
  every subject, whatever the order Go iterates over maps in; what the webhooks admit is usable, and a change of a subject
  wakes its binding (C18 to C24). The rest: the adapter, its server and that it answers the calls
  of the hook the controller added, the queue and leadership, clients, deep copies, listers, informers, injection and
  the fake clientset. Where the code does not do what it means to do, the theorem states what it does, and the manifest lists
  the finding.

  \<^bold>\<open>Bounds.\<close> The only fuel is that of the code itself: five attempts of a status update, each at most two requests. Every
  other loop is a structural recursion. Durations wrap at 64 bits.

  \<^bold>\<open>Parameters.\<close> The syntax check of a URL's authority, the validation of a sink or a subject, the decoding of a
  GitLab event, the sending of a CloudEvent, the assignment of a key to a bucket, the answers of the cluster and of GitLab:
  code of libraries and services, of which the theorems assume no more than the hypotheses they name.

  \<^bold>\<open>Not modelled.\<close> Logging, metrics and tracing, which return nothing to the code; the \<^verbatim>\<open>main\<close> function of
  \<^verbatim>\<open>cmd/controller\<close>, which hands one constructor to knative's \<^verbatim>\<open>sharedmain\<close>; health probes and profiling of the adapter;
  the stubs of \<^verbatim>\<open>injection/reconciler/.../stub\<close>, which are templates for a programmer; package documentation, the tests and
  \<^verbatim>\<open>hack\<close>; the JSON encodings, which are the library's. The programming of the configurations of the two
  resource webhooks and the annotations that name the user of a change are left out. Reconciliations of two replicas
  that run at the same time are not interleaved inside one reconciliation.
\<close>

section \<open>The reconciler of sources\<close>

text \<open>
  C1: after \<^verbatim>\<open>ReconcileKind\<close>, on every path, the condition list of the status satisfies its
  invariant (sorted by type, one condition per type, the severities of the condition set), and the
  Ready condition is the aggregate of SinkProvided, Deployed and WebhookConfigured: False as soon
  as one of them is False, True exactly if all of them are True, Unknown otherwise.
\<close>

theorem reconcile_ready_aggregate:
  assumes "src_conds_wf (src_status src)"
  shows "src_conds_wf (src_status (fst (snd (reconcile_kind en W img src h)))) \<and>
    ready_agrees (src_status (fst (snd (reconcile_kind en W img src h))))"
proof -
  obtain r src' h' where run: "reconcile_kind en W img src h = (r, src', h')" by (metis surj_pair)
  have "conds_are (src_status src) (src_cond (src_status src) SinkProvided)
      (src_cond (src_status src) Deployed) (src_cond (src_status src) WebhookConfigured)"
    using assms by (simp add: conds_are_def)
  from reconcile_kind_conds [OF run this] show ?thesis
    by (auto simp: run conds_are_def split: sum.splits if_splits)
qed

theorem reconcile_ready_aggregate_witness:
  "ready_agrees (src_status (fst (snd
     (reconcile_kind sim_env (gitlab_iface sim_env) ''img'' sim_source []))))"
  by (rule reconcile_ready_aggregate [THEN conjunct2])
    (simp add: sim_defs src_conds_wf_def)

text \<open>
  C2: Ready is True after \<^verbatim>\<open>ReconcileKind\<close> (without a panic) only if it returned no error, the sink
  resolved to a URI, which is now in the status, the receive adapter's service is ready, and either
  the service has no URL yet or a webhook identifier is recorded in the status.
\<close>

theorem reconcile_ready_sound:
  assumes run: "reconcile_kind en W img src h = (r, src', h')"
    and wf: "src_conds_wf (src_status src)"
    and ready: "src_cond (src_status src') condition_ready = Some CTrue"
    and ok: "\<not> is_panic r"
  shows "r = Ok () \<and>
    (\<exists>uri src2 h2 ks h3. sink_answer en src h = Inr (Some uri) \<and> st_sink_uri (src_status src') = Some uri \<and>
       sink_marked en (Some uri) src h = (src2, h2) \<and>
       reconcile_adapter en img src2 h2 = (Inr ks, h3) \<and> kservice_ready ks \<and>
       (ks_url ks = None \<or> st_webhook_id (src_status src') \<noteq> None))"
proof -
  define a b c where "a = src_cond (src_status src) SinkProvided" and
    "b = src_cond (src_status src) Deployed" and "c = src_cond (src_status src) WebhookConfigured"
  have pre: "conds_are (src_status src) a b c" using wf by (simp add: conds_are_def a_def b_def c_def)
  note facts = reconcile_kind_conds [OF run pre]
  have all: "\<And>x y z. conds_are (src_status src') x y z \<Longrightarrow> x = Some CTrue \<and> y = Some CTrue \<and> z = Some CTrue"
    using facts ready by (auto simp: ready_agrees_def aggregate_def conds_are_def split: if_splits)
  obtain uri where uri: "sink_answer en src h = Inr (Some uri)"
    using facts all by (cases "sink_answer en src h")
      (force simp: sink_status_def split: sum.splits if_splits)+
  obtain src2 h2 where m: "sink_marked en (Some uri) src h = (src2, h2)" by (metis surj_pair)
  obtain q h3 where q: "reconcile_adapter en img src2 h2 = (q, h3)" by (metis surj_pair)
  obtain ks where ks: "q = Inr ks" "kservice_ready ks"
    using facts all uri m q by (cases q) (auto split: if_splits)
  have wc: "webhook_cond (ks_url ks) r c = Some CTrue" and
    id: "ks_url ks \<noteq> None \<and> r = Ok () \<longrightarrow> st_webhook_id (src_status src') \<noteq> None"
    and u: "st_sink_uri (src_status src') = Some uri"
    using facts all uri m q ks by auto
  have "r = Ok ()"
    using facts uri m q ks wc ok by (cases "ks_url ks"; cases r) (auto simp: webhook_cond_def is_panic_def)
  with uri m q ks id u show ?thesis by auto
qed

theorem reconcile_ready_sound_witness:
  "\<exists>uri. st_sink_uri (src_status (fst (snd
     (reconcile_kind sim_env (gitlab_iface sim_env) ''img'' sim_source [])))) = Some uri"
proof -
  obtain r src' h' where run: "reconcile_kind sim_env (gitlab_iface sim_env) ''img'' sim_source []
      = (r, src', h')" by (metis surj_pair)
  have "fst (reconcile_kind sim_env (gitlab_iface sim_env) ''img'' sim_source []) = Ok ()"
    and "src_cond (src_status (fst (snd (reconcile_kind sim_env (gitlab_iface sim_env) ''img''
      sim_source [])))) condition_ready = Some CTrue"
    by code_simp+
  with reconcile_ready_sound [OF run] run show ?thesis
    by (auto simp: is_panic_def sim_defs src_conds_wf_def)
qed

text \<open>
  C3: \<^verbatim>\<open>ReconcileKind\<close> sends nothing to GitLab unless the sink resolved, the receive adapter's service
  is ready and the service has a URL.
\<close>

theorem reconcile_gitlab_gate:
  assumes "gitlab_calls (snd (snd (reconcile_kind en (gitlab_iface en) img src h))) \<noteq> gitlab_calls h"
  shows "\<exists>uri src2 h2 ks u. sink_answer en src h = Inr uri \<and> sink_marked en uri src h = (src2, h2) \<and>
    fst (reconcile_adapter en img src2 h2) = Inr ks \<and> kservice_ready ks \<and> ks_url ks = Some u"
  using assms unfolding reconcile_kind_gitlab
  by (auto split: sum.splits prod.splits if_splits)

theorem reconcile_gitlab_gate_witness:
  "\<exists>ks u. fst (case sink_marked sim_env (Some ''http://sink'') sim_source [] of
       (src2, h2) \<Rightarrow> reconcile_adapter sim_env ''img'' src2 h2) = Inr ks \<and> ks_url ks = Some u"
proof -
  have "gitlab_calls (snd (snd (reconcile_kind sim_env (gitlab_iface sim_env) ''img'' sim_source [])))
      \<noteq> gitlab_calls []"
    by code_simp
  moreover have "sink_answer sim_env sim_source [] = Inr (Some ''http://sink'')" by code_simp
  ultimately show ?thesis
    by - (drule reconcile_gitlab_gate, elim exE conjE, simp)
qed

text \<open>
  C4: while a webhook identifier \<open>i\<close> is recorded in the status, \<^verbatim>\<open>ReconcileKind\<close> only ever reads the hook
  \<open>i\<close> and, if that succeeds, edits it: it never adds a hook, whatever GitLab answers. The branch of
  \<^verbatim>\<open>syncWebhook\<close> for a hook that is gone is dead code, because the vendored client reports status 404
  as a plain error and not as an \<^verbatim>\<open>*ErrorResponse\<close>.
\<close>

theorem reconcile_never_recreates:
  assumes "st_webhook_id (src_status src) = Some i"
  shows "\<exists>qs. gitlab_calls (snd (snd (reconcile_kind en (gitlab_iface en) img src h))) = gitlab_calls h @ qs \<and>
    (qs = [] \<or> (\<exists>c p. qs = [GlGetHook c p i]) \<or> (\<exists>c p opts. qs = [GlGetHook c p i, GlEditHook c p i opts]))"
proof -
  have sync: "st_webhook_id (src_status src') = Some i \<Longrightarrow> sync_calls en src' u h' = [] \<or>
      (\<exists>c p. sync_calls en src' u h' = [GlGetHook c p i]) \<or>
      (\<exists>c p opts. sync_calls en src' u h' = [GlGetHook c p i, GlEditHook c p i opts])" for src' u h'
    by (auto simp: sync_calls_def Let_def split: result.split prod.split sum.split)
  have "st_webhook_id (src_status src3) = Some i"
    if "sink_marked en uri src h = (src2, h2)" and "deployed_marked en img src2 h2 = (src3, h3)"
    for uri src2 h2 src3 h3
    using assms sink_marked_frame(2) [OF that(1)] deployed_marked_frame(4) [OF that(2)] by simp
  then show ?thesis
    unfolding reconcile_kind_gitlab using sync by (auto split: sum.split prod.split)
qed

theorem reconcile_never_recreates_witness:
  "\<exists>c p. gitlab_calls (snd (snd (reconcile_kind sim_env (gitlab_iface sim_env) ''img''
     (sim_source_id (Some 7)) []))) = [GlGetHook c p 7]"
proof -
  let ?src = "sim_source_id (Some 7)"
  have "length (gitlab_calls (snd (snd (reconcile_kind sim_env (gitlab_iface sim_env) ''img'' ?src []))))
      = 1"
    by code_simp
  with reconcile_never_recreates [of ?src 7 sim_env "''img''" "[]"] show ?thesis by auto
qed

text \<open>
  On a GitLab that behaves as documented, a hook that was deleted there is never put back: as
  long as its identifier is recorded in the source, the synchronisation fails, records no other
  identifier and marks WebhookConfigured False.
\<close>

theorem sync_deleted_hook_fails:
  assumes doc: "gitlab_documented en view dflt"
    and cli: "get_webhook_client en src h = (Ok c, h1)"
    and id: "st_webhook_id (src_status src) = Some i"
    and gone: "project_hooks view c h i = None"
    and wf: "src_conds_wf (src_status src)"
    and run: "sync_webhook en (gitlab_iface en) src u h = (r, (st, h'))"
  shows "(\<exists>e. r = Err e) \<and> st_webhook_id st = Some i \<and>
    src_cond st WebhookConfigured = Some CFalse \<and> project_hooks view c h' i = None"
proof -
  obtain g h2 where g: "wc_get en c i h1 = (g, h2)" by (metis surj_pair)
  have frame: "project_hooks view c h1 = project_hooks view c h"
    using gl.client_frame [OF doc, of c src h] cli by simp
  have h2: "project_hooks view c h2 = project_hooks view c h"
    using gl.get_frame [OF doc, of c c i h1] g frame by simp
  obtain e where e: "g = Inl e"
    using gl.get_found [OF doc, of c i h1 _ h2] g frame gone by (cases g) auto
  then have "\<not> is_hook_not_found (Some e)" using hook_not_found_wrapped g by blast
  then obtain e' msg where r: "r = Err e'"
    and s: "src_mark en (MarkFalse WebhookConfigured ''WebhookError'' msg) (src_status src, h2) = (st, h')"
    using run cli id g e by (auto simp: sync_webhook_def Let_def mark_ops split: prod.splits)
  have "st = fst (src_mark en (MarkFalse WebhookConfigured ''WebhookError'' msg) (src_status src, h2))"
    "h' = snd (src_mark en (MarkFalse WebhookConfigured ''WebhookError'' msg) (src_status src, h2))"
    using s by (metis fst_conv, metis snd_conv)
  then show ?thesis
    using r id wf gone h2 gl.mark_frame [OF doc, of c] by (simp add: cond_simps)
qed

theorem sync_deleted_hook_fails_witness:
  "\<exists>e. fst (sync_webhook sim_env (gitlab_iface sim_env) (sim_source_id (Some 7))
     (Some sim_adapter_url) []) = Err e"
proof -
  obtain r st h' where run: "sync_webhook sim_env (gitlab_iface sim_env) (sim_source_id (Some 7))
      (Some sim_adapter_url) [] = (r, (st, h'))" by (metis surj_pair)
  have cli: "get_webhook_client sim_env (sim_source_id (Some 7)) [] =
      (Ok sim_client, [] @ [GetSecret ''ns'' ''tokens''])" by (rule sim_get_client) simp_all
  have "project_hooks sim_view sim_client [] 7 = None"
    by (simp add: project_hooks_def sim_view_def sim_store_def)
  with sync_deleted_hook_fails [OF sim_documented cli _ _ _ run, of 7] run show ?thesis by simp
qed





text \<open>
  The requests of \<^verbatim>\<open>FinalizeKind\<close> to GitLab: one deletion of the recorded hook if a hook is recorded
  and a client could be built, and nothing else; without a recorded hook it does nothing at all.
\<close>

theorem finalize_requests:
  "gitlab_calls (snd (snd (finalize_kind en (gitlab_iface en) src h))) = gitlab_calls h @
     (case (st_webhook_id (src_status src), fst (get_webhook_client en src h)) of
        (Some i, Ok c) \<Rightarrow> [GlDeleteHook (wc_cli c) (wc_project c) i]
      | _ \<Rightarrow> []) \<and>
   (st_webhook_id (src_status src) = None \<longrightarrow>
      finalize_kind en (gitlab_iface en) src h = (Ok (), src, h))"
  by (simp add: finalize_kind_gitlab) (simp add: finalize_kind_def)

theorem finalize_requests_witness:
  "finalize_kind sim_env (gitlab_iface sim_env) sim_source [] = (Ok (), sim_source, [])"
  using finalize_requests [of sim_env sim_source "[]"] by (simp add: sim_source_def sim_status_def)

text \<open>
  C7: the outcome of \<^verbatim>\<open>FinalizeKind\<close> for a source with a recorded hook. Missing credentials never block
  the deletion of a source: the error is recorded as a warning event and the hook stays. Otherwise
  the finalizer succeeds, and forgets the identifier, exactly when the deletion of the hook
  succeeds; a failed deletion, 404 included, is an error that leaves the source as it was.
\<close>

theorem finalize_outcome:
  assumes id: "st_webhook_id (src_status src) = Some i"
    and cli: "get_webhook_client en src h = (q, h1)"
  shows "case q of
      Ok c \<Rightarrow>
        (case wc_delete en c i h1 of
           (None, h2) \<Rightarrow> finalize_kind en (gitlab_iface en) src h =
             (Ok (), src\<lparr>src_status := (src_status src)\<lparr>st_webhook_id := None\<rparr>\<rparr>, h2)
         | (Some e, h2) \<Rightarrow> finalize_kind en (gitlab_iface en) src h = (Err e, src, h2))
    | Err e \<Rightarrow>
        (if is_not_found (Some e) \<or> is_denied (Some e)
         then \<exists>msg. finalize_kind en (gitlab_iface en) src h =
             (Ok (), src, h1 @ [RecordEvent ''Warning'' ''FailedWebhookDelete'' msg])
         else \<exists>msg. finalize_kind en (gitlab_iface en) src h =
             (Err (EventErr ''Warning'' ''ClientError'' msg), src, h1))
    | Panic m \<Rightarrow> finalize_kind en (gitlab_iface en) src h = (Panic m, src, h1)"
  using assms
  by (auto simp: finalize_kind_def is_secret_not_found_def record_event_def new_event_def
      split: result.splits prod.splits option.splits)

theorem finalize_outcome_witness:
  "\<exists>e h'. finalize_kind sim_env (gitlab_iface sim_env) (sim_source_id (Some 7)) [] =
     (Err e, sim_source_id (Some 7), h')"
proof -
  let ?h = "[GetSecret ''ns'' ''tokens'']"
  have cli: "get_webhook_client sim_env (sim_source_id (Some 7)) [] = (Ok sim_client, [] @ ?h)"
    by (rule sim_get_client) simp_all
  have "fst (wc_delete sim_env sim_client 7 ?h) \<noteq> None" by code_simp
  then obtain e h' where "wc_delete sim_env sim_client 7 ?h = (Some e, h')"
    by (cases "wc_delete sim_env sim_client 7 ?h") auto
  with finalize_outcome [OF _ cli, of 7] show ?thesis by simp
qed

text \<open>
  C8: on a GitLab that behaves as documented, once \<^verbatim>\<open>FinalizeKind\<close> has succeeded and no identifier is
  recorded any more, the hook that was recorded no longer exists and every other hook of the
  project is as it was.
\<close>

theorem finalize_removes_hook:
  assumes doc: "gitlab_documented en view dflt"
    and run: "finalize_kind en (gitlab_iface en) src h = (Ok (), src', h')"
    and old: "st_webhook_id (src_status src) = Some i"
    and gone: "st_webhook_id (src_status src') = None"
  shows "\<exists>c. client_of en src c \<and> project_hooks view c h' = (project_hooks view c h)(i := None)"
  using gl.finalize_kind_deleted [OF doc run old gone] by (auto simp: client_of_def)

theorem finalize_removes_hook_witness:
  "project_hooks sim_view sim_client
     (snd (snd (finalize_kind sim_env (gitlab_iface sim_env) (sim_source_id (Some 1)) sim_history))) 1 = None"
proof -
  let ?run = "finalize_kind sim_env (gitlab_iface sim_env) (sim_source_id (Some 1)) sim_history"
  obtain r src' h' where run: "?run = (r, src', h')" by (metis surj_pair)
  have "fst ?run = Ok ()" "st_webhook_id (src_status (fst (snd ?run))) = None" by code_simp+
  with run have "?run = (Ok (), src', h')" "st_webhook_id (src_status src') = None" by simp_all
  from finalize_removes_hook [OF sim_documented this(1) _ this(2)] obtain c
    where "client_of sim_env (sim_source_id (Some 1)) c" "project_hooks sim_view c h' 1 = None"
    by auto
  moreover from this(1) have "c = sim_client" by (auto simp: client_of_def sim_get_client)
  ultimately show ?thesis using run by simp
qed

end
